(* ===== verification/Campus_Prelude.thy ===== *)
theory Campus_Prelude
  imports "HOL-Library.Word" "HOL-Library.Sublist"
begin

text \<open>
  Shared vocabulary of the development: the machine integers of the Rust code, the clock,
  the pieces of \<open>core::str\<close> and \<open>core::num\<close> the components call, the result type of
  fallible operations, and the lemma collections the component theories extend.

  A Rust \<open>String\<close> is the list of its UTF-8 bytes (HOL's \<^typ>\<open>string\<close>), so
  \<open>length\<close> is \<open>str::len\<close>. A \<open>tokio::time::Instant\<close> and a \<open>Duration\<close> are natural
  numbers of nanoseconds; a \<open>chrono::DateTime<Local>\<close> is a reading of the wall clock.
\<close>

unbundle bit_operations_syntax

section \<open>Lemma collections\<close>

named_theorems rust_str \<comment> \<open>unfolding rules of the string and number primitives\<close>
named_theorems frame_simps \<comment> \<open>which fields an operation leaves alone\<close>

section \<open>Machine integers\<close>

type_synonym u8 = "8 word"
type_synonym u16 = "16 word"
type_synonym u32 = "32 word"
type_synonym u64 = "64 word"

text \<open>Rust's \<open>saturating_add\<close> and \<open>saturating_sub\<close> on unsigned integers.\<close>

definition sat_add :: "'a::len word \<Rightarrow> 'a word \<Rightarrow> 'a word" where
  "sat_add a b = (if unat a + unat b < 2 ^ LENGTH('a) then a + b else - 1)"

definition sat_sub :: "'a::len word \<Rightarrow> 'a word \<Rightarrow> 'a word" where
  "sat_sub a b = (if b \<le> a then a - b else 0)"

lemma unat_sat_add:
  "unat (sat_add (a :: 'a::len word) b) = min (unat a + unat b) (2 ^ LENGTH('a) - 1)"
proof (cases "unat a + unat b < 2 ^ LENGTH('a)")
  case True
  then have "unat (a + b) = unat a + unat b" by (rule unat_add_lem [THEN iffD1])
  with True show ?thesis by (simp add: sat_add_def)
next
  case False
  then show ?thesis by (simp add: sat_add_def unsigned_minus_1_eq_mask mask_eq_exp_minus_1)
qed

lemma sat_add_mono: "(a :: 'a::len word) \<le> sat_add a b"
proof -
  have "unat a < 2 ^ LENGTH('a)" by (rule unsigned_less)
  then have "unat a \<le> 2 ^ LENGTH('a) - 1" by linarith
  then show ?thesis by (simp add: word_le_nat_alt unat_sat_add)
qed

lemma unat_sat_sub: "unat (sat_sub a b) = unat a - unat b"
  by (simp add: sat_sub_def unat_sub word_le_nat_alt)

section \<open>Time\<close>

type_synonym instant = nat
type_synonym duration = nat

definition NANOS :: nat where
  "NANOS = 1000000000"

definition from_secs :: "nat \<Rightarrow> duration" where
  "from_secs s = s * NANOS"

definition as_secs :: "duration \<Rightarrow> nat" where
  "as_secs d = d div NANOS"

lemma NANOS_pos [simp]: "0 < NANOS"
  by (simp add: NANOS_def)

lemma as_secs_from_secs [simp]: "as_secs (from_secs s) = s"
  by (simp add: as_secs_def from_secs_def NANOS_def)

lemma from_secs_le_iff [simp]: "from_secs a \<le> from_secs b \<longleftrightarrow> a \<le> b"
  by (simp add: from_secs_def)

lemma from_secs_less_iff [simp]: "from_secs a < from_secs b \<longleftrightarrow> a < b"
  by (simp add: from_secs_def)

text \<open>
  \<open>Local::now()\<close>: an absolute stamp in nanoseconds and the local hour and minute. The
  calendar belongs to the \<open>chrono\<close> crate; the code only reads these two fields and the
  difference of two stamps.
\<close>

record wall =
  w_stamp :: int
  w_hour :: nat
  w_minute :: nat

section \<open>Results\<close>

definition bind_res :: "'e + 'a \<Rightarrow> ('a \<Rightarrow> 'e + 'b) \<Rightarrow> 'e + 'b" where
  "bind_res r f = (case r of Inl e \<Rightarrow> Inl e | Inr x \<Rightarrow> f x)"

lemma bind_res_simps [simp]:
  "bind_res (Inl e) f = Inl e"
  "bind_res (Inr x) f = f x"
  by (simp_all add: bind_res_def)

lemma bind_res_Inr_iff: "bind_res r f = Inr y \<longleftrightarrow> (\<exists>x. r = Inr x \<and> f x = Inr y)"
  by (cases r) auto

section \<open>Machines\<close>

text \<open>
  A component driven by a sequence of inputs. Its invariant holds at the start and is kept by
  every step; then it holds after every sequence of inputs.
\<close>

locale machine =
  fixes step :: "'e \<Rightarrow> 's \<Rightarrow> 's"
    and init :: 's
    and inv :: "'s \<Rightarrow> bool"
  assumes inv_init: "inv init"
    and inv_step: "inv s \<Longrightarrow> inv (step e s)"
begin

lemma inv_run_from: "inv s \<Longrightarrow> inv (fold step es s)"
  by (induction es arbitrary: s) (simp_all add: inv_step)

lemma inv_run: "inv (fold step es init)"
  by (rule inv_run_from [OF inv_init])

end

text \<open>A machine with a counter that every step moves up by one, saturating at the top.\<close>

locale versioned_machine =
  fixes step :: "'e \<Rightarrow> 's \<Rightarrow> 's"
    and version :: "'s \<Rightarrow> u64"
  assumes version_step: "version (step e s) = sat_add (version s) 1"
begin

lemma version_run: "unat (version (fold step es s)) = min (unat (version s) + length es) (2 ^ 64 - 1)"
proof (induction es arbitrary: s)
  case Nil
  have "unat (version s) < 2 ^ 64" using unsigned_less [of "version s"] by simp
  then show ?case by simp
next
  case (Cons e es)
  then show ?case by (simp add: version_step unat_sat_add)
qed

lemma version_mono: "version s \<le> version (fold step es s)"
proof -
  have "unat (version s) < 2 ^ 64" using unsigned_less [of "version s"] by simp
  then show ?thesis by (simp add: word_le_nat_alt version_run)
qed

end

text \<open>A component that takes one of several steps at a time, chosen by its surroundings.\<close>

locale transition_system =
  fixes init :: "'s \<Rightarrow> bool"
    and trans :: "'s \<Rightarrow> 's \<Rightarrow> bool"
    and inv :: "'s \<Rightarrow> bool"
  assumes inv_start: "init s \<Longrightarrow> inv s"
    and inv_trans: "inv s \<Longrightarrow> trans s s' \<Longrightarrow> inv s'"
begin

lemma inv_from: "rtranclp trans s s' \<Longrightarrow> inv s \<Longrightarrow> inv s'"
  by (induction rule: rtranclp_induct) (auto intro: inv_trans)

lemma inv_reachable: "init s \<Longrightarrow> rtranclp trans s s' \<Longrightarrow> inv s'"
  by (rule inv_from [OF _ inv_start])

end

text \<open>
  A loop that runs rounds until one says to stop. The rank of the state falls with every round
  that goes on, so it stops, and what every last round leaves holds at the end.
\<close>

locale round_loop =
  fixes round :: "'s \<Rightarrow> bool \<times> 's"
    and run :: "'s \<Rightarrow> 's"
    and inv :: "'s \<Rightarrow> bool"
    and rank :: "'s \<Rightarrow> nat"
    and post :: "'s \<Rightarrow> bool"
  assumes run_unfold: "run s = (case round s of (go, s') \<Rightarrow> if go then run s' else s')"
    and round_on: "inv s \<Longrightarrow> round s = (True, s') \<Longrightarrow> inv s' \<and> rank s' < rank s"
    and round_end: "inv s \<Longrightarrow> round s = (False, s') \<Longrightarrow> post s'"
begin

lemma run_post: "inv s \<Longrightarrow> post (run s)"
proof (induction "rank s" arbitrary: s rule: less_induct)
  case less
  obtain go s' where r: "round s = (go, s')" by (cases "round s")
  show ?case
  proof (cases go)
    case True
    with round_on [OF less.prems] r have "inv s'" "rank s' < rank s" by auto
    then have "post (run s')" using less.hyps by blast
    with r True show ?thesis by (simp add: run_unfold [of s])
  next
    case False
    with round_end [OF less.prems] r show ?thesis by (simp add: run_unfold [of s])
  qed
qed

lemma run_rounds: "inv s \<Longrightarrow> \<exists>n\<le>rank s. \<not> fst (round (((snd \<circ> round) ^^ n) s)) \<and> run s = snd (round (((snd \<circ> round) ^^ n) s))"
proof (induction "rank s" arbitrary: s rule: less_induct)
  case less
  obtain go s' where r: "round s = (go, s')" by (cases "round s")
  show ?case
  proof (cases go)
    case True
    with round_on [OF less.prems] r have i: "inv s'" "rank s' < rank s" by auto
    from less.hyps [OF i(2,1)] obtain n where n: "n \<le> rank s'"
      "\<not> fst (round (((snd \<circ> round) ^^ n) s'))" "run s' = snd (round (((snd \<circ> round) ^^ n) s'))" by blast
    have "((snd \<circ> round) ^^ Suc n) s = ((snd \<circ> round) ^^ n) s'" by (simp only: funpow_Suc_right o_apply r snd_conv)
    moreover have "run s = run s'" using r True by (simp add: run_unfold [of s])
    ultimately show ?thesis using n i(2) by (metis Suc_leI le_trans not_less_eq_eq order.strict_trans1)
  next
    case False
    then show ?thesis using r by (intro exI [of _ 0]) (simp add: run_unfold [of s])
  qed
qed

end

end
