(* ===== verification/Rust_Str.thy ===== *)
theory Rust_Str
  imports Campus_Prelude
begin

text \<open>
  The string and number primitives of the Rust standard library that the components use,
  on UTF-8 byte lists: splitting at a delimiter, trimming Unicode white space, substring
  search, ASCII case folding, decimal parsing of unsigned integers and the lossy UTF-8
  decoder.
\<close>

section \<open>Splitting\<close>

text \<open>\<open>str::split_once\<close> and \<open>str::rsplit_once\<close> with a one-byte delimiter.\<close>

fun split_once :: "char \<Rightarrow> string \<Rightarrow> (string \<times> string) option" where
  "split_once c [] = None"
| "split_once c (x # xs) =
     (if x = c then Some ([], xs)
      else map_option (\<lambda>(a, b). (x # a, b)) (split_once c xs))"

definition rsplit_once :: "char \<Rightarrow> string \<Rightarrow> (string \<times> string) option" where
  "rsplit_once c s = map_option (\<lambda>(a, b). (rev b, rev a)) (split_once c (rev s))"

lemma split_once_None [simp]: "split_once c s = None \<longleftrightarrow> c \<notin> set s"
  by (induction s) auto

lemma split_once_Some: "split_once c s = Some (a, b) \<longleftrightarrow> s = a @ c # b \<and> c \<notin> set a"
proof (induction s arbitrary: a)
  case Nil
  then show ?case by simp
next
  case (Cons x xs)
  then show ?case by (cases a) auto
qed

lemma split_once_append [simp]: "c \<notin> set a \<Longrightarrow> split_once c (a @ c # b) = Some (a, b)"
  by (simp add: split_once_Some)

lemma rsplit_once_None [simp]: "rsplit_once c s = None \<longleftrightarrow> c \<notin> set s"
  by (simp add: rsplit_once_def)

lemma rsplit_once_Some: "rsplit_once c s = Some (a, b) \<longleftrightarrow> s = a @ c # b \<and> c \<notin> set b"
proof -
  have "rsplit_once c s = Some (a, b) \<longleftrightarrow> split_once c (rev s) = Some (rev b, rev a)"
    by (auto simp: rsplit_once_def)
  also have "\<dots> \<longleftrightarrow> rev s = rev b @ c # rev a \<and> c \<notin> set b"
    by (simp add: split_once_Some)
  also have "\<dots> \<longleftrightarrow> rev (rev s) = rev (rev b @ c # rev a) \<and> c \<notin> set b"
    by (metis rev_rev_ident)
  finally show ?thesis by simp
qed

lemma rsplit_once_append [simp]: "c \<notin> set b \<Longrightarrow> rsplit_once c (a @ c # b) = Some (a, b)"
  by (simp add: rsplit_once_Some)

text \<open>\<open>s.matches(c).count()\<close>.\<close>

definition count_char :: "char \<Rightarrow> string \<Rightarrow> nat" where
  "count_char c s = count_list s c"

text \<open>\<open>s.starts_with(p)\<close>, \<open>s.strip_prefix(p)\<close> and \<open>s.contains(p)\<close> for a string pattern.\<close>

fun starts_with :: "string \<Rightarrow> string \<Rightarrow> bool" where
  "starts_with s [] = True"
| "starts_with [] (p # ps) = False"
| "starts_with (x # xs) (p # ps) = (x = p \<and> starts_with xs ps)"

definition strip_prefix :: "string \<Rightarrow> string \<Rightarrow> string option" where
  "strip_prefix s p = (if starts_with s p then Some (drop (length p) s) else None)"

fun str_contains :: "string \<Rightarrow> string \<Rightarrow> bool" where
  "str_contains s p = (starts_with s p \<or> (case s of [] \<Rightarrow> False | x # xs \<Rightarrow> str_contains xs p))"

declare str_contains.simps [simp del]

lemma str_contains_code [code]:
  "str_contains [] p = starts_with [] p"
  "str_contains (x # xs) p = (starts_with (x # xs) p \<or> str_contains xs p)"
  by (subst str_contains.simps, simp)+

lemma starts_with_iff: "starts_with s p \<longleftrightarrow> (\<exists>t. s = p @ t)"
  by (induction s p rule: starts_with.induct) auto

lemma starts_with_append [simp]: "starts_with (p @ t) p"
  by (auto simp: starts_with_iff)

lemma strip_prefix_Some: "strip_prefix s p = Some t \<longleftrightarrow> s = p @ t"
  by (auto simp: strip_prefix_def starts_with_iff)

lemma str_contains_iff: "str_contains s p \<longleftrightarrow> (\<exists>a b. s = a @ p @ b)"
proof (induction s)
  case Nil
  then show ?case by (simp add: str_contains.simps starts_with_iff)
next
  case (Cons x xs)
  have "str_contains (x # xs) p \<longleftrightarrow> (\<exists>t. x # xs = p @ t) \<or> (\<exists>a b. xs = a @ p @ b)"
    by (subst str_contains.simps) (simp add: starts_with_iff Cons)
  also have "\<dots> \<longleftrightarrow> (\<exists>a b. x # xs = a @ p @ b)"
  proof
    assume "(\<exists>t. x # xs = p @ t) \<or> (\<exists>a b. xs = a @ p @ b)"
    then show "\<exists>a b. x # xs = a @ p @ b"
    proof
      assume "\<exists>t. x # xs = p @ t"
      then obtain t where "x # xs = [] @ p @ t" by auto
      then show ?thesis by blast
    next
      assume "\<exists>a b. xs = a @ p @ b"
      then obtain a b where "x # xs = (x # a) @ p @ b" by auto
      then show ?thesis by blast
    qed
  next
    assume "\<exists>a b. x # xs = a @ p @ b"
    then obtain a b where "x # xs = a @ p @ b" by blast
    then show "(\<exists>t. x # xs = p @ t) \<or> (\<exists>a b. xs = a @ p @ b)" by (cases a) auto
  qed
  finally show ?case .
qed

text \<open>\<open>split_once\<close> with a string delimiter.\<close>

fun split_once_str :: "string \<Rightarrow> string \<Rightarrow> (string \<times> string) option" where
  "split_once_str d [] = (if d = [] then Some ([], []) else None)"
| "split_once_str d (x # xs) =
     (if starts_with (x # xs) d then Some ([], drop (length d) (x # xs))
      else map_option (\<lambda>(a, b). (x # a, b)) (split_once_str d xs))"

lemma split_once_str_None: "split_once_str d s = None \<longleftrightarrow> \<not> str_contains s d"
proof (induction s)
  case Nil
  then show ?case by (cases d) (simp_all add: str_contains.simps)
next
  case (Cons x xs)
  then show ?case by (subst str_contains.simps) simp
qed

section \<open>White space and case\<close>

text \<open>
  The UTF-8 encodings of the code points with the Unicode property White_Space, which
  \<open>str::trim\<close> removes at both ends.
\<close>

definition bytes :: "nat list \<Rightarrow> string" where
  "bytes ns = map char_of ns"

definition ws_seqs :: "string list" where
  "ws_seqs = map bytes
     ([[9], [10], [11], [12], [13], [32], [194, 133], [194, 160], [225, 154, 128]]
      @ map (\<lambda>k. [226, 128, k]) [128, 129, 130, 131, 132, 133, 134, 135, 136, 137, 138, 168, 169, 175]
      @ [[226, 129, 159], [227, 128, 128]])"

definition strip_one :: "string list \<Rightarrow> string \<Rightarrow> string option" where
  "strip_one ws s = map_option (\<lambda>w. drop (length w) s) (find (starts_with s) ws)"

fun strip_all :: "nat \<Rightarrow> string list \<Rightarrow> string \<Rightarrow> string" where
  "strip_all 0 ws s = s"
| "strip_all (Suc n) ws s = (case strip_one ws s of None \<Rightarrow> s | Some t \<Rightarrow> strip_all n ws t)"

text \<open>Every removal shortens the string, so \<open>length s\<close> rounds reach the fixed point.\<close>

definition trim_start :: "string \<Rightarrow> string" where
  "trim_start s = strip_all (length s) ws_seqs s"

definition trim_end :: "string \<Rightarrow> string" where
  "trim_end s = rev (strip_all (length s) (map rev ws_seqs) (rev s))"

definition trim :: "string \<Rightarrow> string" where
  "trim s = trim_end (trim_start s)"

lemma strip_one_length:
  "\<forall>w\<in>set ws. w \<noteq> [] \<Longrightarrow> strip_one ws s = Some t \<Longrightarrow> length t < length s"
proof -
  assume ne: "\<forall>w\<in>set ws. w \<noteq> []" and "strip_one ws s = Some t"
  then obtain w where f: "find (starts_with s) ws = Some w" and t: "t = drop (length w) s"
    by (auto simp: strip_one_def)
  from f have "w \<in> set ws" and "starts_with s w"
    by (auto simp: find_Some_iff)
  with ne have "w \<noteq> []" and "length w \<le> length s"
    by (auto simp: starts_with_iff)
  with t show ?thesis by (cases w) auto
qed

lemma strip_all_fixed:
  assumes "\<forall>w\<in>set ws. w \<noteq> []" and "length s \<le> n"
  shows "strip_one ws (strip_all n ws s) = None"
  using assms(2)
proof (induction n arbitrary: s)
  case 0
  then have "s = []" by simp
  moreover have "strip_one ws [] = None"
  proof (rule ccontr)
    assume "strip_one ws [] \<noteq> None"
    then obtain t where "strip_one ws [] = Some t" by auto
    with assms(1) have "length t < length ([] :: string)" by (rule strip_one_length)
    then show False by simp
  qed
  ultimately show ?case by simp
next
  case (Suc n)
  show ?case
  proof (cases "strip_one ws s")
    case None
    then show ?thesis by simp
  next
    case (Some t)
    with assms(1) have "length t < length s" by (rule strip_one_length)
    with Suc.prems have "length t \<le> n" by simp
    with Suc.IH Some show ?thesis by simp
  qed
qed

lemma ws_seqs_nonempty: "\<forall>w\<in>set ws_seqs. w \<noteq> []"
  by (simp add: ws_seqs_def bytes_def)

lemma trim_start_done: "strip_one ws_seqs (trim_start s) = None"
  unfolding trim_start_def by (rule strip_all_fixed [OF ws_seqs_nonempty]) simp

lemma trim_start_idem: "trim_start (trim_start s) = trim_start s"
proof -
  have "strip_all n ws_seqs (trim_start s) = trim_start s" for n
    by (cases n) (simp_all add: trim_start_done)
  then show ?thesis by (metis trim_start_def)
qed

lemma trim_Nil [simp]: "trim [] = []"
  by (simp add: trim_def trim_start_def trim_end_def)

text \<open>A text that starts and ends with visible ASCII characters is its own \<open>trim\<close>.\<close>

definition graphic :: "char \<Rightarrow> bool" where
  "graphic c \<longleftrightarrow> 33 \<le> (of_char c :: nat) \<and> (of_char c :: nat) \<le> 126"

lemma ws_not_graphic: "w \<in> set ws_seqs \<Longrightarrow> \<not> graphic (hd w) \<and> \<not> graphic (last w)"
proof -
  have "list_all (\<lambda>w. \<not> graphic (hd w) \<and> \<not> graphic (last w)) ws_seqs"
    by (simp add: ws_seqs_def bytes_def graphic_def of_char_of)
  then show "w \<in> set ws_seqs \<Longrightarrow> \<not> graphic (hd w) \<and> \<not> graphic (last w)" by (simp add: list_all_iff)
qed

lemma strip_graphic:
  assumes "s \<noteq> []" and "graphic (hd s)" and "\<forall>w\<in>set ws. w \<noteq> [] \<and> \<not> graphic (hd w)"
  shows "strip_all n ws s = s"
proof -
  have "\<not> starts_with s w" if "w \<in> set ws" for w
    using assms that by (auto simp: starts_with_iff)
  then have "find (starts_with s) ws = None" by (auto simp: find_None_iff)
  then show ?thesis by (cases n) (simp_all add: strip_one_def)
qed

lemma trim_graphic: "s \<noteq> [] \<Longrightarrow> graphic (hd s) \<Longrightarrow> graphic (last s) \<Longrightarrow> trim s = s"
  using strip_graphic [of s ws_seqs] strip_graphic [of "rev s" "map rev ws_seqs"] ws_not_graphic ws_seqs_nonempty
  by (auto simp: trim_def trim_start_def trim_end_def hd_rev)

definition ascii_lower :: "char \<Rightarrow> char" where
  "ascii_lower c = (if 65 \<le> (of_char c :: nat) \<and> (of_char c :: nat) \<le> 90
                    then char_of ((of_char c :: nat) + 32) else c)"

definition ascii_upper :: "char \<Rightarrow> char" where
  "ascii_upper c = (if 97 \<le> (of_char c :: nat) \<and> (of_char c :: nat) \<le> 122
                    then char_of ((of_char c :: nat) - 32) else c)"

definition to_ascii_uppercase :: "string \<Rightarrow> string" where
  "to_ascii_uppercase s = map ascii_upper s"

definition is_ascii_alphanumeric :: "char \<Rightarrow> bool" where
  "is_ascii_alphanumeric c \<longleftrightarrow> (let n = (of_char c :: nat)
     in 48 \<le> n \<and> n \<le> 57 \<or> 65 \<le> n \<and> n \<le> 90 \<or> 97 \<le> n \<and> n \<le> 122)"

definition to_ascii_lowercase :: "string \<Rightarrow> string" where
  "to_ascii_lowercase s = map ascii_lower s"

definition eq_ignore_ascii_case :: "string \<Rightarrow> string \<Rightarrow> bool" where
  "eq_ignore_ascii_case a b \<longleftrightarrow> to_ascii_lowercase a = to_ascii_lowercase b"

text \<open>\<open>s.trim_matches(f)\<close> for a predicate on (one-byte) characters.\<close>

definition trim_matches :: "(char \<Rightarrow> bool) \<Rightarrow> string \<Rightarrow> string" where
  "trim_matches f s = rev (dropWhile f (rev (dropWhile f s)))"

section \<open>Decimal numbers\<close>

definition is_ascii_digit :: "char \<Rightarrow> bool" where
  "is_ascii_digit c \<longleftrightarrow> 48 \<le> (of_char c :: nat) \<and> (of_char c :: nat) \<le> 57"

definition digit_val :: "char \<Rightarrow> nat" where
  "digit_val c = of_char c - 48"

definition digits_val :: "string \<Rightarrow> nat" where
  "digits_val s = foldl (\<lambda>n c. 10 * n + digit_val c) 0 s"

text \<open>
  \<open>s.parse::<uN>()\<close>: one optional plus sign, at least one digit, nothing else, and a
  value that fits the width (\<open>None\<close> is the \<open>ParseIntError\<close>).
\<close>

definition parse_uint :: "nat \<Rightarrow> string \<Rightarrow> nat option" where
  "parse_uint w s =
     (let ds = (case s of c # cs \<Rightarrow> if c = CHR ''+'' then cs else s | [] \<Rightarrow> [])
      in if ds \<noteq> [] \<and> list_all is_ascii_digit ds \<and> digits_val ds < 2 ^ w
         then Some (digits_val ds) else None)"

abbreviation "parse_u16 \<equiv> parse_uint 16"
abbreviation "parse_u32 \<equiv> parse_uint 32"
abbreviation "parse_u64 \<equiv> parse_uint 64"

lemma parse_uint_bound: "parse_uint w s = Some n \<Longrightarrow> n < 2 ^ w"
  by (auto simp: parse_uint_def Let_def split: if_splits)

text \<open>\<open>n.to_string()\<close>.\<close>

fun show_nat :: "nat \<Rightarrow> string" where
  "show_nat n = (if n < 10 then [char_of (48 + n)] else show_nat (n div 10) @ [char_of (48 + n mod 10)])"

declare show_nat.simps [simp del]

lemma digits_val_snoc: "digits_val (s @ [c]) = 10 * digits_val s + digit_val c"
  by (simp add: digits_val_def)

lemma digit_char: "d < 10 \<Longrightarrow> is_ascii_digit (char_of (48 + d)) \<and> digit_val (char_of (48 + d)) = d"
  by (simp add: is_ascii_digit_def digit_val_def of_char_of)

lemma show_nat_digits: "list_all is_ascii_digit (show_nat n) \<and> show_nat n \<noteq> [] \<and> digits_val (show_nat n) = n"
proof (induction n rule: show_nat.induct)
  case (1 n)
  show ?case
  proof (cases "n < 10")
    case True
    then show ?thesis
      using digit_char [of n] by (subst (1 2 3) show_nat.simps) (simp add: digits_val_def)
  next
    case False
    with 1 have "list_all is_ascii_digit (show_nat (n div 10))"
      and "digits_val (show_nat (n div 10)) = n div 10" by auto
    with False show ?thesis
      using digit_char [of "n mod 10"]
      by (subst (1 2 3) show_nat.simps) (simp add: digits_val_snoc)
  qed
qed

lemma show_nat_digit: "c \<in> set (show_nat n) \<Longrightarrow> is_ascii_digit c"
  using show_nat_digits [of n] by (simp add: list_all_iff)

lemma show_nat_free: "\<not> is_ascii_digit c \<Longrightarrow> c \<notin> set (show_nat n)"
  using show_nat_digit by blast

lemma parse_show_nat: "n < 2 ^ w \<Longrightarrow> parse_uint w (show_nat n) = Some n"
proof -
  assume n: "n < 2 ^ w"
  have d: "list_all is_ascii_digit (show_nat n)" "show_nat n \<noteq> []" "digits_val (show_nat n) = n"
    using show_nat_digits [of n] by auto
  then obtain c cs where s: "show_nat n = c # cs" by (cases "show_nat n") auto
  with d(1) have "c \<noteq> CHR ''+''" by (auto simp: is_ascii_digit_def)
  with d s n show ?thesis by (simp add: parse_uint_def)
qed

section \<open>Lossy UTF-8 decoding\<close>

text \<open>
  \<open>String::from_utf8_lossy\<close>: valid sequences are kept, every maximal invalid subpart becomes
  U+FFFD (the bytes EF BF BD). \<open>utf8_step\<close> looks at the front of the input: how many bytes it
  consumes and whether they are valid. The second byte's range depends on the first, as in
  the Unicode table of well-formed sequences.
\<close>

abbreviation byte :: "char \<Rightarrow> nat" where
  "byte c \<equiv> of_char c"

definition cont_byte :: "char \<Rightarrow> bool" where
  "cont_byte c \<longleftrightarrow> 128 \<le> byte c \<and> byte c \<le> 191"

definition second_ok :: "char \<Rightarrow> char \<Rightarrow> bool" where
  "second_ok b c \<longleftrightarrow>
     (if byte b = 224 then 160 \<le> byte c \<and> byte c \<le> 191
      else if byte b = 237 then 128 \<le> byte c \<and> byte c \<le> 159
      else if byte b = 240 then 144 \<le> byte c \<and> byte c \<le> 191
      else if byte b = 244 then 128 \<le> byte c \<and> byte c \<le> 143
      else cont_byte c)"

definition utf8_width :: "char \<Rightarrow> nat" where
  "utf8_width b =
     (if byte b < 128 then 1 else if 194 \<le> byte b \<and> byte b \<le> 223 then 2
      else if 224 \<le> byte b \<and> byte b \<le> 239 then 3
      else if 240 \<le> byte b \<and> byte b \<le> 244 then 4 else 0)"

definition utf8_step :: "char \<Rightarrow> string \<Rightarrow> nat \<times> bool" where
  "utf8_step b rest =
     (let w = utf8_width b in
      if w = 1 then (1, True)
      else if w = 0 then (1, False)
      else (case rest of
          [] \<Rightarrow> (1, False)
        | c1 # r1 \<Rightarrow>
            if \<not> second_ok b c1 then (1, False)
            else if w = 2 then (2, True)
            else (case r1 of
                [] \<Rightarrow> (2, False)
              | c2 # r2 \<Rightarrow>
                  if \<not> cont_byte c2 then (2, False)
                  else if w = 3 then (3, True)
                  else (case r2 of
                      [] \<Rightarrow> (3, False)
                    | c3 # r3 \<Rightarrow> if cont_byte c3 then (4, True) else (3, False)))))"

function from_utf8_lossy :: "string \<Rightarrow> string" where
  "from_utf8_lossy [] = []"
| "from_utf8_lossy (b # rest) =
     (let (n, ok) = utf8_step b rest
      in (if ok then take n (b # rest) else bytes [239, 191, 189])
         @ from_utf8_lossy (drop (n - 1) rest))"
  by pat_completeness auto
termination
  by (relation "measure length") auto

definition is_ascii :: "string \<Rightarrow> bool" where
  "is_ascii s \<longleftrightarrow> list_all (\<lambda>c. byte c < 128) s"

lemma from_utf8_lossy_ascii: "is_ascii s \<Longrightarrow> from_utf8_lossy s = s"
  by (induction s) (auto simp: is_ascii_def utf8_step_def utf8_width_def)

section \<open>Splitting and joining\<close>

fun split_on :: "char \<Rightarrow> string \<Rightarrow> string list" where
  "split_on d [] = [[]]"
| "split_on d (c # cs) =
     (case split_on d cs of
        w # ws \<Rightarrow> if c = d then [] # w # ws else (c # w) # ws
      | [] \<Rightarrow> [[]])"

text \<open>\<open>split_whitespace\<close>, with the word read so far.\<close>

fun words_from :: "nat \<Rightarrow> string \<Rightarrow> string \<Rightarrow> string list" where
  "words_from 0 w s = []"
| "words_from (Suc n) w s =
     (case s of
        [] \<Rightarrow> if w = [] then [] else [rev w]
      | c # cs \<Rightarrow>
          (case strip_one ws_seqs s of
             Some rest \<Rightarrow> if w = [] then words_from n [] rest else rev w # words_from n [] rest
           | None \<Rightarrow> words_from n (c # w) cs))"

definition split_whitespace :: "string \<Rightarrow> string list" where
  "split_whitespace s = words_from (Suc (length s)) [] s"

fun str_join :: "string \<Rightarrow> string list \<Rightarrow> string" where
  "str_join sep [] = []"
| "str_join sep [s] = s"
| "str_join sep (s # ss) = s @ sep @ str_join sep ss"

text \<open>A text of visible ASCII characters is one word.\<close>

lemma words_graphic:
  "list_all graphic s \<Longrightarrow> length s < n \<Longrightarrow> words_from n w s = (if w = [] \<and> s = [] then [] else [rev w @ s])"
proof (induction n w s rule: words_from.induct)
  case (2 n w s)
  show ?case
  proof (cases s)
    case (Cons c cs)
    have "\<not> starts_with s ws" if "ws \<in> set ws_seqs" for ws
    proof -
      have "ws \<noteq> []" using ws_seqs_nonempty that by blast
      then obtain x xs where x: "ws = x # xs" by (cases ws) auto
      then show ?thesis using ws_not_graphic [OF that] 2(4) Cons by auto
    qed
    then have "find (starts_with s) ws_seqs = None" by (auto simp: find_None_iff)
    then have "strip_one ws_seqs s = None" by (simp add: strip_one_def)
    with 2 Cons show ?thesis by simp
  qed simp
qed simp

lemma split_whitespace_graphic: "s \<noteq> [] \<Longrightarrow> list_all graphic s \<Longrightarrow> split_whitespace s = [s]"
  unfolding split_whitespace_def using words_graphic [of s "Suc (length s)" "[]"] by simp

end
