(* ===== verification/Net_Model.thy ===== *)
theory Net_Model
  imports Rust_Str
begin

text \<open>
  The data model the monitor, the status board and the engine share: the network status
  (\<open>status/snapshot.rs\<close>), the probe outcomes (\<open>monitor/probes.rs\<close>) and the evidence,
  assessment and report of one monitoring round (\<open>monitor/model.rs\<close>).
\<close>

section \<open>Enumerations\<close>

datatype network_status = Online | CaptivePortal | Offline | Unknown

datatype probe_kind = Tcp | Http | Url

datatype probe_outcome = Pass | Captive | Inconclusive | Fail | Disabled

datatype local_link_state = LinkNotChecked | Available | Unavailable | ProbeFailed

datatype auth_endpoint_state =
  EndpointNotChecked | Reachable | Unreachable | Invalid | Missing | SkippedRedirectMode

datatype assessment_confidence = High | Medium | Low

datatype assessment_reason =
    ReasonNotChecked | InternetVerified | CaptiveDetected | ExternalFailedAuthReachable
  | LinkUpLoginAssumed | RedirectLoginAssumed | AllProbesFailed | WeakEvidenceOnly
  | InconclusiveEvidence | ConflictingEvidence | NoProbesEnabled

datatype recovery_advice =
    NoAction | AttemptLogin | AttemptLoginOnce | WaitForNetwork | WaitForMoreEvidence
  | FixConfiguration | NoProbeEvidence | NotEvaluated

section \<open>Evidence, assessment, report\<close>

record probe_evidence =
  ev_tcp :: probe_outcome
  ev_http :: probe_outcome
  ev_url :: probe_outcome
  ev_local_link :: local_link_state

definition probe_evidence_new :: "probe_outcome \<Rightarrow> probe_outcome \<Rightarrow> probe_outcome \<Rightarrow> probe_evidence" where
  "probe_evidence_new tcp http url =
     \<lparr>ev_tcp = tcp, ev_http = http, ev_url = url, ev_local_link = LinkNotChecked\<rparr>"

definition probe_evidence_default :: probe_evidence where
  "probe_evidence_default = probe_evidence_new Disabled Disabled Disabled"

record connectivity_assessment =
  ca_status :: network_status
  ca_confidence :: assessment_confidence
  ca_reason :: assessment_reason
  ca_auth_endpoint :: auth_endpoint_state
  ca_advice :: recovery_advice

definition assessment_default :: connectivity_assessment where
  "assessment_default =
     \<lparr>ca_status = Unknown, ca_confidence = Low, ca_reason = ReasonNotChecked,
      ca_auth_endpoint = EndpointNotChecked, ca_advice = NotEvaluated\<rparr>"

record probe_report =
  pr_evidence :: probe_evidence
  pr_assessment :: connectivity_assessment
  pr_latency_ms :: u64
  pr_check_number :: u64

lemma probe_evidence_new_simps [simp]:
  "ev_tcp (probe_evidence_new t h u) = t"
  "ev_http (probe_evidence_new t h u) = h"
  "ev_url (probe_evidence_new t h u) = u"
  "ev_local_link (probe_evidence_new t h u) = LinkNotChecked"
  by (simp_all add: probe_evidence_new_def)

end
