(* ===== verification/Monitor_Decision.thy ===== *)
theory Monitor_Decision
  imports Net_Model
begin

text \<open>
  \<open>monitor/decision.rs\<close>: the pure judgement from probe evidence to a network status and a
  recovery advice, its correction by the authentication endpoint, and the two fallbacks
  that may upgrade it (the lenient trigger and the redirect fallback).
\<close>

section \<open>The code\<close>

definition assessment ::
  "network_status \<Rightarrow> assessment_confidence \<Rightarrow> assessment_reason \<Rightarrow> recovery_advice \<Rightarrow> connectivity_assessment"
where
  "assessment st conf reason advice =
     \<lparr>ca_status = st, ca_confidence = conf, ca_reason = reason,
      ca_auth_endpoint = EndpointNotChecked, ca_advice = advice\<rparr>"

definition assess_connectivity :: "probe_evidence \<Rightarrow> connectivity_assessment" where
  "assess_connectivity ev =
     (let active = filter (\<lambda>o'. o' \<noteq> Disabled) [ev_tcp ev, ev_http ev, ev_url ev] in
      if active = [] then assessment Unknown Low NoProbesEnabled NoProbeEvidence
      else if ev_http ev = Captive \<or> ev_url ev = Captive
        then assessment CaptivePortal High CaptiveDetected AttemptLogin
      else if ev_http ev = Pass \<or> ev_url ev = Pass
        then assessment Online High InternetVerified NoAction
      else if list_all (\<lambda>o'. o' = Fail) active
        then assessment Offline Medium AllProbesFailed WaitForNetwork
      else
        let reason = (if Inconclusive \<in> set active then InconclusiveEvidence else WeakEvidenceOnly)
        in assessment Unknown Low reason WaitForMoreEvidence)"

definition apply_auth_endpoint ::
  "connectivity_assessment \<Rightarrow> auth_endpoint_state \<Rightarrow> connectivity_assessment"
where
  "apply_auth_endpoint current0 ep =
     (let current = current0\<lparr>ca_auth_endpoint := ep\<rparr> in
      case ca_status current of
        Online \<Rightarrow> current\<lparr>ca_advice := NoAction\<rparr>
      | CaptivePortal \<Rightarrow>
          current\<lparr>ca_advice :=
            (case ep of
               Invalid \<Rightarrow> FixConfiguration
             | Missing \<Rightarrow> FixConfiguration
             | Unreachable \<Rightarrow> AttemptLoginOnce
             | Reachable \<Rightarrow> AttemptLogin
             | SkippedRedirectMode \<Rightarrow> AttemptLogin
             | EndpointNotChecked \<Rightarrow> AttemptLogin)\<rparr>
      | _ \<Rightarrow>
          (case ep of
             Reachable \<Rightarrow>
               (if ca_reason current = InconclusiveEvidence \<and> ca_status current = Unknown
                then current\<lparr>ca_advice := AttemptLoginOnce\<rparr>
                else current\<lparr>ca_status := CaptivePortal, ca_confidence := Medium,
                             ca_reason := ExternalFailedAuthReachable, ca_advice := AttemptLogin\<rparr>)
           | Invalid \<Rightarrow> current\<lparr>ca_advice := FixConfiguration\<rparr>
           | Missing \<Rightarrow> current\<lparr>ca_advice := FixConfiguration\<rparr>
           | Unreachable \<Rightarrow>
               current\<lparr>ca_advice :=
                 (if ca_status current = Offline then WaitForNetwork else WaitForMoreEvidence)\<rparr>
           | SkippedRedirectMode \<Rightarrow> current
           | EndpointNotChecked \<Rightarrow> current))"

definition lenient_trigger_candidate :: "connectivity_assessment \<Rightarrow> bool" where
  "lenient_trigger_candidate current \<longleftrightarrow>
     ca_status current \<noteq> Online \<and>
     ca_advice current \<notin> {FixConfiguration, NoProbeEvidence, AttemptLogin, AttemptLoginOnce}"

definition apply_lenient_trigger ::
  "connectivity_assessment \<Rightarrow> local_link_state \<Rightarrow> connectivity_assessment"
where
  "apply_lenient_trigger current link =
     (if \<not> lenient_trigger_candidate current \<or> link \<noteq> Available then current
      else current\<lparr>ca_status := CaptivePortal, ca_confidence := Low,
                   ca_reason := LinkUpLoginAssumed, ca_advice := AttemptLogin\<rparr>)"

definition redirect_fallback_candidate :: "connectivity_assessment \<Rightarrow> bool" where
  "redirect_fallback_candidate current \<longleftrightarrow>
     ca_status current \<in> {Offline, Unknown} \<and>
     ca_advice current \<in> {WaitForNetwork, WaitForMoreEvidence}"

definition apply_redirect_fallback ::
  "connectivity_assessment \<Rightarrow> local_link_state \<Rightarrow> connectivity_assessment"
where
  "apply_redirect_fallback current link =
     (if \<not> redirect_fallback_candidate current \<or> link \<noteq> Available then current
      else current\<lparr>ca_status := CaptivePortal, ca_confidence := Low,
                   ca_reason := RedirectLoginAssumed, ca_advice := AttemptLoginOnce\<rparr>)"

lemmas decision_defs =
  assess_connectivity_def assessment_def apply_auth_endpoint_def lenient_trigger_candidate_def
  apply_lenient_trigger_def redirect_fallback_candidate_def apply_redirect_fallback_def

section \<open>Which status the evidence gives\<close>

text \<open>Evidence as the probes can produce it: the TCP race never sees a portal or an odd status.\<close>

definition evidence_ok :: "probe_evidence \<Rightarrow> bool" where
  "evidence_ok ev \<longleftrightarrow> ev_tcp ev \<in> {Pass, Fail, Disabled}"

definition login_advice :: "recovery_advice \<Rightarrow> bool" where
  "login_advice a \<longleftrightarrow> a \<in> {AttemptLogin, AttemptLoginOnce}"

lemma assess_status_captive:
  "ca_status (assess_connectivity ev) = CaptivePortal \<longleftrightarrow> ev_http ev = Captive \<or> ev_url ev = Captive"
  by (auto simp: assess_connectivity_def assessment_def Let_def)

lemma assess_status_online:
  "ca_status (assess_connectivity ev) = Online \<longleftrightarrow>
     ev_http ev \<noteq> Captive \<and> ev_url ev \<noteq> Captive \<and> (ev_http ev = Pass \<or> ev_url ev = Pass)"
  by (auto simp: assess_connectivity_def assessment_def Let_def)

lemma assess_status_offline:
  "ca_status (assess_connectivity ev) = Offline \<longleftrightarrow>
     (\<exists>p\<in>{ev_tcp ev, ev_http ev, ev_url ev}. p \<noteq> Disabled) \<and>
     (\<forall>p\<in>{ev_tcp ev, ev_http ev, ev_url ev}. p = Fail \<or> p = Disabled)"
  by (cases "ev_tcp ev"; cases "ev_http ev"; cases "ev_url ev")
     (simp_all add: assess_connectivity_def assessment_def Let_def)

lemmas assess_status = assess_status_captive assess_status_online assess_status_offline

text \<open>What a consumer may rely on: which advice goes with which status.\<close>

definition assessment_ok :: "connectivity_assessment \<Rightarrow> bool" where
  "assessment_ok a \<longleftrightarrow>
     (ca_status a = Online \<longrightarrow> ca_advice a = NoAction) \<and>
     (ca_advice a = NoAction \<longrightarrow> ca_status a = Online) \<and>
     (ca_advice a = AttemptLogin \<longrightarrow> ca_status a = CaptivePortal) \<and>
     (ca_advice a = AttemptLoginOnce \<longrightarrow>
        ca_status a = CaptivePortal \<or> ca_status a = Unknown \<and> ca_reason a = InconclusiveEvidence) \<and>
     (ca_status a = CaptivePortal \<longrightarrow> ca_advice a \<in> {AttemptLogin, AttemptLoginOnce, FixConfiguration}) \<and>
     (ca_advice a = WaitForNetwork \<longrightarrow> ca_status a = Offline) \<and>
     (ca_advice a = WaitForMoreEvidence \<longrightarrow> ca_status a = Unknown) \<and>
     ca_advice a \<noteq> NotEvaluated"

lemma assess_ok: "assessment_ok (assess_connectivity ev)"
  by (auto simp: assessment_ok_def assess_connectivity_def assessment_def Let_def)

lemma auth_endpoint_ok:
  "assessment_ok a \<Longrightarrow> ca_advice a \<noteq> NoProbeEvidence \<Longrightarrow> assessment_ok (apply_auth_endpoint a ep)"
  by (cases "ca_status a"; cases ep)
     (auto simp: assessment_ok_def apply_auth_endpoint_def Let_def)

section \<open>The fallback interface\<close>

text \<open>
  Both fallbacks share one contract: they only act on a candidate with a usable local
  link, they turn it into a low-confidence portal with a login advice, and an assessment
  that is online, misconfigured or without probes is no candidate.
\<close>

locale login_fallback =
  fixes cand :: "connectivity_assessment \<Rightarrow> bool"
    and app :: "connectivity_assessment \<Rightarrow> local_link_state \<Rightarrow> connectivity_assessment"
    and adv :: recovery_advice
    and why :: assessment_reason
  assumes app_skip: "\<not> cand a \<or> l \<noteq> Available \<Longrightarrow> app a l = a"
    and app_act: "cand a \<Longrightarrow> app a Available =
           a\<lparr>ca_status := CaptivePortal, ca_confidence := Low, ca_reason := why, ca_advice := adv\<rparr>"
    and cand_not: "cand a \<Longrightarrow> ca_status a \<noteq> Online \<and> \<not> login_advice (ca_advice a)
           \<and> ca_advice a \<noteq> FixConfiguration \<and> ca_advice a \<noteq> NoProbeEvidence"
    and adv_login: "login_advice adv"
begin

lemma no_longer_candidate: "\<not> cand (a\<lparr>ca_status := s, ca_confidence := c, ca_reason := r, ca_advice := adv\<rparr>)"
  using cand_not adv_login by fastforce

lemma app_idem: "app (app a l) l' = (if cand a \<and> l \<noteq> Available then app a l' else app a l)"
  using app_skip app_act no_longer_candidate
  by (cases "cand a"; cases "l = Available") auto

lemma app_keeps_online: "ca_status a = Online \<Longrightarrow> app a l = a"
  using cand_not app_skip by blast

lemma app_keeps_login: "login_advice (ca_advice a) \<Longrightarrow> app a l = a"
  using cand_not app_skip by blast

lemma app_keeps_config_error: "ca_advice a = FixConfiguration \<Longrightarrow> app a l = a"
  using cand_not app_skip by blast

lemma app_keeps_endpoint: "ca_auth_endpoint (app a l) = ca_auth_endpoint a"
  using app_skip app_act by (cases "cand a"; cases "l = Available") auto

lemma app_ok: "assessment_ok a \<Longrightarrow> assessment_ok (app a l)"
proof (cases "cand a \<and> l = Available")
  case True
  with app_act have "app a l =
      a\<lparr>ca_status := CaptivePortal, ca_confidence := Low, ca_reason := why, ca_advice := adv\<rparr>" by blast
  with adv_login show ?thesis by (auto simp: assessment_ok_def login_advice_def)
next
  case False
  with app_skip have "app a l = a" by blast
  then show "assessment_ok a \<Longrightarrow> assessment_ok (app a l)" by simp
qed

lemma app_new_login:
  "login_advice (ca_advice (app a l)) \<Longrightarrow> \<not> login_advice (ca_advice a) \<Longrightarrow>
     l = Available \<and> ca_confidence (app a l) = Low \<and> ca_reason (app a l) = why"
  using app_skip app_act by (cases "cand a"; cases "l = Available") auto

end

interpretation lenient: login_fallback
  lenient_trigger_candidate apply_lenient_trigger AttemptLogin LinkUpLoginAssumed
  by unfold_locales (auto simp: apply_lenient_trigger_def lenient_trigger_candidate_def login_advice_def)

interpretation redirect: login_fallback
  redirect_fallback_candidate apply_redirect_fallback AttemptLoginOnce RedirectLoginAssumed
  by unfold_locales (auto simp: apply_redirect_fallback_def redirect_fallback_candidate_def login_advice_def)

section \<open>Properties\<close>

text \<open>The base judgement is exactly the documented priority: a portal seen by a strong
  probe wins, then a strong success, then \<open>Offline\<close> if every enabled probe failed; anything
  else is \<open>Unknown\<close>, and \<open>NoProbeEvidence\<close> is advised exactly when nothing was measured.\<close>

theorem assess_connectivity_priority:
  "ca_status (assess_connectivity ev) =
     (if ev_http ev = Captive \<or> ev_url ev = Captive then CaptivePortal
      else if ev_http ev = Pass \<or> ev_url ev = Pass then Online
      else if ev_tcp ev \<in> {Fail, Disabled} \<and> ev_http ev \<in> {Fail, Disabled} \<and> ev_url ev \<in> {Fail, Disabled}
              \<and> \<not> (ev_tcp ev = Disabled \<and> ev_http ev = Disabled \<and> ev_url ev = Disabled) then Offline
      else Unknown)
   \<and> (ca_advice (assess_connectivity ev) = NoProbeEvidence
        \<longleftrightarrow> ev_tcp ev = Disabled \<and> ev_http ev = Disabled \<and> ev_url ev = Disabled)
   \<and> ca_reason (assess_connectivity ev) \<noteq> ConflictingEvidence"
  by (cases "ev_tcp ev"; cases "ev_http ev"; cases "ev_url ev")
     (simp_all add: assess_connectivity_def assessment_def Let_def)

end
