(* ===== verification/Monitor_Probes.thy ===== *)
theory Monitor_Probes
  imports Monitor_Decision "HOL-Library.Multiset"
begin

text \<open>
  \<open>monitor/probes.rs\<close>: address parsing, the three kinds of probe and the summary over their
  targets. The sockets, the TLS stack and the URL parser of the \<open>reqwest\<close> crate are
  parameters: a connection attempt is a function from host and port, a request a function
  from the URL to an error or a response whose body arrives as a list of chunks. Elapsed
  times are left out, and so are the details of the TCP race, which are only logged.
\<close>

section \<open>Addresses\<close>

definition is_bracket :: "char \<Rightarrow> bool" where
  "is_bracket c \<longleftrightarrow> c = CHR ''['' \<or> c = CHR '']''"

definition parse_host_port :: "string \<Rightarrow> (string \<times> nat) option" where
  "parse_host_port target =
     (if \<not> starts_with target ''['' \<and> 2 \<le> count_char CHR '':'' target then None
      else case rsplit_once CHR '':'' target of
        None \<Rightarrow> None
      | Some (host, port) \<Rightarrow>
          if host = [] then None
          else case parse_u16 port of
            None \<Rightarrow> None
          | Some p \<Rightarrow> Some (trim_matches is_bracket host, p))"

text \<open>\<open>url_parse\<close> stands for \<open>reqwest::Url::parse\<close>: host and port (or the scheme's own).\<close>

type_synonym url_parser = "string \<Rightarrow> (string option \<times> nat option) option"

definition authority_of :: "string \<Rightarrow> string" where
  "authority_of rest = takeWhile (\<lambda>c. c \<noteq> CHR ''/'' \<and> c \<noteq> CHR ''?'' \<and> c \<noteq> CHR ''#'') rest"

definition parse_url_host_port :: "url_parser \<Rightarrow> string \<Rightarrow> (string \<times> nat) option" where
  "parse_url_host_port url_parse input =
     (if str_contains input ''://'' then
        (case url_parse input of
           None \<Rightarrow> None
         | Some (host, port) \<Rightarrow>
             (case host of
                None \<Rightarrow> None
              | Some h \<Rightarrow>
                  (case port of
                     None \<Rightarrow> None
                   | Some p \<Rightarrow>
                       Some (rev (dropWhile (\<lambda>c. c = CHR '']'') (rev (dropWhile (\<lambda>c. c = CHR ''['') h))), p))))
      else
        let (scheme, rest) = (case split_once_str ''://'' input of Some (s, r) \<Rightarrow> (s, r) | None \<Rightarrow> (''http'', input));
            default_port = (if eq_ignore_ascii_case scheme ''https'' then 443 else 80 :: nat);
            authority = authority_of rest
        in case strip_prefix authority ''['' of
             Some stripped \<Rightarrow>
               (case split_once CHR '']'' stripped of
                  None \<Rightarrow> None
                | Some (host, tail) \<Rightarrow>
                    if host = [] then None
                    else if tail = [] then Some (host, default_port)
                    else if starts_with tail '':'' then map_option (\<lambda>p. (host, p)) (parse_u16 (tl tail))
                    else None)
           | None \<Rightarrow>
               if 2 \<le> count_char CHR '':'' authority then Some (authority, default_port)
               else (case split_once CHR '':'' authority of
                   Some (host, port_str) \<Rightarrow>
                     if host = [] then None else map_option (\<lambda>p. (host, p)) (parse_u16 port_str)
                 | None \<Rightarrow> if authority = [] then None else Some (authority, default_port)))"

section \<open>Probes\<close>

datatype probe_error = ErrText string | ErrBodyRead string | ErrBadAddress

record probe_detail =
  d_target :: string
  d_success :: bool
  d_http_status :: "nat option"
  d_error :: "probe_error option"

datatype body_event = Chunk string | ReadErr string

record http_resp =
  rs_status :: nat
  rs_location :: "string option"
  rs_body :: "body_event list"

type_synonym http_get = "string \<Rightarrow> string + http_resp"

type_synonym tcp_dial = "string \<Rightarrow> nat \<Rightarrow> bool"

text \<open>One TCP target: the address must parse and the connection must come up in time.\<close>

definition tcp_one :: "tcp_dial \<Rightarrow> string \<Rightarrow> bool" where
  "tcp_one dial target = (case parse_host_port target of None \<Rightarrow> False | Some (h, p) \<Rightarrow> dial h p)"

text \<open>The race passes if one target connects; \<open>select_ok\<close> fails only when all do.\<close>

definition tcp_probe_run :: "tcp_dial \<Rightarrow> string list \<Rightarrow> probe_outcome" where
  "tcp_probe_run dial targets =
     (if targets = [] then Disabled
      else if list_ex (tcp_one dial) targets then Pass else Fail)"

definition probe_http_one :: "http_get \<Rightarrow> string \<Rightarrow> probe_outcome \<times> probe_detail" where
  "probe_http_one get url =
     (case get url of
        Inr resp \<Rightarrow>
          let status = rs_status resp;
              outcome = (if status = 204 then Pass
                         else if status = 200 then Captive
                         else if 301 \<le> status \<and> status \<le> 308 then Captive
                         else Inconclusive)
          in (outcome, \<lparr>d_target = url, d_success = (outcome = Pass), d_http_status = Some status,
                        d_error = None\<rparr>)
      | Inl e \<Rightarrow>
          (Fail, \<lparr>d_target = url, d_success = False, d_http_status = None, d_error = Some (ErrText e)\<rparr>))"

definition BODY_CAP :: nat where
  "BODY_CAP = 64 * 1024"

text \<open>The streaming read of the URL probe: stops at the cap, an interrupted body is an error.\<close>

fun read_url_body :: "string \<Rightarrow> body_event list \<Rightarrow> string + string" where
  "read_url_body body [] = Inr body"
| "read_url_body body (Chunk chunk # evs) =
     (if BODY_CAP \<le> length body then Inr body
      else let remaining = BODY_CAP - length body;
               body' = body @ take (min (length chunk) remaining) chunk
           in if BODY_CAP \<le> length body' then Inr body' else read_url_body body' evs)"
| "read_url_body body (ReadErr e # evs) =
     (if BODY_CAP \<le> length body then Inr body else Inl e)"

definition probe_url_one ::
  "http_get \<Rightarrow> (string \<rightharpoonup> string) \<Rightarrow> string \<Rightarrow> probe_outcome \<times> probe_detail"
where
  "probe_url_one get expected url =
     (case get url of
        Inl e \<Rightarrow>
          (Fail, \<lparr>d_target = url, d_success = False, d_http_status = None, d_error = Some (ErrText e)\<rparr>)
      | Inr resp \<Rightarrow>
          let status = rs_status resp in
          if 300 \<le> status \<and> status \<le> 399 then
            (Captive, \<lparr>d_target = url, d_success = False, d_http_status = Some status, d_error = None\<rparr>)
          else if status = 200 then
            (case read_url_body [] (rs_body resp) of
               Inl e \<Rightarrow>
                 (Fail, \<lparr>d_target = url, d_success = False, d_http_status = Some status,
                         d_error = Some (ErrBodyRead e)\<rparr>)
             | Inr raw \<Rightarrow>
                 let body = from_utf8_lossy raw;
                     matched = (case expected url of Some ex \<Rightarrow> str_contains body ex | None \<Rightarrow> True)
                 in (if matched then Pass else Captive,
                     \<lparr>d_target = url, d_success = matched, d_http_status = Some status, d_error = None\<rparr>))
          else
            (Inconclusive, \<lparr>d_target = url, d_success = False, d_http_status = Some status, d_error = None\<rparr>))"

definition summarize ::
  "(probe_outcome \<times> probe_detail) list \<Rightarrow> probe_outcome \<times> probe_detail list"
where
  "summarize results =
     (let pass = list_ex (\<lambda>(o', _). o' = Pass) results;
          captive = list_ex (\<lambda>(o', _). o' = Captive) results;
          inconclusive = list_ex (\<lambda>(o', _). o' = Inconclusive) results
      in (if captive then Captive else if pass then Pass
          else if inconclusive then Inconclusive else Fail,
          map snd results))"

definition http_probe_run :: "http_get \<Rightarrow> string list \<Rightarrow> probe_outcome \<times> probe_detail list" where
  "http_probe_run get targets =
     (if targets = [] then (Disabled, []) else summarize (map (probe_http_one get) targets))"

definition url_probe_run ::
  "http_get \<Rightarrow> (string \<rightharpoonup> string) \<Rightarrow> string list \<Rightarrow> probe_outcome \<times> probe_detail list"
where
  "url_probe_run get expected targets =
     (if targets = [] then (Disabled, []) else summarize (map (probe_url_one get expected) targets))"

section \<open>Lemmas\<close>

lemma tcp_probe_range: "tcp_probe_run dial ts \<in> {Pass, Fail, Disabled}"
  by (simp add: tcp_probe_run_def)

lemma read_url_body_Inr:
  "read_url_body body evs = Inr r \<Longrightarrow> length body \<le> BODY_CAP \<Longrightarrow>
     length r \<le> BODY_CAP \<and> (\<exists>s. r = body @ s)"
proof (induction body evs rule: read_url_body.induct)
  case (2 body chunk evs)
  show ?case
  proof (cases "BODY_CAP \<le> length body")
    case True
    with 2 show ?thesis by simp
  next
    case False
    define body' where "body' = body @ take (min (length chunk) (BODY_CAP - length body)) chunk"
    have len: "length body' \<le> BODY_CAP" using False by (simp add: body'_def)
    show ?thesis
    proof (cases "BODY_CAP \<le> length body'")
      case True
      with 2(2) False have "r = body'" unfolding read_url_body.simps Let_def body'_def [symmetric] by simp
      with len show ?thesis by (simp add: body'_def)
    next
      case cont: False
      with 2(2) False have "read_url_body body' evs = Inr r"
        unfolding read_url_body.simps Let_def body'_def [symmetric] by simp
      with 2(1)[OF False refl body'_def cont] len obtain s where "length r \<le> BODY_CAP" "r = body' @ s"
        by blast
      then show ?thesis by (simp add: body'_def)
    qed
  qed
qed (auto split: if_splits)

lemma list_ex_fst: "list_ex (\<lambda>(a, _). a = x) rs \<longleftrightarrow> x \<in> fst ` set rs"
  by (induction rs) auto

lemma summarize_outcome:
  "fst (summarize rs) =
     (if Captive \<in> fst ` set rs then Captive else if Pass \<in> fst ` set rs then Pass
      else if Inconclusive \<in> fst ` set rs then Inconclusive else Fail)"
  by (simp add: summarize_def Let_def list_ex_fst)

lemma summarize_never_disabled: "fst (summarize rs) \<noteq> Disabled"
  by (simp add: summarize_outcome)

section \<open>Properties\<close>

lemma colon_no_digit: "\<not> is_ascii_digit CHR '':''"
  by (simp add: is_ascii_digit_def)

lemma trim_brackets_id: "\<forall>c\<in>set h. \<not> is_bracket c \<Longrightarrow> trim_matches is_bracket h = h"
proof -
  assume h: "\<forall>c\<in>set h. \<not> is_bracket c"
  have drop: "\<forall>c\<in>set s. \<not> is_bracket c \<Longrightarrow> dropWhile is_bracket s = s" for s
    by (cases s) auto
  from h show ?thesis by (simp add: trim_matches_def drop)
qed

lemma trim_brackets_wrap:
  "\<forall>c\<in>set h. \<not> is_bracket c \<Longrightarrow> h \<noteq> [] \<Longrightarrow> trim_matches is_bracket (''['' @ h @ '']'') = h"
proof -
  assume h: "\<forall>c\<in>set h. \<not> is_bracket c" and ne: "h \<noteq> []"
  from h ne have d: "dropWhile is_bracket (h @ t) = h @ t" for t
    by (cases h) auto
  from h ne have r: "dropWhile is_bracket (rev h) = rev h"
    by (metis dropWhile_eq_self_iff hd_in_set rev_is_Nil_conv set_rev)
  show ?thesis by (simp add: trim_matches_def is_bracket_def [of "CHR ''[''"] is_bracket_def [of "CHR '']''"] d r)
qed

text \<open>Round trip of probe targets: \<open>host:port\<close> and \<open>[ipv6]:port\<close> parse back to the
  host without brackets and the port, for every port of 16 bits.\<close>

theorem parse_host_port_roundtrip:
  assumes "p < 65536" and "h \<noteq> []" and "\<forall>c\<in>set h. \<not> is_bracket c"
  shows "parse_host_port (''['' @ h @ '']:'' @ show_nat p) = Some (h, p)
    \<and> (CHR '':'' \<notin> set h \<longrightarrow> parse_host_port (h @ '':'' @ show_nat p) = Some (h, p))"
proof -
  have free: "CHR '':'' \<notin> set (show_nat p)" by (rule show_nat_free [OF colon_no_digit])
  have num: "parse_u16 (show_nat p) = Some p" using assms(1) by (simp add: parse_show_nat)
  have "rsplit_once CHR '':'' ((''['' @ h @ '']'') @ CHR '':'' # show_nat p) = Some (''['' @ h @ '']'', show_nat p)"
    using free by (rule rsplit_once_append)
  then have "parse_host_port (''['' @ h @ '']:'' @ show_nat p) = Some (h, p)"
    using trim_brackets_wrap [OF assms(3,2)] num by (simp add: parse_host_port_def)
  moreover have "parse_host_port (h @ '':'' @ show_nat p) = Some (h, p)" if c: "CHR '':'' \<notin> set h"
  proof -
    have "count_char CHR '':'' (h @ '':'' @ show_nat p) = 1"
      using c free by (simp add: count_char_def count_notin)
    moreover have "rsplit_once CHR '':'' (h @ CHR '':'' # show_nat p) = Some (h, show_nat p)"
      using free by (rule rsplit_once_append)
    ultimately show ?thesis
      using trim_brackets_id [OF assms(3)] num assms(2) by (simp add: parse_host_port_def)
  qed
  ultimately show ?thesis by blast
qed

theorem parse_host_port_roundtrip_witness:
  "parse_host_port ''[::1]:53'' = Some (''::1'', 53) \<and> parse_host_port ''8.8.8.8:53'' = Some (''8.8.8.8'', 53)"
proof -
  have n: "show_nat 53 = ''53''" by code_simp
  have a: "parse_host_port (''['' @ ''::1'' @ '']:'' @ show_nat 53) = Some (''::1'', 53)"
    using parse_host_port_roundtrip [of 53 "''::1''"] by (simp add: is_bracket_def)
  have b: "parse_host_port (''8.8.8.8'' @ '':'' @ show_nat 53) = Some (''8.8.8.8'', 53)"
    using parse_host_port_roundtrip [of 53 "''8.8.8.8''"] by (simp add: is_bracket_def)
  from a b n show ?thesis by simp
qed

lemma summarize_order_free:
  "mset (map fst rs) = mset (map fst rs') \<Longrightarrow> fst (summarize rs) = fst (summarize rs')"
  using mset_eq_setD [of "map fst rs" "map fst rs'"] by (simp add: summarize_outcome)

lemma url_body_capped: "read_url_body [] evs = Inr r \<Longrightarrow> length r \<le> BODY_CAP"
  using read_url_body_Inr [of "[]" evs r] by simp

end
