(* ===== verification/Config_Model.thy ===== *)
theory Config_Model
  imports Net_Model
begin

text \<open>
  The configuration data (\<open>config/schema.rs\<close>, \<open>network/settings.rs\<close>) and the immutable
  runtime snapshot built from it (\<open>config/runtime.rs\<close>). The password decryption is a
  parameter here; the serde derives are not modelled.
\<close>

section \<open>Settings\<close>

record browser_settings =
  bs_headless :: bool
  bs_browser_channel :: string
  bs_browser_custom_path :: string
  bs_custom_browser_engine :: string
  bs_persistent_context :: bool
  bs_pure_mode :: bool
  bs_stealth_mode :: bool
  bs_stealth_custom_script :: string
  bs_low_resource_mode :: bool
  bs_disable_web_security :: bool
  bs_browser_args :: string
  bs_viewport_width :: u32
  bs_viewport_height :: u32
  bs_locale :: string
  bs_timezone_id :: string
  bs_ignore_https_errors :: bool
  bs_user_agent :: string
  bs_extra_headers_json :: string
  bs_timeout :: u32
  bs_navigation_timeout :: u32
  bs_login_timeout :: u32
  bs_bind_proxy :: string
  bs_redirect_test_use_proxy :: bool

definition browser_settings_default :: browser_settings where
  "browser_settings_default =
     \<lparr>bs_headless = True, bs_browser_channel = ''msedge'', bs_browser_custom_path = [],
      bs_custom_browser_engine = ''chromium'', bs_persistent_context = False, bs_pure_mode = True,
      bs_stealth_mode = True, bs_stealth_custom_script = [], bs_low_resource_mode = False,
      bs_disable_web_security = False, bs_browser_args = [], bs_viewport_width = 1280,
      bs_viewport_height = 720, bs_locale = ''zh-CN'', bs_timezone_id = ''Asia/Shanghai'',
      bs_ignore_https_errors = True, bs_user_agent = [], bs_extra_headers_json = [],
      bs_timeout = 30, bs_navigation_timeout = 15, bs_login_timeout = 120, bs_bind_proxy = [],
      bs_redirect_test_use_proxy = False\<rparr>"

record monitor_settings =
  ms_check_interval :: u32
  ms_tcp_targets :: "string list"
  ms_http_targets :: "string list"
  ms_url_targets :: "string list"
  ms_url_expected_responses :: "string \<rightharpoonup> string"
  ms_tcp_enabled :: bool
  ms_http_enabled :: bool
  ms_url_enabled :: bool
  ms_disable_proxy :: bool
  ms_profile_check_interval :: u32
  ms_tcp_timeout :: u32
  ms_http_timeout :: u32
  ms_url_timeout :: u32
  ms_auth_url_timeout :: u32
  ms_strict_login_mode :: bool
  ms_post_login_delay :: u32

definition monitor_settings_default :: monitor_settings where
  "monitor_settings_default =
     \<lparr>ms_check_interval = 300,
      ms_tcp_targets = [''8.8.8.8:53'', ''114.114.114.114:53'', ''www.baidu.com:443''],
      ms_http_targets = [''http://connect.rom.miui.com/generate_204'',
        ''http://connectivitycheck.platform.hicloud.com/generate_204'',
        ''http://wifi.vivo.com.cn/generate_204''],
      ms_url_targets = [''http://captive.apple.com/hotspot-detect.html'',
        ''http://detectportal.firefox.com/success.txt'',
        ''http://www.msftconnecttest.com/connecttest.txt''],
      ms_url_expected_responses =
        [''http://captive.apple.com/hotspot-detect.html'' \<mapsto> ''Success'',
         ''http://detectportal.firefox.com/success.txt'' \<mapsto> ''success'',
         ''http://www.msftconnecttest.com/connecttest.txt'' \<mapsto> ''Microsoft Connect Test''],
      ms_tcp_enabled = False, ms_http_enabled = True, ms_url_enabled = False,
      ms_disable_proxy = True, ms_profile_check_interval = 180, ms_tcp_timeout = 2,
      ms_http_timeout = 10, ms_url_timeout = 10, ms_auth_url_timeout = 5,
      ms_strict_login_mode = True, ms_post_login_delay = 5\<rparr>"

record pause_settings =
  ps_enabled :: bool
  ps_start_hour :: u8
  ps_start_minute :: u8
  ps_end_hour :: u8
  ps_end_minute :: u8

definition pause_settings_default :: pause_settings where
  "pause_settings_default =
     \<lparr>ps_enabled = True, ps_start_hour = 23, ps_start_minute = 0, ps_end_hour = 6, ps_end_minute = 0\<rparr>"

record logging_settings =
  ls_level :: string
  ls_file_enabled :: bool
  ls_retention_days :: u32

definition logging_settings_default :: logging_settings where
  "logging_settings_default = \<lparr>ls_level = ''INFO'', ls_file_enabled = True, ls_retention_days = 7\<rparr>"

record retry_settings =
  rs_max_retries :: u32
  rs_retry_interval :: u32

definition retry_settings_default :: retry_settings where
  "retry_settings_default = \<lparr>rs_max_retries = 3, rs_retry_interval = 5\<rparr>"

record worker_settings =
  ws_idle_timeout_seconds :: u32
  ws_keep_alive :: bool

definition worker_settings_default :: worker_settings where
  "worker_settings_default = \<lparr>ws_idle_timeout_seconds = 300, ws_keep_alive = False\<rparr>"

datatype startup_action = StartNone | StartMonitor | StartLoginOnce

record app_settings =
  as_auto_start_browser :: bool
  as_runtime_mode :: string
  as_startup_action :: startup_action
  as_port :: u16
  as_autostart_enabled :: bool
  as_task_notification :: bool
  as_show_tray :: bool
  as_auto_restart_hours :: u32

definition app_settings_default :: app_settings where
  "app_settings_default =
     \<lparr>as_auto_start_browser = True, as_runtime_mode = ''full'', as_startup_action = StartNone,
      as_port = 50721, as_autostart_enabled = False, as_task_notification = True,
      as_show_tray = True, as_auto_restart_hours = 24\<rparr>"

datatype update_channel = Stable | Prerelease | AllChannels

record updater_settings =
  us_check_on_startup :: bool
  us_auto_check_enabled :: bool
  us_channel :: update_channel
  us_release_source_url :: string
  us_check_interval_hours :: u32
  us_use_proxy :: bool
  us_proxy_url :: string
  us_proxy_port :: u16

definition resolved_proxy_url :: "updater_settings \<Rightarrow> string" where
  "resolved_proxy_url u =
     (if us_proxy_url u \<noteq> [] then us_proxy_url u
      else if 0 < us_proxy_port u then ''http://127.0.0.1:'' @ show_nat (unat (us_proxy_port u))
      else [])"

definition updater_settings_default :: updater_settings where
  "updater_settings_default =
     \<lparr>us_check_on_startup = True, us_auto_check_enabled = True, us_channel = Stable,
      us_release_source_url = ''https://api.github.com/repos/Misyra/Campus-Auth-rs/releases/latest'',
      us_check_interval_hours = 24, us_use_proxy = False, us_proxy_url = [], us_proxy_port = 7890\<rparr>"

record global_config =
  gc_browser :: browser_settings
  gc_monitor :: monitor_settings
  gc_pause :: pause_settings
  gc_logging :: logging_settings
  gc_retry :: retry_settings
  gc_worker :: worker_settings
  gc_app :: app_settings
  gc_updater :: updater_settings

definition global_config_default :: global_config where
  "global_config_default =
     \<lparr>gc_browser = browser_settings_default, gc_monitor = monitor_settings_default,
      gc_pause = pause_settings_default, gc_logging = logging_settings_default,
      gc_retry = retry_settings_default, gc_worker = worker_settings_default,
      gc_app = app_settings_default, gc_updater = updater_settings_default\<rparr>"

record settings_data =
  sd_config_version :: u32
  sd_active_profile_id :: string
  sd_auto_switch :: bool
  sd_global :: global_config

definition CURRENT_CONFIG_VERSION :: u32 where
  "CURRENT_CONFIG_VERSION = 10"

definition settings_data_default :: settings_data where
  "settings_data_default =
     \<lparr>sd_config_version = CURRENT_CONFIG_VERSION, sd_active_profile_id = ''default'',
      sd_auto_switch = False, sd_global = global_config_default\<rparr>"

section \<open>Profiles and the network egress\<close>

datatype login_channel = ChBrowser | ChHttp | ChScript

definition is_in_process :: "login_channel \<Rightarrow> bool" where
  "is_in_process c \<longleftrightarrow> c = ChHttp \<or> c = ChScript"

text \<open>\<open>openwrt\<close> is the compile-time feature of that name.\<close>

definition is_supported :: "bool \<Rightarrow> login_channel \<Rightarrow> bool" where
  "is_supported openwrt c \<longleftrightarrow> \<not> openwrt \<or> is_in_process c"

definition binding_field :: "login_channel \<Rightarrow> string option" where
  "binding_field c = (case c of ChBrowser \<Rightarrow> None | ChHttp \<Rightarrow> Some ''active_http_task''
                      | ChScript \<Rightarrow> Some ''active_script_task'')"

datatype network_mode = Direct | System | Proxy | Interface

record network_settings =
  ns_mode :: network_mode
  ns_interface_id :: string
  ns_proxy_url :: string
  ns_dns_servers :: "string list"

definition network_settings_default :: network_settings where
  "network_settings_default =
     \<lparr>ns_mode = Direct, ns_interface_id = [], ns_proxy_url = [], ns_dns_servers = []\<rparr>"

record profile_data =
  pd_network :: "network_settings option"
  pd_id :: string
  pd_name :: string
  pd_username :: string
  pd_password :: string
  pd_auth_url :: string
  pd_trigger_url :: string
  pd_isp :: string
  pd_gateway_ip :: string
  pd_wifi_ssid :: string
  pd_active_task :: string
  pd_login_channel :: login_channel
  pd_active_http_task :: string
  pd_active_script_task :: string

definition profile_data_default :: profile_data where
  "profile_data_default =
     \<lparr>pd_network = None, pd_id = ''default'', pd_name = bytes [233, 187, 152, 232, 174, 164, 231, 189, 145, 231, 187, 156],
      pd_username = [], pd_password = [], pd_auth_url = [], pd_trigger_url = [], pd_isp = [],
      pd_gateway_ip = [], pd_wifi_ssid = [], pd_active_task = [], pd_login_channel = ChBrowser,
      pd_active_http_task = [], pd_active_script_task = []\<rparr>"

definition network_settings_effective :: "profile_data \<Rightarrow> global_config \<Rightarrow> network_settings" where
  "network_settings_effective p g =
     (case pd_network p of
        Some n \<Rightarrow> n
      | None \<Rightarrow>
          if trim (bs_bind_proxy (gc_browser g)) \<noteq> [] then
            network_settings_default\<lparr>ns_mode := Proxy, ns_proxy_url := bs_bind_proxy (gc_browser g)\<rparr>
          else if \<not> ms_disable_proxy (gc_monitor g) then network_settings_default\<lparr>ns_mode := System\<rparr>
          else network_settings_default)"

section \<open>The runtime snapshot\<close>

definition DEFAULT_TRIGGER_URL :: string where
  "DEFAULT_TRIGGER_URL = ''http://www.msftconnecttest.com/connecttest.txt''"

record profile_snapshot =
  sn_id :: string
  sn_name :: string
  sn_username :: string
  sn_password :: string
  sn_auth_url :: string
  sn_trigger_url :: string
  sn_isp :: string
  sn_gateway_ip :: string
  sn_wifi_ssid :: string
  sn_active_task :: string
  sn_login_channel :: login_channel
  sn_active_http_task :: string
  sn_active_script_task :: string

definition uses_redirect_login :: "profile_snapshot \<Rightarrow> bool" where
  "uses_redirect_login p \<longleftrightarrow>
     sn_login_channel p = ChBrowser \<and> (trim (sn_trigger_url p) \<noteq> [] \<or> trim (sn_auth_url p) = [])"

definition effective_browser_login_url :: "profile_snapshot \<Rightarrow> string" where
  "effective_browser_login_url p =
     (let trigger = trim (sn_trigger_url p) in
      if trigger \<noteq> [] then trigger
      else let auth = trim (sn_auth_url p) in if auth = [] then DEFAULT_TRIGGER_URL else auth)"

record runtime_config =
  rc_network :: network_settings
  rc_browser :: browser_settings
  rc_monitor :: monitor_settings
  rc_pause :: pause_settings
  rc_logging :: logging_settings
  rc_retry :: retry_settings
  rc_worker :: worker_settings
  rc_app :: app_settings
  rc_updater :: updater_settings
  rc_profile :: profile_snapshot
  rc_auto_switch :: bool

text \<open>\<open>decrypt id ciphertext\<close> is \<open>PasswordCrypto::decrypt_to_zeroizing\<close>; a failure leaves the
  password empty.\<close>

definition build_runtime_config ::
  "(string \<Rightarrow> string \<Rightarrow> 'e + string) \<Rightarrow> settings_data \<Rightarrow> profile_data \<Rightarrow> runtime_config"
where
  "build_runtime_config decrypt settings profile =
     (let password = (case decrypt (pd_id profile) (pd_password profile) of Inl _ \<Rightarrow> [] | Inr p \<Rightarrow> p);
          trigger_url = (if pd_login_channel profile = ChBrowser \<and> trim (pd_auth_url profile) = []
                            \<and> trim (pd_trigger_url profile) = []
                         then DEFAULT_TRIGGER_URL else pd_trigger_url profile)
      in \<lparr>rc_network = network_settings_effective profile (sd_global settings),
          rc_browser = gc_browser (sd_global settings),
          rc_monitor = gc_monitor (sd_global settings),
          rc_pause = gc_pause (sd_global settings),
          rc_logging = gc_logging (sd_global settings),
          rc_retry = gc_retry (sd_global settings),
          rc_worker = gc_worker (sd_global settings),
          rc_app = gc_app (sd_global settings),
          rc_updater = gc_updater (sd_global settings),
          rc_profile =
            \<lparr>sn_id = pd_id profile, sn_name = pd_name profile, sn_username = pd_username profile,
             sn_password = password, sn_auth_url = pd_auth_url profile, sn_trigger_url = trigger_url,
             sn_isp = pd_isp profile, sn_gateway_ip = pd_gateway_ip profile,
             sn_wifi_ssid = pd_wifi_ssid profile, sn_active_task = pd_active_task profile,
             sn_login_channel = pd_login_channel profile,
             sn_active_http_task = pd_active_http_task profile,
             sn_active_script_task = pd_active_script_task profile\<rparr>,
          rc_auto_switch = sd_auto_switch settings\<rparr>)"

lemma trim_default_trigger: "trim DEFAULT_TRIGGER_URL = DEFAULT_TRIGGER_URL"
  by code_simp

lemma build_runtime_fields [simp]:
  "sn_id (rc_profile (build_runtime_config dec s p)) = pd_id p"
  "sn_auth_url (rc_profile (build_runtime_config dec s p)) = pd_auth_url p"
  "sn_login_channel (rc_profile (build_runtime_config dec s p)) = pd_login_channel p"
  "rc_monitor (build_runtime_config dec s p) = gc_monitor (sd_global s)"
  "rc_auto_switch (build_runtime_config dec s p) = sd_auto_switch s"
  by (simp_all add: build_runtime_config_def Let_def)

text \<open>In the snapshot the redirect mode is decided by what the user stored: filling the default
  trigger in does not change which profiles log in by redirect, and the browser always has an
  address to open.\<close>

lemma redirect_login_of_build:
  "uses_redirect_login (rc_profile (build_runtime_config dec s p)) \<longleftrightarrow>
     pd_login_channel p = ChBrowser \<and> (trim (pd_trigger_url p) \<noteq> [] \<or> trim (pd_auth_url p) = [])"
  by (auto simp: uses_redirect_login_def build_runtime_config_def Let_def trim_default_trigger
      DEFAULT_TRIGGER_URL_def)

lemma effective_url_nonempty: "effective_browser_login_url p \<noteq> []"
  by (simp add: effective_browser_login_url_def Let_def DEFAULT_TRIGGER_URL_def)

end
