(* ===== verification/Monitor_Service.thy ===== *)
theory Monitor_Service
  imports Monitor_Probes Config_Model
begin

text \<open>
  \<open>monitor/mod.rs\<close>: one full check, from the runtime configuration through the probes to the
  report, with the counters of \<open>utils/metrics.rs\<close>. The outside world of one check (the egress
  of \<open>network/egress.rs\<close>, sockets, HTTP client, interface listing, elapsed time) is a record of
  functions; the concurrency of the probes does not show, since their outcomes are joined.
\<close>

section \<open>Counters\<close>

record metrics =
  mt_login_total :: u64
  mt_login_success_total :: u64
  mt_login_failure_total :: u64
  mt_login_cancel_total :: u64
  mt_probe_total :: u64
  mt_probe_duration_ms_avg :: u64
  mt_worker_spawn_total :: u64
  mt_worker_crash_total :: u64
  mt_uptime_seconds :: u64

definition metrics_new :: metrics where
  "metrics_new = \<lparr>mt_login_total = 0, mt_login_success_total = 0, mt_login_failure_total = 0,
     mt_login_cancel_total = 0, mt_probe_total = 0, mt_probe_duration_ms_avg = 0,
     mt_worker_spawn_total = 0, mt_worker_crash_total = 0, mt_uptime_seconds = 0\<rparr>"

definition inc_login :: "metrics \<Rightarrow> metrics" where
  "inc_login m = m\<lparr>mt_login_total := mt_login_total m + 1\<rparr>"

definition inc_login_success :: "metrics \<Rightarrow> metrics" where
  "inc_login_success m = m\<lparr>mt_login_success_total := mt_login_success_total m + 1\<rparr>"

definition inc_login_failure :: "metrics \<Rightarrow> metrics" where
  "inc_login_failure m = m\<lparr>mt_login_failure_total := mt_login_failure_total m + 1\<rparr>"

definition inc_login_cancel :: "metrics \<Rightarrow> metrics" where
  "inc_login_cancel m = m\<lparr>mt_login_cancel_total := mt_login_cancel_total m + 1\<rparr>"

text \<open>\<open>record_probe\<close> without contention: the compare-and-swap succeeds at the first try.\<close>

definition record_probe :: "u64 \<Rightarrow> metrics \<Rightarrow> metrics" where
  "record_probe duration_ms m =
     (let total = mt_probe_total m; prev = mt_probe_duration_ms_avg m;
          new_total = total + 1;
          new_avg = (if 1 < new_total then (prev * total + duration_ms) div new_total else duration_ms)
      in m\<lparr>mt_probe_total := new_total, mt_probe_duration_ms_avg := new_avg\<rparr>)"

section \<open>Configuration subset\<close>

record monitor_config =
  mc_check_interval :: u64
  mc_tcp_enabled :: bool
  mc_http_enabled :: bool
  mc_url_enabled :: bool
  mc_tcp_targets :: "string list"
  mc_http_targets :: "string list"
  mc_url_targets :: "string list"
  mc_url_expected :: "string \<rightharpoonup> string"
  mc_strict_login_mode :: bool
  mc_tcp_timeout :: duration
  mc_http_timeout :: duration
  mc_url_timeout :: duration
  mc_auth_url_timeout :: duration

definition monitor_config_from_runtime :: "runtime_config \<Rightarrow> monitor_config" where
  "monitor_config_from_runtime rt =
     (let m = rc_monitor rt in
      \<lparr>mc_check_interval = ucast (ms_check_interval m),
       mc_tcp_enabled = ms_tcp_enabled m, mc_http_enabled = ms_http_enabled m,
       mc_url_enabled = ms_url_enabled m, mc_tcp_targets = ms_tcp_targets m,
       mc_http_targets = ms_http_targets m, mc_url_targets = ms_url_targets m,
       mc_url_expected = ms_url_expected_responses m,
       mc_strict_login_mode = ms_strict_login_mode m,
       mc_tcp_timeout = from_secs (unat (ms_tcp_timeout m)),
       mc_http_timeout = from_secs (unat (ms_http_timeout m)),
       mc_url_timeout = from_secs (unat (ms_url_timeout m)),
       mc_auth_url_timeout = from_secs (unat (ms_auth_url_timeout m))\<rparr>)"

section \<open>One check\<close>

datatype check_purpose = AutoMonitor | ManualDiagnostic | PostLoginVerification

text \<open>
  \<open>me_prepare\<close> is the egress lease and client construction (an error text on failure), the
  other functions act under that lease with the timeout they are given. \<open>me_interfaces\<close> is
  \<open>None\<close> when the three-second limit passes.
\<close>

record monitor_env =
  me_prepare :: "network_settings \<Rightarrow> bool \<Rightarrow> string + unit"
  me_dial :: "duration \<Rightarrow> tcp_dial"
  me_get :: "duration \<Rightarrow> http_get"
  me_url_parse :: url_parser
  me_interfaces :: "(string + string list) option"
  me_latency_ms :: u64

record monitor_state =
  mon_check_count :: u64
  mon_all_disabled_warned :: bool
  mon_metrics :: "metrics option"

definition inspect_auth_endpoint_via ::
  "monitor_env \<Rightarrow> string \<Rightarrow> duration \<Rightarrow> auth_endpoint_state"
where
  "inspect_auth_endpoint_via env auth_url timeout =
     (case parse_url_host_port (me_url_parse env) auth_url of
        None \<Rightarrow> Invalid
      | Some (host, port) \<Rightarrow> if me_dial env timeout host port then Reachable else Unreachable)"

definition probe_local_link :: "monitor_env \<Rightarrow> local_link_state" where
  "probe_local_link env =
     (case me_interfaces env of
        None \<Rightarrow> ProbeFailed
      | Some (Inl _) \<Rightarrow> ProbeFailed
      | Some (Inr ifs) \<Rightarrow> if ifs = [] then Unavailable else Available)"

definition collect_evidence :: "monitor_env \<Rightarrow> monitor_config \<Rightarrow> probe_evidence" where
  "collect_evidence env cfg =
     probe_evidence_new
       (if mc_tcp_enabled cfg then tcp_probe_run (me_dial env (mc_tcp_timeout cfg)) (mc_tcp_targets cfg)
        else Disabled)
       (if mc_http_enabled cfg then fst (http_probe_run (me_get env (mc_http_timeout cfg)) (mc_http_targets cfg))
        else Disabled)
       (if mc_url_enabled cfg
        then fst (url_probe_run (me_get env (mc_url_timeout cfg)) (mc_url_expected cfg) (mc_url_targets cfg))
        else Disabled)"

definition auth_endpoint_of :: "monitor_env \<Rightarrow> monitor_config \<Rightarrow> profile_snapshot \<Rightarrow> auth_endpoint_state" where
  "auth_endpoint_of env cfg p =
     (if is_in_process (sn_login_channel p) then EndpointNotChecked
      else if uses_redirect_login p then SkippedRedirectMode
      else if trim (sn_auth_url p) = [] then Missing
      else inspect_auth_endpoint_via env (sn_auth_url p) (mc_auth_url_timeout cfg))"

text \<open>The judgement of one round (the body of \<open>check_once_via\<close> after the probes): the final
  evidence and assessment.\<close>

definition judge_round ::
  "check_purpose \<Rightarrow> monitor_config \<Rightarrow> profile_snapshot \<Rightarrow> auth_endpoint_state \<Rightarrow> local_link_state
     \<Rightarrow> probe_evidence \<Rightarrow> probe_evidence \<times> connectivity_assessment"
where
  "judge_round purpose cfg profile endpoint link evidence0 =
     (let a0 = assess_connectivity evidence0;
          a1 = (if purpose = AutoMonitor \<and> ca_advice a0 \<noteq> NoProbeEvidence \<and> ca_status a0 \<noteq> Online
                then apply_auth_endpoint a0 endpoint
                else if purpose \<noteq> AutoMonitor
                then a0\<lparr>ca_auth_endpoint := EndpointNotChecked, ca_advice := NotEvaluated\<rparr>
                else a0);
          redirect_fallback = (purpose = AutoMonitor \<and> mc_strict_login_mode cfg
                               \<and> uses_redirect_login profile \<and> redirect_fallback_candidate a1);
          want_local_link = (case purpose of
              AutoMonitor \<Rightarrow> redirect_fallback \<or> (\<not> mc_strict_login_mode cfg \<and> lenient_trigger_candidate a1)
            | ManualDiagnostic \<Rightarrow> False
            | PostLoginVerification \<Rightarrow> False);
          evidence = (if want_local_link then evidence0\<lparr>ev_local_link := link\<rparr> else evidence0);
          a2 = (if redirect_fallback then apply_redirect_fallback a1 (ev_local_link evidence) else a1);
          a3 = (if purpose = AutoMonitor \<and> \<not> mc_strict_login_mode cfg
                then apply_lenient_trigger a2 (ev_local_link evidence) else a2)
      in (evidence, a3))"

definition finalize_report ::
  "probe_evidence \<Rightarrow> connectivity_assessment \<Rightarrow> u64 \<Rightarrow> monitor_state \<Rightarrow> probe_report \<times> monitor_state"
where
  "finalize_report evidence a latency_ms ms =
     (let n = mon_check_count ms + 1;
          ms' = ms\<lparr>mon_check_count := n, mon_metrics := map_option (record_probe latency_ms) (mon_metrics ms)\<rparr>
      in (\<lparr>pr_evidence = evidence, pr_assessment = a, pr_latency_ms = latency_ms, pr_check_number = n\<rparr>, ms'))"

definition check_once_via ::
  "monitor_env \<Rightarrow> runtime_config \<Rightarrow> check_purpose \<Rightarrow> network_settings option \<Rightarrow> monitor_state
     \<Rightarrow> (string + probe_report) \<times> monitor_state"
where
  "check_once_via env rt purpose network ms0 =
     (let cfg = monitor_config_from_runtime rt;
          all_off = (\<not> mc_tcp_enabled cfg \<and> \<not> mc_http_enabled cfg \<and> \<not> mc_url_enabled cfg);
          ms = ms0\<lparr>mon_all_disabled_warned := all_off\<rparr>
      in case me_prepare env (case network of Some n \<Rightarrow> n | None \<Rightarrow> rc_network rt)
                (bs_ignore_https_errors (rc_browser rt)) of
           Inl e \<Rightarrow> (Inl e, ms)
         | Inr _ \<Rightarrow>
             let (evidence, a) = judge_round purpose cfg (rc_profile rt)
                    (auth_endpoint_of env cfg (rc_profile rt)) (probe_local_link env) (collect_evidence env cfg);
                 (report, ms') = finalize_report evidence a (me_latency_ms env) ms
             in (Inr report, ms'))"

definition check_auto_monitor ::
  "monitor_env \<Rightarrow> runtime_config \<Rightarrow> monitor_state \<Rightarrow> (string + probe_report) \<times> monitor_state"
where
  "check_auto_monitor env rt ms = check_once_via env rt AutoMonitor None ms"

definition diagnose_once ::
  "monitor_env \<Rightarrow> runtime_config \<Rightarrow> monitor_state \<Rightarrow> (string + probe_report) \<times> monitor_state"
where
  "diagnose_once env rt ms = check_once_via env rt ManualDiagnostic None ms"

definition verify_internet ::
  "monitor_env \<Rightarrow> runtime_config \<Rightarrow> monitor_state \<Rightarrow> (string + probe_report) \<times> monitor_state"
where
  "verify_internet env rt ms = check_once_via env rt PostLoginVerification None ms"

definition verify_internet_via ::
  "monitor_env \<Rightarrow> runtime_config \<Rightarrow> network_settings \<Rightarrow> monitor_state \<Rightarrow> (string + probe_report) \<times> monitor_state"
where
  "verify_internet_via env rt network ms = check_once_via env rt PostLoginVerification (Some network) ms"

definition metrics_totals :: "monitor_state \<Rightarrow> (u64 \<times> u64) option" where
  "metrics_totals ms = map_option (\<lambda>m. (mt_probe_total m, mt_login_total m)) (mon_metrics ms)"

section \<open>Lemmas\<close>

lemmas check_defs = check_auto_monitor_def diagnose_once_def verify_internet_def verify_internet_via_def

lemma collect_evidence_ok: "evidence_ok (collect_evidence env cfg)"
  using tcp_probe_range by (auto simp: evidence_ok_def collect_evidence_def)

lemma collect_evidence_link [simp]: "ev_local_link (collect_evidence env cfg) = LinkNotChecked"
  by (simp add: collect_evidence_def)

text \<open>With evidence the probes can produce, the assertion in \<open>assess_connectivity\<close> holds: the
  weak-evidence branch is only reached when the TCP race passed.\<close>

lemma weak_evidence_tcp_pass:
  "evidence_ok ev \<Longrightarrow> ca_reason (assess_connectivity ev) = WeakEvidenceOnly \<Longrightarrow> ev_tcp ev = Pass"
  by (cases "ev_tcp ev"; cases "ev_http ev"; cases "ev_url ev")
     (simp_all add: evidence_ok_def assess_connectivity_def assessment_def Let_def)

lemma judge_manual:
  "purpose \<noteq> AutoMonitor \<Longrightarrow>
     judge_round purpose cfg p ep l ev =
       (ev, (assess_connectivity ev)\<lparr>ca_auth_endpoint := EndpointNotChecked, ca_advice := NotEvaluated\<rparr>)"
  by (cases purpose) (simp_all add: judge_round_def Let_def)

lemma judge_online:
  assumes "ca_status (assess_connectivity ev) = Online"
  shows "judge_round AutoMonitor cfg p ep l ev = (ev, assess_connectivity ev)"
proof -
  have "\<not> redirect_fallback_candidate (assess_connectivity ev)"
    and "\<not> lenient_trigger_candidate (assess_connectivity ev)"
    using assms by (simp_all add: redirect_fallback_candidate_def lenient_trigger_candidate_def)
  with assms show ?thesis
    by (simp add: judge_round_def Let_def lenient.app_keeps_online)
qed

text \<open>The assessment before the fallbacks, and the round as fallbacks applied to it.\<close>

definition strict_assessment :: "auth_endpoint_state \<Rightarrow> probe_evidence \<Rightarrow> connectivity_assessment" where
  "strict_assessment ep ev =
     (let a0 = assess_connectivity ev in
      if ca_advice a0 \<noteq> NoProbeEvidence \<and> ca_status a0 \<noteq> Online then apply_auth_endpoint a0 ep else a0)"

lemma strict_assessment_ok: "assessment_ok (strict_assessment ep ev)"
  by (simp add: strict_assessment_def Let_def assess_ok auth_endpoint_ok)

lemma redirect_cand_lenient: "redirect_fallback_candidate a \<Longrightarrow> lenient_trigger_candidate a"
  by (auto simp: redirect_fallback_candidate_def lenient_trigger_candidate_def)

lemma judge_auto:
  assumes "ev_local_link ev = LinkNotChecked"
  shows "snd (judge_round AutoMonitor cfg p ep l ev) =
     (let a = strict_assessment ep ev in
      if \<not> mc_strict_login_mode cfg then apply_lenient_trigger a l
      else if uses_redirect_login p then apply_redirect_fallback a l
      else a)"
proof (cases "mc_strict_login_mode cfg")
  case True
  then show ?thesis
    by (auto simp: judge_round_def strict_assessment_def Let_def apply_redirect_fallback_def)
next
  case False
  then show ?thesis
    by (auto simp: judge_round_def strict_assessment_def Let_def apply_lenient_trigger_def assms)
qed

lemma judge_auto_ok:
  assumes "ev_local_link ev = LinkNotChecked"
  shows "assessment_ok (snd (judge_round AutoMonitor cfg p ep l ev))"
  unfolding judge_auto [OF assms]
  by (simp add: Let_def strict_assessment_ok lenient.app_ok redirect.app_ok)

lemma check_once_report:
  "check_once_via env rt purpose network ms = (Inr report, ms') \<Longrightarrow>
     (pr_evidence report, pr_assessment report) =
       judge_round purpose (monitor_config_from_runtime rt) (rc_profile rt)
         (auth_endpoint_of env (monitor_config_from_runtime rt) (rc_profile rt)) (probe_local_link env)
         (collect_evidence env (monitor_config_from_runtime rt))"
  by (auto simp: check_once_via_def finalize_report_def Let_def split: sum.splits prod.splits)

lemma check_once_completes:
  "(\<And>n b. me_prepare env n b = Inr ()) \<Longrightarrow> \<exists>report ms'. check_once_via env rt purpose network ms = (Inr report, ms')"
  by (simp add: check_once_via_def finalize_report_def Let_def split: prod.split)

lemma assess_login_captive:
  "login_advice (ca_advice (assess_connectivity ev)) \<Longrightarrow> ca_status (assess_connectivity ev) = CaptivePortal"
  by (auto simp: assess_connectivity_def assessment_def Let_def login_advice_def split: if_splits)

lemma auth_endpoint_login:
  "login_advice (ca_advice (apply_auth_endpoint a ep)) \<Longrightarrow>
     ca_status a = CaptivePortal \<or> ep = Reachable \<or> login_advice (ca_advice a)"
  by (cases "ca_status a"; cases ep) (auto simp: apply_auth_endpoint_def login_advice_def Let_def)

lemma strict_login_advice:
  "login_advice (ca_advice (strict_assessment ep ev)) \<Longrightarrow>
     ca_status (assess_connectivity ev) = CaptivePortal \<or> ep = Reachable"
  using auth_endpoint_login assess_login_captive
  by (fastforce simp: strict_assessment_def Let_def split: if_splits)

lemma auth_endpoint_reachable:
  "auth_endpoint_of env cfg p = Reachable \<Longrightarrow>
     sn_login_channel p = ChBrowser \<and> trim (sn_trigger_url p) = [] \<and> trim (sn_auth_url p) \<noteq> [] \<and>
     (\<exists>h pt. parse_url_host_port (me_url_parse env) (sn_auth_url p) = Some (h, pt)
        \<and> me_dial env (mc_auth_url_timeout cfg) h pt)"
  by (cases "sn_login_channel p")
     (auto simp: auth_endpoint_of_def inspect_auth_endpoint_via_def is_in_process_def
        uses_redirect_login_def split: if_splits option.splits)

lemma local_link_available:
  "probe_local_link env = Available \<longleftrightarrow> (\<exists>ifs. me_interfaces env = Some (Inr ifs) \<and> ifs \<noteq> [])"
  by (auto simp: probe_local_link_def split: option.splits sum.splits)

lemma assessment_ok_login: "assessment_ok a \<Longrightarrow> login_advice (ca_advice a) \<Longrightarrow> ca_status a \<noteq> Online"
proof
  assume ok: "assessment_ok a" and l: "login_advice (ca_advice a)" and o': "ca_status a = Online"
  from ok o' have "ca_advice a = NoAction" unfolding assessment_ok_def by blast
  with l show False by (simp add: login_advice_def)
qed

lemma judge_login_cases:
  assumes "ev_local_link ev = LinkNotChecked"
    and "login_advice (ca_advice (snd (judge_round AutoMonitor cfg p ep l ev)))"
  shows "ca_status (assess_connectivity ev) = CaptivePortal \<or> ep = Reachable \<or>
     l = Available \<and> ca_confidence (snd (judge_round AutoMonitor cfg p ep l ev)) = Low \<and>
     (if mc_strict_login_mode cfg
      then uses_redirect_login p
        \<and> ca_advice (snd (judge_round AutoMonitor cfg p ep l ev)) = AttemptLoginOnce
      else ca_advice (snd (judge_round AutoMonitor cfg p ep l ev)) = AttemptLogin)"
proof (cases "login_advice (ca_advice (strict_assessment ep ev))")
  case True
  then show ?thesis using strict_login_advice by blast
next
  case False
  with assms show ?thesis
    by (auto simp: judge_auto Let_def apply_lenient_trigger_def apply_redirect_fallback_def split: if_splits)
qed

section \<open>Properties\<close>

text \<open>C28. An automatic check advises a login only with a reason: a strong probe saw the portal; or
  the browser profile's fixed login address accepts connections; or the local link is up and
  either strict mode is off, or the profile logs in by redirect and the advice is limited to one
  careful attempt (both marked as low confidence). It never does so when the network is online.\<close>

theorem auto_login_advice_sound:
  assumes "check_auto_monitor env rt ms = (Inr report, ms')"
    and "login_advice (ca_advice (pr_assessment report))"
  shows "ca_status (pr_assessment report) \<noteq> Online \<and>
    (ev_http (pr_evidence report) = Captive \<or> ev_url (pr_evidence report) = Captive
     \<or> sn_login_channel (rc_profile rt) = ChBrowser \<and> trim (sn_auth_url (rc_profile rt)) \<noteq> [] \<and>
       (\<exists>h pt. parse_url_host_port (me_url_parse env) (sn_auth_url (rc_profile rt)) = Some (h, pt)
          \<and> me_dial env (from_secs (unat (ms_auth_url_timeout (rc_monitor rt)))) h pt)
     \<or> (\<exists>ifs. me_interfaces env = Some (Inr ifs) \<and> ifs \<noteq> []) \<and>
       ca_confidence (pr_assessment report) = Low \<and>
       (if ms_strict_login_mode (rc_monitor rt)
        then uses_redirect_login (rc_profile rt) \<and> ca_advice (pr_assessment report) = AttemptLoginOnce
        else ca_advice (pr_assessment report) = AttemptLogin))"
proof -
  define cfg where "cfg = monitor_config_from_runtime rt"
  define ep where "ep = auth_endpoint_of env cfg (rc_profile rt)"
  define ev where "ev = collect_evidence env cfg"
  have cfg: "mc_strict_login_mode cfg = ms_strict_login_mode (rc_monitor rt)"
    "mc_auth_url_timeout cfg = from_secs (unat (ms_auth_url_timeout (rc_monitor rt)))"
    by (simp_all add: cfg_def monitor_config_from_runtime_def Let_def)
  have link: "ev_local_link ev = LinkNotChecked" by (simp add: ev_def)
  have r: "(pr_evidence report, pr_assessment report) =
      judge_round AutoMonitor cfg (rc_profile rt) ep (probe_local_link env) ev"
    using check_once_report assms(1) unfolding check_auto_monitor_def cfg_def ep_def ev_def by blast
  have a: "pr_assessment report = snd (judge_round AutoMonitor cfg (rc_profile rt) ep (probe_local_link env) ev)"
    using arg_cong [OF r, of snd] by (simp only: snd_conv)
  have e: "pr_evidence report = fst (judge_round AutoMonitor cfg (rc_profile rt) ep (probe_local_link env) ev)"
    using arg_cong [OF r, of fst] by (simp only: fst_conv)
  have "assessment_ok (pr_assessment report)" unfolding a by (rule judge_auto_ok [OF link])
  then have on: "ca_status (pr_assessment report) \<noteq> Online"
    using assms(2) by (rule assessment_ok_login)
  have eq: "ev_http (pr_evidence report) = ev_http ev" "ev_url (pr_evidence report) = ev_url ev"
    unfolding e judge_round_def Let_def by simp_all
  have adv: "login_advice (ca_advice (snd (judge_round AutoMonitor cfg (rc_profile rt) ep (probe_local_link env) ev)))"
    using assms(2) unfolding a .
  from judge_login_cases [OF link adv, unfolded a [symmetric] cfg assess_status_captive]
  consider "ev_http ev = Captive \<or> ev_url ev = Captive" | "ep = Reachable"
    | "probe_local_link env = Available \<and> ca_confidence (pr_assessment report) = Low \<and>
       (if ms_strict_login_mode (rc_monitor rt)
        then uses_redirect_login (rc_profile rt) \<and> ca_advice (pr_assessment report) = AttemptLoginOnce
        else ca_advice (pr_assessment report) = AttemptLogin)"
    by (elim disjE) simp_all
  then show ?thesis
  proof cases
    case 1
    then show ?thesis using on unfolding eq by blast
  next
    case 2
    with auth_endpoint_reachable [of env cfg "rc_profile rt"] on show ?thesis
      unfolding ep_def cfg(2) by blast
  next
    case 3
    with on show ?thesis unfolding local_link_available by blast
  qed
qed

definition demo_runtime :: runtime_config where
  "demo_runtime = build_runtime_config (\<lambda>_ _. (Inr [] :: unit + string)) settings_data_default profile_data_default"

text \<open>A gateway that answers every request with its login page.\<close>

definition demo_captive_env :: monitor_env where
  "demo_captive_env =
     \<lparr>me_prepare = (\<lambda>_ _. Inr ()), me_dial = (\<lambda>_ _ _. False),
      me_get = (\<lambda>_ _. Inr \<lparr>rs_status = 200, rs_location = None, rs_body = []\<rparr>),
      me_url_parse = (\<lambda>_. None), me_interfaces = None, me_latency_ms = 12\<rparr>"

definition demo_monitor :: monitor_state where
  "demo_monitor = \<lparr>mon_check_count = 0, mon_all_disabled_warned = False, mon_metrics = Some metrics_new\<rparr>"

lemma demo_captive_report:
  "\<exists>report ms'. check_auto_monitor demo_captive_env demo_runtime demo_monitor = (Inr report, ms')
     \<and> ca_advice (pr_assessment report) = AttemptLogin"
proof -
  let ?cfg = "monitor_config_from_runtime demo_runtime"
  have cfg: "mc_tcp_enabled ?cfg = False" "mc_http_enabled ?cfg = True" "mc_url_enabled ?cfg = False"
    "mc_http_targets ?cfg \<noteq> []" "mc_strict_login_mode ?cfg = True"
    by (simp_all add: monitor_config_from_runtime_def demo_runtime_def settings_data_default_def
        global_config_default_def monitor_settings_default_def Let_def)
  have "tcp_probe_run d ts \<noteq> Captive" for d ts by (simp add: tcp_probe_run_def)
  have "fst (http_probe_run (me_get demo_captive_env (mc_http_timeout ?cfg)) (mc_http_targets ?cfg)) = Captive"
    using cfg(4) by (cases "mc_http_targets ?cfg")
      (simp_all add: http_probe_run_def summarize_outcome probe_http_one_def demo_captive_env_def Let_def)
  then have ev: "collect_evidence demo_captive_env ?cfg = probe_evidence_new Disabled Captive Disabled"
    by (simp add: collect_evidence_def cfg)
  have ep: "auth_endpoint_of demo_captive_env ?cfg (rc_profile demo_runtime) = SkippedRedirectMode"
    by (simp add: auth_endpoint_of_def demo_runtime_def redirect_login_of_build is_in_process_def
        profile_data_default_def)
  have st: "strict_assessment SkippedRedirectMode (probe_evidence_new Disabled Captive Disabled)
      = (assessment CaptivePortal High CaptiveDetected AttemptLogin)\<lparr>ca_auth_endpoint := SkippedRedirectMode\<rparr>"
    by (simp add: strict_assessment_def assess_connectivity_def assessment_def apply_auth_endpoint_def Let_def)
  have prep: "me_prepare demo_captive_env n b = Inr ()" for n b by (simp add: demo_captive_env_def)
  obtain report ms' where c: "check_auto_monitor demo_captive_env demo_runtime demo_monitor = (Inr report, ms')"
    using check_once_completes [OF prep] unfolding check_auto_monitor_def by blast
  have "pr_assessment report = snd (judge_round AutoMonitor ?cfg (rc_profile demo_runtime) SkippedRedirectMode
      (probe_local_link demo_captive_env) (probe_evidence_new Disabled Captive Disabled))"
    using check_once_report [OF c [unfolded check_auto_monitor_def]] unfolding ep ev by (metis snd_conv)
  also have "\<dots> = (assessment CaptivePortal High CaptiveDetected AttemptLogin)\<lparr>ca_auth_endpoint := SkippedRedirectMode\<rparr>"
    by (simp add: judge_auto st cfg redirect.app_keeps_login assessment_def login_advice_def Let_def)
  finally show ?thesis using c by (auto simp: assessment_def)
qed

theorem auto_login_advice_sound_witness:
  "\<exists>report ms'. check_auto_monitor demo_captive_env demo_runtime demo_monitor = (Inr report, ms')
     \<and> ca_status (pr_assessment report) \<noteq> Online"
proof -
  obtain report ms' where c: "check_auto_monitor demo_captive_env demo_runtime demo_monitor = (Inr report, ms')"
    and adv: "ca_advice (pr_assessment report) = AttemptLogin"
    using demo_captive_report by blast
  have l: "login_advice (ca_advice (pr_assessment report))" by (simp add: adv login_advice_def)
  show ?thesis using auto_login_advice_sound [OF c l] c by blast
qed

text \<open>A user's diagnosis and the check after a login only measure: they give no recovery
  advice, report the endpoint as unchecked and never list the interfaces, while their status is
  that of the public probes alone.\<close>

theorem diagnosis_only_measures:
  "list_all (\<lambda>result. case fst result of
       Inl _ \<Rightarrow> True
     | Inr r \<Rightarrow> ca_advice (pr_assessment r) = NotEvaluated
         \<and> ca_auth_endpoint (pr_assessment r) = EndpointNotChecked
         \<and> ev_local_link (pr_evidence r) = LinkNotChecked
         \<and> ca_status (pr_assessment r) = ca_status (assess_connectivity (pr_evidence r)))
     [diagnose_once env rt ms, verify_internet env rt ms, verify_internet_via env rt net ms]"
  by (simp add: check_defs check_once_via_def judge_manual finalize_report_def Let_def
      split: sum.split)

text \<open>Counting: a check that gets an egress is counted exactly once, in its own number, in the
  check counter and in the probe total; a check whose egress cannot be prepared is not counted.\<close>

theorem check_counted_once:
  "case check_once_via env rt purpose network ms of
     (Inl _, ms') \<Rightarrow> mon_check_count ms' = mon_check_count ms \<and> mon_metrics ms' = mon_metrics ms
   | (Inr r, ms') \<Rightarrow> pr_check_number r = mon_check_count ms + 1 \<and> mon_check_count ms' = mon_check_count ms + 1
       \<and> metrics_totals ms' = map_option (\<lambda>(p, l). (p + 1, l)) (metrics_totals ms)"
  by (cases "mon_metrics ms")
     (auto simp: check_once_via_def finalize_report_def Let_def metrics_totals_def record_probe_def
        split: sum.split prod.split)

end
