(* ===== verification/Status_Board.thy ===== *)
theory Status_Board
  imports Net_Model
begin

text \<open>
  \<open>status/\<close>: the global status snapshot, its partial updates, the manager that merges and
  publishes them, and the notifier that reports a failing profile once.
\<close>

section \<open>The snapshot\<close>

datatype engine_state = Running | Stopped | Dead

datatype login_status = Idle | LoginRunning | LoginSuccess | LoginFailed | LoginCancelled

datatype login_source = SrcAuto | SrcManual | SrcLoginOnce | SrcBrowser

datatype worker_status = NotInstalled | WorkerStopped | Starting | Ready | Busy | WorkerError

record install_progress =
  ip_phase :: string
  ip_percent :: u8
  ip_message :: string

record status_snapshot =
  ss_snapshot_version :: u64
  ss_engine_state :: engine_state
  ss_cooling_down :: bool
  ss_cooling_down_remaining :: "u32 option"
  ss_consecutive_failures :: u32
  ss_network_status :: network_status
  ss_connectivity :: connectivity_assessment
  ss_last_probe_evidence :: "probe_evidence option"
  ss_last_check_time :: "wall option"
  ss_login_status :: login_status
  ss_login_source :: "login_source option"
  ss_login_message :: "string option"
  ss_retry_count :: u32
  ss_active_profile :: string
  ss_monitor_enabled :: bool
  ss_pause_active :: bool
  ss_update_available :: bool
  ss_update_progress :: "install_progress option"
  ss_worker_state :: worker_status
  ss_environment_progress :: "install_progress option"
  ss_uptime_seconds :: u64
  ss_monitoring_seconds :: u64
  ss_monitoring_started_at :: "wall option"
  ss_scheduler_running :: bool
  ss_scheduler_next_fire_at :: "string option"
  ss_scheduler_task_count :: nat
  ss_probe_total :: u64
  ss_login_total :: u64

definition status_snapshot_default :: status_snapshot where
  "status_snapshot_default =
     \<lparr>ss_snapshot_version = 0, ss_engine_state = Stopped, ss_cooling_down = False,
      ss_cooling_down_remaining = None, ss_consecutive_failures = 0, ss_network_status = Unknown,
      ss_connectivity = assessment_default, ss_last_probe_evidence = None, ss_last_check_time = None,
      ss_login_status = Idle, ss_login_source = None, ss_login_message = None, ss_retry_count = 0,
      ss_active_profile = ''default'', ss_monitor_enabled = True, ss_pause_active = False,
      ss_update_available = False, ss_update_progress = None, ss_worker_state = NotInstalled,
      ss_environment_progress = None, ss_uptime_seconds = 0, ss_monitoring_seconds = 0,
      ss_monitoring_started_at = None, ss_scheduler_running = False, ss_scheduler_next_fire_at = None,
      ss_scheduler_task_count = 0, ss_probe_total = 0, ss_login_total = 0\<rparr>"

section \<open>Partial updates\<close>

datatype partial_snapshot =
    PEngine engine_state network_status connectivity_assessment "probe_evidence option" wall bool
      bool "u32 option" u32
  | PLogin login_status "login_source option" "string option" u32
  | PWorker worker_status
  | PEnvironment "install_progress option"
  | PUpdate bool "install_progress option"
  | PActiveProfile string
  | PMonitorEnabled bool
  | PUptime u64
  | PScheduler bool "string option" nat
  | PTotals u64 u64

text \<open>Seconds between two wall-clock readings, negative differences counted as zero.\<close>

definition elapsed_secs :: "wall \<Rightarrow> wall \<Rightarrow> u64" where
  "elapsed_secs now t = word_of_nat (nat ((w_stamp now - w_stamp t) div int NANOS))"

text \<open>\<open>now\<close> is the reading of \<open>Local::now()\<close> inside the update.\<close>

fun apply_partial :: "wall \<Rightarrow> partial_snapshot \<Rightarrow> status_snapshot \<Rightarrow> status_snapshot" where
  "apply_partial now (PEngine state network assessment evidence last_check pause cooling remaining failures) s =
     s\<lparr>ss_monitoring_started_at :=
         (case state of
            Running \<Rightarrow> if ss_engine_state s \<noteq> Running then Some now else ss_monitoring_started_at s
          | _ \<Rightarrow> None),
       ss_engine_state := state,
       ss_network_status := network,
       ss_connectivity := assessment,
       ss_last_probe_evidence := evidence,
       ss_last_check_time := Some last_check,
       ss_pause_active := pause,
       ss_cooling_down := cooling,
       ss_cooling_down_remaining := remaining,
       ss_consecutive_failures := failures\<rparr>"
| "apply_partial now (PLogin status source message retry_count) s =
     s\<lparr>ss_login_status := status, ss_login_source := source, ss_login_message := message,
       ss_retry_count := retry_count\<rparr>"
| "apply_partial now (PWorker state) s = s\<lparr>ss_worker_state := state\<rparr>"
| "apply_partial now (PEnvironment progress) s = s\<lparr>ss_environment_progress := progress\<rparr>"
| "apply_partial now (PUpdate available progress) s =
     s\<lparr>ss_update_available := available, ss_update_progress := progress\<rparr>"
| "apply_partial now (PActiveProfile id') s = s\<lparr>ss_active_profile := id'\<rparr>"
| "apply_partial now (PMonitorEnabled enabled) s = s\<lparr>ss_monitor_enabled := enabled\<rparr>"
| "apply_partial now (PUptime secs) s =
     s\<lparr>ss_uptime_seconds := secs,
       ss_monitoring_seconds := (case ss_monitoring_started_at s of
          Some t \<Rightarrow> elapsed_secs now t | None \<Rightarrow> 0)\<rparr>"
| "apply_partial now (PScheduler running next_fire_at task_count) s =
     s\<lparr>ss_scheduler_running := running, ss_scheduler_next_fire_at := next_fire_at,
       ss_scheduler_task_count := task_count\<rparr>"
| "apply_partial now (PTotals probe_total login_total) s =
     s\<lparr>ss_probe_total := probe_total, ss_login_total := login_total\<rparr>"

text \<open>\<open>StatusManager::merge\<close>: update and version step in one critical section.\<close>

fun merge :: "wall \<times> partial_snapshot \<Rightarrow> status_snapshot \<Rightarrow> status_snapshot" where
  "merge (now, p) s =
     (let s' = apply_partial now p s
      in s'\<lparr>ss_snapshot_version := sat_add (ss_snapshot_version s') 1\<rparr>)"

declare merge.simps [simp del]

section \<open>The notifier\<close>

type_synonym notifier = "string set"

definition notifier_new :: notifier where
  "notifier_new = {}"

definition should_notify_login_failure :: "string \<Rightarrow> notifier \<Rightarrow> bool \<times> notifier" where
  "should_notify_login_failure profile n =
     (if profile \<in> n then (False, n) else (True, insert profile n))"

definition on_profile_switch :: "notifier \<Rightarrow> notifier" where
  "on_profile_switch n = {}"

definition on_login_success :: "string \<Rightarrow> notifier \<Rightarrow> notifier" where
  "on_login_success profile n = n - {profile}"

section \<open>Lemmas\<close>

lemma apply_partial_version [frame_simps]:
  "ss_snapshot_version (apply_partial now p s) = ss_snapshot_version s"
  by (cases p) simp_all

lemma merge_version: "ss_snapshot_version (merge np s) = sat_add (ss_snapshot_version s) 1"
  by (cases np) (simp add: merge.simps Let_def apply_partial_version)

text \<open>The start of the monitoring run is recorded exactly while the engine runs.\<close>

definition started_ok :: "status_snapshot \<Rightarrow> bool" where
  "started_ok s \<longleftrightarrow> (ss_monitoring_started_at s \<noteq> None \<longleftrightarrow> ss_engine_state s = Running)"

lemma started_ok_default: "started_ok status_snapshot_default"
  by (simp add: started_ok_def status_snapshot_default_def)

lemma started_ok_apply: "started_ok s \<Longrightarrow> started_ok (apply_partial now p s)"
  by (cases p) (auto simp: started_ok_def split: engine_state.split)

lemma started_ok_merge: "started_ok s \<Longrightarrow> started_ok (merge np s)"
  using started_ok_apply [of s "fst np" "snd np"]
  by (cases np) (simp add: merge.simps Let_def started_ok_def)

interpretation board: machine merge status_snapshot_default started_ok
  by unfold_locales (auto intro: started_ok_default started_ok_merge)

interpretation board_version: versioned_machine merge ss_snapshot_version
  by unfold_locales (rule merge_version)

text \<open>Within one run of the engine the start time stays what it was at the first update.\<close>

lemma started_at_stable:
  assumes "ss_engine_state s = Running"
    and "\<forall>np\<in>set nps. case snd np of PEngine st _ _ _ _ _ _ _ _ \<Rightarrow> st = Running | _ \<Rightarrow> True"
  shows "ss_engine_state (fold merge nps s) = Running
    \<and> ss_monitoring_started_at (fold merge nps s) = ss_monitoring_started_at s"
  using assms
proof (induction nps arbitrary: s)
  case Nil
  then show ?case by simp
next
  case (Cons np nps)
  obtain t p where np: "np = (t, p)" by (cases np)
  have "ss_engine_state (merge np s) = Running \<and> ss_monitoring_started_at (merge np s) = ss_monitoring_started_at s"
    using Cons.prems by (cases p) (auto simp: np merge.simps Let_def)
  then show ?case using Cons.IH [of "merge np s"] Cons.prems(2) by simp
qed

section \<open>Properties\<close>

text \<open>What subscribers see: after any sequence of merges the version is the number of merges
  (saturating), so it strictly increases with each one below the limit, and the recorded start
  of monitoring exists exactly when the engine state is \<open>Running\<close>.\<close>

theorem board_version_and_start:
  "unat (ss_snapshot_version (fold merge nps status_snapshot_default)) = min (length nps) (2 ^ 64 - 1)
   \<and> (ss_monitoring_started_at (fold merge nps status_snapshot_default) \<noteq> None
        \<longleftrightarrow> ss_engine_state (fold merge nps status_snapshot_default) = Running)"
  using board_version.version_run [of nps status_snapshot_default] board.inv_run [of nps]
  by (simp add: started_ok_def status_snapshot_default_def)

text \<open>The monitoring clock survives everything except leaving \<open>Running\<close>: over any merges whose
  engine updates all say \<open>Running\<close>, a following heartbeat shows the seconds since the start
  recorded at the beginning.\<close>

theorem heartbeat_counts_from_start:
  assumes "ss_engine_state s = Running" and "ss_monitoring_started_at s = Some t0"
    and "\<forall>np\<in>set nps. case snd np of PEngine st _ _ _ _ _ _ _ _ \<Rightarrow> st = Running | _ \<Rightarrow> True"
  shows "ss_monitoring_seconds (merge (now, PUptime u) (fold merge nps s)) = elapsed_secs now t0"
  using started_at_stable [OF assms(1,3)] assms(2) by (simp add: merge.simps Let_def)

definition demo_wall :: "int \<Rightarrow> wall" where
  "demo_wall secs = \<lparr>w_stamp = secs * int NANOS, w_hour = 12, w_minute = 0\<rparr>"

definition demo_running :: status_snapshot where
  "demo_running = merge (demo_wall 0,
     PEngine Running Unknown assessment_default None (demo_wall 0) False False None 0) status_snapshot_default"

theorem heartbeat_counts_from_start_witness:
  "ss_monitoring_seconds (merge (demo_wall 95, PUptime 100) (fold merge [(demo_wall 30, PWorker Busy)] demo_running)) = 95"
proof -
  have "ss_engine_state demo_running = Running" "ss_monitoring_started_at demo_running = Some (demo_wall 0)"
    by (simp_all add: demo_running_def merge.simps status_snapshot_default_def Let_def)
  then have "ss_monitoring_seconds (merge (demo_wall 95, PUptime 100)
      (fold merge [(demo_wall 30, PWorker Busy)] demo_running)) = elapsed_secs (demo_wall 95) (demo_wall 0)"
    by (rule heartbeat_counts_from_start) simp
  then show ?thesis by (simp add: elapsed_secs_def demo_wall_def NANOS_def)
qed

end
