(* ===== verification/Login_Types.thy ===== *)
theory Login_Types
  imports Status_Board
begin

text \<open>
  The values the login component hands to the engine and the scheduler
  (\<open>login/session.rs\<close>, \<open>bridge/ipc.rs\<close>, \<open>login/preemption.rs\<close>): the result of one attempt,
  its classification, the backoff before a retry, the terminal result of a session, and the
  decision between reusing and replacing the running session.
\<close>

section \<open>Results\<close>

datatype login_terminal = Success | Cancelled | Failed

record login_result =
  lr_network_retryable :: bool
  lr_terminal :: login_terminal
  lr_message :: string
  lr_source :: login_source
  lr_duration :: duration
  lr_attempts :: u32

datatype outcome =
    OSuccess | OCancelled | NavigationTimeout | SelectorFailed | AssertionFailed | CaptchaFailed
  | InvalidCredential | ManualRequired | NetworkError | UnknownError

datatype result_action = Terminal login_terminal | Retry | Exhausted

fun classify :: "outcome \<Rightarrow> result_action" where
  "classify OSuccess = Terminal Success"
| "classify OCancelled = Terminal Cancelled"
| "classify InvalidCredential = Terminal Failed"
| "classify ManualRequired = Terminal Failed"
| "classify UnknownError = Terminal Failed"
| "classify CaptchaFailed = Retry"
| "classify NavigationTimeout = Retry"
| "classify SelectorFailed = Retry"
| "classify AssertionFailed = Retry"
| "classify NetworkError = Retry"

definition should_force_recycle :: "outcome \<Rightarrow> bool" where
  "should_force_recycle out \<longleftrightarrow> out = NetworkError"

text \<open>\<open>Duration\<close> holds a \<open>u64\<close> of seconds and the nanoseconds below one second.\<close>

definition DURATION_MAX :: duration where
  "DURATION_MAX = (2 ^ 64 - 1) * NANOS + (NANOS - 1)"

definition retry_backoff_delay :: "duration \<Rightarrow> u32 \<Rightarrow> duration" where
  "retry_backoff_delay base attempt =
     min DURATION_MAX (max base (from_secs 1) * unat (push_bit (unat (min (sat_sub attempt 1) 8)) (1 :: u32)))"

section \<open>Priorities\<close>

fun priority :: "login_source \<Rightarrow> u8" where
  "priority SrcLoginOnce = 4"
| "priority SrcBrowser = 3"
| "priority SrcManual = 2"
| "priority SrcAuto = 1"

datatype 'h preemption_decision = Reuse 'h | Preempt | Create

fun decide :: "login_source \<Rightarrow> login_source option \<Rightarrow> 'h option \<Rightarrow> 'h preemption_decision" where
  "decide new_source None handle = Create"
| "decide new_source (Some current) handle =
     (if new_source = current
      then (if current = SrcAuto then (case handle of Some h \<Rightarrow> Reuse h | None \<Rightarrow> Create) else Preempt)
      else if priority current < priority new_source then Preempt
      else (case handle of Some h \<Rightarrow> Reuse h | None \<Rightarrow> Create))"

section \<open>Lemmas\<close>

lemma push_bit_one_u32: "n \<le> 8 \<Longrightarrow> unat (push_bit n (1 :: u32)) = 2 ^ n"
proof -
  assume n: "n \<le> 8"
  have "(2::nat) ^ n \<le> 2 ^ 8" using n by (intro power_increasing) auto
  then have "unat (word_of_nat (2 ^ n) :: u32) = 2 ^ n" by (simp only: unat_of_nat) simp
  then show ?thesis by simp
qed

lemma unat_min: "unat (min (a :: 'a::len word) b) = min (unat a) (unat b)"
  by (simp add: min_def word_le_nat_alt)

lemma retry_backoff_eq:
  "retry_backoff_delay base attempt =
     min DURATION_MAX (max base (from_secs 1) * 2 ^ min (unat attempt - 1) 8)"
  by (simp add: retry_backoff_delay_def push_bit_one_u32 unat_min unat_sat_sub del: push_bit_of_1)

lemma backoff_at_least: "from_secs 1 \<le> retry_backoff_delay base attempt"
proof -
  have "from_secs 1 * 1 \<le> max base (from_secs 1) * 2 ^ k" for k
    by (rule mult_le_mono) simp_all
  moreover have "from_secs 1 \<le> DURATION_MAX"
    by (simp add: DURATION_MAX_def from_secs_def NANOS_def)
  ultimately show ?thesis by (simp add: retry_backoff_eq)
qed

lemma backoff_step:
  "retry_backoff_delay base (sat_add attempt 1) =
      (if unat attempt \<in> {1..8} then min DURATION_MAX (2 * retry_backoff_delay base attempt)
       else retry_backoff_delay base attempt)"
proof -
  have lt: "unat attempt < 2 ^ 32" using unsigned_less [of attempt] by simp
  have s: "unat (sat_add attempt 1) - 1 = min (unat attempt) (2 ^ 32 - 2)"
    by (auto simp: unat_sat_add min_def)
  show ?thesis
  proof (cases "unat attempt \<in> {1..8}")
    case True
    then have "min (unat (sat_add attempt 1) - 1) 8 = Suc (min (unat attempt - 1) 8)"
      unfolding s by (auto simp: min_def)
    then have "retry_backoff_delay base (sat_add attempt 1)
        = min DURATION_MAX (2 * (max base (from_secs 1) * 2 ^ min (unat attempt - 1) 8))"
      by (simp only: retry_backoff_eq power_Suc mult.left_commute)
    moreover have "min M (2 * (x::nat)) = min M (2 * min M x)" for M x by (simp add: min_def)
    ultimately have "retry_backoff_delay base (sat_add attempt 1)
        = min DURATION_MAX (2 * retry_backoff_delay base attempt)"
      unfolding retry_backoff_eq by metis
    with True show ?thesis by (simp only: if_True)
  next
    case False
    then have "min (unat (sat_add attempt 1) - 1) 8 = min (unat attempt - 1) 8"
      unfolding s using lt by (auto simp: min_def)
    then have "retry_backoff_delay base (sat_add attempt 1) = retry_backoff_delay base attempt"
      by (simp only: retry_backoff_eq)
    with False show ?thesis by (simp only: if_False)
  qed
qed

lemma backoff_le_max: "retry_backoff_delay base attempt \<le> DURATION_MAX"
  by (simp add: retry_backoff_eq)

lemma priority_inj: "priority a = priority b \<longleftrightarrow> a = b"
  by (cases a; cases b) simp_all

section \<open>Properties\<close>

text \<open>The wait before a retry never shrinks from one retry to the next, is at least one second,
  doubles with each of the first nine retries while it fits a \<open>Duration\<close>, and stays at 256 times
  the base from there on.\<close>

theorem retry_backoff_growth:
  "from_secs 1 \<le> retry_backoff_delay base attempt
   \<and> retry_backoff_delay base attempt \<le> retry_backoff_delay base (sat_add attempt 1)
   \<and> retry_backoff_delay base (sat_add attempt 1) =
      (if unat attempt \<in> {1..8} then min DURATION_MAX (2 * retry_backoff_delay base attempt)
       else retry_backoff_delay base attempt)"
  using backoff_at_least [of base attempt] backoff_le_max [of base attempt]
  by (simp add: backoff_step)

text \<open>A running session is replaced exactly by a request of higher priority or by a repeated
  manual, browser or one-shot request; an automatic login never replaces anything and, with a
  session running, always joins it.\<close>

theorem preemption_matrix:
  "(decide new_source (Some current) (Some h) = Preempt
      \<longleftrightarrow> priority current < priority new_source \<or> new_source = current \<and> current \<noteq> SrcAuto)
   \<and> (decide new_source (Some current) (Some h) \<noteq> Preempt
      \<longleftrightarrow> decide new_source (Some current) (Some h) = Reuse h)
   \<and> decide SrcAuto (Some current) (Some h) = Reuse h
   \<and> decide new_source None k = Create"
  by (cases new_source; cases current) simp_all

end
