(* ===== verification/Engine_Model.thy ===== *)
theory Engine_Model
  imports Monitor_Service Login_Types
begin

text \<open>
  \<open>engine/commands.rs\<close>, \<open>engine/mod.rs\<close>, \<open>engine/slot.rs\<close> and the pure parts and the state
  of \<open>engine/run_loop.rs\<close>: commands, the engine's private state, the world it acts on (the
  published configuration, the status board, its background tasks and channels), the pause
  window, the intervals and the timer.
\<close>

section \<open>Constants\<close>

definition COOLING_DOWN_THRESHOLD :: u32 where "COOLING_DOWN_THRESHOLD = 3"
definition COOLING_DOWN_DURATION_SECS :: nat where "COOLING_DOWN_DURATION_SECS = 300"
definition PROBE_ONLINE_BACKOFF_BASE_SECS :: u64 where "PROBE_ONLINE_BACKOFF_BASE_SECS = 30"
definition CMD_CHANNEL_CAPACITY :: nat where "CMD_CHANNEL_CAPACITY = 64"
definition PROBE_CHANNEL_CAPACITY :: nat where "PROBE_CHANNEL_CAPACITY = 8"
definition LOGIN_CHANNEL_CAPACITY :: nat where "LOGIN_CHANNEL_CAPACITY = 16"
definition DEFAULT_CHECK_INTERVAL_SECS :: u64 where "DEFAULT_CHECK_INTERVAL_SECS = 300"
definition PROFILE_CHECK_INTERVAL_MIN :: u64 where "PROFILE_CHECK_INTERVAL_MIN = 60"
definition PROFILE_CHECK_INTERVAL_MAX :: u64 where "PROFILE_CHECK_INTERVAL_MAX = 600"
definition CHECK_INTERVAL_MIN :: u64 where "CHECK_INTERVAL_MIN = 20"
definition CHECK_INTERVAL_MAX :: u64 where "CHECK_INTERVAL_MAX = 1200"

lemmas engine_consts = COOLING_DOWN_THRESHOLD_def COOLING_DOWN_DURATION_SECS_def
  PROBE_ONLINE_BACKOFF_BASE_SECS_def CMD_CHANNEL_CAPACITY_def PROBE_CHANNEL_CAPACITY_def
  LOGIN_CHANNEL_CAPACITY_def DEFAULT_CHECK_INTERVAL_SECS_def PROFILE_CHECK_INTERVAL_MIN_def
  PROFILE_CHECK_INTERVAL_MAX_def CHECK_INTERVAL_MIN_def CHECK_INTERVAL_MAX_def

section \<open>Commands and errors\<close>

datatype profile_switch_source = SwitchManual | AutoSwitch

datatype engine_command =
  Start | Stop | Reload | ApplyProfile string profile_switch_source | TestNetwork | Pause | Resume | Shutdown

datatype engine_error = ChannelFull | ChannelClosed | ProbeError string | TestNetworkTimeout

record test_network_result =
  tn_status :: network_status
  tn_confidence :: assessment_confidence
  tn_reason :: assessment_reason
  tn_local_link :: local_link_state
  tn_auth_endpoint :: auth_endpoint_state
  tn_tcp :: "string list"
  tn_http :: "string list"
  tn_url :: "string list"
  tn_duration_ms :: u64

fun outcome_debug :: "probe_outcome \<Rightarrow> string" where
  "outcome_debug Pass = ''Pass''"
| "outcome_debug Captive = ''Captive''"
| "outcome_debug Inconclusive = ''Inconclusive''"
| "outcome_debug Fail = ''Fail''"
| "outcome_debug Disabled = ''Disabled''"

text \<open>The background task of \<open>handle_test_network\<close>: the reply it sends.\<close>

definition test_network_reply :: "(string + probe_report) \<Rightarrow> u64 \<Rightarrow> engine_error + test_network_result" where
  "test_network_reply result duration_ms =
     (case result of
        Inr report \<Rightarrow>
          Inr \<lparr>tn_status = ca_status (pr_assessment report), tn_confidence = ca_confidence (pr_assessment report),
               tn_reason = ca_reason (pr_assessment report), tn_local_link = ev_local_link (pr_evidence report),
               tn_auth_endpoint = ca_auth_endpoint (pr_assessment report),
               tn_tcp = [outcome_debug (ev_tcp (pr_evidence report))],
               tn_http = [outcome_debug (ev_http (pr_evidence report))],
               tn_url = [outcome_debug (ev_url (pr_evidence report))],
               tn_duration_ms = duration_ms\<rparr>
      | Inl e \<Rightarrow> Inl (ProbeError e))"

section \<open>State\<close>

datatype probe_message = Report probe_report u64 | FailedProbe string u64

fun message_version :: "probe_message \<Rightarrow> u64" where
  "message_version (Report _ v) = v"
| "message_version (FailedProbe _ v) = v"

text \<open>\<open>tokio::time::Interval\<close> with \<open>MissedTickBehavior::Skip\<close>: period and next deadline.\<close>

record check_timer =
  ct_period :: duration
  ct_next :: instant

record engine_inner =
  in_monitoring :: bool
  in_last_assessment :: connectivity_assessment
  in_last_evidence :: "probe_evidence option"
  in_cautious_version :: "u64 option"
  in_cautious_retry_after :: "instant option"
  in_last_check_time :: "wall option"
  in_manual_paused :: bool
  in_last_profile_check :: instant
  in_timer :: check_timer
  in_consecutive_failures :: u32
  in_online_streak :: u32
  in_cooling_until :: "instant option"
  in_auto_login_in_flight :: bool
  in_probe_in_flight :: bool
  in_probe_pending :: bool
  in_notifier :: notifier

text \<open>
  What the loop acts on besides its private state: the configuration the config service has
  published and its version, whether that version changed since the loop last looked, the status
  board, the running probe tasks (each with the configuration version it captured), the probe
  channel, the number of running automatic login tasks, the login channel, the diagnosis tasks,
  the command channel, and whether the loop has ended.
\<close>

record engine_world = engine_inner +
  ew_runtime :: runtime_config
  ew_version :: u64
  ew_version_changed :: bool
  ew_status :: status_snapshot
  ew_probes :: "u64 list"
  ew_probe_rx :: "probe_message list"
  ew_logins :: nat
  ew_login_rx :: "login_result list"
  ew_diagnoses :: nat
  ew_cmds :: "engine_command list"
  ew_exited :: bool

text \<open>
  The world as one handler sees it: one reading of both clocks, and the answers of the config
  service, the profile service, the network detector and the monitor's counters, should the
  handler ask. A switch or reload that succeeds returns the new configuration and version.
\<close>

record engine_env =
  ee_now :: instant
  ee_wall :: wall
  ee_reload :: "string + runtime_config \<times> u64"
  ee_switch_profile :: "string \<Rightarrow> string + runtime_config \<times> u64"
  ee_gateways :: "string + string list"
  ee_ssid :: "string + string option"
  ee_match_profile :: "string \<Rightarrow> string \<Rightarrow> string option"
  ee_metrics_totals :: "(u64 \<times> u64) option"

section \<open>Pause window and intervals\<close>

definition is_in_pause_window :: "wall \<Rightarrow> u32 \<Rightarrow> u32 \<Rightarrow> u32 \<Rightarrow> u32 \<Rightarrow> bool" where
  "is_in_pause_window now start_hour start_minute end_hour end_minute =
     (let now_min = word_of_nat (w_hour now) * 60 + word_of_nat (w_minute now) :: u32;
          start = start_hour * 60 + start_minute;
          end' = end_hour * 60 + end_minute
      in if start = end' then True
         else if start < end' then start \<le> now_min \<and> now_min < end'
         else start \<le> now_min \<or> now_min < end')"

definition is_scheduled_pause_active :: "engine_env \<Rightarrow> runtime_config \<Rightarrow> bool" where
  "is_scheduled_pause_active env cfg =
     (ps_enabled (rc_pause cfg) \<and>
      is_in_pause_window (ee_wall env) (ucast (ps_start_hour (rc_pause cfg))) (ucast (ps_start_minute (rc_pause cfg)))
        (ucast (ps_end_hour (rc_pause cfg))) (ucast (ps_end_minute (rc_pause cfg))))"

definition is_any_pause_active :: "engine_env \<Rightarrow> engine_world \<Rightarrow> bool" where
  "is_any_pause_active env w = (in_manual_paused w \<or> is_scheduled_pause_active env (ew_runtime w))"

definition clamp :: "'a::linorder \<Rightarrow> 'a \<Rightarrow> 'a \<Rightarrow> 'a" where
  "clamp x lo hi = (if x < lo then lo else if hi < x then hi else x)"

definition check_interval_secs :: "runtime_config \<Rightarrow> u64" where
  "check_interval_secs cfg = clamp (ucast (ms_check_interval (rc_monitor cfg))) CHECK_INTERVAL_MIN CHECK_INTERVAL_MAX"

definition check_interval_duration :: "runtime_config \<Rightarrow> duration" where
  "check_interval_duration cfg = from_secs (unat (check_interval_secs cfg))"

definition profile_check_interval_duration :: "runtime_config \<Rightarrow> duration" where
  "profile_check_interval_duration cfg =
     from_secs (unat (clamp (ucast (ms_profile_check_interval (rc_monitor cfg)))
       PROFILE_CHECK_INTERVAL_MIN PROFILE_CHECK_INTERVAL_MAX))"

definition adaptive_check_interval_secs :: "network_status \<Rightarrow> u32 \<Rightarrow> u64 \<Rightarrow> u64" where
  "adaptive_check_interval_secs status online_streak base_secs =
     (if status = Online
      then min (push_bit (unat (min (sat_sub online_streak 1) 16)) PROBE_ONLINE_BACKOFF_BASE_SECS) (max base_secs 1)
      else PROBE_ONLINE_BACKOFF_BASE_SECS)"

section \<open>The timer\<close>

text \<open>\<open>new_check_timer\<close> consumes the immediate first tick. A tick more than five milliseconds late
  skips to the next multiple of the period.\<close>

definition new_check_timer :: "instant \<Rightarrow> duration \<Rightarrow> check_timer" where
  "new_check_timer now period = \<lparr>ct_period = period, ct_next = now + period\<rparr>"

definition timer_due :: "instant \<Rightarrow> check_timer \<Rightarrow> bool" where
  "timer_due now t = (ct_next t \<le> now)"

definition timer_tick :: "instant \<Rightarrow> check_timer \<Rightarrow> check_timer" where
  "timer_tick now t =
     t\<lparr>ct_next := (if ct_next t + 5 * 1000000 < now
                   then now + ct_period t - (now - ct_next t) mod ct_period t
                   else ct_next t + ct_period t)\<rparr>"

section \<open>Operations on the private state\<close>

definition observe_cautious_result :: "instant \<Rightarrow> login_result \<Rightarrow> 'a engine_inner_scheme \<Rightarrow> 'a engine_inner_scheme" where
  "observe_cautious_result now result s =
     (if lr_source result = SrcAuto \<and> in_cautious_version s \<noteq> None
      then s\<lparr>in_cautious_retry_after :=
               (if lr_terminal result = Failed \<and> lr_network_retryable result
                then Some (now + from_secs COOLING_DOWN_DURATION_SECS) else None)\<rparr>
      else s)"

definition cautious_blocked :: "instant \<Rightarrow> u64 \<Rightarrow> 'a engine_inner_scheme \<Rightarrow> bool" where
  "cautious_blocked now config_version s \<longleftrightarrow>
     in_cautious_version s = Some config_version \<and>
     (case in_cautious_retry_after s of None \<Rightarrow> True | Some until \<Rightarrow> now < until)"

definition clear_expired_cooling_down :: "instant \<Rightarrow> 'a engine_inner_scheme \<Rightarrow> 'a engine_inner_scheme" where
  "clear_expired_cooling_down now s =
     (case in_cooling_until s of
        Some until \<Rightarrow> if until \<le> now then s\<lparr>in_cooling_until := None, in_consecutive_failures := 0\<rparr> else s
      | None \<Rightarrow> s)"

datatype budget_action = Reset | Increment | Preserve

fun login_failure_budget_action :: "login_terminal \<Rightarrow> login_source \<Rightarrow> budget_action" where
  "login_failure_budget_action Success _ = Reset"
| "login_failure_budget_action Failed SrcAuto = Increment"
| "login_failure_budget_action _ _ = Preserve"

definition engine_inner_new :: "instant \<Rightarrow> engine_inner" where
  "engine_inner_new now =
     \<lparr>in_monitoring = False, in_last_assessment = assessment_default, in_last_evidence = None,
      in_cautious_version = None, in_cautious_retry_after = None, in_last_check_time = None,
      in_manual_paused = False, in_last_profile_check = now,
      in_timer = \<lparr>ct_period = from_secs (unat DEFAULT_CHECK_INTERVAL_SECS), ct_next = now\<rparr>,
      in_consecutive_failures = 0, in_online_streak = 0, in_cooling_until = None,
      in_auto_login_in_flight = False, in_probe_in_flight = False, in_probe_pending = False,
      in_notifier = notifier_new\<rparr>"

text \<open>The world when \<open>Engine::spawn\<close> starts the loop.\<close>

definition engine_world_new :: "instant \<Rightarrow> runtime_config \<Rightarrow> u64 \<Rightarrow> status_snapshot \<Rightarrow> engine_world" where
  "engine_world_new now cfg version status =
     engine_inner.extend (engine_inner_new now)
       (engine_world.fields cfg version False status [] [] 0 [] 0 [] False)"

section \<open>Lemmas\<close>

lemma clamp_bounds: "lo \<le> hi \<Longrightarrow> lo \<le> clamp x lo hi \<and> clamp x lo hi \<le> hi"
  by (auto simp: clamp_def)

lemma check_interval_bounds:
  "20 \<le> unat (check_interval_secs cfg)" "unat (check_interval_secs cfg) \<le> 1200"
proof -
  have "(20 :: u64) \<le> check_interval_secs cfg \<and> check_interval_secs cfg \<le> 1200"
    unfolding check_interval_secs_def CHECK_INTERVAL_MIN_def CHECK_INTERVAL_MAX_def
    by (rule clamp_bounds) simp
  then show "20 \<le> unat (check_interval_secs cfg)" "unat (check_interval_secs cfg) \<le> 1200"
    by (simp_all add: word_le_nat_alt)
qed

lemma profile_interval_bounds:
  "from_secs 60 \<le> profile_check_interval_duration cfg" "profile_check_interval_duration cfg \<le> from_secs 600"
proof -
  let ?x = "clamp (ucast (ms_profile_check_interval (rc_monitor cfg))) (60 :: u64) 600"
  have "60 \<le> ?x \<and> ?x \<le> 600" by (rule clamp_bounds) simp
  then show "from_secs 60 \<le> profile_check_interval_duration cfg" "profile_check_interval_duration cfg \<le> from_secs 600"
    by (simp_all add: profile_check_interval_duration_def engine_consts word_le_nat_alt)
qed

lemma unat_shift_30: "n \<le> 16 \<Longrightarrow> unat (push_bit n (30 :: u64)) = 30 * 2 ^ n"
proof -
  assume n: "n \<le> 16"
  have "(2::nat) ^ n \<le> 2 ^ 16" using n by (intro power_increasing) auto
  then have b: "30 * 2 ^ n < (2::nat) ^ 64" by simp
  have "push_bit n (30 :: u64) = word_of_nat (30 * 2 ^ n)"
    by (simp add: push_bit_eq_mult)
  then have "unat (push_bit n (30 :: u64)) = 30 * 2 ^ n mod 2 ^ 64"
    by (simp only: unat_of_nat) simp
  with b show ?thesis by simp
qed

lemma adaptive_interval_eq:
  "unat (adaptive_check_interval_secs status streak base) =
     (if status = Online then min (30 * 2 ^ min (unat streak - 1) 16) (max (unat base) 1) else 30)"
  by (simp add: adaptive_check_interval_secs_def PROBE_ONLINE_BACKOFF_BASE_SECS_def unat_min
      unat_shift_30 unat_sat_sub max_def word_le_nat_alt)

end
