(* ===== verification/Engine_Loop.thy ===== *)
theory Engine_Loop
  imports Engine_Model
begin

text \<open>
  \<open>engine/run_loop.rs\<close>: the handlers of the engine and its main loop, as functions on the
  world of \<open>Engine_Model\<close>, and the system in which the loop takes turns while its background
  tasks finish, commands arrive and the configuration changes (\<open>engine_step\<close>). One handler runs
  at one reading of the clocks. Log output is left out.
\<close>

section \<open>Publishing\<close>

definition merge_status :: "engine_env \<Rightarrow> partial_snapshot \<Rightarrow> engine_world \<Rightarrow> engine_world" where
  "merge_status env p w = w\<lparr>ew_status := merge (ee_wall env, p) (ew_status w)\<rparr>"

definition engine_state_for :: "engine_world \<Rightarrow> engine_state" where
  "engine_state_for w = (if in_monitoring w then Running else Stopped)"

definition remaining_secs :: "instant \<Rightarrow> instant \<Rightarrow> u32" where
  "remaining_secs now until = word_of_nat (as_secs (until - now))"

definition merge_engine_state :: "engine_env \<Rightarrow> engine_state \<Rightarrow> engine_world \<Rightarrow> engine_world" where
  "merge_engine_state env state w =
     (let last_check = (case in_last_check_time w of Some t \<Rightarrow> t | None \<Rightarrow> ee_wall env);
          cooling_down = (case in_cooling_until w of Some until \<Rightarrow> ee_now env < until | None \<Rightarrow> False);
          remaining = (if cooling_down then map_option (remaining_secs (ee_now env)) (in_cooling_until w) else None)
      in merge_status env
           (PEngine state (ca_status (in_last_assessment w)) (in_last_assessment w) (in_last_evidence w)
             last_check (in_manual_paused w \<or> is_scheduled_pause_active env (ew_runtime w))
             cooling_down remaining (in_consecutive_failures w)) w)"

definition reset_check_timer :: "engine_env \<Rightarrow> engine_world \<Rightarrow> engine_world" where
  "reset_check_timer env w =
     w\<lparr>in_timer := new_check_timer (ee_now env) (check_interval_duration (ew_runtime w))\<rparr>"

section \<open>Starting a probe\<close>

definition handle_network_check_with_priority :: "bool \<Rightarrow> engine_world \<Rightarrow> engine_world" where
  "handle_network_check_with_priority priority' w =
     (if in_probe_in_flight w
      then (if priority' then w\<lparr>in_probe_pending := True\<rparr> else w)
      else w\<lparr>in_probe_in_flight := True, ew_probes := ew_probes w @ [ew_version w]\<rparr>)"

definition handle_network_check :: "engine_world \<Rightarrow> engine_world" where
  "handle_network_check w = handle_network_check_with_priority False w"

section \<open>Commands\<close>

definition publish_config :: "runtime_config \<times> u64 \<Rightarrow> engine_world \<Rightarrow> engine_world" where
  "publish_config cv w = w\<lparr>ew_runtime := fst cv, ew_version := snd cv, ew_version_changed := True\<rparr>"

definition handle_start :: "engine_env \<Rightarrow> engine_world \<Rightarrow> engine_world" where
  "handle_start env w =
     (if in_monitoring w then w
      else let w1 = merge_engine_state env Running (w\<lparr>in_monitoring := True\<rparr>);
               w2 = (if is_any_pause_active env w1 then w1 else handle_network_check_with_priority True w1)
           in reset_check_timer env w2)"

definition handle_stop :: "engine_env \<Rightarrow> engine_world \<Rightarrow> engine_world" where
  "handle_stop env w =
     (if \<not> in_monitoring w then w
      else merge_engine_state env Stopped (w\<lparr>in_monitoring := False\<rparr>))"

definition handle_reload :: "engine_env \<Rightarrow> engine_world \<Rightarrow> engine_world" where
  "handle_reload env w =
     reset_check_timer env (case ee_reload env of Inl _ \<Rightarrow> w | Inr cv \<Rightarrow> publish_config cv w)"

text \<open>The immediate check of \<open>handle_apply_profile\<close> and \<open>handle_resume\<close>.\<close>

definition immediate_check :: "engine_env \<Rightarrow> engine_world \<Rightarrow> engine_world" where
  "immediate_check env w =
     (if in_monitoring w \<and> \<not> is_any_pause_active env w
      then reset_check_timer env (handle_network_check_with_priority True w) else w)"

definition handle_apply_profile :: "engine_env \<Rightarrow> string \<Rightarrow> engine_world \<Rightarrow> engine_world" where
  "handle_apply_profile env profile_id w =
     (let switched = (if sn_id (rc_profile (ew_runtime w)) \<noteq> profile_id
                      then (case ee_switch_profile env profile_id of
                              Inl _ \<Rightarrow> None | Inr cv \<Rightarrow> Some (publish_config cv w))
                      else Some w)
      in case switched of
           None \<Rightarrow> w
         | Some w1 \<Rightarrow> immediate_check env (merge_status env (PActiveProfile profile_id) w1))"

definition handle_test_network :: "engine_world \<Rightarrow> engine_world" where
  "handle_test_network w = w\<lparr>ew_diagnoses := ew_diagnoses w + 1\<rparr>"

definition handle_pause :: "engine_env \<Rightarrow> engine_world \<Rightarrow> engine_world" where
  "handle_pause env w = (let w1 = w\<lparr>in_manual_paused := True\<rparr> in merge_engine_state env (engine_state_for w1) w1)"

definition handle_resume :: "engine_env \<Rightarrow> engine_world \<Rightarrow> engine_world" where
  "handle_resume env w =
     (let w1 = w\<lparr>in_manual_paused := False\<rparr>
      in immediate_check env (merge_engine_state env (engine_state_for w1) w1))"

definition handle_shutdown :: "engine_env \<Rightarrow> engine_world \<Rightarrow> engine_world" where
  "handle_shutdown env w = merge_engine_state env Stopped w"

text \<open>\<open>True\<close> ends the loop.\<close>

fun handle_command :: "engine_env \<Rightarrow> engine_command \<Rightarrow> engine_world \<Rightarrow> engine_world \<times> bool" where
  "handle_command env Start w = (handle_start env w, False)"
| "handle_command env Stop w = (handle_stop env w, False)"
| "handle_command env Reload w = (handle_reload env w, False)"
| "handle_command env (ApplyProfile profile_id source) w = (handle_apply_profile env profile_id w, False)"
| "handle_command env TestNetwork w = (handle_test_network w, False)"
| "handle_command env Pause w = (handle_pause env w, False)"
| "handle_command env Resume w = (handle_resume env w, False)"
| "handle_command env Shutdown w = (handle_shutdown env w, True)"

section \<open>Login results\<close>

definition count_login_failure :: "engine_env \<Rightarrow> string \<Rightarrow> engine_world \<Rightarrow> engine_world" where
  "count_login_failure env profile_id w =
     (let w1 = w\<lparr>in_consecutive_failures := in_consecutive_failures w + 1,
                 in_notifier := snd (should_notify_login_failure profile_id (in_notifier w))\<rparr>
      in if COOLING_DOWN_THRESHOLD \<le> in_consecutive_failures w1 \<and> in_cooling_until w1 = None
         then w1\<lparr>in_cooling_until := Some (ee_now env + from_secs COOLING_DOWN_DURATION_SECS)\<rparr>
         else w1)"

definition settle_login_budget :: "engine_env \<Rightarrow> login_result \<Rightarrow> engine_world \<Rightarrow> engine_world" where
  "settle_login_budget env result w =
     (let profile_id = sn_id (rc_profile (ew_runtime w))
      in case login_failure_budget_action (lr_terminal result) (lr_source result) of
           Reset \<Rightarrow> w\<lparr>in_consecutive_failures := 0, in_cooling_until := None,
                      in_notifier := on_login_success profile_id (in_notifier w)\<rparr>
         | Increment \<Rightarrow> count_login_failure env profile_id w
         | Preserve \<Rightarrow> w)"

definition handle_login_result :: "engine_env \<Rightarrow> login_result \<Rightarrow> engine_world \<Rightarrow> engine_world" where
  "handle_login_result env result w =
     (let w1 = observe_cautious_result (ee_now env) result (w\<lparr>in_auto_login_in_flight := False\<rparr>);
          w2 = settle_login_budget env result w1
      in merge_engine_state env (engine_state_for w2) w2)"

section \<open>Probe results\<close>

definition flush_pending :: "engine_env \<Rightarrow> bool \<Rightarrow> engine_world \<Rightarrow> engine_world" where
  "flush_pending env pending w =
     (if pending \<and> in_monitoring w \<and> \<not> is_any_pause_active env w then handle_network_check w else w)"

text \<open>The status update of a probe result: the cooling-down fields come from the mark itself.\<close>

definition merge_probe_status :: "engine_env \<Rightarrow> probe_evidence option \<Rightarrow> engine_world \<Rightarrow> engine_world" where
  "merge_probe_status env evidence w =
     merge_status env
       (PEngine (engine_state_for w) (ca_status (in_last_assessment w)) (in_last_assessment w) evidence
          (ee_wall env) (is_any_pause_active env w) (in_cooling_until w \<noteq> None)
          (map_option (remaining_secs (ee_now env)) (in_cooling_until w)) (in_consecutive_failures w)) w"

definition probe_failed :: "engine_env \<Rightarrow> bool \<Rightarrow> engine_world \<Rightarrow> engine_world" where
  "probe_failed env pending w =
     merge_probe_status env None ((flush_pending env pending w)\<lparr>in_last_check_time := Some (ee_wall env)\<rparr>)"

definition next_check_secs :: "connectivity_assessment \<Rightarrow> u32 \<Rightarrow> u64 \<Rightarrow> u64" where
  "next_check_secs a streak configured =
     (if ca_advice a = NoProbeEvidence then configured
      else adaptive_check_interval_secs (ca_status a) streak configured)"

text \<open>What a report changes before the login decision: the check time, the cautious budget, the
  last assessment and evidence, the streak and the timer.\<close>

definition note_report :: "engine_env \<Rightarrow> probe_report \<Rightarrow> engine_world \<Rightarrow> engine_world" where
  "note_report env report w =
     (let a = pr_assessment report; status = ca_status a;
          w1 = w\<lparr>in_last_check_time := Some (ee_wall env)\<rparr>;
          w2 = (if status \<noteq> CaptivePortal then w1\<lparr>in_cautious_version := None, in_cautious_retry_after := None\<rparr>
                else w1);
          w3 = w2\<lparr>in_last_assessment := a, in_last_evidence := Some (pr_evidence report),
                  in_online_streak := (if status = Online then sat_add (in_online_streak w2) 1 else 0)\<rparr>
      in w3\<lparr>in_timer := new_check_timer (ee_now env)
              (from_secs (unat (next_check_secs a (in_online_streak w3) (check_interval_secs (ew_runtime w3)))))\<rparr>)"

definition publish_report :: "engine_env \<Rightarrow> probe_report \<Rightarrow> engine_world \<Rightarrow> engine_world" where
  "publish_report env report w =
     (let w1 = merge_probe_status env (Some (pr_evidence report)) w
      in case ee_metrics_totals env of
           Some (probe_total, login_total) \<Rightarrow> merge_status env (PTotals probe_total login_total) w1
         | None \<Rightarrow> w1)"

text \<open>The gates of the login decision, in the order of the code.\<close>

definition auto_login_permitted :: "engine_env \<Rightarrow> recovery_advice \<Rightarrow> u64 \<Rightarrow> engine_world \<Rightarrow> bool" where
  "auto_login_permitted env advice version w =
     (if advice \<noteq> AttemptLogin \<and> advice \<noteq> AttemptLoginOnce then False
      else if \<not> in_monitoring w then False
      else if is_any_pause_active env w then False
      else if version \<noteq> ew_version w then False
      else if in_cooling_until w \<noteq> None then False
      else if in_auto_login_in_flight w then False
      else if advice = AttemptLoginOnce \<and> cautious_blocked (ee_now env) version w then False
      else True)"

definition decide_login :: "engine_env \<Rightarrow> recovery_advice \<Rightarrow> u64 \<Rightarrow> engine_world \<Rightarrow> engine_world" where
  "decide_login env advice version w =
     (if auto_login_permitted env advice version w
      then let w1 = (if advice = AttemptLoginOnce
                     then w\<lparr>in_cautious_version := Some version, in_cautious_retry_after := None\<rparr> else w)
           in w1\<lparr>in_auto_login_in_flight := True, ew_logins := ew_logins w + 1\<rparr>
      else w)"

definition handle_probe_message :: "engine_env \<Rightarrow> probe_message \<Rightarrow> engine_world \<Rightarrow> engine_world" where
  "handle_probe_message env msg w =
     (let pending = in_probe_pending w;
          w1 = clear_expired_cooling_down (ee_now env) (w\<lparr>in_probe_in_flight := False, in_probe_pending := False\<rparr>)
      in case msg of
           FailedProbe e v \<Rightarrow> probe_failed env pending w1
         | Report report version \<Rightarrow>
             let w2 = publish_report env report (note_report env report w1);
                 w3 = decide_login env (ca_advice (pr_assessment report)) version w2
             in flush_pending env pending w3)"

section \<open>Profile detection\<close>

definition check_profile_switch :: "engine_env \<Rightarrow> engine_world \<Rightarrow> engine_world" where
  "check_profile_switch env w =
     (case ee_gateways env of
        Inl _ \<Rightarrow> w
      | Inr gateways \<Rightarrow>
          (case ee_ssid env of
             Inl _ \<Rightarrow> w
           | Inr ssid \<Rightarrow>
               let gateway_str = (case gateways of [] \<Rightarrow> [] | g # _ \<Rightarrow> g);
                   ssid_str = (case ssid of Some s \<Rightarrow> s | None \<Rightarrow> [])
               in case ee_match_profile env gateway_str ssid_str of
                    None \<Rightarrow> w
                  | Some matched_id \<Rightarrow>
                      if matched_id \<noteq> sn_id (rc_profile (ew_runtime w))
                      then handle_apply_profile env matched_id (w\<lparr>in_notifier := on_profile_switch (in_notifier w)\<rparr>)
                      else w))"

definition profile_check :: "engine_env \<Rightarrow> engine_world \<Rightarrow> engine_world" where
  "profile_check env w =
     (if in_monitoring w \<and> \<not> is_any_pause_active env w \<and> rc_auto_switch (ew_runtime w)
         \<and> profile_check_interval_duration (ew_runtime w) \<le> ee_now env - in_last_profile_check w
      then (check_profile_switch env w)\<lparr>in_last_profile_check := ee_now env\<rparr>
      else w)"

section \<open>The loop\<close>

text \<open>The branches of the biased \<open>select!\<close> when no command is waiting: login result, probe result,
  configuration change, timer, and the idle sleep.\<close>

definition select_event :: "engine_env \<Rightarrow> engine_world \<Rightarrow> engine_world" where
  "select_event env w =
     (case ew_login_rx w of
        result # rest \<Rightarrow> handle_login_result env result (w\<lparr>ew_login_rx := rest\<rparr>)
      | [] \<Rightarrow>
     (case ew_probe_rx w of
        msg # rest \<Rightarrow> handle_probe_message env msg (w\<lparr>ew_probe_rx := rest\<rparr>)
      | [] \<Rightarrow>
        if ew_version_changed w then reset_check_timer env (w\<lparr>ew_version_changed := False\<rparr>)
        else if timer_due (ee_now env) (in_timer w)
        then let w1 = w\<lparr>in_timer := timer_tick (ee_now env) (in_timer w)\<rparr>
             in if in_monitoring w1 \<and> \<not> is_any_pause_active env w1 then handle_network_check w1 else w1
        else w))"

text \<open>
  One turn. A command that waits at the start of the turn is handled without the profile check
  (\<open>continue\<close>); one that arrives while the loop waits in \<open>select!\<close> (\<open>arrived\<close>) is followed by it.
\<close>

definition engine_turn :: "engine_env \<Rightarrow> bool \<Rightarrow> engine_world \<Rightarrow> engine_world" where
  "engine_turn env arrived w =
     (if ew_exited w then w
      else case ew_cmds w of
        cmd # rest \<Rightarrow>
          let (w1, leave) = handle_command env cmd (w\<lparr>ew_cmds := rest\<rparr>)
          in if leave then w1\<lparr>ew_exited := True\<rparr>
             else if arrived then profile_check env w1 else w1
      | [] \<Rightarrow> profile_check env (select_event env w))"

section \<open>Background tasks and senders\<close>

text \<open>\<open>try_send\<close> on a bounded channel; after the loop has ended the receivers are gone.\<close>

definition try_send_probe :: "probe_message \<Rightarrow> engine_world \<Rightarrow> engine_world" where
  "try_send_probe msg w =
     (if ew_exited w \<or> PROBE_CHANNEL_CAPACITY \<le> length (ew_probe_rx w) then w
      else w\<lparr>ew_probe_rx := ew_probe_rx w @ [msg]\<rparr>)"

definition try_send_login :: "login_result \<Rightarrow> engine_world \<Rightarrow> engine_world" where
  "try_send_login result w =
     (if ew_exited w \<or> LOGIN_CHANNEL_CAPACITY \<le> length (ew_login_rx w) then w
      else w\<lparr>ew_login_rx := ew_login_rx w @ [result]\<rparr>)"

text \<open>The end of a probe task: its result, or the message of \<open>ProbeReturnGuard\<close> after a panic
  (\<open>None\<close>).\<close>

definition probe_task_end :: "u64 \<Rightarrow> (string + probe_report) option \<Rightarrow> engine_world \<Rightarrow> engine_world" where
  "probe_task_end v result w =
     (let msg = (case result of
                   Some (Inr report) \<Rightarrow> Report report v
                 | Some (Inl e) \<Rightarrow> FailedProbe e v
                 | None \<Rightarrow> FailedProbe ''panic'' v)
      in try_send_probe msg (w\<lparr>ew_probes := remove1 v (ew_probes w)\<rparr>))"

definition login_panic_result :: login_result where
  "login_panic_result =
     \<lparr>lr_network_retryable = False, lr_terminal = Failed, lr_message = ''panic'', lr_source = SrcAuto,
      lr_duration = 0, lr_attempts = 0\<rparr>"

definition login_task_end :: "login_result option \<Rightarrow> engine_world \<Rightarrow> engine_world" where
  "login_task_end result w =
     try_send_login (case result of Some r \<Rightarrow> r | None \<Rightarrow> login_panic_result) (w\<lparr>ew_logins := ew_logins w - 1\<rparr>)"

definition try_dispatch :: "engine_command \<Rightarrow> engine_world option \<Rightarrow> (engine_error + unit) \<times> engine_world option" where
  "try_dispatch cmd slot =
     (case slot of
        None \<Rightarrow> (Inl ChannelClosed, None)
      | Some w \<Rightarrow>
          if ew_exited w then (Inl ChannelClosed, Some w)
          else if CMD_CHANNEL_CAPACITY \<le> length (ew_cmds w) then (Inl ChannelFull, Some w)
          else (Inr (), Some (w\<lparr>ew_cmds := ew_cmds w @ [cmd]\<rparr>)))"

section \<open>The system\<close>

text \<open>
  A sending task waits for room, so its rule needs a place in the channel; a panicking task uses
  \<open>try_send\<close>. The config service publishes from elsewhere (web, scheduler).
\<close>

inductive engine_step :: "engine_world \<Rightarrow> engine_world \<Rightarrow> bool" where
  turn: "engine_step w (engine_turn env arrived w)"
| probe_done: "v \<in> set (ew_probes w) \<Longrightarrow> length (ew_probe_rx w) < PROBE_CHANNEL_CAPACITY \<Longrightarrow>
     engine_step w (probe_task_end v (Some result) w)"
| probe_panic: "v \<in> set (ew_probes w) \<Longrightarrow> engine_step w (probe_task_end v None w)"
| login_done: "0 < ew_logins w \<Longrightarrow> length (ew_login_rx w) < LOGIN_CHANNEL_CAPACITY \<Longrightarrow>
     engine_step w (login_task_end (Some result) w)"
| login_panic: "0 < ew_logins w \<Longrightarrow> engine_step w (login_task_end None w)"
| config_changed: "engine_step w (publish_config cv w)"
| command: "try_dispatch cmd (Some w) = (Inr (), Some w') \<Longrightarrow> engine_step w w'"
| diagnosis_done: "0 < ew_diagnoses w \<Longrightarrow> engine_step w (w\<lparr>ew_diagnoses := ew_diagnoses w - 1\<rparr>)"

definition engine_init :: "engine_world \<Rightarrow> bool" where
  "engine_init w \<longleftrightarrow> (\<exists>now cfg version status.
     w = engine_world_new now cfg version status \<and> ss_engine_state status = Stopped)"

definition engine_reachable :: "engine_world \<Rightarrow> bool" where
  "engine_reachable w \<longleftrightarrow> (\<exists>w0. engine_init w0 \<and> rtranclp engine_step w0 w)"

inductive_cases engine_stepE: "engine_step w w'"

end
