(* ===== verification/Engine_Safety.thy ===== *)
theory Engine_Safety
  imports Engine_Loop
begin

text \<open>
  What holds of the engine in every reachable world: the bookkeeping of its background tasks, the
  failure budget, the period of the timer and the state it publishes; and what each handler does.
\<close>

section \<open>The invariant\<close>

text \<open>At most one probe is out, as a running task or as an unread message, exactly while the mark
  is set; a probe is queued only then.\<close>

definition flight_ok :: "engine_world \<Rightarrow> bool" where
  "flight_ok w \<longleftrightarrow>
     length (ew_probes w) + length (ew_probe_rx w) = (if in_probe_in_flight w then 1 else 0)
     \<and> (in_probe_pending w \<longrightarrow> in_probe_in_flight w)"

definition login_ok :: "engine_world \<Rightarrow> bool" where
  "login_ok w \<longleftrightarrow> ew_logins w + length (ew_login_rx w) = (if in_auto_login_in_flight w then 1 else 0)"

definition budget_ok :: "engine_world \<Rightarrow> bool" where
  "budget_ok w \<longleftrightarrow>
     (in_cooling_until w = None \<longrightarrow> in_consecutive_failures w < COOLING_DOWN_THRESHOLD)
     \<and> (in_cooling_until w \<noteq> None \<longrightarrow>
          in_consecutive_failures w = COOLING_DOWN_THRESHOLD \<and> \<not> in_auto_login_in_flight w)"

definition timer_ok :: "engine_world \<Rightarrow> bool" where
  "timer_ok w \<longleftrightarrow> from_secs 20 \<le> ct_period (in_timer w) \<and> ct_period (in_timer w) \<le> from_secs 1200"

definition core_ok :: "engine_world \<Rightarrow> bool" where
  "core_ok w \<longleftrightarrow> flight_ok w \<and> login_ok w \<and> budget_ok w \<and> timer_ok w"

definition board_ok :: "engine_world \<Rightarrow> bool" where
  "board_ok w \<longleftrightarrow> ss_engine_state (ew_status w) = engine_state_for w"

lemmas ok_defs = flight_ok_def login_ok_def budget_ok_def timer_ok_def

section \<open>The parts of the handlers\<close>

lemma merge_status_core [simp]: "core_ok (merge_status env p w) = core_ok w"
  by (simp add: core_ok_def ok_defs merge_status_def)

lemma merge_engine_state_core [simp]: "core_ok (merge_engine_state env st w) = core_ok w"
  by (simp add: merge_engine_state_def Let_def)

lemma merge_probe_status_core [simp]: "core_ok (merge_probe_status env ev w) = core_ok w"
  by (simp add: merge_probe_status_def Let_def)

lemma core_ok_irrelevant [simp]:
  "core_ok (w\<lparr>in_monitoring := m\<rparr>) = core_ok w"
  "core_ok (w\<lparr>in_manual_paused := m\<rparr>) = core_ok w"
  "core_ok (w\<lparr>in_last_profile_check := t\<rparr>) = core_ok w"
  "core_ok (w\<lparr>in_last_check_time := t'\<rparr>) = core_ok w"
  "core_ok (w\<lparr>in_notifier := n\<rparr>) = core_ok w"
  "core_ok (w\<lparr>in_cautious_version := cv\<rparr>) = core_ok w"
  "core_ok (w\<lparr>in_cautious_retry_after := ra\<rparr>) = core_ok w"
  "core_ok (w\<lparr>in_last_assessment := a\<rparr>) = core_ok w"
  "core_ok (w\<lparr>in_last_evidence := e\<rparr>) = core_ok w"
  "core_ok (w\<lparr>in_online_streak := k\<rparr>) = core_ok w"
  "core_ok (w\<lparr>ew_cmds := cs\<rparr>) = core_ok w"
  "core_ok (w\<lparr>ew_version_changed := m\<rparr>) = core_ok w"
  "core_ok (w\<lparr>ew_diagnoses := d\<rparr>) = core_ok w"
  "core_ok (w\<lparr>ew_exited := m\<rparr>) = core_ok w"
  "core_ok (publish_config cfg w) = core_ok w"
  by (simp_all add: core_ok_def ok_defs publish_config_def)

lemma new_timer_core: "core_ok w \<Longrightarrow> 20 \<le> n \<Longrightarrow> n \<le> 1200 \<Longrightarrow> core_ok (w\<lparr>in_timer := new_check_timer now (from_secs n)\<rparr>)"
  by (simp add: core_ok_def ok_defs new_check_timer_def)

lemma reset_timer_core: "core_ok w \<Longrightarrow> core_ok (reset_check_timer env w)"
  unfolding reset_check_timer_def check_interval_duration_def
  by (rule new_timer_core) (simp_all add: check_interval_bounds)

lemma tick_core: "core_ok w \<Longrightarrow> core_ok (w\<lparr>in_timer := timer_tick now (in_timer w)\<rparr>)"
  by (simp add: core_ok_def ok_defs timer_tick_def)

lemma check_core: "core_ok w \<Longrightarrow> core_ok (handle_network_check_with_priority b w)"
  by (auto simp: core_ok_def ok_defs handle_network_check_with_priority_def split: option.splits)

lemma flush_core: "core_ok w \<Longrightarrow> core_ok (flush_pending env b w)"
  by (simp add: flush_pending_def handle_network_check_def check_core)

lemma immediate_core: "core_ok w \<Longrightarrow> core_ok (immediate_check env w)"
  by (simp add: immediate_check_def check_core reset_timer_core)

lemma apply_profile_core: "core_ok w \<Longrightarrow> core_ok (handle_apply_profile env p w)"
  by (auto simp: handle_apply_profile_def Let_def intro: immediate_core split: option.split sum.split)

lemma command_core: "core_ok w \<Longrightarrow> core_ok (fst (handle_command env c w))"
  by (cases c)
     (auto simp: handle_start_def handle_stop_def handle_reload_def handle_test_network_def handle_pause_def
        handle_resume_def handle_shutdown_def Let_def
        intro!: reset_timer_core check_core immediate_core apply_profile_core split: sum.split)

lemma profile_check_core: "core_ok w \<Longrightarrow> core_ok (profile_check env w)"
  by (auto simp: profile_check_def check_profile_switch_def Let_def intro: apply_profile_core
      split: sum.split option.split)

section \<open>Results coming back\<close>

lemma clear_expired_core: "core_ok w \<Longrightarrow> core_ok (clear_expired_cooling_down now w)"
  by (auto simp: core_ok_def ok_defs clear_expired_cooling_down_def COOLING_DOWN_THRESHOLD_def split: option.splits)

lemma count_failure_core:
  assumes "core_ok w" and "\<not> in_auto_login_in_flight w" and "in_cooling_until w = None"
  shows "core_ok (count_login_failure env p w)"
proof -
  let ?f = "in_consecutive_failures w"
  let ?w1 = "w\<lparr>in_consecutive_failures := ?f + 1, in_notifier := snd (should_notify_login_failure p (in_notifier w))\<rparr>"
  have lt: "?f < 3" using assms by (simp add: core_ok_def budget_ok_def COOLING_DOWN_THRESHOLD_def)
  have others: "flight_ok w" "login_ok w" "timer_ok w" using assms(1) by (simp_all add: core_ok_def)
  show ?thesis
  proof (cases "?f = 2")
    case True
    then have c: "count_login_failure env p w
        = ?w1\<lparr>in_cooling_until := Some (ee_now env + from_secs COOLING_DOWN_DURATION_SECS)\<rparr>"
      using assms(3) by (simp add: count_login_failure_def Let_def COOLING_DOWN_THRESHOLD_def)
    show ?thesis unfolding c using others assms(2) True
      by (simp add: core_ok_def ok_defs COOLING_DOWN_THRESHOLD_def)
  next
    case False
    with lt have f: "?f + 1 < 3" by unat_arith
    then have c: "count_login_failure env p w = ?w1"
      by (simp add: count_login_failure_def Let_def COOLING_DOWN_THRESHOLD_def linorder_not_le [symmetric])
    show ?thesis unfolding c using others assms(3) f
      by (simp add: core_ok_def ok_defs COOLING_DOWN_THRESHOLD_def)
  qed
qed

lemma login_result_core:
  assumes "core_ok w" and "ew_login_rx w = result # rest"
  shows "core_ok (handle_login_result env result (w\<lparr>ew_login_rx := rest\<rparr>))"
proof -
  define w1 where "w1 = observe_cautious_result (ee_now env) result (w\<lparr>ew_login_rx := rest, in_auto_login_in_flight := False\<rparr>)"
  have flight: "in_auto_login_in_flight w" "rest = []" "ew_logins w = 0"
    using assms by (auto simp: core_ok_def login_ok_def split: if_splits)
  have cool: "in_cooling_until w = None"
    using assms flight by (auto simp: core_ok_def budget_ok_def split: option.splits)
  have w1: "core_ok w1" "\<not> in_auto_login_in_flight w1" "in_cooling_until w1 = None"
    using assms(1) flight cool
    by (auto simp: w1_def observe_cautious_result_def core_ok_def ok_defs)
  have reset: "core_ok (v\<lparr>in_consecutive_failures := 0, in_cooling_until := None\<rparr>)"
    if "core_ok v" for v
    using that by (auto simp: core_ok_def ok_defs COOLING_DOWN_THRESHOLD_def)
  have "core_ok (settle_login_budget env result w1)"
    using w1 by (simp add: settle_login_budget_def Let_def reset count_failure_core split: budget_action.split)
  then show ?thesis unfolding handle_login_result_def Let_def w1_def by simp
qed

lemma note_report_core: "core_ok w \<Longrightarrow> core_ok (note_report env report w)"
proof -
  assume ok: "core_ok w"
  have b: "20 \<le> unat (next_check_secs a k (check_interval_secs cfg))
      \<and> unat (next_check_secs a k (check_interval_secs cfg)) \<le> 1200" for a k cfg
  proof -
    have "(1::nat) \<le> 2 ^ m" for m :: nat by simp
    then have "20 \<le> 30 * (2::nat) ^ m" for m :: nat by (metis le_trans mult_le_mono numeral_le_iff le_num_simps mult.right_neutral semiring_norm(68) semiring_norm(71) semiring_norm(69) semiring_norm(72))
    then show ?thesis using check_interval_bounds [of cfg]
      by (auto simp: next_check_secs_def adaptive_interval_eq)
  qed
  show ?thesis unfolding note_report_def Let_def
    by (rule new_timer_core) (use ok b in \<open>simp_all split: if_splits\<close>)
qed

lemma publish_report_core [simp]: "core_ok (publish_report env report w) = core_ok w"
  by (auto simp: publish_report_def Let_def split: option.split)

lemma decide_login_core: "core_ok w \<Longrightarrow> core_ok (decide_login env advice v w)"
  by (auto simp: decide_login_def auto_login_permitted_def Let_def core_ok_def ok_defs split: if_splits)

lemma probe_message_core:
  assumes "core_ok w" and "ew_probe_rx w = msg # rest"
  shows "core_ok (handle_probe_message env msg (w\<lparr>ew_probe_rx := rest\<rparr>))"
proof -
  have "core_ok (w\<lparr>ew_probe_rx := rest, in_probe_in_flight := False, in_probe_pending := False\<rparr>)"
    using assms by (auto simp: core_ok_def ok_defs split: if_splits option.splits)
  then have "core_ok (clear_expired_cooling_down (ee_now env)
      (w\<lparr>ew_probe_rx := rest, in_probe_in_flight := False, in_probe_pending := False\<rparr>))"
    by (rule clear_expired_core)
  then show ?thesis
    by (auto simp: handle_probe_message_def Let_def probe_failed_def
        intro!: flush_core decide_login_core note_report_core split: probe_message.split)
qed

lemma select_core: "core_ok w \<Longrightarrow> core_ok (select_event env w)"
  by (auto simp: select_event_def Let_def handle_network_check_def
      intro: login_result_core probe_message_core reset_timer_core check_core tick_core split: list.split)

lemma turn_core: "core_ok w \<Longrightarrow> core_ok (engine_turn env arrived w)"
  using command_core [of "w\<lparr>ew_cmds := tl (ew_cmds w)\<rparr>" env "hd (ew_cmds w)"]
  by (auto simp: engine_turn_def Let_def intro: profile_check_core select_core
      split: list.split prod.split)

section \<open>Tasks ending\<close>

lemma probe_end_core:
  assumes "core_ok w" and "v \<in> set (ew_probes w)" and "\<not> ew_exited w"
  shows "core_ok (probe_task_end v r w)"
proof -
  have "in_probe_in_flight w" "ew_probes w = [v]" "ew_probe_rx w = []"
    using assms(1,2) by (auto simp: core_ok_def flight_ok_def length_Suc_conv split: if_splits)
      (cases "ew_probes w"; simp)+
  with assms(1,3) show ?thesis
    by (simp add: probe_task_end_def try_send_probe_def core_ok_def ok_defs PROBE_CHANNEL_CAPACITY_def)
qed

lemma login_end_core:
  assumes "core_ok w" and "0 < ew_logins w" and "\<not> ew_exited w"
  shows "core_ok (login_task_end r w)"
proof -
  have "in_auto_login_in_flight w" "ew_logins w = 1" "ew_login_rx w = []"
    using assms(1,2) by (cases "ew_login_rx w"; force simp: core_ok_def login_ok_def split: if_splits)+
  with assms(1,3) show ?thesis
    by (simp add: login_task_end_def try_send_login_def core_ok_def ok_defs LOGIN_CHANNEL_CAPACITY_def)
qed

section \<open>The published state\<close>

lemma merge_status_board [simp]:
  "board_ok (merge_status env (PActiveProfile p) w) = board_ok w"
  "board_ok (merge_status env (PTotals a b) w) = board_ok w"
  by (simp_all add: board_ok_def engine_state_for_def merge_status_def merge.simps Let_def)

lemma merge_engine_board [simp]: "board_ok (merge_engine_state env (engine_state_for w) w)"
  by (simp add: board_ok_def engine_state_for_def merge_engine_state_def merge_status_def merge.simps Let_def)

lemma merge_engine_board_as: "engine_state_for w = st \<Longrightarrow> board_ok (merge_engine_state env st w)"
  using merge_engine_board [of env w] by simp

lemma merge_probe_board [simp]: "board_ok (merge_probe_status env ev w)"
  by (simp add: board_ok_def engine_state_for_def merge_probe_status_def merge_status_def merge.simps Let_def)

lemma board_irrelevant [simp]:
  "board_ok (w\<lparr>in_notifier := n\<rparr>) = board_ok w"
  "board_ok (w\<lparr>in_last_profile_check := t\<rparr>) = board_ok w"
  "board_ok (w\<lparr>in_timer := tm\<rparr>) = board_ok w"
  "board_ok (w\<lparr>ew_probe_rx := ms\<rparr>) = board_ok w"
  "board_ok (w\<lparr>ew_login_rx := ls\<rparr>) = board_ok w"
  "board_ok (w\<lparr>ew_probes := ps\<rparr>) = board_ok w"
  "board_ok (w\<lparr>ew_logins := k\<rparr>) = board_ok w"
  "board_ok (w\<lparr>ew_cmds := cs\<rparr>) = board_ok w"
  "board_ok (w\<lparr>ew_version_changed := b\<rparr>) = board_ok w"
  "board_ok (w\<lparr>ew_diagnoses := d\<rparr>) = board_ok w"
  "board_ok (w\<lparr>ew_exited := b\<rparr>) = board_ok w"
  "board_ok (publish_config cfg w) = board_ok w"
  "board_ok (reset_check_timer env w) = board_ok w"
  "board_ok (handle_network_check_with_priority b w) = board_ok w"
  "board_ok (handle_network_check w) = board_ok w"
  "board_ok (immediate_check env w) = board_ok w"
  "board_ok (flush_pending env b w) = board_ok w"
  "board_ok (decide_login env adv v w) = board_ok w"
  by (simp_all add: board_ok_def engine_state_for_def publish_config_def reset_check_timer_def
      handle_network_check_with_priority_def handle_network_check_def immediate_check_def flush_pending_def
      decide_login_def Let_def)

lemma apply_profile_board: "board_ok w \<Longrightarrow> board_ok (handle_apply_profile env p w)"
  by (simp add: handle_apply_profile_def Let_def split: option.split sum.split)

lemma start_board: "board_ok w \<Longrightarrow> board_ok (handle_start env w)"
  by (simp add: handle_start_def Let_def merge_engine_board_as engine_state_for_def)

lemma stop_board: "board_ok w \<Longrightarrow> board_ok (handle_stop env w)"
  by (simp add: handle_stop_def merge_engine_board_as engine_state_for_def)

lemma command_board: "board_ok w \<Longrightarrow> c \<noteq> Shutdown \<Longrightarrow> board_ok (fst (handle_command env c w))"
  by (cases c)
     (simp_all add: start_board stop_board handle_reload_def handle_test_network_def handle_pause_def
        handle_resume_def apply_profile_board Let_def split: sum.split)

lemma profile_check_board: "board_ok w \<Longrightarrow> board_ok (profile_check env w)"
  by (simp add: profile_check_def check_profile_switch_def Let_def apply_profile_board
      split: sum.split option.split)

lemma login_result_board [simp]: "board_ok (handle_login_result env r w)"
  by (simp add: handle_login_result_def Let_def)

lemma publish_report_board [simp]: "board_ok (publish_report env r w)"
  by (simp add: publish_report_def Let_def split: option.split)

lemma probe_message_board [simp]: "board_ok (handle_probe_message env m w)"
  by (simp add: handle_probe_message_def Let_def probe_failed_def split: probe_message.split)

lemma select_board: "board_ok w \<Longrightarrow> board_ok (select_event env w)"
  by (simp add: select_event_def Let_def split: list.split)

lemma handle_command_leave: "snd (handle_command env c w) \<longleftrightarrow> c = Shutdown"
  by (cases c) simp_all

section \<open>Every reachable world\<close>

definition engine_ok :: "engine_world \<Rightarrow> bool" where
  "engine_ok w \<longleftrightarrow> ew_exited w \<or> core_ok w \<and> board_ok w"

lemma exited_stays [simp]:
  "ew_exited (probe_task_end v r w) = ew_exited w"
  "ew_exited (login_task_end lr w) = ew_exited w"
  "ew_exited (publish_config cv w) = ew_exited w"
  by (simp_all add: probe_task_end_def try_send_probe_def login_task_end_def try_send_login_def
      publish_config_def Let_def)

lemma turn_ok: "engine_ok w \<Longrightarrow> engine_ok (engine_turn env arrived w)"
proof (cases "ew_exited w")
  case True
  then show ?thesis by (simp add: engine_turn_def engine_ok_def)
next
  case False
  assume "engine_ok w"
  with False have ok: "core_ok w" "board_ok w" by (simp_all add: engine_ok_def)
  show ?thesis
  proof (cases "ew_cmds w")
    case Nil
    with False ok show ?thesis
      by (simp add: engine_turn_def engine_ok_def profile_check_core profile_check_board select_core select_board)
  next
    case (Cons c cs)
    let ?w = "w\<lparr>ew_cmds := cs\<rparr>"
    obtain w1 leave where h: "handle_command env c ?w = (w1, leave)" by (cases "handle_command env c ?w")
    have "core_ok w1" using command_core [of ?w env c] ok by (simp add: h)
    moreover have "\<not> leave \<Longrightarrow> board_ok w1"
      using command_board [of ?w c env] handle_command_leave [of env c ?w] ok by (simp add: h)
    ultimately show ?thesis using False
      by (auto simp: engine_turn_def engine_ok_def Cons h profile_check_core profile_check_board)
  qed
qed

lemma task_end_board [simp]:
  "board_ok (probe_task_end v r w) = board_ok w"
  "board_ok (login_task_end lr w) = board_ok w"
  by (simp_all add: probe_task_end_def try_send_probe_def login_task_end_def try_send_login_def Let_def)

lemma probe_end_ok: "engine_ok w \<Longrightarrow> v \<in> set (ew_probes w) \<Longrightarrow> engine_ok (probe_task_end v r w)"
  by (cases "ew_exited w") (simp_all add: engine_ok_def probe_end_core)

lemma login_end_ok: "engine_ok w \<Longrightarrow> 0 < ew_logins w \<Longrightarrow> engine_ok (login_task_end r w)"
  by (cases "ew_exited w") (simp_all add: engine_ok_def login_end_core)

lemma dispatch_ok: "engine_ok w \<Longrightarrow> try_dispatch c (Some w) = (Inr (), Some w') \<Longrightarrow> engine_ok w'"
  by (auto simp: engine_ok_def try_dispatch_def split: if_splits)

lemma engine_step_ok: "engine_ok w \<Longrightarrow> engine_step w w' \<Longrightarrow> engine_ok w'"
proof (erule engine_stepE, goal_cases)
  case (6 cv)
  then show ?case by (simp add: engine_ok_def)
next
  case (8)
  then show ?case by (simp add: engine_ok_def)
qed (simp_all add: turn_ok probe_end_ok login_end_ok dispatch_ok)

lemma engine_init_ok: "engine_init w \<Longrightarrow> engine_ok w"
  by (auto simp: engine_init_def engine_world_new_def engine_inner_new_def engine_inner.defs engine_world.defs
      engine_ok_def core_ok_def ok_defs board_ok_def engine_state_for_def engine_consts)

interpretation engine: transition_system engine_init engine_step engine_ok
  by unfold_locales (auto intro: engine_init_ok engine_step_ok)

lemma engine_reachable_ok: "engine_reachable w \<Longrightarrow> engine_ok w"
  unfolding engine_reachable_def using engine.inv_reachable by blast

end
