(* ===== verification/Engine_Props.thy ===== *)
theory Engine_Props
  imports Engine_Safety
begin

text \<open>
  The properties of the engine: what holds in every reachable world, when a probe and when an
  automatic login is started, how often, and how the intervals behave.
\<close>

section \<open>A running engine to evaluate\<close>

definition demo_engine_env :: "nat \<Rightarrow> engine_env" where
  "demo_engine_env secs =
     \<lparr>ee_now = from_secs secs, ee_wall = demo_wall (int secs), ee_reload = Inl [],
      ee_switch_profile = (\<lambda>_. Inl []), ee_gateways = Inl [], ee_ssid = Inl [],
      ee_match_profile = (\<lambda>_ _. None), ee_metrics_totals = None\<rparr>"

definition demo_engine_config :: runtime_config where
  "demo_engine_config = demo_runtime\<lparr>rc_pause := \<lparr>ps_enabled = False, ps_start_hour = 0, ps_start_minute = 0,
     ps_end_hour = 0, ps_end_minute = 0\<rparr>, rc_auto_switch := False\<rparr>"

definition demo_engine_start :: engine_world where
  "demo_engine_start = engine_world_new 0 demo_engine_config 1 status_snapshot_default"

definition demo_engine :: engine_world where
  "demo_engine = engine_turn (demo_engine_env 1) False (demo_engine_start\<lparr>ew_cmds := [Start]\<rparr>)"

lemma demo_engine_start_simps [simp]:
  "ew_exited demo_engine_start = False" "ew_cmds demo_engine_start = []" "in_monitoring demo_engine_start = False"
  "in_manual_paused demo_engine_start = False" "in_probe_in_flight demo_engine_start = False"
  "ew_probes demo_engine_start = []" "ew_version demo_engine_start = 1"
  "ew_runtime demo_engine_start = demo_engine_config" "ew_probe_rx demo_engine_start = []"
  "ew_logins demo_engine_start = 0" "ew_login_rx demo_engine_start = []"
  "in_cooling_until demo_engine_start = None" "in_consecutive_failures demo_engine_start = 0"
  "in_auto_login_in_flight demo_engine_start = False" "in_cautious_version demo_engine_start = None"
  "in_probe_pending demo_engine_start = False"
  by (simp_all add: demo_engine_start_def engine_world_new_def engine_inner_new_def engine_inner.defs engine_world.defs)

lemma demo_never_paused [simp]: "is_scheduled_pause_active env demo_engine_config = False"
  by (simp add: is_scheduled_pause_active_def demo_engine_config_def)

lemma demo_engine_eq:
  "demo_engine = reset_check_timer (demo_engine_env 1) (handle_network_check_with_priority True
     (merge_engine_state (demo_engine_env 1) Running (demo_engine_start\<lparr>ew_cmds := [], in_monitoring := True\<rparr>)))"
  by (simp add: demo_engine_def engine_turn_def handle_start_def Let_def is_any_pause_active_def
      merge_engine_state_def merge_status_def)

lemma demo_engine_simps [simp]:
  "ew_exited demo_engine = False" "in_monitoring demo_engine = True" "in_manual_paused demo_engine = False"
  "in_probe_in_flight demo_engine = True" "ew_probes demo_engine = [1]" "ew_version demo_engine = 1"
  "ew_runtime demo_engine = demo_engine_config" "ew_probe_rx demo_engine = []" "ew_logins demo_engine = 0"
  "in_cooling_until demo_engine = None" "in_consecutive_failures demo_engine = 0"
  "in_auto_login_in_flight demo_engine = False" "in_cautious_version demo_engine = None" "ew_cmds demo_engine = []"
  by (simp_all add: demo_engine_eq reset_check_timer_def handle_network_check_with_priority_def
      merge_engine_state_def merge_status_def Let_def)

lemma demo_engine_reachable: "engine_reachable demo_engine"
proof -
  have i: "engine_init demo_engine_start"
    unfolding engine_init_def demo_engine_start_def by (intro exI) (auto simp: status_snapshot_default_def)
  have "try_dispatch Start (Some demo_engine_start) = (Inr (), Some (demo_engine_start\<lparr>ew_cmds := [Start]\<rparr>))"
    by (simp add: try_dispatch_def CMD_CHANNEL_CAPACITY_def)
  then have "engine_step demo_engine_start (demo_engine_start\<lparr>ew_cmds := [Start]\<rparr>)"
    by (rule engine_step.command)
  moreover have "engine_step (demo_engine_start\<lparr>ew_cmds := [Start]\<rparr>) demo_engine"
    unfolding demo_engine_def by (rule engine_step.turn)
  ultimately have "rtranclp engine_step demo_engine_start demo_engine"
    by (meson rtranclp.rtrancl_into_rtrancl rtranclp.rtrancl_refl)
  with i show ?thesis unfolding engine_reachable_def by blast
qed

section \<open>Reachable worlds\<close>

lemma reachable_core: "engine_reachable w \<Longrightarrow> \<not> ew_exited w \<Longrightarrow> core_ok w"
  and reachable_board: "engine_reachable w \<Longrightarrow> \<not> ew_exited w \<Longrightarrow> board_ok w"
  using engine_reachable_ok [of w] by (simp_all add: engine_ok_def)

text \<open>C1. While the loop lives, the in-flight marks count exactly what is out: one probe, as a
  running task or as an unread message, if and only if the probe mark is set, and likewise for the
  automatic login. So neither mark can stick, no second probe or automatic login runs beside the
  first, and the channels always have room for the message that resets the mark.\<close>

theorem engine_tasks_accounted:
  assumes "engine_reachable w" and "\<not> ew_exited w"
  shows "length (ew_probes w) + length (ew_probe_rx w) = (if in_probe_in_flight w then 1 else 0)
    \<and> ew_logins w + length (ew_login_rx w) = (if in_auto_login_in_flight w then 1 else 0)
    \<and> (ew_probes w \<noteq> [] \<longrightarrow> length (ew_probe_rx w) < PROBE_CHANNEL_CAPACITY)
    \<and> (0 < ew_logins w \<longrightarrow> length (ew_login_rx w) < LOGIN_CHANNEL_CAPACITY)
    \<and> (in_probe_pending w \<longrightarrow> in_probe_in_flight w)"
  using reachable_core [OF assms]
  by (auto simp: core_ok_def flight_ok_def login_ok_def engine_consts split: if_splits)

theorem engine_tasks_accounted_witness:
  "length (ew_probes demo_engine) + length (ew_probe_rx demo_engine) = 1"
  using engine_tasks_accounted [OF demo_engine_reachable] by simp

text \<open>C3. The failure budget: while the loop lives the counter never exceeds three (so it cannot
  overflow), the engine cools down exactly when it is three, and while it cools down no automatic
  login runs.\<close>

theorem engine_failure_budget:
  assumes "engine_reachable w" and "\<not> ew_exited w"
  shows "unat (in_consecutive_failures w) \<le> 3
    \<and> (in_cooling_until w \<noteq> None \<longleftrightarrow> in_consecutive_failures w = 3)
    \<and> (in_cooling_until w \<noteq> None \<longrightarrow> ew_logins w = 0 \<and> ew_login_rx w = [])"
proof -
  have ok: "login_ok w" "budget_ok w" using reachable_core [OF assms] by (simp_all add: core_ok_def)
  show ?thesis
  proof (cases "in_cooling_until w")
    case None
    with ok(2) have "in_consecutive_failures w < 3" by (simp add: budget_ok_def COOLING_DOWN_THRESHOLD_def)
    with None show ?thesis by (auto simp: word_less_nat_alt)
  next
    case (Some t)
    with ok show ?thesis by (simp add: budget_ok_def login_ok_def COOLING_DOWN_THRESHOLD_def)
  qed
qed

theorem engine_failure_budget_witness:
  "in_cooling_until demo_engine = None \<and> unat (in_consecutive_failures demo_engine) \<le> 3"
  using engine_failure_budget [OF demo_engine_reachable] by simp

text \<open>C5. The board never lies about the engine: while the loop lives, the published state is
  \<open>Running\<close> exactly when monitoring is on, whatever late probe or login results came in.\<close>

theorem engine_board_agrees:
  assumes "engine_reachable w" and "\<not> ew_exited w"
  shows "ss_engine_state (ew_status w) = (if in_monitoring w then Running else Stopped)"
  using reachable_board [OF assms] by (simp add: board_ok_def engine_state_for_def)

theorem engine_board_agrees_witness: "ss_engine_state (ew_status demo_engine) = Running"
  using engine_board_agrees [OF demo_engine_reachable] by simp

section \<open>When a probe starts\<close>

lemma check_probes:
  "ew_probes (handle_network_check_with_priority b w) = ew_probes w @ (if in_probe_in_flight w then [] else [ew_version w])"
  "in_monitoring (handle_network_check_with_priority b w) = in_monitoring w"
  "in_manual_paused (handle_network_check_with_priority b w) = in_manual_paused w"
  "ew_runtime (handle_network_check_with_priority b w) = ew_runtime w"
  by (simp_all add: handle_network_check_with_priority_def)

lemma pause_cong:
  "in_manual_paused v = in_manual_paused w \<Longrightarrow> ew_runtime v = ew_runtime w
     \<Longrightarrow> is_any_pause_active env v = is_any_pause_active env w"
  by (simp add: is_any_pause_active_def)

text \<open>The starts of an operation are gated: if it starts a probe, monitoring is on and no pause
  is active afterwards.\<close>

definition starts_gated :: "engine_env \<Rightarrow> engine_world \<Rightarrow> engine_world \<Rightarrow> bool" where
  "starts_gated env w w' \<longleftrightarrow>
     (ew_probes w' = ew_probes w \<or>
      (\<exists>v. ew_probes w' = ew_probes w @ [v]) \<and> in_monitoring w' \<and> \<not> is_any_pause_active env w')"

lemma merge_probes [simp]:
  "ew_probes (merge_status env p w) = ew_probes w"
  "in_monitoring (merge_status env p w) = in_monitoring w"
  "in_manual_paused (merge_status env p w) = in_manual_paused w"
  "ew_runtime (merge_status env p w) = ew_runtime w"
  "in_probe_in_flight (merge_status env p w) = in_probe_in_flight w"
  "ew_version (merge_status env p w) = ew_version w"
  by (simp_all add: merge_status_def)

lemma merge_engine_probes [simp]:
  "ew_probes (merge_engine_state env st w) = ew_probes w"
  "in_monitoring (merge_engine_state env st w) = in_monitoring w"
  "in_manual_paused (merge_engine_state env st w) = in_manual_paused w"
  "ew_runtime (merge_engine_state env st w) = ew_runtime w"
  "in_probe_in_flight (merge_engine_state env st w) = in_probe_in_flight w"
  "ew_version (merge_engine_state env st w) = ew_version w"
  by (simp_all add: merge_engine_state_def Let_def)

lemma timer_pause [simp]:
  "is_any_pause_active env (w\<lparr>in_timer := t\<rparr>) = is_any_pause_active env w"
  "is_any_pause_active env (reset_check_timer env' w) = is_any_pause_active env w"
  "is_any_pause_active env (merge_status env' p w) = is_any_pause_active env w"
  "is_any_pause_active env (merge_engine_state env' st w) = is_any_pause_active env w"
  "is_any_pause_active env (handle_network_check_with_priority b w) = is_any_pause_active env w"
  "is_any_pause_active env (w\<lparr>in_last_check_time := ct\<rparr>) = is_any_pause_active env w"
  by (simp_all add: is_any_pause_active_def reset_check_timer_def check_probes)

lemma reset_timer_probes [simp]:
  "ew_probes (reset_check_timer env w) = ew_probes w"
  "in_monitoring (reset_check_timer env w) = in_monitoring w"
  by (simp_all add: reset_check_timer_def)

lemma immediate_gated: "ew_probes v = ew_probes w \<Longrightarrow> starts_gated env w (immediate_check env v)"
  by (simp add: starts_gated_def immediate_check_def check_probes)

lemma apply_profile_gated: "starts_gated env w (handle_apply_profile env p w)"
  by (auto simp: handle_apply_profile_def Let_def publish_config_def intro!: immediate_gated
      split: option.split sum.split) (simp add: starts_gated_def)

lemma command_gated: "starts_gated env w (fst (handle_command env c w))"
proof (cases c)
  case Start
  then show ?thesis by (simp add: handle_start_def Let_def starts_gated_def check_probes)
next
  case Resume
  then show ?thesis by (simp add: handle_resume_def Let_def immediate_gated)
next
  case (ApplyProfile p src)
  then show ?thesis by (simp add: apply_profile_gated)
qed (simp_all add: handle_stop_def handle_reload_def handle_test_network_def handle_pause_def handle_shutdown_def
       starts_gated_def publish_config_def Let_def split: sum.split)

lemma profile_switch_gated: "starts_gated env w (check_profile_switch env w)"
proof -
  have "starts_gated env w (handle_apply_profile env p (w\<lparr>in_notifier := n\<rparr>))" for p n
    using apply_profile_gated [of env "w\<lparr>in_notifier := n\<rparr>" p] by (simp add: starts_gated_def)
  then show ?thesis
    by (auto simp: check_profile_switch_def Let_def split: sum.split option.split) (simp_all add: starts_gated_def)
qed

lemma decide_login_probes [simp]:
  "ew_probes (decide_login env a v w) = ew_probes w"
  "in_probe_in_flight (decide_login env a v w) = in_probe_in_flight w"
  "in_monitoring (decide_login env a v w) = in_monitoring w"
  "in_manual_paused (decide_login env a v w) = in_manual_paused w"
  "ew_runtime (decide_login env a v w) = ew_runtime w"
  "ew_version (decide_login env a v w) = ew_version w"
  by (simp_all add: decide_login_def Let_def)

lemma report_probes [simp]:
  "ew_probes (publish_report env r w) = ew_probes w"
  "in_probe_in_flight (publish_report env r w) = in_probe_in_flight w"
  "in_monitoring (publish_report env r w) = in_monitoring w"
  "in_manual_paused (publish_report env r w) = in_manual_paused w"
  "ew_runtime (publish_report env r w) = ew_runtime w"
  "ew_version (publish_report env r w) = ew_version w"
  "ew_probes (note_report env r w) = ew_probes w"
  "in_probe_in_flight (note_report env r w) = in_probe_in_flight w"
  "in_monitoring (note_report env r w) = in_monitoring w"
  "in_manual_paused (note_report env r w) = in_manual_paused w"
  "ew_runtime (note_report env r w) = ew_runtime w"
  "ew_version (note_report env r w) = ew_version w"
  by (simp_all add: publish_report_def merge_probe_status_def note_report_def Let_def split: option.split)

lemma clear_expired_probes [simp]:
  "ew_probes (clear_expired_cooling_down now (w :: engine_world)) = ew_probes w"
  "in_probe_in_flight (clear_expired_cooling_down now w) = in_probe_in_flight w"
  "in_monitoring (clear_expired_cooling_down now w) = in_monitoring w"
  "in_manual_paused (clear_expired_cooling_down now w) = in_manual_paused w"
  "ew_runtime (clear_expired_cooling_down now w) = ew_runtime w"
  "ew_version (clear_expired_cooling_down now w) = ew_version w"
  by (simp_all add: clear_expired_cooling_down_def split: option.split)

lemma flush_gated: "starts_gated env w (flush_pending env b w)"
  by (simp add: flush_pending_def handle_network_check_def starts_gated_def check_probes)

lemma probe_message_probes:
  "ew_probes (handle_probe_message env msg w) =
     ew_probes w @ (if in_probe_pending w \<and> in_monitoring w \<and> \<not> is_any_pause_active env w then [ew_version w] else [])"
  by (auto simp: handle_probe_message_def probe_failed_def merge_probe_status_def flush_pending_def Let_def
      handle_network_check_def check_probes is_any_pause_active_def split: probe_message.split)

lemma probe_message_frame:
  "in_monitoring (handle_probe_message env msg w) = in_monitoring w"
  "is_any_pause_active env' (handle_probe_message env msg w) = is_any_pause_active env' w"
  by (auto simp: handle_probe_message_def probe_failed_def merge_probe_status_def flush_pending_def Let_def
      handle_network_check_def check_probes is_any_pause_active_def split: probe_message.split)

lemma login_result_probes:
  "ew_probes (handle_login_result env r w) = ew_probes w"
  by (auto simp: handle_login_result_def Let_def settle_login_budget_def count_login_failure_def
      observe_cautious_result_def split: budget_action.split)

lemma select_gated: "starts_gated env w (select_event env w)"
proof (cases "ew_login_rx w")
  case (Cons r rest)
  then show ?thesis by (simp add: select_event_def starts_gated_def login_result_probes)
next
  case Nil
  show ?thesis
  proof (cases "ew_probe_rx w")
    case (Cons m rest)
    have "is_any_pause_active env (w\<lparr>ew_probe_rx := rest\<rparr>) = is_any_pause_active env w"
      by (simp add: is_any_pause_active_def)
    with Nil Cons show ?thesis
      by (simp add: select_event_def starts_gated_def probe_message_probes probe_message_frame)
  next
    case none: Nil
    with Nil show ?thesis
      by (simp add: select_event_def starts_gated_def Let_def handle_network_check_def check_probes)
  qed
qed

text \<open>C6. A probe is only ever started while monitoring is on and neither the manual pause nor the
  scheduled window is active: this holds for every command, every event of the loop and the
  automatic profile switch, and each starts at most one.\<close>

theorem probe_starts_gated:
  "list_all (\<lambda>w'. ew_probes w' = ew_probes w \<or>
       (\<exists>v. ew_probes w' = ew_probes w @ [v]) \<and> in_monitoring w' \<and> \<not> is_any_pause_active env w')
     [fst (handle_command env c w), select_event env w, check_profile_switch env w]"
  using command_gated [of env w c] select_gated [of env w] profile_switch_gated [of env w]
  by (simp add: starts_gated_def)

end
