(* ===== verification/Engine_Policy.thy ===== *)
theory Engine_Policy
  imports Engine_Props
begin

text \<open>
  The decisions of the engine: when a report starts an automatic login and how often a cautious
  one is repeated, what becomes of a queued probe, the pause window, the probe intervals and the
  end of the loop.
\<close>

section \<open>When an automatic login starts\<close>

text \<open>Whether the cooling period recorded in a world is over.\<close>

definition cooled :: "instant \<Rightarrow> engine_world \<Rightarrow> bool" where
  "cooled now w \<longleftrightarrow> (case in_cooling_until w of None \<Rightarrow> True | Some until \<Rightarrow> until \<le> now)"

lemma cleared_cooling:
  "in_cooling_until (clear_expired_cooling_down now w) = None \<longleftrightarrow> cooled now (w :: engine_world)"
  by (auto simp: clear_expired_cooling_down_def cooled_def split: option.split)

lemma cleared_frame [simp]:
  "in_auto_login_in_flight (clear_expired_cooling_down now (w :: engine_world)) = in_auto_login_in_flight w"
  "in_cautious_version (clear_expired_cooling_down now w) = in_cautious_version w"
  "in_cautious_retry_after (clear_expired_cooling_down now w) = in_cautious_retry_after w"
  "ew_logins (clear_expired_cooling_down now w) = ew_logins w"
  "ew_login_rx (clear_expired_cooling_down now w) = ew_login_rx w"
  by (simp_all add: clear_expired_cooling_down_def split: option.split)

lemma report_frame [simp]:
  "in_auto_login_in_flight (publish_report env r w) = in_auto_login_in_flight w"
  "in_cooling_until (publish_report env r w) = in_cooling_until w"
  "in_consecutive_failures (publish_report env r w) = in_consecutive_failures w"
  "in_cautious_version (publish_report env r w) = in_cautious_version w"
  "in_cautious_retry_after (publish_report env r w) = in_cautious_retry_after w"
  "ew_logins (publish_report env r w) = ew_logins w"
  "in_auto_login_in_flight (note_report env r w) = in_auto_login_in_flight w"
  "in_cooling_until (note_report env r w) = in_cooling_until w"
  "in_consecutive_failures (note_report env r w) = in_consecutive_failures w"
  "ew_logins (note_report env r w) = ew_logins w"
  by (simp_all add: publish_report_def merge_probe_status_def merge_status_def note_report_def Let_def
      split: option.split)

lemma note_report_cautious:
  "in_cautious_version (note_report env r w) =
     (if ca_status (pr_assessment r) = CaptivePortal then in_cautious_version w else None)"
  "in_cautious_retry_after (note_report env r w) =
     (if ca_status (pr_assessment r) = CaptivePortal then in_cautious_retry_after w else None)"
  by (simp_all add: note_report_def Let_def)

lemma flush_frame [simp]:
  "in_auto_login_in_flight (flush_pending env b w) = in_auto_login_in_flight w"
  "in_cooling_until (flush_pending env b w) = in_cooling_until w"
  "in_consecutive_failures (flush_pending env b w) = in_consecutive_failures w"
  "in_cautious_version (flush_pending env b w) = in_cautious_version w"
  "in_cautious_retry_after (flush_pending env b w) = in_cautious_retry_after w"
  "ew_logins (flush_pending env b w) = ew_logins w"
  "in_monitoring (flush_pending env b w) = in_monitoring w"
  "in_manual_paused (flush_pending env b w) = in_manual_paused w"
  "ew_runtime (flush_pending env b w) = ew_runtime w"
  "ew_version (flush_pending env b w) = ew_version w"
  by (simp_all add: flush_pending_def handle_network_check_def handle_network_check_with_priority_def)

text \<open>Whether the cautious budget blocks a report: only in the portal state, for the same version.\<close>

definition cautious_spent :: "instant \<Rightarrow> connectivity_assessment \<Rightarrow> u64 \<Rightarrow> engine_world \<Rightarrow> bool" where
  "cautious_spent now a v w \<longleftrightarrow>
     ca_advice a = AttemptLoginOnce \<and> ca_status a = CaptivePortal \<and> cautious_blocked now v w"

definition login_gates_open :: "engine_env \<Rightarrow> connectivity_assessment \<Rightarrow> u64 \<Rightarrow> engine_world \<Rightarrow> bool" where
  "login_gates_open env a v w \<longleftrightarrow>
     login_advice (ca_advice a) \<and> in_monitoring w \<and> \<not> is_any_pause_active env w \<and> v = ew_version w
     \<and> cooled (ee_now env) w \<and> \<not> in_auto_login_in_flight w \<and> \<not> cautious_spent (ee_now env) a v w"

lemma permitted_iff:
  "auto_login_permitted env (ca_advice (pr_assessment r)) v
     (publish_report env r (note_report env r (clear_expired_cooling_down (ee_now env)
        (w\<lparr>in_probe_in_flight := False, in_probe_pending := False\<rparr>))))
   = login_gates_open env (pr_assessment r) v w"
proof -
  let ?a = "pr_assessment r"
  define w1 where "w1 = w\<lparr>in_probe_in_flight := False, in_probe_pending := False\<rparr>"
  define w2 where "w2 = publish_report env r (note_report env r (clear_expired_cooling_down (ee_now env) w1))"
  have f: "in_monitoring w2 = in_monitoring w" "ew_version w2 = ew_version w"
    "in_auto_login_in_flight w2 = in_auto_login_in_flight w"
    "is_any_pause_active env w2 = is_any_pause_active env w"
    "in_cautious_version w2 = (if ca_status ?a = CaptivePortal then in_cautious_version w else None)"
    "in_cautious_retry_after w2 = (if ca_status ?a = CaptivePortal then in_cautious_retry_after w else None)"
    by (simp_all add: w2_def w1_def note_report_cautious is_any_pause_active_def)
  have c: "in_cooling_until w2 = None \<longleftrightarrow> cooled (ee_now env) w"
    unfolding w2_def by (simp add: cleared_cooling) (simp add: w1_def cooled_def)
  have b: "cautious_blocked (ee_now env) v w2 \<longleftrightarrow> ca_status ?a = CaptivePortal \<and> cautious_blocked (ee_now env) v w"
    by (simp add: cautious_blocked_def f(5,6))
  show ?thesis
    unfolding w1_def [symmetric] w2_def [symmetric] auto_login_permitted_def login_gates_open_def
      cautious_spent_def login_advice_def f b c by auto
qed

lemma report_result:
  "handle_probe_message env (Report r v) w =
     flush_pending env (in_probe_pending w) (decide_login env (ca_advice (pr_assessment r)) v
       (publish_report env r (note_report env r (clear_expired_cooling_down (ee_now env)
          (w\<lparr>in_probe_in_flight := False, in_probe_pending := False\<rparr>)))))"
  by (simp add: handle_probe_message_def Let_def)

lemma report_logins:
  "ew_logins (handle_probe_message env (Report r v) w) =
     ew_logins w + (if login_gates_open env (pr_assessment r) v w then 1 else 0)"
  unfolding report_result by (simp add: decide_login_def permitted_iff Let_def)

text \<open>C2. What starts an automatic login: a report does exactly if it advises one, monitoring is on,
  no pause is active, the configuration is still the one the probe captured, the cooling period is
  over, no automatic login is out, and a careful attempt in the portal state has not been spent on
  this configuration. A failed probe never does.\<close>

theorem auto_login_gates:
  "ew_logins (handle_probe_message env msg w) = ew_logins w +
     (case msg of
        FailedProbe e v \<Rightarrow> 0
      | Report r v \<Rightarrow>
          let a = pr_assessment r in
          if ca_advice a \<in> {AttemptLogin, AttemptLoginOnce} \<and> in_monitoring w
             \<and> \<not> is_any_pause_active env w \<and> v = ew_version w
             \<and> (case in_cooling_until w of None \<Rightarrow> True | Some until \<Rightarrow> until \<le> ee_now env)
             \<and> \<not> in_auto_login_in_flight w
             \<and> \<not> (ca_advice a = AttemptLoginOnce \<and> ca_status a = CaptivePortal
                  \<and> in_cautious_version w = Some v
                  \<and> (case in_cautious_retry_after w of None \<Rightarrow> True | Some until \<Rightarrow> ee_now env < until))
          then 1 else 0)"
proof (cases msg)
  case (Report r v)
  show ?thesis unfolding Report report_logins
    by (simp add: login_gates_open_def login_advice_def cautious_spent_def cautious_blocked_def cooled_def Let_def)
next
  case (FailedProbe e v)
  then show ?thesis
    by (simp add: handle_probe_message_def probe_failed_def merge_probe_status_def merge_status_def Let_def)
qed

section \<open>Repeated attempts\<close>

text \<open>A stretch of probe results and login results while the configuration stays the same. Each
  report is of a probe started under the current version; a login result needs a login that is
  out.\<close>

datatype round_event = Probed engine_env probe_report | LoggedIn engine_env login_result

fun round_step :: "round_event \<Rightarrow> engine_world \<Rightarrow> engine_world" where
  "round_step (Probed env r) w = handle_probe_message env (Report r (ew_version w)) w"
| "round_step (LoggedIn env result) w =
     (if ew_logins w = 0 then w else handle_login_result env result (w\<lparr>ew_logins := ew_logins w - 1\<rparr>))"

text \<open>How many automatic logins the stretch starts.\<close>

fun logins_started :: "round_event list \<Rightarrow> engine_world \<Rightarrow> nat" where
  "logins_started [] w = 0"
| "logins_started (e # es) w = (ew_logins (round_step e w) - ew_logins w) + logins_started es (round_step e w)"

lemma merge_engine_frame [simp]:
  "ew_logins (merge_engine_state env st w) = ew_logins w"
  "in_auto_login_in_flight (merge_engine_state env st w) = in_auto_login_in_flight w"
  "in_cautious_version (merge_engine_state env st w) = in_cautious_version w"
  "in_cautious_retry_after (merge_engine_state env st w) = in_cautious_retry_after w"
  by (simp_all add: merge_engine_state_def merge_status_def Let_def)

lemma settle_frame [simp]:
  "ew_logins (settle_login_budget env r w) = ew_logins w"
  "ew_version (settle_login_budget env r w) = ew_version w"
  "ew_runtime (settle_login_budget env r w) = ew_runtime w"
  "in_monitoring (settle_login_budget env r w) = in_monitoring w"
  "in_manual_paused (settle_login_budget env r w) = in_manual_paused w"
  "in_auto_login_in_flight (settle_login_budget env r w) = in_auto_login_in_flight w"
  "in_cautious_version (settle_login_budget env r w) = in_cautious_version w"
  "in_cautious_retry_after (settle_login_budget env r w) = in_cautious_retry_after w"
  by (simp_all add: settle_login_budget_def count_login_failure_def Let_def split: budget_action.split)

lemma observe_frame [simp]:
  "ew_logins (observe_cautious_result now r w) = ew_logins w"
  "ew_version (observe_cautious_result now r w) = ew_version w"
  "ew_runtime (observe_cautious_result now r w) = ew_runtime w"
  "in_monitoring (observe_cautious_result now r w) = in_monitoring w"
  "in_manual_paused (observe_cautious_result now r w) = in_manual_paused w"
  "in_auto_login_in_flight (observe_cautious_result now r w) = in_auto_login_in_flight w"
  "in_cautious_version (observe_cautious_result now r w) = in_cautious_version w"
  by (simp_all add: observe_cautious_result_def)

lemma login_result_frame [simp]:
  "ew_logins (handle_login_result env r w) = ew_logins w"
  "ew_version (handle_login_result env r w) = ew_version w"
  "ew_runtime (handle_login_result env r w) = ew_runtime w"
  "in_monitoring (handle_login_result env r w) = in_monitoring w"
  "in_manual_paused (handle_login_result env r w) = in_manual_paused w"
  "in_auto_login_in_flight (handle_login_result env r w) = False"
  by (simp_all add: handle_login_result_def Let_def)

lemma login_result_cautious:
  "in_cautious_version (handle_login_result env r w) = in_cautious_version w"
  "in_cautious_retry_after (handle_login_result env r w) =
     (if lr_source r = SrcAuto \<and> in_cautious_version w \<noteq> None
      then (if lr_terminal r = Failed \<and> lr_network_retryable r
            then Some (ee_now env + from_secs COOLING_DOWN_DURATION_SECS) else None)
      else in_cautious_retry_after w)"
  by (simp_all add: handle_login_result_def Let_def) (auto simp: observe_cautious_result_def)

lemma report_version [simp]: "ew_version (handle_probe_message env (Report r v) w) = ew_version w"
  unfolding report_result by simp

definition spent :: "engine_world \<Rightarrow> bool" where
  "spent w \<longleftrightarrow> in_cautious_version w = Some (ew_version w) \<and> in_cautious_retry_after w = None"

lemma report_spends:
  assumes "ca_status (pr_assessment r) = CaptivePortal" and "ca_advice (pr_assessment r) = AttemptLoginOnce"
  shows "login_gates_open env (pr_assessment r) (ew_version w) w \<Longrightarrow>
           spent (handle_probe_message env (Report r (ew_version w)) w)"
    and "spent w \<Longrightarrow> spent (handle_probe_message env (Report r (ew_version w)) w)
           \<and> ew_logins (handle_probe_message env (Report r (ew_version w)) w) = ew_logins w"
proof -
  show "login_gates_open env (pr_assessment r) (ew_version w) w \<Longrightarrow>
      spent (handle_probe_message env (Report r (ew_version w)) w)"
    using permitted_iff [of env r "ew_version w" w, unfolded assms]
    unfolding report_result by (simp add: decide_login_def Let_def assms spent_def)
  assume s: "spent w"
  then have "\<not> login_gates_open env (pr_assessment r) (ew_version w) w"
    by (simp add: login_gates_open_def cautious_spent_def cautious_blocked_def assms spent_def)
  then have g: "\<not> auto_login_permitted env (ca_advice (pr_assessment r)) (ew_version w)
     (publish_report env r (note_report env r (clear_expired_cooling_down (ee_now env)
        (w\<lparr>in_probe_in_flight := False, in_probe_pending := False\<rparr>))))"
    by (simp only: permitted_iff) simp
  show "spent (handle_probe_message env (Report r (ew_version w)) w)
      \<and> ew_logins (handle_probe_message env (Report r (ew_version w)) w) = ew_logins w"
    using s g unfolding report_result by (simp add: decide_login_def note_report_cautious assms spent_def)
qed

definition portal_event :: "round_event \<Rightarrow> bool" where
  "portal_event e = (case e of
       Probed env r \<Rightarrow> ca_status (pr_assessment r) = CaptivePortal \<and> ca_advice (pr_assessment r) = AttemptLoginOnce
     | LoggedIn env result \<Rightarrow> \<not> (lr_terminal result = Failed \<and> lr_network_retryable result))"

lemma portal_event_spent:
  assumes "spent w" and "portal_event e"
  shows "spent (round_step e w) \<and> ew_logins (round_step e w) \<le> ew_logins w"
proof (cases e)
  case (Probed env r)
  with assms report_spends(2) [of r w env] show ?thesis by (simp add: portal_event_def)
next
  case (LoggedIn env result)
  with assms show ?thesis by (auto simp: portal_event_def spent_def login_result_cautious)
qed

lemma spent_stays: "spent w \<Longrightarrow> list_all portal_event es \<Longrightarrow> logins_started es w = 0"
proof (induction es arbitrary: w)
  case (Cons e es)
  then show ?case using portal_event_spent [of w e] by simp
qed simp

lemma portal_once: "list_all portal_event es \<Longrightarrow> logins_started es w \<le> 1"
proof (induction es arbitrary: w)
  case (Cons e es)
  then have e: "portal_event e" and es: "list_all portal_event es" by simp_all
  show ?case
  proof (cases e)
    case (LoggedIn env result)
    have "ew_logins (round_step e w) \<le> ew_logins w" by (simp add: LoggedIn)
    then show ?thesis using Cons.IH [OF es, of "round_step e w"] by simp
  next
    case (Probed env r)
    with e have r: "ca_status (pr_assessment r) = CaptivePortal" "ca_advice (pr_assessment r) = AttemptLoginOnce"
      by (simp_all add: portal_event_def)
    show ?thesis
    proof (cases "login_gates_open env (pr_assessment r) (ew_version w) w")
      case True
      with report_spends(1) [OF r] spent_stays [OF _ es] show ?thesis
        by (simp add: Probed report_logins)
    next
      case False
      then show ?thesis using Cons.IH [OF es, of "round_step e w"] by (simp add: Probed report_logins)
    qed
  qed
qed simp

text \<open>C4. In a lasting portal state whose login address does not answer, a careful login is tried at
  most once per configuration version, however many probes report it, unless an attempt fails for
  a retryable network reason.\<close>

theorem cautious_once_in_portal:
  assumes "list_all (\<lambda>e. case e of
       Probed env r \<Rightarrow> ca_status (pr_assessment r) = CaptivePortal \<and> ca_advice (pr_assessment r) = AttemptLoginOnce
     | LoggedIn env result \<Rightarrow> \<not> (lr_terminal result = Failed \<and> lr_network_retryable result)) events"
  shows "logins_started events w \<le> 1"
  using assms portal_once [of events w] by (simp add: portal_event_def [abs_def])

definition demo_report :: "network_status \<Rightarrow> assessment_reason \<Rightarrow> recovery_advice \<Rightarrow> probe_report" where
  "demo_report status reason advice =
     \<lparr>pr_evidence = probe_evidence_default, pr_assessment = assessment status High reason advice,
      pr_latency_ms = 5, pr_check_number = 1\<rparr>"

definition demo_refused :: login_result where
  "demo_refused = \<lparr>lr_network_retryable = False, lr_terminal = Failed, lr_message = ''wrong password'',
     lr_source = SrcAuto, lr_duration = 0, lr_attempts = 1\<rparr>"

definition demo_rounds :: "network_status \<Rightarrow> round_event list" where
  "demo_rounds status =
     [Probed (demo_engine_env 10) (demo_report status InconclusiveEvidence AttemptLoginOnce),
      LoggedIn (demo_engine_env 20) demo_refused,
      Probed (demo_engine_env 40) (demo_report status InconclusiveEvidence AttemptLoginOnce)]"

theorem cautious_once_in_portal_witness: "logins_started (demo_rounds CaptivePortal) demo_engine \<le> 1"
  by (rule cautious_once_in_portal) (simp add: demo_rounds_def demo_report_def assessment_def demo_refused_def)

text \<open>The other source of the same advice: inconclusive public probes with a login address that
  answers leave the status \<open>Unknown\<close>.\<close>

lemma unknown_advises_once:
  assumes "ca_status (assess_connectivity ev) = Unknown"
    and "ca_reason (assess_connectivity ev) = InconclusiveEvidence"
  shows "ca_status (apply_auth_endpoint (assess_connectivity ev) Reachable) = Unknown"
    and "ca_advice (apply_auth_endpoint (assess_connectivity ev) Reachable) = AttemptLoginOnce"
  using assms by (simp_all add: apply_auth_endpoint_def)

lemma outside_portal_opens:
  assumes "ca_status a \<noteq> CaptivePortal" and "ca_advice a = AttemptLoginOnce"
  shows "login_gates_open env a (ew_version w) w \<longleftrightarrow>
     in_monitoring w \<and> \<not> is_any_pause_active env w \<and> cooled (ee_now env) w \<and> \<not> in_auto_login_in_flight w"
  using assms by (auto simp: login_gates_open_def cautious_spent_def login_advice_def)

text \<open>Outside the portal state the careful attempt is not limited: whatever attempt has been
  recorded for this configuration version, a report with another status that advises a single
  login (inconclusive probes and a login address that answers) starts one as soon as none is out
  and the engine neither pauses nor cools down.\<close>

theorem cautious_unlimited_outside_portal:
  assumes "ca_status (assess_connectivity ev) = Unknown"
    and "ca_reason (assess_connectivity ev) = InconclusiveEvidence"
    and "pr_assessment r = apply_auth_endpoint (assess_connectivity ev) Reachable"
    and "in_monitoring w" and "\<not> is_any_pause_active env w" and "in_cooling_until w = None"
    and "\<not> in_auto_login_in_flight w"
  shows "ew_logins (handle_probe_message env (Report r (ew_version w)) (w\<lparr>in_cautious_version := Some (ew_version w)\<rparr>))
    = ew_logins w + 1"
proof -
  let ?w = "w\<lparr>in_cautious_version := Some (ew_version w)\<rparr>"
  note a = unknown_advises_once [OF assms(1,2)]
  have "is_any_pause_active env ?w = is_any_pause_active env w" by (rule pause_cong) simp_all
  then have "login_gates_open env (pr_assessment r) (ew_version ?w) ?w"
    using outside_portal_opens [of "pr_assessment r" env ?w] a assms by (simp add: cooled_def)
  then show ?thesis using report_logins [of env r "ew_version ?w" ?w] by simp
qed

definition demo_odd_status_evidence :: probe_evidence where
  "demo_odd_status_evidence = probe_evidence_new Pass Inconclusive Disabled"

definition demo_unknown_report :: probe_report where
  "demo_unknown_report =
     \<lparr>pr_evidence = demo_odd_status_evidence,
      pr_assessment = apply_auth_endpoint (assess_connectivity demo_odd_status_evidence) Reachable,
      pr_latency_ms = 5, pr_check_number = 1\<rparr>"

theorem cautious_unlimited_outside_portal_witness:
  "ew_logins (handle_probe_message (demo_engine_env 10) (Report demo_unknown_report 1)
      (demo_engine\<lparr>in_cautious_version := Some 1\<rparr>)) = 1"
  using cautious_unlimited_outside_portal [of demo_odd_status_evidence demo_unknown_report demo_engine "demo_engine_env 10"]
  by (simp add: demo_odd_status_evidence_def demo_unknown_report_def assess_connectivity_def assessment_def Let_def
      is_any_pause_active_def)

section \<open>Queued probes\<close>

lemma pending_frame [simp]:
  "in_probe_pending (clear_expired_cooling_down now (w :: engine_world)) = in_probe_pending w"
  "in_probe_pending (note_report env r w) = in_probe_pending w"
  "in_probe_pending (publish_report env r w) = in_probe_pending w"
  "in_probe_pending (decide_login env adv v w) = in_probe_pending w"
  "in_probe_pending (flush_pending env b w) = in_probe_pending w"
  "in_probe_pending (merge_probe_status env ev w) = in_probe_pending w"
  by (simp_all add: clear_expired_cooling_down_def note_report_def publish_report_def decide_login_def flush_pending_def
      handle_network_check_def handle_network_check_with_priority_def merge_probe_status_def merge_status_def Let_def
      split: option.split)

lemma probe_message_pending: "\<not> in_probe_pending (handle_probe_message env msg w)"
  by (simp add: handle_probe_message_def probe_failed_def Let_def split: probe_message.split)

text \<open>A check the user asks for is never lost: if a probe is out when monitoring is resumed, then
  as soon as the message of that probe is handled, whatever it says, a new probe starts under the
  current configuration (as long as monitoring is on and no scheduled pause is active), and only
  one.\<close>

theorem resumed_check_not_lost:
  assumes "in_probe_in_flight w" and "in_monitoring w"
    and "\<not> is_scheduled_pause_active env (ew_runtime w)" and "\<not> is_scheduled_pause_active env' (ew_runtime w)"
  shows "ew_probes (handle_probe_message env' msg (handle_resume env w)) = ew_probes w @ [ew_version w]
    \<and> \<not> in_probe_pending (handle_probe_message env' msg (handle_resume env w))"
proof -
  let ?v = "handle_resume env w"
  have v: "in_probe_pending ?v" "in_monitoring ?v" "ew_probes ?v = ew_probes w" "ew_version ?v = ew_version w"
    "\<not> is_any_pause_active env' ?v"
    using assms by (simp_all add: handle_resume_def immediate_check_def is_any_pause_active_def Let_def
        handle_network_check_with_priority_def reset_check_timer_def)
  with v show ?thesis by (simp add: probe_message_probes probe_message_pending)
qed

theorem resumed_check_not_lost_witness:
  "ew_probes (handle_probe_message (demo_engine_env 3) (FailedProbe [] 1) (handle_resume (demo_engine_env 2) demo_engine))
     = [1, 1]"
  using resumed_check_not_lost [of demo_engine "demo_engine_env 2" "demo_engine_env 3" "FailedProbe [] 1"] by simp

end
