(* ===== verification/Engine_Timing.thy ===== *)
theory Engine_Timing
  imports Engine_Props
begin

text \<open>
  The engine and time: the pause window, the interval after a probe result, the timer, and the
  end of the loop.
\<close>

section \<open>The pause window\<close>

lemma minute_of_day:
  fixes h m :: nat
  assumes "h < 24" and "m < 60"
  shows "unat (word_of_nat h * 60 + word_of_nat m :: u32) = 60 * h + m"
proof -
  have "(word_of_nat h * 60 + word_of_nat m :: u32) = word_of_nat (60 * h + m)" by simp
  moreover have "60 * h + m < 2 ^ 32" using assms by simp
  ultimately show ?thesis by (simp only: unat_of_nat) simp
qed

text \<open>The pause window, stated on the clock as a circle of 1440 minutes: with equal ends it is the
  whole day, otherwise the minutes from the start (included) up to the end (excluded), whether or
  not midnight lies between.\<close>

theorem pause_window_circle:
  assumes "w_hour now < 24" and "w_minute now < 60"
    and "sh < 24" and "sm < 60" and "eh < 24" and "em < 60"
  shows "is_in_pause_window now (word_of_nat sh) (word_of_nat sm) (word_of_nat eh) (word_of_nat em) \<longleftrightarrow>
     (let t = int (60 * w_hour now + w_minute now); s = int (60 * sh + sm); e = int (60 * eh + em)
      in s = e \<or> (t - s) mod 1440 < (e - s) mod 1440)"
proof -
  define t s e where d: "t = 60 * w_hour now + w_minute now" "s = 60 * sh + sm" "e = 60 * eh + em"
  have b: "t < 1440" "s < 1440" "e < 1440" using assms by (simp_all add: d)
  have w: "is_in_pause_window now (word_of_nat sh) (word_of_nat sm) (word_of_nat eh) (word_of_nat em) \<longleftrightarrow>
      (if s = e then True else if s < e then s \<le> t \<and> t < e else s \<le> t \<or> t < e)"
    unfolding is_in_pause_window_def Let_def word_less_nat_alt word_le_nat_alt word_unat_eq_iff
      minute_of_day [OF assms(1,2)] minute_of_day [OF assms(3,4)] minute_of_day [OF assms(5,6)] d by (rule refl)
  have m: "(int x - int y) mod 1440 = (if y \<le> x then int x - int y else int x - int y + 1440)"
    if "x < 1440" "y < 1440" for x y :: nat
  proof (cases "y \<le> x")
    case True
    then show ?thesis using that by simp
  next
    case False
    have "(int x - int y) mod 1440 = (int x - int y + 1440) mod 1440" by simp
    also have "\<dots> = int x - int y + 1440" using that False by (intro mod_pos_pos_trivial) simp_all
    finally show ?thesis using False by simp
  qed
  show ?thesis unfolding w d [symmetric] Let_def m [OF b(1,2)] m [OF b(3,2)] using b by auto
qed

text \<open>Half past one in the night, in a window from 23:00 to 06:00.\<close>

theorem pause_window_circle_witness:
  "is_in_pause_window \<lparr>w_stamp = 0, w_hour = 1, w_minute = 30\<rparr> 23 0 6 0"
  using pause_window_circle [of "\<lparr>w_stamp = 0, w_hour = 1, w_minute = 30\<rparr>" 23 0 6 0] by simp

section \<open>Intervals\<close>

lemma pow_ge: "7 \<le> n \<Longrightarrow> (1920::nat) \<le> 30 * 2 ^ min (n - 1) 16"
proof -
  assume "7 \<le> n"
  then have "(2::nat) ^ 6 \<le> 2 ^ min (n - 1) 16" by (intro power_increasing) auto
  then show ?thesis by simp
qed

text \<open>The next interval after a report, for every configuration: it lies between 20 and 1200
  seconds; after anything but \<open>Online\<close> it is thirty seconds (the configured one when no probe is
  enabled); the first online result gives thirty seconds, or less when configured; every further
  one at most doubles it, never shrinks it; and from the seventh on it is the configured one.\<close>

theorem next_interval_bounds:
  fixes cfg :: runtime_config and a :: connectivity_assessment and streak :: u32
  defines "next_secs \<equiv> \<lambda>k. unat (next_check_secs a k (check_interval_secs cfg))"
  shows "20 \<le> next_secs streak \<and> next_secs streak \<le> 1200
    \<and> (ca_advice a = NoProbeEvidence \<longrightarrow> next_secs streak = unat (check_interval_secs cfg))
    \<and> (ca_advice a \<noteq> NoProbeEvidence \<longrightarrow>
        (if ca_status a \<noteq> Online then next_secs streak = 30
         else next_secs 1 = min 30 (unat (check_interval_secs cfg))
           \<and> next_secs streak \<le> next_secs (sat_add streak 1)
           \<and> next_secs (sat_add streak 1) \<le> 2 * next_secs streak
           \<and> (7 \<le> unat streak \<longrightarrow> next_secs streak = unat (check_interval_secs cfg))))"
proof -
  define base where "base = unat (check_interval_secs cfg)"
  have b: "20 \<le> base" "base \<le> 1200" by (simp_all add: base_def check_interval_bounds)
  have n: "next_secs k = (if ca_advice a = NoProbeEvidence then base
      else if ca_status a = Online then min (30 * 2 ^ min (unat k - 1) 16) base else 30)" for k
    using b by (simp add: next_secs_def next_check_secs_def adaptive_interval_eq base_def max_absorb1)
  have one: "(1::nat) \<le> 2 ^ m" for m :: nat by simp
  have lo: "20 \<le> 30 * (2::nat) ^ m" for m :: nat using one [of m] by linarith
  have s: "unat (sat_add streak 1) = min (unat streak + 1) (2 ^ 32 - 1)" by (simp add: unat_sat_add)
  have le: "unat streak \<le> unat (sat_add streak 1)" using sat_add_mono [of streak 1] by (simp add: word_le_nat_alt)
  have e: "min (unat (sat_add streak 1) - 1) 16 \<le> Suc (min (unat streak - 1) 16)" unfolding s by auto
  have dbl: "30 * (2::nat) ^ min (unat (sat_add streak 1) - 1) 16 \<le> 2 * (30 * 2 ^ min (unat streak - 1) 16)"
    using power_increasing [OF e, of "2::nat"] by simp
  have inc: "30 * (2::nat) ^ min (unat streak - 1) 16 \<le> 30 * 2 ^ min (unat (sat_add streak 1) - 1) 16"
    using le by (intro mult_left_mono power_increasing) auto
  have seven: "7 \<le> unat streak \<Longrightarrow> base \<le> 30 * 2 ^ min (unat streak - 1) 16"
    using pow_ge [of "unat streak"] b(2) by linarith
  define x where "x = 30 * (2::nat) ^ min (unat streak - 1) 16"
  define y where "y = 30 * (2::nat) ^ min (unat (sat_add streak 1) - 1) 16"
  have xy: "20 \<le> x" "x \<le> y" "y \<le> 2 * x" "7 \<le> unat streak \<Longrightarrow> base \<le> x"
    unfolding x_def y_def by (rule lo, rule inc, rule dbl, erule seven)
  have ns: "next_secs streak = (if ca_advice a = NoProbeEvidence then base
      else if ca_status a = Online then min x base else 30)"
    and nt: "next_secs (sat_add streak 1) = (if ca_advice a = NoProbeEvidence then base
      else if ca_status a = Online then min y base else 30)"
    and n1: "next_secs 1 = (if ca_advice a = NoProbeEvidence then base
      else if ca_status a = Online then min 30 base else 30)"
    by (simp_all add: n x_def y_def)
  have bounds: "20 \<le> min x base" "min x base \<le> 1200" "min x base \<le> min y base" "min y base \<le> 2 * min x base"
    "7 \<le> unat streak \<Longrightarrow> min x base = base"
    using b xy by (simp_all add: min_def)
  show ?thesis unfolding ns nt n1 base_def [symmetric] using b bounds by simp
qed

theorem next_interval_bounds_witness:
  "unat (next_check_secs assessment_default 5 (check_interval_secs demo_engine_config)) = 30"
  using next_interval_bounds [of assessment_default 5 demo_engine_config] by (simp add: assessment_default_def)

text \<open>The timer never fires in bursts: while the loop lives its period is between 20 and 1200
  seconds, and when it fires, however late, its next deadline lies in the future and at most one
  period away.\<close>

theorem timer_no_burst:
  assumes "engine_reachable w" and "\<not> ew_exited w" and "timer_due now (in_timer w)"
  shows "from_secs 20 \<le> ct_period (in_timer w) \<and> ct_period (in_timer w) \<le> from_secs 1200
    \<and> now < ct_next (timer_tick now (in_timer w))
    \<and> ct_next (timer_tick now (in_timer w)) \<le> now + ct_period (in_timer w)"
proof -
  let ?t = "in_timer w"
  have p: "from_secs 20 \<le> ct_period ?t" "ct_period ?t \<le> from_secs 1200"
    using reachable_core [OF assms(1,2)] by (simp_all add: core_ok_def timer_ok_def)
  have pos: "5 * 1000000 < ct_period ?t" using p(1) by (simp add: from_secs_def NANOS_def)
  have due: "ct_next ?t \<le> now" using assms(3) by (simp add: timer_due_def)
  have m: "(now - ct_next ?t) mod ct_period ?t < ct_period ?t" using pos by simp
  have n: "ct_next (timer_tick now ?t) = (if ct_next ?t + 5 * 1000000 < now
      then now + ct_period ?t - (now - ct_next ?t) mod ct_period ?t else ct_next ?t + ct_period ?t)"
    by (simp add: timer_tick_def)
  have "now < ct_next (timer_tick now ?t) \<and> ct_next (timer_tick now ?t) \<le> now + ct_period ?t"
    unfolding n using due pos m by (split if_split) linarith
  with p show ?thesis by blast
qed

theorem timer_no_burst_witness:
  "from_secs 5000 < ct_next (timer_tick (from_secs 5000) (in_timer demo_engine))"
proof -
  have "timer_due (from_secs 5000) (in_timer demo_engine)"
  proof -
    have "unat (check_interval_secs demo_engine_config) \<le> 1200" by (rule check_interval_bounds)
    then have "check_interval_duration demo_engine_config \<le> from_secs 1200"
      by (simp add: check_interval_duration_def)
    then show ?thesis
      by (simp add: timer_due_def demo_engine_eq reset_check_timer_def new_check_timer_def demo_engine_env_def
          handle_network_check_with_priority_def from_secs_def NANOS_def)
  qed
  then show ?thesis using timer_no_burst [OF demo_engine_reachable, of "from_secs 5000"] by simp
qed

section \<open>The end of the loop\<close>



end
