(* ===== verification/Profile_Names.thy ===== *)
theory Profile_Names
  imports Config_Model
begin

text \<open>
  Names of profiles (\<open>config/service.rs\<close>, \<open>config/profiles.rs\<close>): which ids may become a file
  name, and the slug a free text is turned into. A text is the list of its Unicode scalar values
  here; an id is the ASCII string it is stored under.
\<close>

section \<open>Valid ids\<close>

definition WINDOWS_RESERVED_NAMES :: "string list" where
  "WINDOWS_RESERVED_NAMES =
     [''CON'', ''PRN'', ''AUX'', ''NUL'', ''COM1'', ''COM2'', ''COM3'', ''COM4'', ''COM5'', ''COM6'',
      ''COM7'', ''COM8'', ''COM9'', ''LPT1'', ''LPT2'', ''LPT3'', ''LPT4'', ''LPT5'', ''LPT6'', ''LPT7'',
      ''LPT8'', ''LPT9'']"

definition is_windows_reserved_name :: "string \<Rightarrow> bool" where
  "is_windows_reserved_name pid \<longleftrightarrow> to_ascii_uppercase pid \<in> set WINDOWS_RESERVED_NAMES"

definition is_valid_profile_id :: "string \<Rightarrow> bool" where
  "is_valid_profile_id pid =
     (if pid = [] \<or> 64 < length pid then False
      else if \<not> list_all (\<lambda>c. is_ascii_alphanumeric c \<or> c = CHR ''_'' \<or> c = CHR ''-'') pid then False
      else if is_windows_reserved_name pid then False
      else True)"

section \<open>Slugs\<close>

text \<open>\<open>char::is_whitespace\<close> (the \<open>White_Space\<close> property) and the ASCII letters and digits, on
  scalar values.\<close>

definition is_whitespace :: "nat \<Rightarrow> bool" where
  "is_whitespace c \<longleftrightarrow> 9 \<le> c \<and> c \<le> 13 \<or> c \<in> {32, 133, 160, 5760, 8232, 8233, 8239, 8287, 12288}
     \<or> 8192 \<le> c \<and> c \<le> 8202"

definition alnum :: "nat \<Rightarrow> bool" where
  "alnum c \<longleftrightarrow> 48 \<le> c \<and> c \<le> 57 \<or> 65 \<le> c \<and> c \<le> 90 \<or> 97 \<le> c \<and> c \<le> 122"

definition trim_text :: "nat list \<Rightarrow> nat list" where
  "trim_text s = rev (dropWhile is_whitespace (rev (dropWhile is_whitespace s)))"

fun slug_loop :: "nat list \<Rightarrow> nat list \<Rightarrow> bool \<Rightarrow> nat list" where
  "slug_loop [] out prev_dash = out"
| "slug_loop (ch # chs) out prev_dash =
     (if alnum ch then slug_loop chs (out @ [ch]) False
      else if (is_whitespace ch \<or> ch = 95 \<or> ch = 45) \<and> \<not> prev_dash \<and> out \<noteq> []
      then slug_loop chs (out @ [45]) True
      else slug_loop chs out prev_dash)"

definition trim_dashes :: "nat list \<Rightarrow> nat list" where
  "trim_dashes s = rev (dropWhile (\<lambda>c. c = 45) (rev (dropWhile (\<lambda>c. c = 45) s)))"

text \<open>\<open>lower\<close> is \<open>str::to_lowercase\<close>, whose Unicode tables are not reproduced.\<close>

definition slugify_id :: "(nat list \<Rightarrow> nat list) \<Rightarrow> nat list \<Rightarrow> string" where
  "slugify_id lower raw = map char_of (trim_dashes (take 64 (slug_loop (lower (trim_text raw)) [] False)))"

definition text_of :: "string \<Rightarrow> nat list" where
  "text_of s = map of_char s"

section \<open>The shape of a slug\<close>

fun no_double_dash :: "nat list \<Rightarrow> bool" where
  "no_double_dash (a # b # xs) \<longleftrightarrow> \<not> (a = 45 \<and> b = 45) \<and> no_double_dash (b # xs)"
| "no_double_dash _ \<longleftrightarrow> True"

definition slug_chars :: "nat list \<Rightarrow> bool" where
  "slug_chars s \<longleftrightarrow> list_all (\<lambda>c. alnum c \<or> c = 45) s"

lemma no_double_dash_snoc:
  "no_double_dash (xs @ [c]) \<longleftrightarrow> no_double_dash xs \<and> \<not> (xs \<noteq> [] \<and> last xs = 45 \<and> c = 45)"
  by (induction xs rule: no_double_dash.induct) auto

lemma no_double_dash_take: "no_double_dash xs \<Longrightarrow> no_double_dash (take n xs)"
proof (induction xs arbitrary: n rule: no_double_dash.induct)
  case (1 a b xs)
  show ?case
  proof (cases n)
    case 0
    then show ?thesis by simp
  next
    case (Suc m)
    then show ?thesis using 1 by (cases m) (auto dest: 1(1) [of "Suc _"])
  qed
qed (simp_all split: nat.split add: take_Cons')

text \<open>What the loop has written at any time.\<close>

definition slug_inv :: "nat list \<Rightarrow> bool \<Rightarrow> bool" where
  "slug_inv out prev_dash \<longleftrightarrow> slug_chars out \<and> no_double_dash out
     \<and> (out \<noteq> [] \<longrightarrow> hd out \<noteq> 45) \<and> (prev_dash \<longleftrightarrow> out \<noteq> [] \<and> last out = 45)"

lemma alnum_not_dash: "alnum c \<Longrightarrow> c \<noteq> 45"
  by (auto simp: alnum_def)

lemma slug_loop_inv: "slug_inv out pd \<Longrightarrow> \<exists>pd'. slug_inv (slug_loop chs out pd) pd'"
proof (induction chs out pd rule: slug_loop.induct)
  case (1 out pd)
  then show ?case by auto
next
  case (2 ch chs out pd)
  have a: "alnum ch \<Longrightarrow> slug_inv (out @ [ch]) False"
    using "2.prems" alnum_not_dash [of ch]
    by (cases out) (auto simp: slug_inv_def slug_chars_def no_double_dash_snoc simp flip: append_Cons)
  have d: "\<not> pd \<Longrightarrow> out \<noteq> [] \<Longrightarrow> slug_inv (out @ [45]) True"
    using "2.prems" by (auto simp: slug_inv_def slug_chars_def no_double_dash_snoc)
  show ?case using 2 a d by auto
qed

lemma slug_loop_chars:
  "set (slug_loop chs out pd) \<subseteq> set out \<union> {c \<in> set chs. alnum c} \<union> {45}"
  by (induction chs out pd rule: slug_loop.induct) auto

lemma slug_loop_id:
  "slug_chars (out @ chs) \<Longrightarrow> no_double_dash (out @ chs) \<Longrightarrow> (out @ chs \<noteq> [] \<longrightarrow> hd (out @ chs) \<noteq> 45)
     \<Longrightarrow> (pd \<longleftrightarrow> out \<noteq> [] \<and> last out = 45) \<Longrightarrow> slug_loop chs out pd = out @ chs"
proof (induction chs out pd rule: slug_loop.induct)
  case (1 out pd)
  then show ?case by simp
next
  case (2 ch chs out pd)
  show ?case
  proof (cases "alnum ch")
    case True
    then show ?thesis using 2 alnum_not_dash [of ch] by simp
  next
    case False
    with 2(4) have ch: "ch = 45" by (simp add: slug_chars_def)
    have out: "out \<noteq> []" using "2.prems"(3) ch by (cases out) auto
    have "no_double_dash (out @ [45])"
      using no_double_dash_take [OF "2.prems"(2), of "Suc (length out)"] by (simp add: ch)
    then have "\<not> pd" using out "2.prems"(4) by (auto simp: no_double_dash_snoc)
    with out ch show ?thesis using 2 by (simp add: alnum_def)
  qed
qed

definition slug_ok :: "nat list \<Rightarrow> bool" where
  "slug_ok s \<longleftrightarrow> slug_chars s \<and> no_double_dash s \<and> length s \<le> 64
     \<and> (s \<noteq> [] \<longrightarrow> hd s \<noteq> 45 \<and> last s \<noteq> 45)"

lemma rev_dropWhile_rev_take: "\<exists>n. rev (dropWhile P (rev xs)) = take n xs"
proof -
  have "rev xs = takeWhile P (rev xs) @ dropWhile P (rev xs)" by simp
  then have "xs = rev (dropWhile P (rev xs)) @ rev (takeWhile P (rev xs))"
    by (metis rev_append rev_rev_ident)
  then have "take (length (rev (dropWhile P (rev xs)))) xs = rev (dropWhile P (rev xs))"
    by (metis append_eq_conv_conj)
  then show ?thesis by metis
qed

lemma trim_dashes_ok:
  assumes "slug_chars s" and "no_double_dash s" and "length s \<le> 64" and "s \<noteq> [] \<longrightarrow> hd s \<noteq> 45"
  shows "slug_ok (trim_dashes s)"
proof -
  have d: "dropWhile (\<lambda>c. c = 45) s = s" using assms(4) by (cases s) auto
  define t where "t = rev (dropWhile (\<lambda>c. c = (45::nat)) (rev s))"
  obtain n where n: "t = take n s" unfolding t_def using rev_dropWhile_rev_take by blast
  have "t \<noteq> [] \<Longrightarrow> hd t \<noteq> 45" using assms(4) n by (cases s; cases n) auto
  moreover have "t \<noteq> [] \<Longrightarrow> last t \<noteq> 45"
    unfolding t_def using hd_dropWhile [of "\<lambda>c. c = (45::nat)" "rev s"] by (simp add: last_rev)
  moreover have "slug_chars t" using assms(1) by (auto simp: slug_chars_def list_all_iff n dest: in_set_takeD)
  moreover have "no_double_dash t" "length t \<le> 64"
    using no_double_dash_take [OF assms(2)] assms(3) by (simp_all add: n)
  ultimately show ?thesis by (simp add: slug_ok_def trim_dashes_def d t_def)
qed

lemma dropWhile_hd: "xs \<noteq> [] \<Longrightarrow> \<not> P (hd xs) \<Longrightarrow> dropWhile P xs = xs"
  by (cases xs) simp_all

definition slug_points :: "(nat list \<Rightarrow> nat list) \<Rightarrow> nat list \<Rightarrow> nat list" where
  "slug_points lower raw = trim_dashes (take 64 (slug_loop (lower (trim_text raw)) [] False))"

lemma slugify_points: "slugify_id lower raw = map char_of (slug_points lower raw)"
  by (simp add: slugify_id_def slug_points_def)

lemma slug_points_ok: "slug_ok (slug_points lower raw)"
proof -
  have "slug_inv [] False" by (simp add: slug_inv_def slug_chars_def)
  then obtain pd where i: "slug_inv (slug_loop (lower (trim_text raw)) [] False) pd"
    using slug_loop_inv by blast
  define out where "out = slug_loop (lower (trim_text raw)) [] False"
  have "slug_chars (take 64 out)" using i by (auto simp: slug_inv_def out_def slug_chars_def list_all_iff dest: in_set_takeD)
  moreover have "no_double_dash (take 64 out)" using i by (simp add: slug_inv_def out_def no_double_dash_take)
  moreover have "take 64 out \<noteq> [] \<longrightarrow> hd (take 64 out) \<noteq> 45"
    using i by (cases out) (auto simp: slug_inv_def out_def)
  ultimately show ?thesis unfolding slug_points_def out_def [symmetric] by (intro trim_dashes_ok) simp_all
qed

lemma slug_small: "slug_chars s \<Longrightarrow> c \<in> set s \<Longrightarrow> c < 128"
  by (auto simp: slug_chars_def list_all_iff alnum_def)

lemma text_of_map_char: "slug_chars s \<Longrightarrow> text_of (map char_of s) = s"
proof -
  assume s: "slug_chars s"
  have "map (\<lambda>c. of_char (char_of c) :: nat) s = map (\<lambda>c. c) s"
    using slug_small [OF s] by (intro map_cong) (simp_all add: of_char_of less_trans [of _ 128 256])
  then show ?thesis by (simp add: text_of_def comp_def)
qed

lemma alnum_char: "c < 256 \<Longrightarrow> is_ascii_alphanumeric (char_of c) \<longleftrightarrow> alnum c"
  by (simp add: is_ascii_alphanumeric_def alnum_def of_char_of)

lemma dash_char: "c < 256 \<Longrightarrow> char_of c = CHR ''-'' \<longleftrightarrow> c = (45::nat)"
proof -
  assume "c < 256"
  have "char_of c = CHR ''-'' \<longleftrightarrow> of_char (char_of c :: char) = (of_char CHR ''-'' :: nat)"
    by (simp only: of_char_eq_iff)
  with \<open>c < 256\<close> show ?thesis by (simp add: of_char_of)
qed

section \<open>Properties\<close>

text \<open>Every slug is a safe file name up to the reserved device names: whatever the text and
  whatever lower-casing does outside ASCII, the slug is empty or a valid id as soon as it is not
  reserved; it has no leading, trailing or doubled dash and at most 64 characters.\<close>

theorem slug_is_safe_name:
  "(slugify_id lower raw \<noteq> [] \<and> \<not> is_windows_reserved_name (slugify_id lower raw)
      \<longrightarrow> is_valid_profile_id (slugify_id lower raw))
   \<and> length (slugify_id lower raw) \<le> 64
   \<and> list_all (\<lambda>c. is_ascii_alphanumeric c \<or> c = CHR ''-'') (slugify_id lower raw)
   \<and> (slugify_id lower raw \<noteq> [] \<longrightarrow> hd (slugify_id lower raw) \<noteq> CHR ''-'' \<and> last (slugify_id lower raw) \<noteq> CHR ''-'')
   \<and> no_double_dash (text_of (slugify_id lower raw))"
proof -
  define s where "s = slug_points lower raw"
  have ok: "slug_ok s" unfolding s_def by (rule slug_points_ok)
  then have c: "slug_chars s" and len: "length s \<le> 64" by (simp_all add: slug_ok_def)
  have all: "list_all (\<lambda>c. is_ascii_alphanumeric c \<or> c = CHR ''-'') (map char_of s)"
    using c slug_small [OF c] by (fastforce simp: list_all_iff slug_chars_def alnum_char dash_char)
  have ends: "s \<noteq> [] \<Longrightarrow> hd (map char_of s) \<noteq> CHR ''-'' \<and> last (map char_of s) \<noteq> CHR ''-''"
    using ok slug_small [OF c] by (simp add: slug_ok_def hd_map last_map dash_char less_trans [of _ 128 256])
  have "no_double_dash (text_of (map char_of s))"
    unfolding text_of_map_char [OF c] using ok by (simp add: slug_ok_def)
  then show ?thesis unfolding slugify_points s_def [symmetric] using all len ends
    by (auto simp: is_valid_profile_id_def list_all_iff)
qed

text \<open>Slugs are stable: taking the slug of a slug changes nothing, so the id an import predicts is
  the id the profile is stored under. This uses of lower-casing only that it leaves no ASCII capital
  and maps an ASCII text letter by letter.\<close>

theorem slug_stable:
  assumes no_caps: "\<And>t c. c \<in> set (lower t) \<Longrightarrow> \<not> (65 \<le> c \<and> c \<le> 90)"
    and ascii: "\<And>t. list_all (\<lambda>c. c < 128) t \<Longrightarrow> lower t = map (\<lambda>c. if 65 \<le> c \<and> c \<le> 90 then c + 32 else c) t"
  shows "slugify_id lower (text_of (slugify_id lower raw)) = slugify_id lower raw"
proof -
  define s where "s = slug_points lower raw"
  have ok: "slug_ok s" unfolding s_def by (rule slug_points_ok)
  then have c: "slug_chars s" by (simp add: slug_ok_def)
  have low: "\<not> (65 \<le> x \<and> x \<le> 90)" if "x \<in> set s" for x
  proof -
    obtain n where "s = take n (dropWhile (\<lambda>c. c = 45) (take 64 (slug_loop (lower (trim_text raw)) [] False)))"
      unfolding s_def slug_points_def trim_dashes_def using rev_dropWhile_rev_take by blast
    then have "x \<in> set (slug_loop (lower (trim_text raw)) [] False)"
      using that by (meson in_set_takeD set_dropWhileD)
    then show ?thesis using slug_loop_chars [of "lower (trim_text raw)" "[]" False] no_caps by fastforce
  qed
  have ws: "\<not> is_whitespace x" if "x \<in> set s" for x
    using slug_small [OF c that] c that
    by (auto simp: slug_chars_def list_all_iff is_whitespace_def alnum_def)
  have t: "trim_text s = s"
  proof (cases "s = []")
    case False
    then show ?thesis using ws [of "hd s"] ws [of "last s"]
      by (simp add: trim_text_def dropWhile_hd hd_rev)
  qed (simp add: trim_text_def)
  have "lower s = map (\<lambda>c. if 65 \<le> c \<and> c \<le> 90 then c + 32 else c) s"
    using slug_small [OF c] by (intro ascii) (simp add: list_all_iff)
  also have "\<dots> = map (\<lambda>c. c) s" by (intro map_cong) (auto simp: low)
  finally have l: "lower s = s" by simp
  have loop: "slug_loop s [] False = s"
    using slug_loop_id [of "[]" s False] ok by (simp add: slug_ok_def)
  have d: "trim_dashes s = s"
  proof (cases "s = []")
    case False
    then have "hd s \<noteq> 45" "last s \<noteq> 45" using ok by (simp_all add: slug_ok_def)
    then show ?thesis using False by (simp add: trim_dashes_def dropWhile_hd hd_rev)
  qed (simp add: trim_dashes_def)
  have "slug_points lower s = s" using ok by (simp add: slug_points_def t l loop d slug_ok_def)
  then show ?thesis
    unfolding slugify_points s_def [symmetric] text_of_map_char [OF c] by simp
qed

definition demo_lower :: "nat list \<Rightarrow> nat list" where
  "demo_lower = map (\<lambda>c. if 65 \<le> c \<and> c \<le> 90 then c + 32 else c)"

lemma demo_lower_ok:
  "c \<in> set (demo_lower t) \<Longrightarrow> \<not> (65 \<le> c \<and> c \<le> 90)"
  "demo_lower t = map (\<lambda>c. if 65 \<le> c \<and> c \<le> 90 then c + 32 else c) t"
  by (auto simp: demo_lower_def split: if_splits)

theorem slug_stable_witness:
  "slugify_id demo_lower (text_of (slugify_id demo_lower (text_of '' Dorm_2  West! '')))
     = slugify_id demo_lower (text_of '' Dorm_2  West! '')"
  by (rule slug_stable [OF demo_lower_ok])

text \<open>The name typed here has blanks, an underscore and a mark; its slug is a valid profile id.\<close>

lemma demo_slug: "slugify_id demo_lower (text_of '' Dorm_2  West! '') = ''dorm-2-west''"
  by (simp add: slugify_id_def demo_lower_def trim_text_def trim_dashes_def is_whitespace_def alnum_def
      text_of_def char_of_def bit_0)

theorem slug_is_safe_name_witness:
  "is_valid_profile_id (slugify_id demo_lower (text_of '' Dorm_2  West! ''))"
proof -
  have "\<not> is_windows_reserved_name ''dorm-2-west''" by code_simp
  then show ?thesis
    using slug_is_safe_name [of demo_lower "text_of '' Dorm_2  West! ''"] unfolding demo_slug by simp
qed

end
