(* ===== verification/Config_Service.thy ===== *)
theory Config_Service
  imports Profile_Names "HOL-Library.AList"
begin

text \<open>
  \<open>config/service.rs\<close> and \<open>config/profiles.rs\<close>: the configuration on disk, its caches, the
  published runtime snapshot with its version, and the operations on them. A file is its parsed
  content (or the parser's complaint) with its modification time; JSON itself belongs to \<open>serde\<close>.
  Every operation holds its lock from the first read to the last write, so each is one step here.
\<close>

section \<open>State\<close>

datatype config_error =
    ConfigIo string | JsonParse string | ConfigNotFound string
  | ConfigParseError string string "string option" | ConfigWriteError string | DecryptFailed string
  | ProfileNotFound string | ProfileIdConflict string | InvalidProfileId string | CannotDeleteDefault
  | MigrationFailed u32 u32 string | VersionTooHigh u32 u32

datatype config_reload_signal = GlobalChanged | ProfileSwitched string

type_synonym 'a json_file = "(string + 'a) \<times> nat"

text \<open>
  \<open>cs_profiles_dir\<close> lists \<open>profiles/<stem>.json\<close> in directory order. \<open>cs_io\<close> tells how the n-th
  file operation that can fail (write, rename, directory creation) ends: an error, or success at a
  modification time. \<open>cs_ios\<close> counts them. The crypto functions are those of \<open>PasswordCrypto\<close>.
\<close>

record config_service =
  cs_settings_file :: "settings_data json_file option"
  cs_profiles_dir :: "(string \<times> profile_data json_file) list"
  cs_trash :: "(string \<times> profile_data json_file) list"
  cs_settings_cache :: "settings_data option"
  cs_settings_mtime :: "nat option"
  cs_profile_cache :: "string \<rightharpoonup> profile_data \<times> nat"
  cs_runtime :: runtime_config
  cs_version :: u64
  cs_signals :: "config_reload_signal list"
  cs_io :: "nat \<Rightarrow> string + nat"
  cs_ios :: nat
  cs_decrypt :: "string \<Rightarrow> string \<Rightarrow> unit + string"
  cs_encrypt :: "string \<Rightarrow> config_error + string"
  cs_can_decrypt :: "string \<Rightarrow> bool"

type_synonym 'a config_op = "config_service \<Rightarrow> (config_error + 'a) \<times> config_service"

text \<open>The \<open>?\<close> operator.\<close>

definition then_op :: "'a config_op \<Rightarrow> ('a \<Rightarrow> 'b config_op) \<Rightarrow> 'b config_op" where
  "then_op m f st = (case m st of (Inl e, st') \<Rightarrow> (Inl e, st') | (Inr x, st') \<Rightarrow> f x st')"

definition io_step :: "config_service \<Rightarrow> (string + nat) \<times> config_service" where
  "io_step st = (cs_io st (cs_ios st), st\<lparr>cs_ios := cs_ios st + 1\<rparr>)"

section \<open>Reading\<close>

definition read_settings_from_disk :: "settings_data json_file option \<Rightarrow> config_error + settings_data" where
  "read_settings_from_disk file =
     (case file of
        None \<Rightarrow> Inr settings_data_default
      | Some (Inr s, _) \<Rightarrow> Inr s
      | Some (Inl reason, _) \<Rightarrow> Inl (ConfigParseError ''settings.json'' reason None))"

definition read_profile_file :: "string \<Rightarrow> profile_data json_file option \<Rightarrow> config_error + profile_data" where
  "read_profile_file stem file =
     (case file of
        None \<Rightarrow> Inl (ProfileNotFound stem)
      | Some (Inr p, _) \<Rightarrow> Inr p
      | Some (Inl reason, _) \<Rightarrow> Inl (ConfigParseError (stem @ ''.json'') reason None))"

definition profile_file :: "config_service \<Rightarrow> string \<Rightarrow> profile_data json_file option" where
  "profile_file st pid = map_of (cs_profiles_dir st) pid"

definition load_settings :: "config_service \<Rightarrow> settings_data \<times> config_service" where
  "load_settings st =
     (let mtime = map_option snd (cs_settings_file st)
      in case (cs_settings_cache st, cs_settings_mtime st) of
           (Some data, Some mt) \<Rightarrow>
             if Some mt = mtime then (data, st)
             else (case read_settings_from_disk (cs_settings_file st) of
                     Inr s \<Rightarrow> (s, st\<lparr>cs_settings_cache := Some s, cs_settings_mtime := mtime\<rparr>)
                   | Inl _ \<Rightarrow> (data, st))
         | (cached, _) \<Rightarrow>
             (case read_settings_from_disk (cs_settings_file st) of
                Inr s \<Rightarrow> (s, st\<lparr>cs_settings_cache := Some s, cs_settings_mtime := mtime\<rparr>)
              | Inl _ \<Rightarrow> ((case cached of Some prev \<Rightarrow> prev | None \<Rightarrow> settings_data_default), st)))"

definition load_profile :: "string \<Rightarrow> profile_data config_op" where
  "load_profile pid st =
     (if \<not> is_valid_profile_id pid then (Inl (InvalidProfileId pid), st)
      else let mtime = map_option snd (profile_file st pid);
               read = (case read_profile_file pid (profile_file st pid) of
                  Inl e \<Rightarrow> (Inl e, st)
                | Inr p \<Rightarrow> (Inr p, st\<lparr>cs_profile_cache := (cs_profile_cache st)(pid \<mapsto> (p, the mtime))\<rparr>))
           in case cs_profile_cache st pid of
                Some (data, mt) \<Rightarrow> if Some mt = mtime then (Inr data, st) else read
              | None \<Rightarrow> read)"

definition TMP_PREFIX :: string where "TMP_PREFIX = ''.tmp_''"

definition load_all_profiles :: "config_service \<Rightarrow> profile_data list" where
  "load_all_profiles st =
     List.map_filter (\<lambda>(stem, file). if starts_with stem TMP_PREFIX then None
                                     else (case fst file of Inl _ \<Rightarrow> None | Inr p \<Rightarrow> Some p))
       (cs_profiles_dir st)"

definition runtime_config_for_profile :: "string \<Rightarrow> runtime_config config_op" where
  "runtime_config_for_profile pid =
     then_op (load_profile pid) (\<lambda>profile st.
       let (settings, st') = load_settings st
       in (Inr (build_runtime_config (cs_decrypt st') settings profile), st'))"

section \<open>Writing\<close>

definition write_settings_locked :: "settings_data \<Rightarrow> unit config_op" where
  "write_settings_locked data st =
     (case io_step st of
        (Inl e, st') \<Rightarrow> (Inl (ConfigIo e), st')
      | (Inr t, st') \<Rightarrow>
          (Inr (), st'\<lparr>cs_settings_file := Some (Inr data, t), cs_settings_cache := Some data,
                       cs_settings_mtime := Some t\<rparr>))"

definition save_profile_locked :: "profile_data \<Rightarrow> unit config_op" where
  "save_profile_locked profile st =
     (case io_step st of
        (Inl e, st') \<Rightarrow> (Inl (ConfigIo e), st')
      | (Inr t, st') \<Rightarrow>
          (Inr (), st'\<lparr>cs_profiles_dir := AList.update (pd_id profile) (Inr profile, t) (cs_profiles_dir st'),
                       cs_profile_cache := (cs_profile_cache st')(pd_id profile \<mapsto> (profile, t))\<rparr>))"

definition save_settings :: "settings_data \<Rightarrow> unit config_op" where
  "save_settings data = write_settings_locked data"

definition modify_settings :: "(settings_data \<Rightarrow> settings_data) \<Rightarrow> unit config_op" where
  "modify_settings f st = (let (settings, st') = load_settings st in write_settings_locked (f settings) st')"

text \<open>The inner sum is the closure's verdict: a validation message, or success.\<close>

definition modify_settings_tx :: "(settings_data \<Rightarrow> string + settings_data) \<Rightarrow> (string + unit) config_op" where
  "modify_settings_tx f st =
     (let (settings, st') = load_settings st
      in case f settings of
           Inl msg \<Rightarrow> (Inr (Inl msg), st')
         | Inr s \<Rightarrow> then_op (write_settings_locked s) (\<lambda>_ st2. (Inr (Inr ()), st2)) st')"

definition save_profile :: "profile_data \<Rightarrow> unit config_op" where
  "save_profile profile st =
     (if \<not> is_valid_profile_id (pd_id profile) then (Inl (InvalidProfileId (pd_id profile)), st)
      else save_profile_locked profile st)"

definition create_profile_atomic :: "profile_data \<Rightarrow> unit config_op" where
  "create_profile_atomic profile st =
     (if \<not> is_valid_profile_id (pd_id profile) then (Inl (InvalidProfileId (pd_id profile)), st)
      else if profile_file st (pd_id profile) \<noteq> None then (Inl (ProfileIdConflict (pd_id profile)), st)
      else save_profile_locked profile st)"

section \<open>Reloading\<close>

definition build_and_swap_runtime :: "settings_data \<Rightarrow> profile_data \<Rightarrow> unit config_op" where
  "build_and_swap_runtime settings active_profile st =
     (Inr (), st\<lparr>cs_runtime := build_runtime_config (cs_decrypt st) settings active_profile\<rparr>)"

text \<open>The profile a reload ends with: the active one, or the default when it cannot be read.\<close>

definition read_active_profile :: "config_service \<Rightarrow> string \<Rightarrow> config_error + profile_data" where
  "read_active_profile st active_id =
     (case read_profile_file active_id (profile_file st active_id) of
        Inr p \<Rightarrow> Inr p
      | Inl e \<Rightarrow> if active_id \<noteq> ''default'' then read_profile_file ''default'' (profile_file st ''default'')
                 else Inl e)"

definition reload_inner :: "config_reload_signal \<Rightarrow> unit config_op" where
  "reload_inner signal st =
     (let settings_res =
        (case read_settings_from_disk (cs_settings_file st) of
           Inr s \<Rightarrow> (Inr s, st\<lparr>cs_settings_cache := Some s,
                              cs_settings_mtime := map_option snd (cs_settings_file st)\<rparr>)
         | Inl e \<Rightarrow> (case cs_settings_cache st of
                      Some prev \<Rightarrow> (Inr prev, st)
                    | None \<Rightarrow> (Inl (ConfigWriteError ''settings.json''), st)))
      in then_op (\<lambda>_. settings_res) (\<lambda>settings st1.
           let active_id = (if is_valid_profile_id (sd_active_profile_id settings)
                            then sd_active_profile_id settings else ''default'')
           in case read_active_profile st1 active_id of
                Inl e \<Rightarrow> (Inl e, st1)
              | Inr active_profile \<Rightarrow>
                  then_op (build_and_swap_runtime settings active_profile) (\<lambda>_ st2.
                    (Inr (), st2\<lparr>cs_version := cs_version st2 + 1, cs_signals := cs_signals st2 @ [signal]\<rparr>)) st1)
         st)"

definition reload :: "unit config_op" where
  "reload = reload_inner GlobalChanged"

text \<open>A reload whose failure is only logged.\<close>

definition reload_best_effort :: "config_reload_signal \<Rightarrow> config_service \<Rightarrow> config_service" where
  "reload_best_effort signal st = snd (reload_inner signal st)"

section \<open>Transactions over settings and profile\<close>

text \<open>The write of both files with the rollback of the first when the second fails.\<close>

definition commit_both :: "profile_data \<Rightarrow> profile_data \<Rightarrow> settings_data \<Rightarrow> unit config_op" where
  "commit_both old_profile new_profile new_settings =
     then_op (save_profile_locked new_profile) (\<lambda>_ st.
       case write_settings_locked new_settings st of
         (Inr _, st') \<Rightarrow> (Inr (), st')
       | (Inl settings_error, st') \<Rightarrow>
           (case save_profile_locked old_profile st' of
              (Inl rollback_error, st2) \<Rightarrow> (Inl (ConfigWriteError ''rollback''), st2)
            | (Inr _, st2) \<Rightarrow> (Inl settings_error, st2)))"

definition modify_settings_and_profile_tx ::
  "profile_data \<Rightarrow> (settings_data \<Rightarrow> string + settings_data) \<Rightarrow> (string + unit) config_op"
where
  "modify_settings_and_profile_tx profile f st =
     (if \<not> is_valid_profile_id (pd_id profile) then (Inl (InvalidProfileId (pd_id profile)), st)
      else then_op (load_profile (pd_id profile)) (\<lambda>old_profile st1.
        let (settings, st2) = load_settings st1
        in case f settings of
             Inl msg \<Rightarrow> (Inr (Inl msg), st2)
           | Inr new_settings \<Rightarrow>
               then_op (commit_both old_profile profile new_settings) (\<lambda>_ st3.
                 (Inr (Inr ()), reload_best_effort GlobalChanged st3)) st2) st)"

definition modify_profile_tx ::
  "string \<Rightarrow> (profile_data \<Rightarrow> string + profile_data) \<Rightarrow> (string + profile_data) config_op"
where
  "modify_profile_tx pid f st =
     (if \<not> is_valid_profile_id pid then (Inl (InvalidProfileId pid), st)
      else then_op (load_profile pid) (\<lambda>profile st1.
        case f profile of
          Inl msg \<Rightarrow> (Inr (Inl msg), st1)
        | Inr p \<Rightarrow> let new_profile = p\<lparr>pd_id := pid\<rparr>
                   in then_op (save_profile_locked new_profile) (\<lambda>_ st2. (Inr (Inr new_profile), st2)) st1) st)"

definition modify_profile_and_settings_tx ::
  "string \<Rightarrow> (profile_data \<Rightarrow> string + profile_data) \<Rightarrow> (settings_data \<Rightarrow> string + settings_data) option
     \<Rightarrow> (string + unit) config_op"
where
  "modify_profile_and_settings_tx pid profile_merge settings_merge st =
     (if \<not> is_valid_profile_id pid then (Inl (InvalidProfileId pid), st)
      else then_op (load_profile pid) (\<lambda>old_profile st1.
        case profile_merge old_profile of
          Inl msg \<Rightarrow> (Inr (Inl msg), st1)
        | Inr p \<Rightarrow>
            let new_profile = p\<lparr>pd_id := pid\<rparr>
            in case settings_merge of
                 None \<Rightarrow> then_op (save_profile_locked new_profile) (\<lambda>_ st2. (Inr (Inr ()), st2)) st1
               | Some g \<Rightarrow>
                   let (settings, st2) = load_settings st1
                   in case g settings of
                        Inl msg \<Rightarrow> (Inr (Inl msg), st2)
                      | Inr new_settings \<Rightarrow>
                          then_op (commit_both old_profile new_profile new_settings)
                            (\<lambda>_ st3. (Inr (Inr ()), st3)) st2) st)"

section \<open>Deleting\<close>

definition delete_profile :: "string \<Rightarrow> unit config_op" where
  "delete_profile pid st =
     (if \<not> is_valid_profile_id pid then (Inl (InvalidProfileId pid), st)
      else if pid = ''default'' then (Inl CannotDeleteDefault, st)
      else case profile_file st pid of
        None \<Rightarrow> (Inl (ProfileNotFound pid), st)
      | Some file \<Rightarrow>
          let (settings, st1) = load_settings st
          in then_op (if sd_active_profile_id settings = pid
                      then modify_settings (\<lambda>s. s\<lparr>sd_active_profile_id := ''default''\<rparr>)
                      else (\<lambda>s. (Inr (), s))) (\<lambda>_ st2.
            case io_step st2 of                                 \<comment> \<open>\<open>create_dir_all(trash)\<close>\<close>
              (Inl e, st3) \<Rightarrow> (Inl (ConfigIo e), st3)
            | (Inr _, st3) \<Rightarrow>
                (case io_step st3 of                            \<comment> \<open>\<open>rename\<close>\<close>
                   (Inl e, st4) \<Rightarrow> (Inl (ConfigIo e), st4)
                 | (Inr _, st4) \<Rightarrow>
                     (Inr (), reload_best_effort GlobalChanged
                        (st4\<lparr>cs_profiles_dir := AList.delete pid (cs_profiles_dir st4),
                             cs_trash := cs_trash st4 @ [(pid, file)],
                             cs_profile_cache := (cs_profile_cache st4)(pid := None)\<rparr>)))) st1)"

section \<open>The profile service\<close>

text \<open>\<open>create_profile\<close> of \<open>config/profiles.rs\<close>, on the scalar values of the given id.\<close>

definition create_profile :: "(nat list \<Rightarrow> nat list) \<Rightarrow> nat list \<Rightarrow> profile_data \<Rightarrow> unit config_op" where
  "create_profile lower raw_id data st =
     (let slug = slugify_id lower raw_id in
      if slug = [] then (Inl (ProfileIdConflict slug), st)
      else if \<not> is_valid_profile_id slug then (Inl (InvalidProfileId slug), st)
      else then_op (create_profile_atomic (data\<lparr>pd_id := slug\<rparr>))
             (\<lambda>_ st'. (Inr (), reload_best_effort GlobalChanged st')) st)"

definition save_password :: "config_service \<Rightarrow> string option \<Rightarrow> string \<Rightarrow> string" where
  "save_password st raw existing =
     (case raw of
        None \<Rightarrow> existing
      | Some s \<Rightarrow>
          if s = [] then existing
          else if starts_with s ''ENC:'' then (if cs_can_decrypt st s then s else existing)
          else (case cs_encrypt st s of Inr encrypted \<Rightarrow> encrypted | Inl _ \<Rightarrow> existing))"

definition update_profile :: "string \<Rightarrow> profile_data \<Rightarrow> bool \<Rightarrow> unit config_op" where
  "update_profile pid data clear_password st =
     (if \<not> is_valid_profile_id pid then (Inl (InvalidProfileId pid), st)
      else let (r, st1) = load_profile pid st;
               existing_pw = (case r of Inr p \<Rightarrow> pd_password p | Inl _ \<Rightarrow> []);
               profile = data\<lparr>pd_id := pid,
                 pd_password := (if clear_password then []
                   else save_password st1 (if pd_password data = [] then None else Some (pd_password data)) existing_pw)\<rparr>
           in then_op (save_profile profile)
                (\<lambda>_ st2. (Inr (), reload_best_effort (ProfileSwitched pid) st2)) st1)"

definition update_profile_tx ::
  "string \<Rightarrow> (profile_data \<Rightarrow> string + profile_data) \<Rightarrow> (string + profile_data) config_op"
where
  "update_profile_tx pid f =
     then_op (modify_profile_tx pid f) (\<lambda>result st.
       case result of
         Inr profile \<Rightarrow> (Inr (Inr profile), reload_best_effort (ProfileSwitched pid) st)
       | Inl msg \<Rightarrow> (Inr (Inl msg), st))"

definition switch_profile :: "string \<Rightarrow> unit config_op" where
  "switch_profile pid st =
     (if \<not> is_valid_profile_id pid then (Inl (InvalidProfileId pid), st)
      else if \<not> list_ex (\<lambda>p. pd_id p = pid) (load_all_profiles st) then (Inl (ProfileNotFound pid), st)
      else then_op (modify_settings (\<lambda>s. s\<lparr>sd_active_profile_id := pid\<rparr>))
             (\<lambda>_. reload_inner (ProfileSwitched pid)) st)"

definition set_auto_switch :: "bool \<Rightarrow> unit config_op" where
  "set_auto_switch enabled =
     then_op (modify_settings (\<lambda>s. s\<lparr>sd_auto_switch := enabled\<rparr>)) (\<lambda>_. reload)"

text \<open>\<open>detect_matching_profile\<close>: strength descending, id ascending (\<open>String\<close>'s byte order).\<close>

definition match_strength :: "string \<Rightarrow> string \<Rightarrow> profile_data \<Rightarrow> nat option" where
  "match_strength gateway_ip ssid p =
     (let has_gw = (pd_gateway_ip p \<noteq> []); has_ssid = (pd_wifi_ssid p \<noteq> []) in
      if \<not> has_gw \<and> \<not> has_ssid then None
      else let gw_ok = (\<not> has_gw \<or> pd_gateway_ip p = gateway_ip);
               ssid_ok = (\<not> has_ssid \<or> pd_wifi_ssid p = ssid)
           in if gw_ok \<and> ssid_ok then Some (of_bool has_gw + of_bool has_ssid) else None)"

fun bytes_le :: "string \<Rightarrow> string \<Rightarrow> bool" where
  "bytes_le [] _ = True"
| "bytes_le (_ # _) [] = False"
| "bytes_le (a # as) (b # bs) =
     (if (of_char a :: nat) < of_char b then True
      else if (of_char b :: nat) < of_char a then False else bytes_le as bs)"

text \<open>A candidate is its strength and its id, in the order of the sort.\<close>

datatype candidate = Candidate nat string

lemma bytes_le_refl: "bytes_le a a"
  by (induction a) simp_all

lemma bytes_le_antisym: "bytes_le a b \<Longrightarrow> bytes_le b a \<Longrightarrow> a = b"
proof (induction a b rule: bytes_le.induct)
  case (1 b)
  then show ?case by (cases b) simp_all
qed (auto split: if_splits)

lemma bytes_le_trans: "bytes_le a b \<Longrightarrow> bytes_le b c \<Longrightarrow> bytes_le a c"
proof (induction a b arbitrary: c rule: bytes_le.induct)
  case (3 x xs y ys)
  then show ?case by (cases c) (auto split: if_splits)
qed (auto elim: bytes_le.elims)

lemma bytes_le_total: "bytes_le a b \<or> bytes_le b a"
  by (induction a b rule: bytes_le.induct) auto

fun sorts_before :: "candidate \<Rightarrow> candidate \<Rightarrow> bool" where
  "sorts_before (Candidate k a) (Candidate l b) \<longleftrightarrow> l < k \<or> k = l \<and> bytes_le a b"

instantiation candidate :: linorder
begin

definition less_eq_candidate :: "candidate \<Rightarrow> candidate \<Rightarrow> bool" where
  "less_eq_candidate x y \<longleftrightarrow> sorts_before x y"

definition less_candidate :: "candidate \<Rightarrow> candidate \<Rightarrow> bool" where
  "less_candidate x y \<longleftrightarrow> x \<le> y \<and> \<not> y \<le> x"

instance
proof
  fix x y z :: candidate
  show "x < y \<longleftrightarrow> x \<le> y \<and> \<not> y \<le> x" by (rule less_candidate_def)
  show "x \<le> x" by (cases x) (simp add: less_eq_candidate_def bytes_le_refl)
  show "x \<le> y \<Longrightarrow> y \<le> z \<Longrightarrow> x \<le> z"
    by (cases x; cases y; cases z) (auto simp: less_eq_candidate_def intro: bytes_le_trans)
  show "x \<le> y \<Longrightarrow> y \<le> x \<Longrightarrow> x = y"
    by (cases x; cases y) (auto simp: less_eq_candidate_def intro: bytes_le_antisym)
  show "x \<le> y \<or> y \<le> x"
    using bytes_le_total by (cases x; cases y) (fastforce simp: less_eq_candidate_def)
qed

end

lemma less_eq_candidate_simps [simp]:
  "Candidate k a \<le> Candidate l b \<longleftrightarrow> l < k \<or> k = l \<and> bytes_le a b"
  by (simp add: less_eq_candidate_def)

definition candidates :: "string \<Rightarrow> string \<Rightarrow> profile_data list \<Rightarrow> candidate list" where
  "candidates gateway_ip ssid ps =
     List.map_filter (\<lambda>p. map_option (\<lambda>k. Candidate k (pd_id p)) (match_strength gateway_ip ssid p)) ps"

definition detect_matching_profile :: "config_service \<Rightarrow> string \<Rightarrow> string \<Rightarrow> string option" where
  "detect_matching_profile st gateway_ip ssid =
     (case sort (candidates gateway_ip ssid (load_all_profiles st)) of
        [] \<Rightarrow> None
      | Candidate _ pid # _ \<Rightarrow> Some pid)"

end
