(* ===== verification/Config_Props.thy ===== *)
theory Config_Props
  imports Config_Service
begin

text \<open>
  The properties of the configuration service: an invariant every request keeps (caches agree with
  the disk, profiles lie under their own names, the default profile stays), the coupling of the
  version with the published snapshot, the all-or-nothing of the transactions over two files, and
  the behaviour of switching, deleting, matching and password saving.
\<close>

section \<open>The invariant\<close>

definition settings_coherent :: "config_service \<Rightarrow> bool" where
  "settings_coherent st \<longleftrightarrow> (\<forall>d t c. cs_settings_cache st = Some d \<longrightarrow> cs_settings_mtime st = Some t
     \<longrightarrow> cs_settings_file st = Some (c, t) \<longrightarrow> c = Inr d)"

definition profiles_coherent :: "config_service \<Rightarrow> bool" where
  "profiles_coherent st \<longleftrightarrow> (\<forall>pid d t c. cs_profile_cache st pid = Some (d, t)
     \<longrightarrow> profile_file st pid = Some (c, t) \<longrightarrow> c = Inr d)"

definition own_ids :: "config_service \<Rightarrow> bool" where
  "own_ids st \<longleftrightarrow> (\<forall>pid p t. profile_file st pid = Some (Inr p, t) \<longrightarrow> pd_id p = pid)"

definition default_there :: "config_service \<Rightarrow> bool" where
  "default_there st \<longleftrightarrow> (\<exists>p t. profile_file st ''default'' = Some (Inr p, t))"

definition config_ok :: "config_service \<Rightarrow> bool" where
  "config_ok st \<longleftrightarrow> settings_coherent st \<and> profiles_coherent st \<and> own_ids st \<and> default_there st
     \<and> cs_settings_cache st \<noteq> None"

lemmas config_ok_defs = config_ok_def settings_coherent_def profiles_coherent_def own_ids_def default_there_def

text \<open>What is on disk, without the modification times.\<close>

definition settings_on_disk :: "config_service \<Rightarrow> (string + settings_data) option" where
  "settings_on_disk st = map_option fst (cs_settings_file st)"

definition profile_on_disk :: "config_service \<Rightarrow> string \<Rightarrow> (string + profile_data) option" where
  "profile_on_disk st pid = map_option fst (profile_file st pid)"

section \<open>Operations that keep the invariant\<close>

definition keeps :: "'a config_op \<Rightarrow> bool" where
  "keeps m \<longleftrightarrow> (\<forall>st. config_ok st \<longrightarrow> config_ok (snd (m st)))"

lemma keeps_then: "keeps m \<Longrightarrow> (\<And>x. keeps (f x)) \<Longrightarrow> keeps (then_op m f)"
  by (auto simp: keeps_def then_op_def split: prod.split sum.split)

lemma keepsD: "keeps m \<Longrightarrow> config_ok st \<Longrightarrow> config_ok (snd (m st))"
  by (simp add: keeps_def)

lemma keeps_return [simp]: "keeps (\<lambda>st. (r, st))"
  by (simp add: keeps_def)

lemma profile_file_update:
  "profile_file (st\<lparr>cs_profiles_dir := AList.update k v (cs_profiles_dir st)\<rparr>) pid =
     (if pid = k then Some v else profile_file st pid)"
  by (simp add: profile_file_def update_conv')

lemma profile_file_delete:
  "profile_file (st\<lparr>cs_profiles_dir := AList.delete k (cs_profiles_dir st)\<rparr>) pid =
     (if pid = k then None else profile_file st pid)"
  by (simp add: profile_file_def delete_conv')

lemma profile_file_frame [simp]:
  "profile_file (st\<lparr>cs_settings_file := a\<rparr>) = profile_file st"
  "profile_file (st\<lparr>cs_settings_cache := b\<rparr>) = profile_file st"
  "profile_file (st\<lparr>cs_settings_mtime := c\<rparr>) = profile_file st"
  "profile_file (st\<lparr>cs_profile_cache := d\<rparr>) = profile_file st"
  "profile_file (st\<lparr>cs_runtime := e\<rparr>) = profile_file st"
  "profile_file (st\<lparr>cs_version := f\<rparr>) = profile_file st"
  "profile_file (st\<lparr>cs_signals := g\<rparr>) = profile_file st"
  "profile_file (st\<lparr>cs_ios := h\<rparr>) = profile_file st"
  "profile_file (st\<lparr>cs_trash := i\<rparr>) = profile_file st"
  by (simp_all add: profile_file_def fun_eq_iff)

lemma ok_irrelevant [simp]:
  "config_ok (st\<lparr>cs_ios := n\<rparr>) = config_ok st"
  "config_ok (st\<lparr>cs_runtime := r\<rparr>) = config_ok st"
  "config_ok (st\<lparr>cs_version := v\<rparr>) = config_ok st"
  "config_ok (st\<lparr>cs_signals := g\<rparr>) = config_ok st"
  "config_ok (st\<lparr>cs_trash := t\<rparr>) = config_ok st"
  by (simp_all add: config_ok_defs)

lemma ok_cache_from_disk:
  "config_ok st \<Longrightarrow> read_settings_from_disk (cs_settings_file st) = Inr s
     \<Longrightarrow> config_ok (st\<lparr>cs_settings_cache := Some s, cs_settings_mtime := map_option snd (cs_settings_file st)\<rparr>)"
  by (auto simp: config_ok_defs read_settings_from_disk_def split: option.splits sum.splits)

lemma load_settings_ok: "config_ok st \<Longrightarrow> config_ok (snd (load_settings st))"
  using ok_cache_from_disk [of st] by (auto simp: load_settings_def Let_def split: option.split sum.split)

lemma load_settings_ok': "config_ok st \<Longrightarrow> load_settings st = (s, st') \<Longrightarrow> config_ok st'"
  using load_settings_ok [of st] by simp

lemma read_profile_Inr: "read_profile_file k file = Inr p \<longleftrightarrow> (\<exists>t. file = Some (Inr p, t))"
  by (auto simp: read_profile_file_def split: option.splits sum.splits)

lemma keeps_load_profile: "keeps (load_profile pid)"
proof -
  have "config_ok st \<Longrightarrow> profile_file st pid = Some (Inr p, t) \<Longrightarrow>
      config_ok (st\<lparr>cs_profile_cache := (cs_profile_cache st)(pid \<mapsto> (p, t))\<rparr>)" for st p t
    by (auto simp: config_ok_defs)
  then show ?thesis
    by (auto simp: keeps_def load_profile_def Let_def read_profile_Inr split: option.split sum.split)
qed

lemma keeps_write_settings: "keeps (write_settings_locked d)"
  by (auto simp: keeps_def write_settings_locked_def io_step_def config_ok_defs split: sum.split)

lemma keeps_save_profile_locked: "keeps (save_profile_locked p)"
proof -
  have "config_ok st \<Longrightarrow> config_ok (st\<lparr>cs_profiles_dir := AList.update (pd_id p) (Inr p, t) (cs_profiles_dir st),
      cs_profile_cache := (cs_profile_cache st)(pd_id p \<mapsto> (p, t))\<rparr>)" for st t
    by (auto simp: config_ok_defs profile_file_update)
  from this [of "st\<lparr>cs_ios := n\<rparr>" t for st n t] show ?thesis
    by (auto simp: keeps_def save_profile_locked_def io_step_def split: sum.split)
qed

lemma keeps_modify_settings: "keeps (modify_settings f)"
  using keepsD [OF keeps_write_settings] load_settings_ok'
  by (auto simp: keeps_def modify_settings_def Let_def split: prod.split)

lemma keeps_reload: "keeps (reload_inner sig)"
  using ok_cache_from_disk
  by (auto simp: keeps_def reload_inner_def then_op_def build_and_swap_runtime_def Let_def
      split: prod.split sum.split option.split)

lemma reload_best_effort_ok: "config_ok st \<Longrightarrow> config_ok (reload_best_effort sig st)"
  unfolding reload_best_effort_def by (rule keepsD [OF keeps_reload])

lemma keeps_commit_both: "keeps (commit_both old new s)"
  unfolding commit_both_def
proof (rule keeps_then)
  show "keeps (save_profile_locked new)" by (rule keeps_save_profile_locked)
  have "config_ok st \<Longrightarrow> config_ok (snd (save_profile_locked old (snd (write_settings_locked s st))))" for st
    by (intro keepsD [OF keeps_save_profile_locked] keepsD [OF keeps_write_settings])
  then show "keeps (\<lambda>st. case write_settings_locked s st of
         (Inr _, st') \<Rightarrow> (Inr (), st')
       | (Inl settings_error, st') \<Rightarrow>
           (case save_profile_locked old st' of
              (Inl rollback_error, st2) \<Rightarrow> (Inl (ConfigWriteError ''rollback''), st2)
            | (Inr _, st2) \<Rightarrow> (Inl settings_error, st2)))" for x :: unit
    using keepsD [OF keeps_write_settings]
    by (auto simp: keeps_def split: prod.split sum.split) (metis snd_conv)+
qed

text \<open>An operation that starts by loading the settings.\<close>

lemma keeps_load_settings: "(\<And>s. keeps (f s)) \<Longrightarrow> keeps (\<lambda>st. case load_settings st of (s, st') \<Rightarrow> f s st')"
  using load_settings_ok' by (fastforce simp: keeps_def split: prod.split)

lemma keeps_if: "keeps m \<Longrightarrow> keeps n \<Longrightarrow> keeps (\<lambda>st. if b st then m st else n st)"
  by (simp add: keeps_def)

lemma keeps_best_effort: "keeps (\<lambda>st. (r, reload_best_effort sig st))"
  by (simp add: keeps_def reload_best_effort_ok)

lemma keeps_sum:
  "(\<And>x. keeps (f x)) \<Longrightarrow> (\<And>y. keeps (g y)) \<Longrightarrow> keeps (\<lambda>st. case v of Inl x \<Rightarrow> f x st | Inr y \<Rightarrow> g y st)"
  by (cases v) simp_all

lemma keeps_option:
  "keeps f \<Longrightarrow> (\<And>y. keeps (g y)) \<Longrightarrow> keeps (\<lambda>st. case q st of None \<Rightarrow> f st | Some y \<Rightarrow> g y st)"
  by (auto simp: keeps_def split: option.split)

lemma keeps_io:
  "(\<And>e. keeps (f e)) \<Longrightarrow> (\<And>t. keeps (g t))
     \<Longrightarrow> keeps (\<lambda>st. case io_step st of (Inl e, st') \<Rightarrow> f e st' | (Inr t, st') \<Rightarrow> g t st')"
  by (simp add: keeps_def io_step_def split: sum.split)

lemma keeps_then_dep: "(\<And>s. keeps (m s)) \<Longrightarrow> (\<And>x. keeps (f x)) \<Longrightarrow> keeps (\<lambda>st. then_op (m st) f st)"
  using keeps_then [of "m s" f for s] by (simp add: keeps_def)

lemma keeps_load_profile_pair:
  "(\<And>r. keeps (f r)) \<Longrightarrow> keeps (\<lambda>st. case load_profile pid st of (r, st1) \<Rightarrow> f r st1)"
  using keepsD [OF keeps_load_profile [of pid]] by (auto simp: keeps_def split: prod.split) (metis snd_conv)

lemmas keeps_rules = keeps_if keeps_sum keeps_option keeps_then keeps_load_settings keeps_return keeps_best_effort
  keeps_load_profile keeps_write_settings keeps_save_profile_locked keeps_modify_settings keeps_reload keeps_commit_both

lemma keeps_modify_settings_tx: "keeps (modify_settings_tx f)"
  unfolding modify_settings_tx_def [abs_def] Let_def by (intro keeps_rules)

lemma keeps_settings_and_profile: "keeps (modify_settings_and_profile_tx p f)"
  unfolding modify_settings_and_profile_tx_def [abs_def] Let_def by (intro keeps_rules)

lemma keeps_profile_tx: "keeps (modify_profile_tx pid f)"
  unfolding modify_profile_tx_def [abs_def] Let_def by (intro keeps_rules)

lemma keeps_profile_and_settings: "keeps (modify_profile_and_settings_tx pid f g)"
  unfolding modify_profile_and_settings_tx_def [abs_def] Let_def by (intro keeps_rules)

lemma delete_files_ok:
  assumes "config_ok st" and "pid \<noteq> ''default''"
  shows "config_ok (st\<lparr>cs_profiles_dir := AList.delete pid (cs_profiles_dir st),
     cs_trash := t, cs_profile_cache := (cs_profile_cache st)(pid := None)\<rparr>)"
  using assms by (auto simp: config_ok_defs profile_file_delete)

lemma keeps_delete: "keeps (delete_profile pid)"
proof (cases "pid = ''default''")
  case True
  then show ?thesis by (simp add: keeps_def delete_profile_def)
next
  case False
  have tail: "keeps (\<lambda>st4. (r, reload_best_effort sig
      (st4\<lparr>cs_profiles_dir := AList.delete pid (cs_profiles_dir st4), cs_trash := cs_trash st4 @ t,
           cs_profile_cache := (cs_profile_cache st4)(pid := None)\<rparr>)))" for r :: "config_error + unit" and sig t
    using False by (auto simp: keeps_def intro!: reload_best_effort_ok delete_files_ok)
  have head: "keeps (if b then modify_settings h else (\<lambda>s. (Inr (), s)))" for b h
    by (cases b) (simp_all add: keeps_modify_settings)
  show ?thesis unfolding delete_profile_def [abs_def] Let_def
    by (intro keeps_rules keeps_io head tail)
qed

lemma keeps_save_profile: "keeps (save_profile p)"
  unfolding save_profile_def [abs_def] by (intro keeps_rules)

lemma keeps_create_atomic: "keeps (create_profile_atomic p)"
  unfolding create_profile_atomic_def [abs_def] by (intro keeps_rules)

lemma keeps_create: "keeps (create_profile lower raw data)"
  unfolding create_profile_def [abs_def] Let_def by (intro keeps_create_atomic keeps_rules)

lemma keeps_update: "keeps (update_profile pid data clear)"
  unfolding update_profile_def [abs_def] Let_def
  by (intro keeps_if keeps_return keeps_load_profile_pair keeps_then_dep keeps_save_profile keeps_best_effort)

lemma keeps_update_tx: "keeps (update_profile_tx pid f)"
proof -
  have "keeps (\<lambda>st. case result of
         Inr profile \<Rightarrow> (Inr (Inr profile), reload_best_effort (ProfileSwitched pid) st)
       | Inl msg \<Rightarrow> (Inr (Inl msg), st))" for result :: "string + profile_data"
    by (cases result) (simp_all add: keeps_best_effort)
  then show ?thesis unfolding update_profile_tx_def by (rule keeps_then [OF keeps_profile_tx])
qed

lemma keeps_switch: "keeps (switch_profile pid)"
  using keepsD [OF keeps_then [OF keeps_modify_settings keeps_reload]]
  by (auto simp: keeps_def switch_profile_def)

lemma keeps_auto_switch: "keeps (set_auto_switch b)"
  unfolding set_auto_switch_def reload_def by (rule keeps_then [OF keeps_modify_settings keeps_reload])

section \<open>Requests\<close>

datatype config_request =
    SaveSettings settings_data
  | ModifySettings "settings_data \<Rightarrow> settings_data"
  | ModifySettingsTx "settings_data \<Rightarrow> string + settings_data"
  | SettingsAndProfile profile_data "settings_data \<Rightarrow> string + settings_data"
  | ProfileAndSettings string "profile_data \<Rightarrow> string + profile_data" "(settings_data \<Rightarrow> string + settings_data) option"
  | CreateProfile "nat list" profile_data
  | UpdateProfile string profile_data bool
  | UpdateProfileTx string "profile_data \<Rightarrow> string + profile_data"
  | DeleteProfile string
  | SwitchProfile string
  | SetAutoSwitch bool
  | ReloadConfig
  | ReadSettings
  | ReadProfile string

fun config_request_step :: "(nat list \<Rightarrow> nat list) \<Rightarrow> config_request \<Rightarrow> config_service \<Rightarrow> config_service" where
  "config_request_step lower (SaveSettings s) st = snd (save_settings s st)"
| "config_request_step lower (ModifySettings f) st = snd (modify_settings f st)"
| "config_request_step lower (ModifySettingsTx f) st = snd (modify_settings_tx f st)"
| "config_request_step lower (SettingsAndProfile p f) st = snd (modify_settings_and_profile_tx p f st)"
| "config_request_step lower (ProfileAndSettings pid f g) st = snd (modify_profile_and_settings_tx pid f g st)"
| "config_request_step lower (CreateProfile raw p) st = snd (create_profile lower raw p st)"
| "config_request_step lower (UpdateProfile pid p clear) st = snd (update_profile pid p clear st)"
| "config_request_step lower (UpdateProfileTx pid f) st = snd (update_profile_tx pid f st)"
| "config_request_step lower (DeleteProfile pid) st = snd (delete_profile pid st)"
| "config_request_step lower (SwitchProfile pid) st = snd (switch_profile pid st)"
| "config_request_step lower (SetAutoSwitch b) st = snd (set_auto_switch b st)"
| "config_request_step lower ReloadConfig st = snd (reload st)"
| "config_request_step lower ReadSettings st = snd (load_settings st)"
| "config_request_step lower (ReadProfile pid) st = snd (load_profile pid st)"

lemma config_request_ok: "config_ok st \<Longrightarrow> config_ok (config_request_step lower r st)"
  by (cases r)
     (simp_all add: save_settings_def reload_def load_settings_ok keepsD keeps_write_settings keeps_modify_settings
        keeps_modify_settings_tx keeps_settings_and_profile keeps_profile_and_settings keeps_create keeps_update
        keeps_update_tx keeps_delete keeps_switch keeps_auto_switch keeps_reload keeps_load_profile)

interpretation config: machine "config_request_step lower" st0 "\<lambda>st. config_ok st0 \<longrightarrow> config_ok st" for lower st0
  by unfold_locales (auto intro: config_request_ok)

lemma config_run_ok: "config_ok st \<Longrightarrow> config_ok (fold (config_request_step lower) rs st)"
  using config.inv_run [of st lower rs] by simp

section \<open>Reads and reloads\<close>

lemma load_settings_value:
  "config_ok st \<Longrightarrow> fst (load_settings st) =
     (case settings_on_disk st of None \<Rightarrow> settings_data_default | Some (Inr s) \<Rightarrow> s
      | Some (Inl _) \<Rightarrow> the (cs_settings_cache st))"
  by (auto simp: load_settings_def settings_on_disk_def read_settings_from_disk_def config_ok_defs Let_def
      split: option.split sum.split prod.split)

lemma load_profile_value:
  assumes "config_ok st" and "is_valid_profile_id pid"
  shows "fst (load_profile pid st) = read_profile_file pid (profile_file st pid)"
proof -
  have c: "\<And>d t c. cs_profile_cache st pid = Some (d, t) \<Longrightarrow> profile_file st pid = Some (c, t) \<Longrightarrow> c = Inr d"
    using assms(1) unfolding config_ok_def profiles_coherent_def by blast
  show ?thesis
  proof (cases "cs_profile_cache st pid")
    case None
    with assms(2) show ?thesis by (simp add: load_profile_def Let_def split: sum.split)
  next
    case (Some dt)
    obtain d t where dt: "dt = (d, t)" by (cases dt)
    show ?thesis
    proof (cases "Some t = map_option snd (profile_file st pid)")
      case True
      then obtain c' where f: "profile_file st pid = Some (c', t)" by (cases "profile_file st pid") auto
      with c [of d t c'] Some dt assms(2) show ?thesis by (simp add: load_profile_def read_profile_file_def)
    next
      case False
      with Some dt assms(2) show ?thesis by (simp add: load_profile_def Let_def split: sum.split)
    qed
  qed
qed

text \<open>The settings and the profile a reload publishes.\<close>

definition reload_settings :: "config_service \<Rightarrow> settings_data" where
  "reload_settings st =
     (case read_settings_from_disk (cs_settings_file st) of Inr s \<Rightarrow> s | Inl _ \<Rightarrow> the (cs_settings_cache st))"

definition reload_profile :: "config_service \<Rightarrow> profile_data" where
  "reload_profile st =
     (let s = reload_settings st;
          active_id = (if is_valid_profile_id (sd_active_profile_id s) then sd_active_profile_id s else ''default'')
      in case read_profile_file active_id (profile_file st active_id) of
           Inr p \<Rightarrow> p
         | Inl _ \<Rightarrow> (case profile_file st ''default'' of Some (Inr p, _) \<Rightarrow> p | _ \<Rightarrow> profile_data_default))"

lemma default_readable: "config_ok st \<Longrightarrow> \<exists>p. read_profile_file ''default'' (profile_file st ''default'') = Inr p"
  by (auto simp: config_ok_def default_there_def read_profile_file_def)

lemma read_active_ok:
  assumes "config_ok st"
  shows "read_active_profile st aid = Inr (case read_profile_file aid (profile_file st aid) of
     Inr p \<Rightarrow> p | Inl _ \<Rightarrow> (case profile_file st ''default'' of Some (Inr p, _) \<Rightarrow> p | _ \<Rightarrow> profile_data_default))"
proof -
  obtain p t where d: "profile_file st ''default'' = Some (Inr p, t)"
    using assms by (auto simp: config_ok_def default_there_def)
  show ?thesis
    by (auto simp: read_active_profile_def d read_profile_file_def split: sum.split)
qed

lemma reload_inner_ok:
  assumes "config_ok st"
  shows "\<exists>st'. reload_inner sig st = (Inr (), st')
     \<and> cs_runtime st' = build_runtime_config (cs_decrypt st) (reload_settings st) (reload_profile st)
     \<and> cs_version st' = cs_version st + 1 \<and> cs_signals st' = cs_signals st @ [sig]
     \<and> cs_settings_file st' = cs_settings_file st \<and> cs_profiles_dir st' = cs_profiles_dir st"
proof -
  obtain prev where c: "cs_settings_cache st = Some prev" using assms by (auto simp: config_ok_def)
  have r: "read_active_profile (st\<lparr>cs_settings_cache := a, cs_settings_mtime := b\<rparr>) = read_active_profile st" for a b
    unfolding fun_eq_iff read_active_profile_def profile_file_frame by blast
  show ?thesis
    by (cases "read_settings_from_disk (cs_settings_file st)")
       (simp_all add: reload_inner_def c then_op_def r read_active_ok [OF assms] build_and_swap_runtime_def Let_def
          reload_settings_def reload_profile_def)
qed


definition demo_runtime_of :: runtime_config where
  "demo_runtime_of = build_runtime_config (\<lambda>_ _. (Inr [] :: unit + string)) settings_data_default profile_data_default"

definition demo_config :: config_service where
  "demo_config =
     \<lparr>cs_settings_file = Some (Inr settings_data_default, 1),
      cs_profiles_dir = [(''default'', (Inr profile_data_default, 1)),
                         (''dorm'', (Inr (profile_data_default\<lparr>pd_id := ''dorm'', pd_wifi_ssid := ''Campus''\<rparr>), 2))],
      cs_trash = [], cs_settings_cache = Some settings_data_default, cs_settings_mtime = Some 1,
      cs_profile_cache = Map.empty, cs_runtime = demo_runtime_of, cs_version = 0, cs_signals = [],
      cs_io = (\<lambda>n. Inr (10 + n)), cs_ios = 0, cs_decrypt = (\<lambda>_ _. Inr []),
      cs_encrypt = (\<lambda>s. Inr (''ENC:'' @ s)), cs_can_decrypt = (\<lambda>_. True)\<rparr>"

lemma demo_config_ok: "config_ok demo_config"
  by (simp add: config_ok_defs demo_config_def profile_file_def profile_data_default_def)


section \<open>Versions\<close>

definition published :: "config_service \<Rightarrow> u64 \<times> runtime_config \<times> config_reload_signal list" where
  "published st = (cs_version st, cs_runtime st, cs_signals st)"

definition quiet :: "'a config_op \<Rightarrow> bool" where
  "quiet m \<longleftrightarrow> (\<forall>st. published (snd (m st)) = published st)"

text \<open>At most one publication, which counts the version up by one and sends one signal.\<close>

definition one_publication :: "config_service \<Rightarrow> config_service \<Rightarrow> bool" where
  "one_publication st st' \<longleftrightarrow> published st' = published st
     \<or> cs_version st' = cs_version st + 1 \<and> (\<exists>sig. cs_signals st' = cs_signals st @ [sig])"

definition once :: "'a config_op \<Rightarrow> bool" where
  "once m \<longleftrightarrow> (\<forall>st. one_publication st (snd (m st)))"

lemma quiet_once: "quiet m \<Longrightarrow> once m"
  by (simp add: quiet_def once_def one_publication_def)

lemma quiet_then: "quiet m \<Longrightarrow> (\<And>x. quiet (f x)) \<Longrightarrow> quiet (then_op m f)"
  by (auto simp: quiet_def then_op_def split: prod.split sum.split) (metis snd_conv)+

lemma once_after_quiet: "published st1 = published st \<Longrightarrow> one_publication st1 st2 \<Longrightarrow> one_publication st st2"
  by (simp add: one_publication_def published_def)

lemma once_then: "quiet m \<Longrightarrow> (\<And>x. once (f x)) \<Longrightarrow> once (then_op m f)"
proof -
  assume m: "quiet m" and f: "\<And>x. once (f x)"
  have "one_publication st (snd (then_op m f st))" for st
  proof (cases "m st")
    case (Pair r st1)
    then have p: "published st1 = published st" using m by (metis quiet_def snd_conv)
    show ?thesis
    proof (cases r)
      case (Inl e)
      then show ?thesis using p by (simp add: then_op_def Pair one_publication_def)
    next
      case (Inr x)
      then show ?thesis using once_after_quiet [OF p] f [of x] by (simp add: then_op_def Pair once_def)
    qed
  qed
  then show ?thesis by (simp add: once_def)
qed

lemma load_settings_published: "published (snd (load_settings st)) = published st"
  by (simp add: load_settings_def Let_def published_def split: option.split sum.split)

lemma quiet_load_settings: "(\<And>s. quiet (f s)) \<Longrightarrow> quiet (\<lambda>st. case load_settings st of (s, st') \<Rightarrow> f s st')"
  using load_settings_published by (auto simp: quiet_def split: prod.split) (metis snd_conv)

lemma once_load_settings: "(\<And>s. once (f s)) \<Longrightarrow> once (\<lambda>st. case load_settings st of (s, st') \<Rightarrow> f s st')"
  using load_settings_published once_after_quiet by (auto simp: once_def split: prod.split) (metis snd_conv)

lemma quiet_load_profile: "quiet (load_profile pid)"
  by (simp add: quiet_def load_profile_def Let_def published_def split: option.split sum.split prod.split)

lemma once_load_profile_pair: "(\<And>r. once (f r)) \<Longrightarrow> once (\<lambda>st. case load_profile pid st of (r, st1) \<Rightarrow> f r st1)"
  using quiet_load_profile [of pid] once_after_quiet by (auto simp: once_def quiet_def split: prod.split) (metis snd_conv)

lemma quiet_writes: "quiet (write_settings_locked s)" "quiet (save_profile_locked p)"
  by (simp_all add: quiet_def write_settings_locked_def save_profile_locked_def io_step_def published_def split: sum.split)

lemma quiet_return: "quiet (\<lambda>st. (r, st))" and once_return: "once (\<lambda>st. (r, st))"
  by (simp_all add: quiet_def once_def one_publication_def)

lemma once_if: "once m \<Longrightarrow> once n \<Longrightarrow> once (\<lambda>st. if b st then m st else n st)"
  and quiet_if: "quiet m' \<Longrightarrow> quiet n' \<Longrightarrow> quiet (\<lambda>st. if b st then m' st else n' st)"
  by (simp_all add: once_def quiet_def)

lemma once_sum:
  "(\<And>x. once (f x)) \<Longrightarrow> (\<And>y. once (g y)) \<Longrightarrow> once (\<lambda>st. case v of Inl x \<Rightarrow> f x st | Inr y \<Rightarrow> g y st)"
  by (cases v) simp_all

lemma once_option:
  "once f \<Longrightarrow> (\<And>y. once (g y)) \<Longrightarrow> once (\<lambda>st. case q st of None \<Rightarrow> f st | Some y \<Rightarrow> g y st)"
  by (auto simp: once_def split: option.split)

lemma once_io:
  "(\<And>e. once (f e)) \<Longrightarrow> (\<And>t. once (g t))
     \<Longrightarrow> once (\<lambda>st. case io_step st of (Inl e, st') \<Rightarrow> f e st' | (Inr t, st') \<Rightarrow> g t st')"
proof -
  assume f: "\<And>e. once (f e)" and g: "\<And>t. once (g t)"
  show ?thesis unfolding once_def
  proof
    fix st
    have p: "published (st\<lparr>cs_ios := cs_ios st + 1\<rparr>) = published st" by (simp add: published_def)
    show "one_publication st (snd (case io_step st of (Inl e, st') \<Rightarrow> f e st' | (Inr t, st') \<Rightarrow> g t st'))"
      using f g by (cases "cs_io st (cs_ios st)") (simp_all add: io_step_def once_def once_after_quiet [OF p])
  qed
qed

lemma once_reload: "once (reload_inner sig)"
  unfolding once_def
proof
  fix st :: config_service
  let ?res = "case read_settings_from_disk (cs_settings_file st) of
           Inr s \<Rightarrow> (Inr s, st\<lparr>cs_settings_cache := Some s,
                              cs_settings_mtime := map_option snd (cs_settings_file st)\<rparr>)
         | Inl e \<Rightarrow> (case cs_settings_cache st of
                      Some prev \<Rightarrow> (Inr prev, st)
                    | None \<Rightarrow> (Inl (ConfigWriteError ''settings.json''), st))"
  have p: "published (snd ?res) = published st" by (simp add: published_def split: sum.split option.split)
  obtain r st1 where res: "?res = (r, st1)" by (cases ?res)
  with p have p1: "published st1 = published st" by (metis snd_conv)
  show "one_publication st (snd (reload_inner sig st))"
  proof (cases r)
    case (Inl e)
    then show ?thesis unfolding reload_inner_def Let_def res then_op_def by (simp add: one_publication_def p1)
  next
    case (Inr s)
    define aid where "aid = (if is_valid_profile_id (sd_active_profile_id s) then sd_active_profile_id s else ''default'')"
    have step: "reload_inner sig st = (case read_active_profile st1 aid of
        Inl e \<Rightarrow> (Inl e, st1)
      | Inr p \<Rightarrow> (Inr (), st1\<lparr>cs_runtime := build_runtime_config (cs_decrypt st1) s p, cs_version := cs_version st1 + 1,
                        cs_signals := cs_signals st1 @ [sig]\<rparr>))"
      unfolding reload_inner_def Let_def res Inr aid_def
      by (cases "is_valid_profile_id (sd_active_profile_id s)")
         (simp_all add: then_op_def build_and_swap_runtime_def split: sum.split)
    have "one_publication st1 (snd (reload_inner sig st))"
      unfolding step by (simp add: one_publication_def split: sum.split)
    then show ?thesis by (rule once_after_quiet [OF p1])
  qed
qed

lemma once_best_effort: "once (\<lambda>st. (r, reload_best_effort sig st))"
  using once_reload by (simp add: once_def reload_best_effort_def)

lemma quiet_modify_settings: "quiet (modify_settings f)"
  unfolding modify_settings_def [abs_def] Let_def by (intro quiet_load_settings quiet_writes)

lemma quiet_match:
  assumes "quiet m" and "\<And>x. quiet (f x)" and "\<And>e. quiet (g e)"
  shows "quiet (\<lambda>st. case m st of (Inr x, st') \<Rightarrow> f x st' | (Inl e, st') \<Rightarrow> g e st')"
  unfolding quiet_def
proof
  fix st
  obtain r st1 where m: "m st = (r, st1)" by (cases "m st")
  then have "published st1 = published st" using assms(1) by (metis quiet_def snd_conv)
  then show "published (snd (case m st of (Inr x, st') \<Rightarrow> f x st' | (Inl e, st') \<Rightarrow> g e st')) = published st"
    using assms(2,3) by (cases r) (simp_all add: m quiet_def)
qed

lemma quiet_commit_both: "quiet (commit_both old new s)"
  unfolding commit_both_def by (intro quiet_then quiet_match quiet_writes quiet_return)

lemma config_request_once: "one_publication st (config_request_step lower r st)"
proof -
  have c: "once (create_profile_atomic p)" for p
    unfolding create_profile_atomic_def [abs_def] by (intro once_if once_return quiet_once quiet_writes)
  have q: "quiet (create_profile_atomic p)" "quiet (save_profile p)" for p
    unfolding create_profile_atomic_def [abs_def] save_profile_def [abs_def]
    by (intro quiet_if quiet_return quiet_writes)+
  have qp: "quiet (modify_profile_tx pid f)" for pid f
  proof -
    have "quiet (\<lambda>st1. case f p of Inl msg \<Rightarrow> (Inr (Inl msg), st1)
        | Inr p \<Rightarrow> then_op (save_profile_locked (p\<lparr>pd_id := pid\<rparr>)) (\<lambda>_ st2. (Inr (Inr (p\<lparr>pd_id := pid\<rparr>)), st2)) st1)" for p
      by (cases "f p") (simp_all add: quiet_return quiet_then quiet_writes)
    then show ?thesis unfolding modify_profile_tx_def [abs_def] Let_def
      by (intro quiet_if quiet_return quiet_then quiet_load_profile)
  qed
  have d: "once (delete_profile pid)" for pid
  proof -
    have tail: "once (\<lambda>st4. (r, reload_best_effort sig
      (st4\<lparr>cs_profiles_dir := AList.delete pid (cs_profiles_dir st4), cs_trash := cs_trash st4 @ t,
           cs_profile_cache := (cs_profile_cache st4)(pid := None)\<rparr>)))" for r :: "config_error + unit" and sig t
    proof -
      have p: "published (st4\<lparr>cs_profiles_dir := AList.delete pid (cs_profiles_dir st4), cs_trash := cs_trash st4 @ t,
           cs_profile_cache := (cs_profile_cache st4)(pid := None)\<rparr>) = published st4" for st4
        by (simp add: published_def)
      have "one_publication st (snd (reload_inner sig st))" for st using once_reload by (simp add: once_def)
      then show ?thesis unfolding once_def reload_best_effort_def snd_conv
        by (intro allI) (rule once_after_quiet [OF p])
    qed
    have head: "quiet (if b then modify_settings h else (\<lambda>s. (Inr (), s)))" for b h
      by (cases b) (simp_all add: quiet_modify_settings quiet_return)
    show ?thesis unfolding delete_profile_def [abs_def] Let_def
      by (intro once_if once_return once_option once_load_settings once_then head once_io tail)
  qed
  have u: "once (update_profile pid data clear)" for pid data clear
  proof -
    have t: "once (\<lambda>st. then_op (m st) k st)" if "\<And>x. quiet (m x)" "\<And>x. once (k x)"
      for m :: "config_service \<Rightarrow> unit config_op" and k :: "unit \<Rightarrow> unit config_op"
      using once_then [of "m x" k for x] that by (simp add: once_def)
    show ?thesis unfolding update_profile_def [abs_def] Let_def
      by (intro once_if once_return once_load_profile_pair t q once_best_effort)
  qed
  have 1: "once (modify_settings_tx f)" for f
    unfolding modify_settings_tx_def [abs_def] Let_def
    by (intro once_load_settings once_sum once_return once_then quiet_writes)
  have 2: "once (modify_settings_and_profile_tx p f)" for p f
    unfolding modify_settings_and_profile_tx_def [abs_def] Let_def
    by (intro once_if once_return once_then quiet_load_profile once_load_settings once_sum quiet_commit_both once_best_effort)
  have 3: "once (modify_profile_and_settings_tx pid h g)" for pid h g
    unfolding modify_profile_and_settings_tx_def [abs_def] Let_def
    by (intro once_if once_return once_then quiet_load_profile once_sum once_option quiet_writes once_load_settings
        quiet_commit_both)
  have 4: "once (create_profile lower raw p)" for raw p
    unfolding create_profile_def [abs_def] Let_def by (intro once_if once_return once_then q once_best_effort)
  have 5: "once (update_profile_tx pid h)" for pid h
    unfolding update_profile_tx_def by (intro once_then qp once_sum once_return once_best_effort)
  have 6: "once (switch_profile pid)" for pid
    unfolding switch_profile_def [abs_def] by (intro once_if once_return once_then quiet_modify_settings once_reload)
  have 7: "once (set_auto_switch b)" for b
    unfolding set_auto_switch_def reload_def by (intro once_then quiet_modify_settings once_reload)
  show ?thesis
  proof (cases r)
    case ReadSettings
    then show ?thesis by (simp add: one_publication_def load_settings_published)
  qed (use 1 2 3 4 5 6 7 d u quiet_once [OF quiet_writes(1)] quiet_once [OF quiet_modify_settings]
        quiet_once [OF quiet_load_profile] once_reload in
      \<open>simp_all add: once_def save_settings_def reload_def\<close>)
qed

text \<open>The version is a faithful stamp of the published configuration: a request either leaves the
  version, the published snapshot and the sent signals alone, or publishes exactly once, which
  counts the version up by one and sends one signal. So two snapshots with the same version are the
  same snapshot.\<close>

theorem version_stamps_snapshot:
  "(cs_version (config_request_step lower r st) = cs_version st
      \<and> cs_runtime (config_request_step lower r st) = cs_runtime st
      \<and> cs_signals (config_request_step lower r st) = cs_signals st)
   \<or> (cs_version (config_request_step lower r st) = cs_version st + 1
      \<and> (\<exists>sig. cs_signals (config_request_step lower r st) = cs_signals st @ [sig]))"
  using config_request_once [of st lower r] by (simp add: one_publication_def published_def)

section \<open>What the operations leave on disk\<close>

lemma disk_after_load [simp]:
  "profile_file (snd (load_settings st)) = profile_file st"
  "cs_settings_file (snd (load_settings st)) = cs_settings_file st"
  "profile_file (snd (load_profile pid st)) = profile_file st"
  "cs_settings_file (snd (load_profile pid st)) = cs_settings_file st"
  by (simp_all add: load_settings_def load_profile_def Let_def split: option.split sum.split prod.split)

lemma disk_after_reload [simp]:
  "profile_file (reload_best_effort sig st) = profile_file st"
  "cs_settings_file (reload_best_effort sig st) = cs_settings_file st"
  by (auto simp: reload_best_effort_def reload_inner_def then_op_def build_and_swap_runtime_def Let_def
      split: sum.split option.split)

lemma write_settings_cases:
  obtains e st' where "write_settings_locked s st = (Inl (ConfigIo e), st')"
      "cs_settings_file st' = cs_settings_file st" "profile_file st' = profile_file st"
  | st' t where "write_settings_locked s st = (Inr (), st')"
      "cs_settings_file st' = Some (Inr s, t)" "profile_file st' = profile_file st"
proof (cases "cs_io st (cs_ios st)")
  case (Inl e)
  then show thesis
    by (intro that(1) [of e "st\<lparr>cs_ios := cs_ios st + 1\<rparr>"]) (simp_all add: write_settings_locked_def io_step_def)
next
  case (Inr t)
  then show thesis
    by (intro that(2) [of "st\<lparr>cs_ios := cs_ios st + 1, cs_settings_file := Some (Inr s, t), cs_settings_cache := Some s,
         cs_settings_mtime := Some t\<rparr>" t]) (simp_all add: write_settings_locked_def io_step_def)
qed

lemma save_profile_cases:
  obtains e st' where "save_profile_locked p st = (Inl (ConfigIo e), st')"
      "cs_settings_file st' = cs_settings_file st" "profile_file st' = profile_file st"
  | st' t where "save_profile_locked p st = (Inr (), st')"
      "cs_settings_file st' = cs_settings_file st" "profile_file st' = (profile_file st)(pd_id p \<mapsto> (Inr p, t))"
proof (cases "cs_io st (cs_ios st)")
  case (Inl e)
  then show thesis
    by (intro that(1) [of e "st\<lparr>cs_ios := cs_ios st + 1\<rparr>"]) (simp_all add: save_profile_locked_def io_step_def)
next
  case (Inr t)
  let ?st = "st\<lparr>cs_ios := cs_ios st + 1, cs_profiles_dir := AList.update (pd_id p) (Inr p, t) (cs_profiles_dir st),
       cs_profile_cache := (cs_profile_cache st)(pd_id p \<mapsto> (p, t))\<rparr>"
  have "profile_file ?st = (profile_file st)(pd_id p \<mapsto> (Inr p, t))"
    by (simp add: profile_file_def update_conv' fun_eq_iff)
  with Inr show thesis by (intro that(2) [of ?st t]) (simp_all add: save_profile_locked_def io_step_def)
qed

text \<open>The core of both transactions: all, nothing, or the one reported failure of the rollback.\<close>

lemma commit_both_cases:
  assumes "profile_on_disk st (pd_id new) = Some (Inr old)" and "pd_id old = pd_id new"
  obtains st' where "commit_both old new s st = (Inr (), st')" "settings_on_disk st' = Some (Inr s)"
      "profile_on_disk st' = (profile_on_disk st)(pd_id new \<mapsto> Inr new)"
  | e st' where "commit_both old new s st = (Inl e, st')" "settings_on_disk st' = settings_on_disk st"
      "profile_on_disk st' = profile_on_disk st \<or>
       e = ConfigWriteError ''rollback'' \<and> profile_on_disk st' = (profile_on_disk st)(pd_id new \<mapsto> Inr new)"
proof -
  note disk = commit_both_def then_op_def settings_on_disk_def profile_on_disk_def fun_eq_iff
  show thesis
  proof (rule save_profile_cases [of new st])
    fix e st1
    assume "save_profile_locked new st = (Inl (ConfigIo e), st1)" "cs_settings_file st1 = cs_settings_file st"
      "profile_file st1 = profile_file st"
    then show thesis by (intro that(2) [of "ConfigIo e" st1]) (simp_all add: disk)
  next
    fix st1 t
    assume 1: "save_profile_locked new st = (Inr (), st1)" "cs_settings_file st1 = cs_settings_file st"
      "profile_file st1 = (profile_file st)(pd_id new \<mapsto> (Inr new, t))"
    show thesis
    proof (rule write_settings_cases [of s st1])
      fix st2 t'
      assume "write_settings_locked s st1 = (Inr (), st2)" "cs_settings_file st2 = Some (Inr s, t')"
        "profile_file st2 = profile_file st1"
      with 1 show thesis by (intro that(1) [of st2]) (simp_all add: disk)
    next
      fix e st2
      assume 2: "write_settings_locked s st1 = (Inl (ConfigIo e), st2)" "cs_settings_file st2 = cs_settings_file st1"
        "profile_file st2 = profile_file st1"
      show thesis
      proof (rule save_profile_cases [of old st2])
        fix e' st3
        assume "save_profile_locked old st2 = (Inl (ConfigIo e'), st3)" "cs_settings_file st3 = cs_settings_file st2"
          "profile_file st3 = profile_file st2"
        with 1 2 show thesis by (intro that(2) [of "ConfigWriteError ''rollback''" st3]) (simp_all add: disk)
      next
        fix st3 t'
        assume "save_profile_locked old st2 = (Inr (), st3)" "cs_settings_file st3 = cs_settings_file st2"
          "profile_file st3 = (profile_file st2)(pd_id old \<mapsto> (Inr old, t'))"
        with 1 2 assms show thesis by (intro that(2) [of "ConfigIo e" st3]) (auto simp: disk)
      qed
    qed
  qed
qed

end
