(* ===== verification/Config_Tx.thy ===== *)
theory Config_Tx
  imports Config_Props
begin

text \<open>
  The single operations of the configuration service: the transaction over both files, switching
  and deleting a profile, the automatic match, and saving a password.
\<close>

section \<open>The transaction over both files\<close>

lemma load_profile_ok:
  assumes "config_ok st" and "is_valid_profile_id pid" and "profile_on_disk st pid = Some (Inr p)"
  shows "\<exists>st1. load_profile pid st = (Inr p, st1) \<and> profile_file st1 = profile_file st
    \<and> cs_settings_file st1 = cs_settings_file st \<and> fst (load_settings st1) = fst (load_settings st) \<and> config_ok st1"
proof -
  obtain r st1 where l: "load_profile pid st = (r, st1)" by (cases "load_profile pid st")
  have r: "r = Inr p"
    using load_profile_value [OF assms(1,2)] assms(3) by (auto simp: l read_profile_file_def profile_on_disk_def)
  have d: "profile_file st1 = profile_file st" "cs_settings_file st1 = cs_settings_file st"
    using disk_after_load(3,4) [of pid st] by (simp_all add: l)
  have ok: "config_ok st1" using keepsD [OF keeps_load_profile assms(1), of pid] by (simp add: l)
  have "cs_settings_cache (snd (load_profile pid st)) = cs_settings_cache st"
    by (simp add: load_profile_def Let_def split: option.split sum.split prod.split)
  then have c: "cs_settings_cache st1 = cs_settings_cache st" by (simp add: l)
  have s: "settings_on_disk st1 = settings_on_disk st" by (simp add: settings_on_disk_def d)
  have "fst (load_settings st1) = fst (load_settings st)"
    unfolding load_settings_value [OF ok] load_settings_value [OF assms(1)] s c ..
  with l r d ok show ?thesis by blast
qed

text \<open>C26. Saving settings and profile together is all or nothing: on success both files hold the new
  contents; a rejected merge leaves both as they were; a failed write leaves both as they were,
  except that the error may say that the rollback itself failed. No other profile is touched.\<close>

theorem profile_settings_tx_atomic:
  assumes "config_ok st" and "is_valid_profile_id (pd_id p)" and "profile_on_disk st (pd_id p) = Some (Inr old)"
  shows "case modify_settings_and_profile_tx p f st of
      (Inr (Inr _), st') \<Rightarrow> (\<exists>s. f (fst (load_settings st)) = Inr s \<and> settings_on_disk st' = Some (Inr s))
          \<and> profile_on_disk st' = (profile_on_disk st)(pd_id p \<mapsto> Inr p)
    | (Inr (Inl msg), st') \<Rightarrow> f (fst (load_settings st)) = Inl msg
          \<and> settings_on_disk st' = settings_on_disk st \<and> profile_on_disk st' = profile_on_disk st
    | (Inl e, st') \<Rightarrow> settings_on_disk st' = settings_on_disk st
          \<and> (profile_on_disk st' = profile_on_disk st \<or>
             e = ConfigWriteError ''rollback'' \<and> profile_on_disk st' = (profile_on_disk st)(pd_id p \<mapsto> Inr p))"
proof -
  obtain st1 where 1: "load_profile (pd_id p) st = (Inr old, st1)" "profile_file st1 = profile_file st"
    "cs_settings_file st1 = cs_settings_file st" "fst (load_settings st1) = fst (load_settings st)"
    using load_profile_ok [OF assms] by blast
  obtain s0 st2 where 2: "load_settings st1 = (s0, st2)" by (cases "load_settings st1")
  have d2: "profile_on_disk st2 = profile_on_disk st" "settings_on_disk st2 = settings_on_disk st"
    using disk_after_load(1,2) [of st1] 1(2,3) by (simp_all add: 2 profile_on_disk_def settings_on_disk_def fun_eq_iff)
  have s0: "s0 = fst (load_settings st)" using 1(4) by (simp add: 2)
  have own: "pd_id old = pd_id p"
    using assms(1,3) by (auto simp: config_ok_def own_ids_def profile_on_disk_def)
  have m: "modify_settings_and_profile_tx p f st = (case f s0 of
       Inl msg \<Rightarrow> (Inr (Inl msg), st2)
     | Inr s \<Rightarrow> then_op (commit_both old p s) (\<lambda>_ st3. (Inr (Inr ()), reload_best_effort GlobalChanged st3)) st2)"
    using assms(2) by (simp add: modify_settings_and_profile_tx_def then_op_def 1(1) 2)
  show ?thesis
  proof (cases "f s0")
    case (Inl msg)
    then show ?thesis unfolding m by (simp add: d2 s0)
  next
    case (Inr s)
    show ?thesis
    proof (rule commit_both_cases [of st2 p old s])
      show "profile_on_disk st2 (pd_id p) = Some (Inr old)" using assms(3) by (simp add: d2)
      show "pd_id old = pd_id p" by (rule own)
    next
      fix st3
      assume c: "commit_both old p s st2 = (Inr (), st3)" "settings_on_disk st3 = Some (Inr s)"
        "profile_on_disk st3 = (profile_on_disk st2)(pd_id p \<mapsto> Inr p)"
      have "settings_on_disk (reload_best_effort GlobalChanged st3) = Some (Inr s)"
        "profile_on_disk (reload_best_effort GlobalChanged st3) = (profile_on_disk st)(pd_id p \<mapsto> Inr p)"
        using c(2,3) by (simp_all add: settings_on_disk_def profile_on_disk_def fun_eq_iff d2 flip: d2)
      then show ?thesis unfolding m Inr using Inr by (simp add: then_op_def c(1) s0)
    next
      fix e st3
      assume c: "commit_both old p s st2 = (Inl e, st3)" "settings_on_disk st3 = settings_on_disk st2"
        "profile_on_disk st3 = profile_on_disk st2 \<or>
         e = ConfigWriteError ''rollback'' \<and> profile_on_disk st3 = (profile_on_disk st2)(pd_id p \<mapsto> Inr p)"
      then show ?thesis unfolding m Inr by (simp add: then_op_def d2)
    qed
  qed
qed

definition demo_dorm :: profile_data where
  "demo_dorm = profile_data_default\<lparr>pd_id := ''dorm'', pd_username := ''alice''\<rparr>"

lemma demo_dorm_disk: "\<exists>old. profile_on_disk demo_config (pd_id demo_dorm) = Some (Inr old)"
  by (simp add: profile_on_disk_def profile_file_def demo_config_def demo_dorm_def)

lemma demo_dorm_valid: "is_valid_profile_id ''dorm''"
  by code_simp

text \<open>The second write of this disk fails.\<close>

definition demo_full_disk :: config_service where
  "demo_full_disk = demo_config\<lparr>cs_io := (\<lambda>n. if n = 1 then Inl ''disk full'' else Inr (10 + n))\<rparr>"

lemma demo_full_disk_ok: "config_ok demo_full_disk"
  using demo_config_ok by (simp add: config_ok_defs demo_full_disk_def profile_file_def)

theorem profile_settings_tx_atomic_witness:
  "case modify_settings_and_profile_tx demo_dorm (\<lambda>s. Inr (s\<lparr>sd_auto_switch := True\<rparr>)) demo_full_disk of
     (Inl e, st') \<Rightarrow> settings_on_disk st' = settings_on_disk demo_full_disk | _ \<Rightarrow> True"
proof -
  obtain old where "profile_on_disk demo_full_disk (pd_id demo_dorm) = Some (Inr old)"
    using demo_dorm_disk by (auto simp: demo_full_disk_def profile_on_disk_def profile_file_def)
  moreover have "is_valid_profile_id (pd_id demo_dorm)" using demo_dorm_valid by (simp add: demo_dorm_def)
  ultimately show ?thesis
    using profile_settings_tx_atomic [OF demo_full_disk_ok, of demo_dorm old "\<lambda>s. Inr (s\<lparr>sd_auto_switch := True\<rparr>)"]
    by (auto split: prod.splits sum.splits)
qed

section \<open>The rollback and copied profile files\<close>

text \<open>The rollback relies on the profile lying under its own id: when the file of the id carries
  another id (a copied file), and the write of the settings fails, the transaction reports the
  failure but leaves the new profile in place and overwrites the file of the other id.\<close>

theorem rollback_misses_copied_file:
  assumes "is_valid_profile_id (pd_id p)" and "fst (load_profile (pd_id p) st) = Inr old" and "pd_id old \<noteq> pd_id p"
    and "f (fst (load_settings (snd (load_profile (pd_id p) st)))) = Inr s"
    and "cs_io st (cs_ios st) = Inr t0" and "cs_io st (cs_ios st + 1) = Inl e" and "cs_io st (cs_ios st + 2) = Inr t2"
  shows "\<exists>st'. modify_settings_and_profile_tx p f st = (Inl (ConfigIo e), st')
    \<and> profile_on_disk st' (pd_id p) = Some (Inr p) \<and> profile_on_disk st' (pd_id old) = Some (Inr old)"
proof -
  obtain st1 where 1: "load_profile (pd_id p) st = (Inr old, st1)" using assms(2) by (metis fst_conv prod.exhaust)
  obtain s0 st2 where 2: "load_settings st1 = (s0, st2)" by (cases "load_settings st1")
  have f: "f s0 = Inr s" using assms(4) by (simp add: 1 2)
  have "cs_io (snd (load_profile (pd_id p) st)) = cs_io st \<and> cs_ios (snd (load_profile (pd_id p) st)) = cs_ios st"
    by (simp add: load_profile_def Let_def split: option.split sum.split prod.split)
  moreover have "cs_io (snd (load_settings st1)) = cs_io st1 \<and> cs_ios (snd (load_settings st1)) = cs_ios st1"
    by (simp add: load_settings_def Let_def split: option.split sum.split)
  ultimately have io: "cs_io st2 = cs_io st" "cs_ios st2 = cs_ios st" by (simp_all add: 1 2)
  have c: "\<exists>st'. commit_both old p s st2 = (Inl (ConfigIo e), st')
      \<and> profile_on_disk st' (pd_id p) = Some (Inr p) \<and> profile_on_disk st' (pd_id old) = Some (Inr old)"
    using assms(3,5-7)
    by (simp add: commit_both_def then_op_def save_profile_locked_def write_settings_locked_def io_step_def io
        profile_on_disk_def profile_file_def update_conv')
  then show ?thesis using assms(1) f
    by (auto simp: modify_settings_and_profile_tx_def then_op_def 1 2)
qed

definition demo_copied :: config_service where
  "demo_copied = demo_full_disk\<lparr>cs_profiles_dir := [(''default'', (Inr profile_data_default, 1)),
     (''dorm'', (Inr profile_data_default, 2))]\<rparr>"

theorem rollback_misses_copied_file_witness:
  "\<exists>st'. modify_settings_and_profile_tx demo_dorm Inr demo_copied = (Inl (ConfigIo ''disk full''), st')
     \<and> profile_on_disk st' ''dorm'' = Some (Inr demo_dorm)"
proof -
  have id: "pd_id demo_dorm = ''dorm''" by (simp add: demo_dorm_def)
  have l: "fst (load_profile ''dorm'' demo_copied) = Inr profile_data_default"
    using demo_dorm_valid
    by (simp add: load_profile_def demo_copied_def demo_full_disk_def demo_config_def profile_file_def read_profile_file_def)
  show ?thesis
    using rollback_misses_copied_file [of demo_dorm demo_copied profile_data_default Inr
        "fst (load_settings (snd (load_profile ''dorm'' demo_copied)))" 10 "''disk full''" 12] demo_dorm_valid l
    unfolding id by (simp add: profile_data_default_def demo_copied_def demo_full_disk_def demo_config_def) blast
qed

section \<open>Switching\<close>

lemma modify_settings_cases:
  assumes "config_ok st"
  obtains e st' where "modify_settings f st = (Inl (ConfigIo e), st')" "settings_on_disk st' = settings_on_disk st"
      "profile_file st' = profile_file st" "published st' = published st" "config_ok st'" "cs_decrypt st' = cs_decrypt st"
  | st' where "modify_settings f st = (Inr (), st')" "settings_on_disk st' = Some (Inr (f (fst (load_settings st))))"
      "profile_file st' = profile_file st" "published st' = published st" "config_ok st'" "cs_decrypt st' = cs_decrypt st"
proof -
  obtain s0 st1 where l: "load_settings st = (s0, st1)" by (cases "load_settings st")
  obtain r st2 where m: "modify_settings f st = (r, st2)" by (cases "modify_settings f st")
  have frame: "profile_file st1 = profile_file st" "cs_settings_file st1 = cs_settings_file st"
    using disk_after_load(1,2) [of st] by (simp_all add: l)
  have "cs_decrypt (snd (load_settings st)) = cs_decrypt st"
    by (simp add: load_settings_def Let_def split: sum.split option.split)
  moreover have "cs_decrypt (snd (write_settings_locked v st1)) = cs_decrypt st1" for v
    by (simp add: write_settings_locked_def io_step_def split: sum.split)
  ultimately have dec: "cs_decrypt (snd (modify_settings f st)) = cs_decrypt st"
    by (simp add: modify_settings_def l)
  have keep: "config_ok st2" "published st2 = published st" "cs_decrypt st2 = cs_decrypt st"
    using keepsD [OF keeps_modify_settings assms, of f] quiet_modify_settings [of f] dec by (simp_all add: m quiet_def) (metis m snd_conv)+
  show thesis
  proof (rule write_settings_cases [of "f s0" st1])
    fix e st'
    assume w: "write_settings_locked (f s0) st1 = (Inl (ConfigIo e), st')" "cs_settings_file st' = cs_settings_file st1"
      "profile_file st' = profile_file st1"
    then have "r = Inl (ConfigIo e)" "st2 = st'" using m by (simp_all add: modify_settings_def l)
    with w frame keep m show thesis by (intro that(1) [of e st2]) (simp_all add: settings_on_disk_def)
  next
    fix st' t
    assume w: "write_settings_locked (f s0) st1 = (Inr (), st')" "cs_settings_file st' = Some (Inr (f s0), t)"
      "profile_file st' = profile_file st1"
    then have "r = Inr ()" "st2 = st'" using m by (simp_all add: modify_settings_def l)
    with w frame keep m l show thesis by (intro that(2) [of st2]) (simp_all add: settings_on_disk_def)
  qed
qed

lemma valid_id_no_tmp: "is_valid_profile_id pid \<Longrightarrow> \<not> starts_with pid TMP_PREFIX"
proof (cases pid)
  case (Cons c cs)
  assume "is_valid_profile_id pid"
  then have "is_ascii_alphanumeric c \<or> c = CHR ''_'' \<or> c = CHR ''-''"
    using Cons by (auto simp: is_valid_profile_id_def split: if_splits)
  then show ?thesis using Cons by (auto simp: TMP_PREFIX_def is_ascii_alphanumeric_def)
qed (simp add: is_valid_profile_id_def)

lemma stored_profile_listed:
  "is_valid_profile_id pid \<Longrightarrow> profile_on_disk st pid = Some (Inr p) \<Longrightarrow> p \<in> set (load_all_profiles st)"
  using valid_id_no_tmp [of pid]
  by (force simp: load_all_profiles_def map_filter_def profile_on_disk_def profile_file_def dest: map_of_SomeD)

text \<open>Switching to a stored profile either fails with the settings, the profiles and the published
  snapshot untouched, or the settings file names the profile, the published snapshot is built from
  exactly that profile and the rest of the settings, the version has grown by one and one
  \<open>ProfileSwitched\<close> signal is sent.\<close>

theorem switch_profile_effect:
  assumes "config_ok st" and "is_valid_profile_id pid" and "profile_on_disk st pid = Some (Inr p)"
  shows "case switch_profile pid st of
      (Inl _, st') \<Rightarrow> settings_on_disk st' = settings_on_disk st \<and> profile_on_disk st' = profile_on_disk st
          \<and> cs_runtime st' = cs_runtime st \<and> cs_version st' = cs_version st
    | (Inr _, st') \<Rightarrow> (let s = (fst (load_settings st))\<lparr>sd_active_profile_id := pid\<rparr> in
          settings_on_disk st' = Some (Inr s) \<and> profile_on_disk st' = profile_on_disk st
          \<and> cs_runtime st' = build_runtime_config (cs_decrypt st) s p \<and> sn_id (rc_profile (cs_runtime st')) = pid
          \<and> cs_version st' = cs_version st + 1 \<and> cs_signals st' = cs_signals st @ [ProfileSwitched pid])"
proof -
  let ?f = "\<lambda>s. s\<lparr>sd_active_profile_id := pid\<rparr>"
  have own: "pd_id p = pid" using assms(1,3) by (auto simp: config_ok_def own_ids_def profile_on_disk_def)
  have "list_ex (\<lambda>p. pd_id p = pid) (load_all_profiles st)"
    using stored_profile_listed [OF assms(2,3)] own by (auto simp: list_ex_iff)
  then have sw: "switch_profile pid st = then_op (modify_settings ?f) (\<lambda>_. reload_inner (ProfileSwitched pid)) st"
    using assms(2) by (simp add: switch_profile_def)
  show ?thesis
  proof (rule modify_settings_cases [OF assms(1), of ?f])
    fix e st'
    assume "modify_settings ?f st = (Inl (ConfigIo e), st')" "settings_on_disk st' = settings_on_disk st"
      "profile_file st' = profile_file st" "published st' = published st"
    then show ?thesis unfolding sw by (simp add: then_op_def profile_on_disk_def fun_eq_iff published_def)
  next
    fix st1
    assume m: "modify_settings ?f st = (Inr (), st1)" "settings_on_disk st1 = Some (Inr (?f (fst (load_settings st))))"
      "profile_file st1 = profile_file st" "published st1 = published st" "config_ok st1" "cs_decrypt st1 = cs_decrypt st"
    let ?s = "?f (fst (load_settings st))"
    from m(2) obtain t where fs: "cs_settings_file st1 = Some (Inr ?s, t)" by (auto simp: settings_on_disk_def)
    have rs: "reload_settings st1 = ?s" by (simp add: reload_settings_def fs read_settings_from_disk_def)
    obtain tp where pf: "profile_file st pid = Some (Inr p, tp)" using assms(3) by (auto simp: profile_on_disk_def)
    have rp: "reload_profile st1 = p"
      using assms(2) by (simp add: reload_profile_def rs Let_def m(3) pf read_profile_file_def)
    obtain st2 where r: "reload_inner (ProfileSwitched pid) st1 = (Inr (), st2)"
      "cs_runtime st2 = build_runtime_config (cs_decrypt st1) ?s p" "cs_version st2 = cs_version st1 + 1"
      "cs_signals st2 = cs_signals st1 @ [ProfileSwitched pid]"
      "cs_settings_file st2 = cs_settings_file st1" "cs_profiles_dir st2 = cs_profiles_dir st1"
      using reload_inner_ok [OF m(5), of "ProfileSwitched pid"] unfolding rs rp by blast
    have "profile_on_disk st2 = profile_on_disk st"
      using m(3) r(6) by (auto simp: profile_on_disk_def profile_file_def fun_eq_iff)
    then show ?thesis unfolding sw using m(4) r own
      by (simp add: then_op_def m(1,6) settings_on_disk_def fs published_def Let_def)
  qed
qed

theorem switch_profile_effect_witness:
  "case switch_profile ''dorm'' demo_config of
     (Inr _, st') \<Rightarrow> sn_id (rc_profile (cs_runtime st')) = ''dorm'' | (Inl _, st') \<Rightarrow> cs_version st' = 0"
proof -
  obtain p where p: "profile_on_disk demo_config ''dorm'' = Some (Inr p)"
    using demo_dorm_disk by (auto simp: demo_dorm_def)
  show ?thesis
    using switch_profile_effect [OF demo_config_ok demo_dorm_valid p]
    by (auto simp: Let_def demo_config_def split: prod.splits sum.splits)
qed

section \<open>Deleting\<close>

text \<open>Deleting a stored profile other than the default: on failure the profile is still there; on
  success its file is gone, no other profile changed, the settings no longer name it, and the
  published snapshot does not carry it (its credentials are not used any more).\<close>

theorem delete_profile_effect:
  assumes "config_ok st" and "is_valid_profile_id pid" and "pid \<noteq> ''default''"
    and "profile_file st pid = Some entry"
  shows "case delete_profile pid st of
      (Inl _, st') \<Rightarrow> profile_file st' = profile_file st
    | (Inr _, st') \<Rightarrow> profile_file st' = (profile_file st)(pid := None)
        \<and> sd_active_profile_id (fst (load_settings st')) =
            (if sd_active_profile_id (fst (load_settings st)) = pid then ''default''
             else sd_active_profile_id (fst (load_settings st)))
        \<and> sn_id (rc_profile (cs_runtime st')) \<noteq> pid"
proof -
  obtain s0 st1 where l: "load_settings st = (s0, st1)" by (cases "load_settings st")
  have 1: "config_ok st1" "profile_file st1 = profile_file st" "cs_settings_file st1 = cs_settings_file st"
    using load_settings_ok' [OF assms(1) l] disk_after_load(1,2) [of st] by (simp_all add: l)
  have s1: "fst (load_settings st1) = s0"
  proof -
    have "cs_settings_cache st1 = cs_settings_cache st \<or> (\<exists>s. read_settings_from_disk (cs_settings_file st) = Inr s)"
      using arg_cong [OF l, of snd] by (auto simp: load_settings_def Let_def split: option.splits sum.splits if_splits)
    moreover have "settings_on_disk st1 = settings_on_disk st" by (simp add: settings_on_disk_def 1)
    ultimately show ?thesis
      using load_settings_value [OF 1(1)] load_settings_value [OF assms(1)]
      by (auto simp: l settings_on_disk_def read_settings_from_disk_def split: option.splits sum.splits)
  qed
  define b where "b = (sd_active_profile_id s0 = pid)"
  define g where "g = (if b then modify_settings (\<lambda>s. s\<lparr>sd_active_profile_id := ''default''\<rparr>) else (\<lambda>s. (Inr (), s)))"
  obtain r st2 where g: "g st1 = (r, st2)" by (cases "g st1")
  have 2: "config_ok st2 \<and> profile_file st2 = profile_file st \<and>
      (r = Inr () \<longrightarrow> sd_active_profile_id (fst (load_settings st2)) = (if b then ''default'' else sd_active_profile_id s0))"
  proof (cases b)
    case False
    then show ?thesis using g 1 s1 by (simp add: g_def)
  next
    case True
    show ?thesis
    proof (rule modify_settings_cases [OF 1(1), of "\<lambda>s. s\<lparr>sd_active_profile_id := ''default''\<rparr>"])
      fix e st'
      assume "modify_settings (\<lambda>s. s\<lparr>sd_active_profile_id := ''default''\<rparr>) st1 = (Inl (ConfigIo e), st')"
        "profile_file st' = profile_file st1" "config_ok st'"
      then show ?thesis using g True 1 by (auto simp: g_def)
    next
      fix st'
      assume "modify_settings (\<lambda>s. s\<lparr>sd_active_profile_id := ''default''\<rparr>) st1 = (Inr (), st')"
        "settings_on_disk st' = Some (Inr ((fst (load_settings st1))\<lparr>sd_active_profile_id := ''default''\<rparr>))"
        "profile_file st' = profile_file st1" "config_ok st'"
      then show ?thesis using g True 1 load_settings_value [of st'] by (simp add: g_def)
    qed
  qed
  have d: "delete_profile pid st = then_op g (\<lambda>_ st2.
            case io_step st2 of
              (Inl e, st3) \<Rightarrow> (Inl (ConfigIo e), st3)
            | (Inr _, st3) \<Rightarrow>
                (case io_step st3 of
                   (Inl e, st4) \<Rightarrow> (Inl (ConfigIo e), st4)
                 | (Inr _, st4) \<Rightarrow>
                     (Inr (), reload_best_effort GlobalChanged
                        (st4\<lparr>cs_profiles_dir := AList.delete pid (cs_profiles_dir st4),
                             cs_trash := cs_trash st4 @ [(pid, entry)],
                             cs_profile_cache := (cs_profile_cache st4)(pid := None)\<rparr>)))) st1"
    using assms(2-4) by (simp add: delete_profile_def l g_def b_def)
  show ?thesis
  proof (cases r)
    case (Inl e)
    then show ?thesis unfolding d by (simp add: then_op_def g 2)
  next
    case (Inr u)
    define st4 where "st4 = st2\<lparr>cs_ios := cs_ios st2 + 2, cs_profiles_dir := AList.delete pid (cs_profiles_dir st2),
        cs_trash := cs_trash st2 @ [(pid, entry)], cs_profile_cache := (cs_profile_cache st2)(pid := None)\<rparr>"
    have f4: "profile_file st4 = (profile_file st)(pid := None)"
      using 2 by (auto simp: st4_def profile_file_def delete_conv' fun_eq_iff)
    have ok4: "config_ok st4"
      using 2 delete_files_ok [of "st2\<lparr>cs_ios := cs_ios st2 + 2\<rparr>" pid "cs_trash st2 @ [(pid, entry)]"] assms(3)
      by (simp add: st4_def)
    have l4: "fst (load_settings st4) = fst (load_settings st2)"
      by (simp add: load_settings_def Let_def st4_def split: option.split sum.split)
    obtain st5 where r5: "reload_inner GlobalChanged st4 = (Inr (), st5)"
      "cs_runtime st5 = build_runtime_config (cs_decrypt st4) (reload_settings st4) (reload_profile st4)"
      using reload_inner_ok [OF ok4] by blast
    have be: "reload_best_effort GlobalChanged st4 = st5" by (simp add: reload_best_effort_def r5)
    have ok5: "config_ok st5" using reload_best_effort_ok [OF ok4] by (simp add: be flip: be)
    have d5: "profile_file st5 = profile_file st4" "cs_settings_file st5 = cs_settings_file st4"
      by (simp_all flip: be)
    have s5: "fst (load_settings st5) = fst (load_settings st4)"
    proof -
      have "cs_settings_cache st5 = cs_settings_cache st4 \<or> (\<exists>s. read_settings_from_disk (cs_settings_file st4) = Inr s)"
        using arg_cong [OF r5(1), of snd]
        by (cases "read_settings_from_disk (cs_settings_file st4)")
           (auto simp: reload_inner_def then_op_def build_and_swap_runtime_def Let_def split: option.splits sum.splits)
      moreover have "settings_on_disk st5 = settings_on_disk st4" by (simp add: settings_on_disk_def d5)
      ultimately show ?thesis
        using load_settings_value [OF ok5] load_settings_value [OF ok4]
        by (auto simp: settings_on_disk_def read_settings_from_disk_def split: option.splits sum.splits)
    qed
    have own4: "own_ids st4" using ok4 by (simp add: config_ok_def)
    have "pd_id (reload_profile st4) \<noteq> pid"
    proof -
      define aid where "aid = (if is_valid_profile_id (sd_active_profile_id (reload_settings st4))
         then sd_active_profile_id (reload_settings st4) else ''default'')"
      show ?thesis
      proof (cases "read_profile_file aid (profile_file st4 aid)")
        case (Inr q)
        then obtain t where q: "profile_file st4 aid = Some (Inr q, t)" by (auto simp: read_profile_Inr)
        with own4 have "pd_id q = aid" by (auto simp: own_ids_def)
        moreover have "aid \<noteq> pid" using q f4 by auto
        ultimately show ?thesis using Inr by (simp add: reload_profile_def Let_def aid_def)
      next
        case (Inl e)
        obtain q t where q: "profile_file st4 ''default'' = Some (Inr q, t)"
          using ok4 by (auto simp: config_ok_def default_there_def)
        with own4 have "pd_id q = ''default''" by (auto simp: own_ids_def)
        then show ?thesis using Inl q assms(3) by (simp add: reload_profile_def Let_def aid_def)
      qed
    qed
    then have rt: "sn_id (rc_profile (cs_runtime st5)) \<noteq> pid" by (simp add: r5)
    have "delete_profile pid st = (case io_step st2 of
              (Inl e, st3) \<Rightarrow> (Inl (ConfigIo e), st3)
            | (Inr _, st3) \<Rightarrow> (case io_step st3 of
                   (Inl e, st4) \<Rightarrow> (Inl (ConfigIo e), st4) | (Inr _, _) \<Rightarrow> (Inr (), st5)))"
      using be unfolding d st4_def by (simp add: then_op_def g Inr io_step_def split: sum.split)
    then show ?thesis using 2 f4 d5 s5 l4 rt Inr
      by (auto simp: io_step_def b_def l split: sum.split)
  qed
qed

theorem delete_profile_effect_witness:
  "case delete_profile ''dorm'' demo_config of
     (Inr _, st') \<Rightarrow> profile_file st' ''dorm'' = None | (Inl _, st') \<Rightarrow> profile_file st' = profile_file demo_config"
proof -
  obtain entry where "profile_file demo_config ''dorm'' = Some entry"
    by (simp add: demo_config_def profile_file_def)
  from delete_profile_effect [OF demo_config_ok demo_dorm_valid _ this] show ?thesis
    by (auto split: prod.splits sum.splits)
qed

section \<open>Matching a profile to the network\<close>

lemma candidates_set:
  "set (candidates g s ps) = {Candidate k (pd_id p) | p k. p \<in> set ps \<and> match_strength g s p = Some k}"
  by (auto simp: candidates_def map_filter_def image_iff) (force simp: image_iff)

lemma detect_Some_iff:
  "detect_matching_profile st g s = Some pid \<longleftrightarrow>
     (\<exists>k. Candidate k pid \<in> set (candidates g s (load_all_profiles st))
        \<and> (\<forall>c\<in>set (candidates g s (load_all_profiles st)). Candidate k pid \<le> c))"
proof (cases "sort (candidates g s (load_all_profiles st))")
  case Nil
  then have "candidates g s (load_all_profiles st) = []" by (metis length_0_conv length_sort)
  then show ?thesis by (simp add: detect_matching_profile_def)
next
  case (Cons c cs)
  let ?cs = "candidates g s (load_all_profiles st)"
  have set: "set ?cs = set (c # cs)" using arg_cong [OF Cons, of set] by simp
  have min: "\<forall>x\<in>set ?cs. c \<le> x"
    using sorted_sort [of ?cs] unfolding Cons set by simp
  obtain k q where c: "c = Candidate k q" by (cases c)
  show ?thesis
  proof
    assume "detect_matching_profile st g s = Some pid"
    then show "\<exists>k. Candidate k pid \<in> set ?cs \<and> (\<forall>c\<in>set ?cs. Candidate k pid \<le> c)"
      using min set by (auto simp: detect_matching_profile_def Cons c simp del: less_eq_candidate_simps)
  next
    assume "\<exists>k. Candidate k pid \<in> set ?cs \<and> (\<forall>c\<in>set ?cs. Candidate k pid \<le> c)"
    then obtain k' where "Candidate k' pid \<in> set ?cs" "Candidate k' pid \<le> c" using set by auto
    with min have "Candidate k' pid = c" by (meson order.antisym)
    then show "detect_matching_profile st g s = Some pid" by (simp add: detect_matching_profile_def Cons c)
  qed
qed

text \<open>The automatic match is a function of the set of stored profiles, not of the order in which
  the directory lists them, and it is the best one: it meets every condition it sets (and sets at
  least one), no other match sets more conditions, and among equally specific ones its id is the
  smallest in byte order; there is none exactly if no profile matches.\<close>

theorem detect_best_match:
  "(set (load_all_profiles st) = set (load_all_profiles st')
      \<longrightarrow> detect_matching_profile st g s = detect_matching_profile st' g s)
   \<and> (case detect_matching_profile st g s of
        None \<Rightarrow> \<forall>p\<in>set (load_all_profiles st). match_strength g s p = None
      | Some pid \<Rightarrow> \<exists>p\<in>set (load_all_profiles st). \<exists>k. pd_id p = pid \<and> match_strength g s p = Some k
          \<and> (\<forall>q\<in>set (load_all_profiles st). \<forall>l. match_strength g s q = Some l \<longrightarrow>
               l < k \<or> l = k \<and> bytes_le pid (pd_id q)))"
proof (intro conjI impI)
  assume "set (load_all_profiles st) = set (load_all_profiles st')"
  then have "set (candidates g s (load_all_profiles st)) = set (candidates g s (load_all_profiles st'))"
    by (simp add: candidates_set)
  then have "detect_matching_profile st g s = Some pid \<longleftrightarrow> detect_matching_profile st' g s = Some pid" for pid
    by (simp add: detect_Some_iff)
  then show "detect_matching_profile st g s = detect_matching_profile st' g s"
    by (metis not_Some_eq)
next
  show "case detect_matching_profile st g s of
        None \<Rightarrow> \<forall>p\<in>set (load_all_profiles st). match_strength g s p = None
      | Some pid \<Rightarrow> \<exists>p\<in>set (load_all_profiles st). \<exists>k. pd_id p = pid \<and> match_strength g s p = Some k
          \<and> (\<forall>q\<in>set (load_all_profiles st). \<forall>l. match_strength g s q = Some l \<longrightarrow>
               l < k \<or> l = k \<and> bytes_le pid (pd_id q))"
  proof (cases "detect_matching_profile st g s")
    case None
    have "sort (candidates g s (load_all_profiles st)) = []"
    proof (cases "sort (candidates g s (load_all_profiles st))")
      case (Cons c cs)
      with None show ?thesis by (cases c) (simp add: detect_matching_profile_def)
    qed simp
    then have "candidates g s (load_all_profiles st) = []" by (metis length_0_conv length_sort)
    then have none: "c \<notin> set (candidates g s (load_all_profiles st))" for c
      by simp
    have "match_strength g s p = None" if "p \<in> set (load_all_profiles st)" for p
    proof (cases "match_strength g s p")
      case (Some k)
      with that have "Candidate k (pd_id p) \<in> set (candidates g s (load_all_profiles st))"
        by (auto simp: candidates_set)
      with none show ?thesis by blast
    qed
    then show ?thesis by (simp add: None)
  next
    case (Some pid)
    then obtain k where k: "Candidate k pid \<in> set (candidates g s (load_all_profiles st))"
      "\<forall>c\<in>set (candidates g s (load_all_profiles st)). Candidate k pid \<le> c"
      by (auto simp: detect_Some_iff)
    from k(1) obtain p where p: "p \<in> set (load_all_profiles st)" "pd_id p = pid" "match_strength g s p = Some k"
      by (auto simp: candidates_set)
    have "l < k \<or> l = k \<and> bytes_le pid (pd_id q)"
      if "q \<in> set (load_all_profiles st)" "match_strength g s q = Some l" for q l
    proof -
      have "Candidate l (pd_id q) \<in> set (candidates g s (load_all_profiles st))"
        using that by (auto simp: candidates_set)
      with k(2) have "Candidate k pid \<le> Candidate l (pd_id q)" by blast
      then show ?thesis by auto
    qed
    with p show ?thesis by (auto simp: Some)
  qed
qed

text \<open>The same profiles, listed in the other order.\<close>

definition demo_relisted :: config_service where
  "demo_relisted = demo_config\<lparr>cs_profiles_dir := rev (cs_profiles_dir demo_config)\<rparr>"

theorem detect_best_match_witness:
  "detect_matching_profile demo_config ''10.0.0.1'' ''Campus'' = Some ''dorm''
   \<and> detect_matching_profile demo_relisted ''10.0.0.1'' ''Campus'' = Some ''dorm''"
proof -
  have ps: "load_all_profiles demo_config = [profile_data_default, profile_data_default\<lparr>pd_id := ''dorm'', pd_wifi_ssid := ''Campus''\<rparr>]"
    by (simp add: load_all_profiles_def demo_config_def TMP_PREFIX_def)
  have qs: "load_all_profiles demo_relisted = rev (load_all_profiles demo_config)"
    by (simp add: ps load_all_profiles_def demo_relisted_def demo_config_def TMP_PREFIX_def)
  have "detect_matching_profile demo_config ''10.0.0.1'' ''Campus'' = Some ''dorm''"
    by (simp add: detect_matching_profile_def ps candidates_def match_strength_def profile_data_default_def)
  moreover have "detect_matching_profile demo_config ''10.0.0.1'' ''Campus''
      = detect_matching_profile demo_relisted ''10.0.0.1'' ''Campus''"
    using detect_best_match [of demo_config demo_relisted "''10.0.0.1''" "''Campus''"] qs by simp
  ultimately show ?thesis by simp
qed

section \<open>Passwords\<close>

text \<open>What is stored for a password is never the text the user typed: provided encryption gives a
  text marked \<open>ENC:\<close>, the result is the ciphertext already stored, or a text with that mark which
  either decrypts or was just encrypted; an absent or empty input keeps what is stored.\<close>

theorem save_password_ciphertext:
  assumes "\<And>t c. cs_encrypt st t = Inr c \<Longrightarrow> starts_with c ''ENC:''"
  shows "(save_password st raw existing = existing \<or>
      starts_with (save_password st raw existing) ''ENC:'' \<and>
      (cs_can_decrypt st (save_password st raw existing) \<or>
       (\<exists>t. raw = Some t \<and> cs_encrypt st t = Inr (save_password st raw existing))))
    \<and> (raw = None \<or> raw = Some [] \<longrightarrow> save_password st raw existing = existing)"
  using assms by (auto simp: save_password_def split: option.splits sum.splits)

theorem save_password_ciphertext_witness:
  "save_password demo_config (Some ''secret'') ''ENC:old'' = ''ENC:secret''
   \<and> starts_with (save_password demo_config (Some ''secret'') ''ENC:old'') ''ENC:''"
proof -
  have e: "cs_encrypt demo_config t = Inr c \<Longrightarrow> starts_with c ''ENC:''" for t c
    by (auto simp: demo_config_def)
  have v: "save_password demo_config (Some ''secret'') ''ENC:old'' = ''ENC:secret''"
    by (simp add: save_password_def demo_config_def)
  show ?thesis using save_password_ciphertext [of demo_config "Some ''secret''" "''ENC:old''", OF e] v by auto
qed

end
