(* ===== verification/Login_Session.thy ===== *)
theory Login_Session
  imports Login_Types Monitor_Service "HOL-Library.AList"
begin

text \<open>
  One login session (\<open>login/session.rs\<close>): the loop of attempts with its deadline, the
  classification of an attempt, the verification of the network after a success, the retries with
  their backoff, and the terminal result with everything it leaves behind.

  A session runs in its own task. Its surroundings are a record of functions: at which instant its
  cancellation token and the shutdown token fire, what the worker, the direct request, the script
  and the network check answer and after how long. A \<open>select!\<close> with \<open>biased\<close> takes the branch
  that is ready first, the earlier branch at a tie. Log lines are left out, and message texts are
  short English ones.
\<close>

section \<open>JSON values\<close>

text \<open>\<open>serde_json::Value\<close>; a number is kept as it is written.\<close>

datatype json = JNull | JBool bool | JNumber string | JString string | JArray "json list"
  | JObject "(string \<times> json) list"

fun json_get :: "string \<Rightarrow> json \<Rightarrow> json option" where
  "json_get k (JObject kvs) = map_of kvs k"
| "json_get k _ = None"

fun as_str :: "json \<Rightarrow> string option" where
  "as_str (JString s) = Some s"
| "as_str _ = None"

fun as_array :: "json \<Rightarrow> json list option" where
  "as_array (JArray vs) = Some vs"
| "as_array _ = None"

fun as_bool :: "json \<Rightarrow> bool option" where
  "as_bool (JBool v) = Some v"
| "as_bool _ = None"

fun as_u64 :: "json \<Rightarrow> u64 option" where
  "as_u64 (JNumber s) = map_option of_nat (parse_u64 s)"
| "as_u64 _ = None"

section \<open>What the worker answers\<close>

record structured_result =
  sr_outcome :: outcome
  sr_message :: string
  sr_data :: json
  sr_screenshot_url :: "string option"
  sr_duration_ms :: u64

record ipc_response =
  ir_id :: u64
  ir_success :: bool
  ir_data :: json
  ir_error :: "string option"

datatype bridge_error =
    BridgeNetworkEgress string | WorkerNotInstalled | WorkerStartupTimeout | WorkerCrashed string
  | WorkerBusy | IpcWriteError string | IpcReadError string | ExecutionError string "json option"
  | BridgeTimeout | BridgeCancelled | DebugSessionClosed | SupervisorNotRunning | SpawnFailed string
  | BridgeInternal string | WorkerSpawnBlocked | WorkerEnvironmentInvalid string

fun bridge_error_text :: "bridge_error \<Rightarrow> string" where
  "bridge_error_text (BridgeNetworkEgress r) = ''egress not available: '' @ r"
| "bridge_error_text WorkerNotInstalled = ''worker not installed''"
| "bridge_error_text WorkerStartupTimeout = ''worker startup timeout''"
| "bridge_error_text (WorkerCrashed r) = ''worker crashed: '' @ r"
| "bridge_error_text WorkerBusy = ''worker busy''"
| "bridge_error_text (IpcWriteError r) = ''IPC write failed: '' @ r"
| "bridge_error_text (IpcReadError r) = ''IPC read failed: '' @ r"
| "bridge_error_text (ExecutionError m d) = ''worker execution error: '' @ m"
| "bridge_error_text BridgeTimeout = ''request timed out''"
| "bridge_error_text BridgeCancelled = ''request cancelled''"
| "bridge_error_text DebugSessionClosed = ''debug session closed''"
| "bridge_error_text SupervisorNotRunning = ''supervisor not running''"
| "bridge_error_text (SpawnFailed r) = ''worker spawn failed: '' @ r"
| "bridge_error_text (BridgeInternal r) = ''bridge internal error: '' @ r"
| "bridge_error_text WorkerSpawnBlocked = ''worker spawn blocked''"
| "bridge_error_text (WorkerEnvironmentInvalid r) = ''worker environment invalid: '' @ r"

definition dialog_note :: "json \<Rightarrow> string" where
  "dialog_note data =
     (let msgs = (case json_get ''dialogs'' data of
                    Some v \<Rightarrow> (case as_array v of Some vs \<Rightarrow> List.map_filter as_str vs | None \<Rightarrow> [])
                  | None \<Rightarrow> [])
      in if msgs = [] then [] else ''; page: '' @ str_join '' / '' msgs)"

text \<open>\<open>parse\<close> is the deserialiser of \<open>StructuredResult\<close>.\<close>

definition bare_result :: "outcome \<Rightarrow> string \<Rightarrow> structured_result" where
  "bare_result out message =
     \<lparr>sr_outcome = out, sr_message = message, sr_data = JNull, sr_screenshot_url = None, sr_duration_ms = 0\<rparr>"

definition parse_ipc_response :: "(json \<Rightarrow> string + structured_result) \<Rightarrow> ipc_response \<Rightarrow> structured_result" where
  "parse_ipc_response parse resp =
     (if ir_success resp
      then (case parse (ir_data resp) of
              Inr s \<Rightarrow> s
            | Inl e \<Rightarrow> bare_result UnknownError (''cannot parse the result: '' @ e))
      else bare_result UnknownError (case ir_error resp of Some e \<Rightarrow> e | None \<Rightarrow> ''worker failed''))"

definition browser_result ::
  "(json \<Rightarrow> string + structured_result) \<Rightarrow> bridge_error + ipc_response \<Rightarrow> string + structured_result"
where
  "browser_result parse r =
     (case r of
        Inr resp \<Rightarrow> Inr (parse_ipc_response parse resp)
      | Inl e \<Rightarrow>
          (case e of
             WorkerCrashed _ \<Rightarrow> Inr (bare_result NetworkError (''worker failed: '' @ bridge_error_text e))
           | WorkerStartupTimeout \<Rightarrow> Inr (bare_result NetworkError (''worker failed: '' @ bridge_error_text e))
           | BridgeNetworkEgress _ \<Rightarrow> Inr (bare_result NetworkError (''worker failed: '' @ bridge_error_text e))
           | WorkerBusy \<Rightarrow> Inr (bare_result NetworkError (''worker busy: '' @ bridge_error_text e))
           | _ \<Rightarrow> Inl (''bridge execution failed: '' @ bridge_error_text e)))"

section \<open>The plan of a session\<close>

text \<open>A browser plan carries the JSON object sent to the worker. What the requests of the other
  two channels hold belongs to \<open>login/http_login.rs\<close> and \<open>login/script_login.rs\<close>.\<close>

datatype login_attempt_plan = BrowserPlan "(string \<times> json) list" | HttpPlan | ScriptPlan

fun plan_channel :: "login_attempt_plan \<Rightarrow> login_channel" where
  "plan_channel (BrowserPlan _) = ChBrowser"
| "plan_channel HttpPlan = ChHttp"
| "plan_channel ScriptPlan = ChScript"

fun uses_bridge :: "login_attempt_plan \<Rightarrow> bool" where
  "uses_bridge (BrowserPlan _) = True"
| "uses_bridge _ = False"

fun has_explicit_success_condition :: "login_attempt_plan \<Rightarrow> bool" where
  "has_explicit_success_condition (BrowserPlan config) =
     (case Option.bind (json_get ''task_config'' (JObject config))
             (\<lambda>t. Option.bind (json_get ''success_condition'' t) as_str) of
        Some s \<Rightarrow> trim s \<noteq> []
      | None \<Rightarrow> False)"
| "has_explicit_success_condition _ = False"

record session_params =
  sp_source :: login_source
  sp_task_id :: "string option"
  sp_max_retries :: u32
  sp_retry_interval :: duration
  sp_login_timeout :: duration
  sp_profile_id :: string
  sp_network :: network_settings
  sp_plan :: login_attempt_plan

section \<open>The session and its surroundings\<close>

datatype history_result = HSuccess | HFailed | HCancelled

record login_history_entry =
  he_timestamp :: wall
  he_source :: login_source
  he_channel :: "login_channel option"
  he_profile_id :: string
  he_result :: history_result
  he_message :: string
  he_duration :: duration

text \<open>The calls a session makes, in order: on the bridge, and the direct request or script.\<close>

datatype session_call =
    Execute string "(string \<times> json) list" | RunOnce login_channel | CancelAttempt string
  | ForceRecycleIfUnowned "string option" | CloseBrowser bool

record session_env =
  se_cancel_at :: "instant option"
  se_shutdown_at :: "instant option"
  se_cancel_reason :: "instant \<Rightarrow> string option"
  se_wall :: "instant \<Rightarrow> wall"
  se_uuid :: "u32 \<Rightarrow> string"
  se_execute :: "string \<Rightarrow> (string \<times> json) list \<Rightarrow> instant \<Rightarrow> (duration \<times> (bridge_error + ipc_response)) option"
  se_run_once :: "login_channel \<Rightarrow> instant \<Rightarrow> (duration \<times> structured_result) option"
  se_parse :: "json \<Rightarrow> string + structured_result"
  se_post_login_delay :: "instant \<Rightarrow> u32"
  se_verify :: "network_settings \<Rightarrow> instant \<Rightarrow> (duration \<times> (string + probe_report)) option"
  se_recycle :: "string option \<Rightarrow> instant \<Rightarrow> duration \<times> bool"
  se_record :: "instant \<Rightarrow> bool"
  se_has_live_worker :: "instant \<Rightarrow> bool"
  se_keep_alive :: "instant \<Rightarrow> bool"

text \<open>\<open>ls_results\<close> are the values written to the result slot. The status board, the counters and
  the history are shared with the other components; a session only adds to them.\<close>

record login_session =
  ls_params :: session_params
  ls_last_outcome :: "outcome option"
  ls_attempts_used :: u32
  ls_start :: instant
  ls_now :: instant
  ls_attempt_cancel_id :: "string option"
  ls_cancel_reason :: "string option"
  ls_results :: "login_result list"
  ls_status :: status_snapshot
  ls_metrics :: "metrics option"
  ls_history :: "login_history_entry list"
  ls_calls :: "(instant \<times> session_call) list"

definition login_session_new ::
  "session_params \<Rightarrow> instant \<Rightarrow> status_snapshot \<Rightarrow> metrics option \<Rightarrow> login_history_entry list \<Rightarrow> login_session"
where
  "login_session_new params now status ms history =
     \<lparr>ls_params = params, ls_last_outcome = None, ls_attempts_used = 0, ls_start = now, ls_now = now,
      ls_attempt_cancel_id = None, ls_cancel_reason = None, ls_results = [], ls_status = status,
      ls_metrics = ms, ls_history = history, ls_calls = []\<rparr>"

definition elapsed :: "login_session \<Rightarrow> duration" where
  "elapsed s = ls_now s - ls_start s"

definition fired :: "instant option \<Rightarrow> instant \<Rightarrow> bool" where
  "fired at now = (case at of Some t \<Rightarrow> t \<le> now | None \<Rightarrow> False)"

text \<open>\<open>login_timeout.max(1 s)\<close>\<close>

definition session_budget :: "login_session \<Rightarrow> duration" where
  "session_budget s = max (sp_login_timeout (ls_params s)) (from_secs 1)"

fun select_biased :: "instant \<Rightarrow> (instant \<times> 'a) list \<Rightarrow> (instant \<times> 'a) option" where
  "select_biased now [] = None"
| "select_biased now ((t, a) # bs) =
     (case select_biased now bs of
        None \<Rightarrow> Some (max now t, a)
      | Some (u, b) \<Rightarrow> if max now t \<le> u then Some (max now t, a) else Some (u, b))"

text \<open>A branch that may never become ready.\<close>

definition branch :: "instant option \<Rightarrow> 'a \<Rightarrow> (instant \<times> 'a) list" where
  "branch at a = (case at of None \<Rightarrow> [] | Some t \<Rightarrow> [(t, a)])"

definition call_on :: "session_call \<Rightarrow> login_session \<Rightarrow> login_session" where
  "call_on c s = s\<lparr>ls_calls := ls_calls s @ [(ls_now s, c)]\<rparr>"

definition merge_login :: "session_env \<Rightarrow> login_status \<Rightarrow> login_source option \<Rightarrow> string \<Rightarrow> u32 \<Rightarrow> login_session \<Rightarrow> login_session" where
  "merge_login env status source message retry_count s =
     s\<lparr>ls_status := merge (se_wall env (ls_now s), PLogin status source (Some message) retry_count) (ls_status s)\<rparr>"

section \<open>Terminal results\<close>

definition make_result :: "login_terminal \<Rightarrow> string \<Rightarrow> login_session \<Rightarrow> login_result" where
  "make_result terminal message s =
     \<lparr>lr_network_retryable =
        (terminal = Failed \<and> ls_last_outcome s \<in> {Some NetworkError, Some NavigationTimeout}),
      lr_terminal = terminal, lr_message = message, lr_source = sp_source (ls_params s),
      lr_duration = elapsed s, lr_attempts = ls_attempts_used s + 1\<rparr>"

definition make_cancelled_result :: "session_env \<Rightarrow> login_session \<Rightarrow> login_result" where
  "make_cancelled_result env s =
     (let reason = (case ls_cancel_reason s of Some r \<Rightarrow> Some r | None \<Rightarrow> se_cancel_reason env (ls_now s))
      in \<lparr>lr_network_retryable = False, lr_terminal = Cancelled,
          lr_message = (case reason of Some r \<Rightarrow> r | None \<Rightarrow> ''cancelled''),
          lr_source = sp_source (ls_params s), lr_duration = elapsed s, lr_attempts = ls_attempts_used s + 1\<rparr>)"

fun history_of :: "login_terminal \<Rightarrow> history_result" where
  "history_of Success = HSuccess"
| "history_of Failed = HFailed"
| "history_of Cancelled = HCancelled"

fun count_terminal :: "history_result \<Rightarrow> metrics \<Rightarrow> metrics" where
  "count_terminal HSuccess = inc_login_success"
| "count_terminal HFailed = inc_login_failure"
| "count_terminal HCancelled = inc_login_cancel"

fun terminal_status :: "history_result \<Rightarrow> string \<Rightarrow> login_status \<times> string" where
  "terminal_status HSuccess message = (LoginSuccess, ''login succeeded'')"
| "terminal_status HCancelled message = (LoginCancelled, message)"
| "terminal_status HFailed message = (LoginFailed, message)"

definition history_entry :: "session_env \<Rightarrow> login_result \<Rightarrow> login_session \<Rightarrow> login_history_entry" where
  "history_entry env r s =
     \<lparr>he_timestamp = se_wall env (ls_now s), he_source = lr_source r,
      he_channel = Some (plan_channel (sp_plan (ls_params s))), he_profile_id = sp_profile_id (ls_params s),
      he_result = history_of (lr_terminal r), he_message = lr_message r, he_duration = lr_duration r\<rparr>"

definition close_browser :: "session_env \<Rightarrow> login_result \<Rightarrow> login_session \<Rightarrow> login_session" where
  "close_browser env r s =
     (if uses_bridge (sp_plan (ls_params s)) \<and> se_has_live_worker env (ls_now s)
      then call_on (CloseBrowser (lr_terminal r = Success \<and> se_keep_alive env (ls_now s))) s
      else s)"

definition emit :: "session_env \<Rightarrow> login_result \<Rightarrow> login_session \<Rightarrow> login_session" where
  "emit env r s =
     (let s1 = s\<lparr>ls_results := ls_results s @ [r]\<rparr>;
          h = history_of (lr_terminal r);
          s2 = s1\<lparr>ls_metrics := map_option (count_terminal h) (ls_metrics s1)\<rparr>;
          s3 = (case terminal_status h (lr_message r) of
                  (status, msg) \<Rightarrow> merge_login env status None msg (sat_sub (lr_attempts r) 1) s2);
          s4 = (if se_record env (ls_now s3)
                then s3\<lparr>ls_history := ls_history s3 @ [history_entry env r s3]\<rparr> else s3)
      in close_browser env r s4)"

definition finish_with_cancelled :: "session_env \<Rightarrow> string option \<Rightarrow> login_session \<Rightarrow> login_session" where
  "finish_with_cancelled env reason s =
     (let s1 = (case reason of Some r \<Rightarrow> s\<lparr>ls_cancel_reason := Some r\<rparr> | None \<Rightarrow> s)
      in emit env (make_cancelled_result env s1) s1)"

definition finish_with_failure :: "session_env \<Rightarrow> string \<Rightarrow> login_session \<Rightarrow> login_session" where
  "finish_with_failure env message s = emit env (make_result Failed message s) s"

section \<open>The verification after a login\<close>

datatype network_verification = VerifyOnline | VerifyRetryable | VerifyCancelled

datatype verify_event = VerCancel | VerShutdown | VerTimeout | VerReport "string + probe_report"

definition verify_network_after_login ::
  "session_env \<Rightarrow> duration \<Rightarrow> login_session \<Rightarrow> network_verification \<times> login_session"
where
  "verify_network_after_login env remaining s =
     (if remaining = 0 then (VerifyRetryable, s)
      else
        let now = ls_now s;
            checked_at = now + from_secs (unat (min (se_post_login_delay env now) 60));
            report = map_option (\<lambda>(d, r). (checked_at + d, VerReport r))
                       (se_verify env (sp_network (ls_params s)) checked_at)
        in case select_biased now
                  (branch (se_cancel_at env) VerCancel @ branch (se_shutdown_at env) VerShutdown
                   @ (case report of Some b \<Rightarrow> [b] | None \<Rightarrow> []) @ [(now + remaining, VerTimeout)]) of
             None \<Rightarrow> (VerifyRetryable, s)
           | Some (at, ev) \<Rightarrow>
               let s' = s\<lparr>ls_now := at\<rparr>
               in (case ev of
                     VerCancel \<Rightarrow> (VerifyCancelled, s')
                   | VerShutdown \<Rightarrow> (VerifyCancelled, s'\<lparr>ls_cancel_reason := Some ''application shutdown''\<rparr>)
                   | VerTimeout \<Rightarrow> (VerifyRetryable, s')
                   | VerReport (Inr report) \<Rightarrow>
                       (if ca_status (pr_assessment report) = Online then VerifyOnline else VerifyRetryable, s')
                   | VerReport (Inl _) \<Rightarrow> (VerifyRetryable, s')))"

section \<open>Retries\<close>

datatype retry_event = RetryCancel | RetryShutdown | RetrySlept

definition exhausted_message :: "login_session \<Rightarrow> structured_result \<Rightarrow> string" where
  "exhausted_message s structured =
     ''retries exhausted ('' @ show_nat (unat (sat_add (sp_max_retries (ls_params s)) 1)) @ '' attempts): ''
       @ sr_message structured @ dialog_note (sr_data structured)"

text \<open>The message on the board and the recycling, then the wait before the next attempt.\<close>

definition retry_backoff :: "login_session \<Rightarrow> duration" where
  "retry_backoff s = retry_backoff_delay (sp_retry_interval (ls_params s)) (ls_attempts_used s)"

definition prepare_retry :: "session_env \<Rightarrow> bool \<Rightarrow> string option \<Rightarrow> login_session \<Rightarrow> login_session" where
  "prepare_retry env force_recycle owner_cancel_id s =
     (let s1 = merge_login env LoginRunning (Some (sp_source (ls_params s)))
                 (''retry '' @ show_nat (unat (ls_attempts_used s)) @ ''/''
                    @ show_nat (unat (sp_max_retries (ls_params s))) @ '' in ''
                    @ show_nat (as_secs (retry_backoff s)) @ ''s'') (ls_attempts_used s) s
      in if force_recycle
         then let s2 = call_on (ForceRecycleIfUnowned owner_cancel_id) s1
              in s2\<lparr>ls_now := ls_now s2 + fst (se_recycle env owner_cancel_id (ls_now s2))\<rparr>
         else s1)"

definition retry_wait :: "session_env \<Rightarrow> bool \<Rightarrow> string option \<Rightarrow> login_session \<Rightarrow> bool \<times> login_session" where
  "retry_wait env force_recycle owner_cancel_id s =
     (let s2 = prepare_retry env force_recycle owner_cancel_id s
      in case select_biased (ls_now s2)
                (branch (se_cancel_at env) RetryCancel @ branch (se_shutdown_at env) RetryShutdown
                 @ [(ls_now s2 + retry_backoff s, RetrySlept)]) of
           None \<Rightarrow> (True, s2)
         | Some (at, ev) \<Rightarrow>
             let s3 = s2\<lparr>ls_now := at\<rparr>
             in (case ev of
                   RetryCancel \<Rightarrow> (False, emit env (make_cancelled_result env s3) s3)
                 | RetryShutdown \<Rightarrow>
                     let s4 = s3\<lparr>ls_cancel_reason := Some ''application shutdown''\<rparr>
                     in (False, emit env (make_cancelled_result env s4) s4)
                 | RetrySlept \<Rightarrow> (True, s3)))"

definition try_retry ::
  "session_env \<Rightarrow> structured_result \<Rightarrow> bool \<Rightarrow> string option \<Rightarrow> login_session \<Rightarrow> bool \<times> login_session"
where
  "try_retry env structured force_recycle owner_cancel_id s =
     (if sp_max_retries (ls_params s) \<le> ls_attempts_used s
      then (False, finish_with_failure env (exhausted_message s structured) s)
      else retry_wait env force_recycle owner_cancel_id (s\<lparr>ls_attempts_used := ls_attempts_used s + 1\<rparr>))"

section \<open>One round of the loop\<close>

definition success_message :: "structured_result \<Rightarrow> string" where
  "success_message structured =
     (let m = trim (sr_message structured)
      in ''login succeeded'' @ (if m \<noteq> [] \<and> m \<noteq> ''execution succeeded'' then ''('' @ m @ '')'' else [])
           @ dialog_note (sr_data structured))"

definition conclude_success :: "session_env \<Rightarrow> structured_result \<Rightarrow> string option \<Rightarrow> login_session \<Rightarrow> bool \<times> login_session" where
  "conclude_success env structured owner_cancel_id s =
     (let msg = success_message structured
      in if has_explicit_success_condition (sp_plan (ls_params s))
         then (False, emit env (make_result Success msg s) s)
         else
           let remaining = sp_login_timeout (ls_params s) - elapsed s
           in case verify_network_after_login env remaining s of
                (VerifyOnline, s1) \<Rightarrow> (False, emit env (make_result Success msg s1) s1)
              | (VerifyCancelled, s1) \<Rightarrow> (False, finish_with_cancelled env None s1)
              | (VerifyRetryable, s1) \<Rightarrow>
                  let s2 = s1\<lparr>ls_last_outcome := Some NetworkError\<rparr>;
                      retry_structured = structured\<lparr>sr_outcome := NetworkError,
                                                    sr_message := ''network verification failed''\<rparr>
                  in try_retry env retry_structured False owner_cancel_id s2)"

text \<open>What follows on the result of an attempt.\<close>

definition conclude_attempt :: "session_env \<Rightarrow> structured_result \<Rightarrow> login_session \<Rightarrow> bool \<times> login_session" where
  "conclude_attempt env structured s0 =
     (let finished_attempt_cancel_id = ls_attempt_cancel_id s0;
          s = s0\<lparr>ls_last_outcome := Some (sr_outcome structured), ls_attempt_cancel_id := None\<rparr>;
          action = classify (sr_outcome structured);
          action' = (if action = Retry \<and> sp_max_retries (ls_params s) \<le> ls_attempts_used s
                     then Exhausted else action)
      in case action' of
           Terminal Success \<Rightarrow> conclude_success env structured finished_attempt_cancel_id s
         | Terminal Cancelled \<Rightarrow> (False, finish_with_cancelled env None s)
         | Terminal Failed \<Rightarrow>
             (False, finish_with_failure env (sr_message structured @ dialog_note (sr_data structured)) s)
         | Retry \<Rightarrow>
             try_retry env structured
               (uses_bridge (sp_plan (ls_params s)) \<and> should_force_recycle (sr_outcome structured))
               finished_attempt_cancel_id s
         | Exhausted \<Rightarrow>
             (False, finish_with_failure env
                (''retries exhausted ('' @ show_nat (unat (sp_max_retries (ls_params s) + 1)) @ '' attempts): ''
                   @ sr_message structured @ dialog_note (sr_data structured)) s))"

datatype exec_event = ExecCancel | ExecShutdown | ExecTimeout | ExecDone "string + structured_result"

text \<open>The call of one attempt and when it answers.\<close>

definition attempt_call :: "login_session \<Rightarrow> string \<Rightarrow> session_call" where
  "attempt_call s cancel_id =
     (case sp_plan (ls_params s) of
        BrowserPlan config \<Rightarrow>
          Execute (if sp_source (ls_params s) = SrcBrowser then ''execute_browser_task'' else ''execute_login_attempt'')
            (let c1 = AList.update ''cancel_id'' (JString cancel_id) config
             in (case sp_task_id (ls_params s) of
                   Some tid \<Rightarrow> AList.update ''task_id'' (JString tid) c1 | None \<Rightarrow> c1))
      | HttpPlan \<Rightarrow> RunOnce ChHttp
      | ScriptPlan \<Rightarrow> RunOnce ChScript)"

definition attempt_answer :: "session_env \<Rightarrow> session_call \<Rightarrow> instant \<Rightarrow> (instant \<times> exec_event) option" where
  "attempt_answer env c now =
     (case c of
        Execute command args \<Rightarrow>
          map_option (\<lambda>(d, r). (now + d, ExecDone (browser_result (se_parse env) r))) (se_execute env command args now)
      | RunOnce channel \<Rightarrow> map_option (\<lambda>(d, r). (now + d, ExecDone (Inr r))) (se_run_once env channel now)
      | _ \<Rightarrow> None)"

definition cancel_attempt :: "string option \<Rightarrow> login_session \<Rightarrow> login_session" where
  "cancel_attempt cancel_id s =
     (case cancel_id of
        Some cid \<Rightarrow> if uses_bridge (sp_plan (ls_params s)) then call_on (CancelAttempt cid) s else s
      | None \<Rightarrow> s)"

text \<open>The attempt is started when the \<open>select!\<close> reaches its branch, the last one: not if one of the
  others is ready at once.\<close>

definition run_attempt :: "session_env \<Rightarrow> string \<Rightarrow> login_session \<Rightarrow> exec_event \<times> login_session" where
  "run_attempt env cancel_id s =
     (let now = ls_now s;
          remaining = session_budget s - elapsed s;
          guards = branch (se_cancel_at env) ExecCancel @ branch (se_shutdown_at env) ExecShutdown
                     @ [(now + remaining, ExecTimeout)];
          started = (\<not> fired (se_cancel_at env) now \<and> \<not> fired (se_shutdown_at env) now \<and> 0 < remaining);
          c = attempt_call s cancel_id;
          s1 = (if started then call_on c s else s);
          work = (if started then (case attempt_answer env c now of Some b \<Rightarrow> [b] | None \<Rightarrow> []) else [])
      in case select_biased now (guards @ work) of
           None \<Rightarrow> (ExecTimeout, s1)
         | Some (at, ev) \<Rightarrow> (ev, s1\<lparr>ls_now := at\<rparr>))"

definition begin_attempt :: "session_env \<Rightarrow> string \<Rightarrow> login_session \<Rightarrow> login_session" where
  "begin_attempt env cancel_id s =
     merge_login env LoginRunning (Some (sp_source (ls_params s)))
       (''attempt '' @ show_nat (unat (ls_attempts_used s + 1)) @ ''/''
          @ show_nat (unat (sp_max_retries (ls_params s) + 1)))
       (ls_attempts_used s)
       (s\<lparr>ls_attempt_cancel_id :=
            (if uses_bridge (sp_plan (ls_params s)) then Some cancel_id else ls_attempt_cancel_id s)\<rparr>)"

definition session_attempt :: "session_env \<Rightarrow> login_session \<Rightarrow> bool \<times> login_session" where
  "session_attempt env s =
     (let cancel_id = se_uuid env (ls_attempts_used s)
      in case run_attempt env cancel_id (begin_attempt env cancel_id s) of
           (ExecCancel, s3) \<Rightarrow> (False, finish_with_cancelled env None (cancel_attempt (Some cancel_id) s3))
         | (ExecShutdown, s3) \<Rightarrow>
             (False, finish_with_cancelled env (Some ''application shutdown'') (cancel_attempt (Some cancel_id) s3))
         | (ExecTimeout, s3) \<Rightarrow>
             (False, finish_with_failure env ''login timed out'' (cancel_attempt (Some cancel_id) s3))
         | (ExecDone (Inl e), s3) \<Rightarrow> (False, finish_with_failure env e s3)
         | (ExecDone (Inr structured), s3) \<Rightarrow> conclude_attempt env structured s3)"

definition session_round :: "session_env \<Rightarrow> login_session \<Rightarrow> bool \<times> login_session" where
  "session_round env s =
     (if fired (se_cancel_at env) (ls_now s) then (False, finish_with_cancelled env None s)
      else if session_budget s < elapsed s
      then (False, finish_with_failure env ''login timed out'' (cancel_attempt (ls_attempt_cancel_id s) s))
      else session_attempt env s)"

end
