(* ===== verification/Login_Session_Inv.thy ===== *)
theory Login_Session_Inv
  imports Login_Session
begin

text \<open>
  The loop of a login session, with the proof that it ends, and the invariant of its rounds, shown
  stage by stage: what the ledger holds, which calls were made and when, how far the clock got.
\<close>

section \<open>The loop\<close>

definition retries_left :: "login_session \<Rightarrow> nat" where
  "retries_left s = unat (sp_max_retries (ls_params s)) - unat (ls_attempts_used s)"

lemma call_on_simps [frame_simps]:
  "ls_params (call_on c s) = ls_params s" "ls_start (call_on c s) = ls_start s"
  "ls_now (call_on c s) = ls_now s" "ls_results (call_on c s) = ls_results s"
  "ls_metrics (call_on c s) = ls_metrics s" "ls_history (call_on c s) = ls_history s"
  "ls_attempts_used (call_on c s) = ls_attempts_used s" "ls_status (call_on c s) = ls_status s"
  "ls_last_outcome (call_on c s) = ls_last_outcome s" "ls_cancel_reason (call_on c s) = ls_cancel_reason s"
  "ls_attempt_cancel_id (call_on c s) = ls_attempt_cancel_id s"
  "ls_calls (call_on c s) = ls_calls s @ [(ls_now s, c)]"
  by (simp_all add: call_on_def)

lemma merge_login_simps [frame_simps]:
  "ls_params (merge_login env a b m n s) = ls_params s" "ls_start (merge_login env a b m n s) = ls_start s"
  "ls_now (merge_login env a b m n s) = ls_now s" "ls_results (merge_login env a b m n s) = ls_results s"
  "ls_metrics (merge_login env a b m n s) = ls_metrics s" "ls_history (merge_login env a b m n s) = ls_history s"
  "ls_attempts_used (merge_login env a b m n s) = ls_attempts_used s"
  "ls_last_outcome (merge_login env a b m n s) = ls_last_outcome s"
  "ls_cancel_reason (merge_login env a b m n s) = ls_cancel_reason s"
  "ls_attempt_cancel_id (merge_login env a b m n s) = ls_attempt_cancel_id s"
  "ls_calls (merge_login env a b m n s) = ls_calls s"
  by (simp_all add: merge_login_def)

lemma begin_attempt_simps [frame_simps]:
  "ls_params (begin_attempt env cid s) = ls_params s" "ls_start (begin_attempt env cid s) = ls_start s"
  "ls_now (begin_attempt env cid s) = ls_now s" "ls_results (begin_attempt env cid s) = ls_results s"
  "ls_metrics (begin_attempt env cid s) = ls_metrics s" "ls_history (begin_attempt env cid s) = ls_history s"
  "ls_attempts_used (begin_attempt env cid s) = ls_attempts_used s"
  "ls_calls (begin_attempt env cid s) = ls_calls s"
  "ls_attempt_cancel_id (begin_attempt env cid s) =
     (if uses_bridge (sp_plan (ls_params s)) then Some cid else ls_attempt_cancel_id s)"
  by (simp_all add: begin_attempt_def frame_simps)

lemma prepare_retry_simps [frame_simps]:
  "ls_params (prepare_retry env f ow s) = ls_params s" "ls_start (prepare_retry env f ow s) = ls_start s"
  "ls_attempts_used (prepare_retry env f ow s) = ls_attempts_used s"
  by (simp_all add: prepare_retry_def Let_def frame_simps)

lemma select_biased_cases:
  assumes "select_biased now bs = Some (at, ev)"
  shows "now \<le> at \<and> (\<exists>t. (t, ev) \<in> set bs \<and> at = max now t) \<and> (\<forall>(t, e)\<in>set bs. at \<le> max now t)"
  using assms
proof (induction bs arbitrary: at ev)
  case (Cons b bs)
  obtain t a where b: "b = (t, a)" by (cases b)
  show ?case
  proof (cases "select_biased now bs")
    case None
    then have "bs = []" by (cases bs) (auto split: option.splits if_splits)
    with Cons.prems b None show ?thesis by auto
  next
    case (Some p)
    then obtain u c where p: "select_biased now bs = Some (u, c)" by (cases p) auto
    from Cons.IH [OF p] have IH: "now \<le> u" "\<exists>t. (t, c) \<in> set bs \<and> u = max now t"
      "\<forall>(t, e)\<in>set bs. u \<le> max now t" by auto
    from Cons.prems b p have "at = (if max now t \<le> u then max now t else u)" "ev = (if max now t \<le> u then a else c)"
      by (auto split: if_splits)
    then show ?thesis using IH unfolding b by (auto split: if_splits intro: order_trans)
  qed
qed simp

lemma select_biased_some: "bs \<noteq> [] \<Longrightarrow> \<exists>at ev. select_biased now bs = Some (at, ev)"
  by (induction bs) (auto split: option.split)

lemma branch_set: "(t, e) \<in> set (branch at a) \<longleftrightarrow> at = Some t \<and> e = a"
  by (auto simp: branch_def split: option.split)

lemma branch_member: "x \<in> set (branch at a) \<longleftrightarrow> (\<exists>t. at = Some t \<and> x = (t, a))"
  by (auto simp: branch_def split: option.split)

text \<open>Only a round that goes on uses up a retry.\<close>

lemma try_retry_on:
  assumes "try_retry env st force owner s = (True, s')"
  shows "ls_params s' = ls_params s \<and> ls_attempts_used s < sp_max_retries (ls_params s)
    \<and> ls_attempts_used s' = ls_attempts_used s + 1"
  using assms
  by (auto simp: try_retry_def retry_wait_def Let_def frame_simps split: if_splits option.splits prod.splits retry_event.splits)

lemma verify_frame:
  assumes "verify_network_after_login env rem s = (v, s')"
  shows "ls_params s' = ls_params s \<and> ls_attempts_used s' = ls_attempts_used s"
  using assms
  by (auto simp: verify_network_after_login_def Let_def split: if_splits option.splits prod.splits verify_event.splits sum.splits)

lemma run_attempt_frame:
  assumes "run_attempt env cid s = (ev, s')"
  shows "ls_params s' = ls_params s \<and> ls_attempts_used s' = ls_attempts_used s"
  using assms
  by (auto simp: run_attempt_def Let_def frame_simps split: if_splits option.splits prod.splits)

lemma conclude_attempt_on:
  assumes "conclude_attempt env st s = (True, s')"
  shows "ls_params s' = ls_params s \<and> ls_attempts_used s < sp_max_retries (ls_params s)
    \<and> ls_attempts_used s' = ls_attempts_used s + 1"
  using assms
  by (fastforce simp: conclude_attempt_def conclude_success_def Let_def
      dest: try_retry_on verify_frame
      split: if_splits result_action.splits login_terminal.splits prod.splits network_verification.splits)

lemma session_round_on:
  assumes "session_round env s = (True, s')"
  shows "ls_params s' = ls_params s \<and> ls_attempts_used s < sp_max_retries (ls_params s)
    \<and> ls_attempts_used s' = ls_attempts_used s + 1"
  using assms
  by (auto simp: session_round_def session_attempt_def Let_def frame_simps
      dest!: conclude_attempt_on run_attempt_frame
      split: if_splits prod.splits exec_event.splits sum.splits)

lemma unat_suc: "(a :: 'a::len word) < b \<Longrightarrow> unat (a + 1) = unat a + 1"
proof -
  assume "a < b"
  then have "unat a < unat b" by (simp add: word_less_nat_alt)
  moreover have "unat b < 2 ^ LENGTH('a)" by (rule unsigned_less)
  ultimately have "unat a + unat (1 :: 'a word) < 2 ^ LENGTH('a)" unfolding unsigned_1 by linarith
  then have "unat (a + 1) = unat a + unat (1 :: 'a word)" by (rule unat_add_lem [THEN iffD1])
  then show ?thesis by simp
qed

lemma retries_left_falls:
  assumes "session_round env s = (True, s')"
  shows "retries_left s' < retries_left s"
proof -
  from session_round_on [OF assms]
  have p: "ls_params s' = ls_params s" and lt: "ls_attempts_used s < sp_max_retries (ls_params s)"
    and n: "ls_attempts_used s' = ls_attempts_used s + 1" by auto
  have "unat (ls_attempts_used s + 1) = unat (ls_attempts_used s) + 1"
    using lt by (rule unat_suc)
  with p lt n show ?thesis by (simp add: retries_left_def word_less_nat_alt)
qed

function session_loop :: "session_env \<Rightarrow> login_session \<Rightarrow> login_session" where
  "session_loop env s = (case session_round env s of (go, s') \<Rightarrow> if go then session_loop env s' else s')"
  by pat_completeness auto

termination
  by (relation "measure (\<lambda>(env, s). retries_left s)") (auto intro: retries_left_falls)

declare session_loop.simps [simp del]

text \<open>\<open>LoginSession::run\<close>\<close>

definition session_run :: "session_env \<Rightarrow> login_session \<Rightarrow> login_session" where
  "session_run env s =
     session_loop env (merge_login env LoginRunning (Some (sp_source (ls_params s))) ''logging in'' 0 s)"

section \<open>What holds while a session runs\<close>

definition same_ledger :: "login_session \<Rightarrow> login_session \<Rightarrow> bool" where
  "same_ledger s0 s \<longleftrightarrow> ls_params s = ls_params s0 \<and> ls_start s = ls_start s0 \<and> ls_results s = ls_results s0
     \<and> ls_metrics s = ls_metrics s0 \<and> ls_history s = ls_history s0"

fun is_attempt :: "session_call \<Rightarrow> bool" where
  "is_attempt (Execute m a) = True"
| "is_attempt (RunOnce ch) = True"
| "is_attempt _ = False"

definition attempts_made :: "login_session \<Rightarrow> nat" where
  "attempts_made s = length (filter (is_attempt \<circ> snd) (ls_calls s))"

definition own_id :: "session_env \<Rightarrow> login_session \<Rightarrow> string \<Rightarrow> bool" where
  "own_id env s cid \<longleftrightarrow> (\<exists>k\<le>ls_attempts_used s. cid = se_uuid env k)"

text \<open>When an attempt may start: before the deadline, with no token fired.\<close>

definition attempt_due :: "session_env \<Rightarrow> login_session \<Rightarrow> instant \<Rightarrow> bool" where
  "attempt_due env s t \<longleftrightarrow> ls_start s \<le> t \<and> t < ls_start s + session_budget s
     \<and> \<not> fired (se_cancel_at env) t \<and> \<not> fired (se_shutdown_at env) t"

fun call_ok :: "session_env \<Rightarrow> login_session \<Rightarrow> instant \<times> session_call \<Rightarrow> bool" where
  "call_ok env s (t, Execute m a) \<longleftrightarrow> uses_bridge (sp_plan (ls_params s)) \<and> attempt_due env s t"
| "call_ok env s (t, RunOnce ch) \<longleftrightarrow> \<not> uses_bridge (sp_plan (ls_params s))
     \<and> ch = plan_channel (sp_plan (ls_params s)) \<and> attempt_due env s t"
| "call_ok env s (t, CancelAttempt cid) \<longleftrightarrow> uses_bridge (sp_plan (ls_params s)) \<and> own_id env s cid"
| "call_ok env s (t, ForceRecycleIfUnowned owner) \<longleftrightarrow> uses_bridge (sp_plan (ls_params s))
     \<and> (\<exists>cid. owner = Some cid \<and> own_id env s cid)"
| "call_ok env s (t, CloseBrowser keep) \<longleftrightarrow> False"

definition in_flight_ok :: "session_env \<Rightarrow> login_session \<Rightarrow> bool" where
  "in_flight_ok env s \<longleftrightarrow>
     (\<forall>cid. ls_attempt_cancel_id s = Some cid \<longrightarrow> uses_bridge (sp_plan (ls_params s)) \<and> own_id env s cid)"

definition mid_ok :: "session_env \<Rightarrow> login_session \<Rightarrow> login_session \<Rightarrow> bool" where
  "mid_ok env s0 s \<longleftrightarrow> same_ledger s0 s \<and> ls_start s \<le> ls_now s
     \<and> ls_attempts_used s \<le> sp_max_retries (ls_params s)
     \<and> list_all (call_ok env s) (ls_calls s) \<and> in_flight_ok env s
     \<and> attempts_made s \<le> unat (ls_attempts_used s) + 1"

definition fresh :: "login_session \<Rightarrow> bool" where
  "fresh s \<longleftrightarrow> attempts_made s \<le> unat (ls_attempts_used s)"

definition in_time :: "login_session \<Rightarrow> bool" where
  "in_time s \<longleftrightarrow> elapsed s \<le> session_budget s"

text \<open>The deadline, one recycling and one wait: how far a session can get.\<close>

definition last_bound :: "duration \<Rightarrow> login_session \<Rightarrow> duration" where
  "last_bound recycling s =
     session_budget s + recycling + retry_backoff_delay (sp_retry_interval (ls_params s)) (sp_max_retries (ls_params s))"

definition in_bound :: "session_env \<Rightarrow> duration \<Rightarrow> login_session \<Rightarrow> bool" where
  "in_bound env recycling s \<longleftrightarrow>
     (\<forall>own t. fst (se_recycle env own t) \<le> recycling) \<longrightarrow> elapsed s \<le> last_bound recycling s"

definition answered :: "session_env \<Rightarrow> login_session \<Rightarrow> outcome \<Rightarrow> bool" where
  "answered env s out \<longleftrightarrow> (\<exists>t c u structured. (t, c) \<in> set (ls_calls s) \<and> is_attempt c
     \<and> attempt_answer env c t = Some (u, ExecDone (Inr structured)) \<and> sr_outcome structured = out)"

definition verified :: "session_env \<Rightarrow> login_session \<Rightarrow> bool" where
  "verified env s \<longleftrightarrow> (\<exists>t d report. ls_start s \<le> t \<and> se_verify env (sp_network (ls_params s)) t = Some (d, Inr report)
     \<and> ca_status (pr_assessment report) = Online \<and> t + d = ls_now s)"

definition result_ok :: "session_env \<Rightarrow> login_result \<Rightarrow> login_session \<Rightarrow> bool" where
  "result_ok env r s \<longleftrightarrow> lr_attempts r = ls_attempts_used s + 1 \<and> lr_duration r = elapsed s
     \<and> lr_source r = sp_source (ls_params s)
     \<and> (lr_network_retryable r \<longrightarrow> lr_terminal r = Failed)
     \<and> (lr_terminal r = Success \<longrightarrow> answered env s OSuccess
          \<and> (has_explicit_success_condition (sp_plan (ls_params s)) \<or> verified env s))
     \<and> (lr_terminal r = Cancelled \<longrightarrow> fired (se_cancel_at env) (ls_now s)
          \<or> fired (se_shutdown_at env) (ls_now s) \<or> answered env s OCancelled)"

definition ended :: "session_env \<Rightarrow> duration \<Rightarrow> login_session \<Rightarrow> login_session \<Rightarrow> bool" where
  "ended env recycling s0 s' \<longleftrightarrow> (\<exists>s r. mid_ok env s0 s \<and> in_bound env recycling s \<and> result_ok env r s \<and> s' = emit env r s)"

lemmas session_inv_defs = mid_ok_def same_ledger_def

lemma attempt_due_cong:
  "ls_params s' = ls_params s \<Longrightarrow> ls_start s' = ls_start s \<Longrightarrow> attempt_due env s' t \<longleftrightarrow> attempt_due env s t"
  by (simp add: attempt_due_def session_budget_def)

lemma own_id_mono: "own_id env s cid \<Longrightarrow> ls_attempts_used s \<le> ls_attempts_used s' \<Longrightarrow> own_id env s' cid"
  unfolding own_id_def using order_trans by blast

lemma call_ok_mono:
  assumes "call_ok env s c" and "ls_params s' = ls_params s" "ls_start s' = ls_start s"
    "ls_attempts_used s \<le> ls_attempts_used s'"
  shows "call_ok env s' c"
proof -
  have d: "attempt_due env s' t \<longleftrightarrow> attempt_due env s t" for t using assms(2,3) by (rule attempt_due_cong)
  have i: "own_id env s cid \<Longrightarrow> own_id env s' cid" for cid using own_id_mono assms(4) by blast
  obtain t k where c: "c = (t, k)" by (cases c)
  show ?thesis using assms(1) i unfolding c by (cases k) (auto simp: assms(2) d)
qed

lemma calls_ok_mono:
  "list_all (call_ok env s) cs \<Longrightarrow> ls_params s' = ls_params s \<Longrightarrow> ls_start s' = ls_start s
     \<Longrightarrow> ls_attempts_used s \<le> ls_attempts_used s' \<Longrightarrow> list_all (call_ok env s') cs"
  by (auto simp: list_all_iff intro: call_ok_mono)

lemma in_flight_ok_mono:
  assumes "in_flight_ok env s" and "ls_params s' = ls_params s" "ls_attempts_used s \<le> ls_attempts_used s'"
    and "ls_attempt_cancel_id s' = None \<or> ls_attempt_cancel_id s' = ls_attempt_cancel_id s"
  shows "in_flight_ok env s'"
  unfolding in_flight_ok_def
proof (intro allI impI)
  fix cid
  assume "ls_attempt_cancel_id s' = Some cid"
  with assms(4) have "ls_attempt_cancel_id s = Some cid" by auto
  with assms(1) have "uses_bridge (sp_plan (ls_params s))" "own_id env s cid"
    by (simp_all add: in_flight_ok_def)
  with assms(2) own_id_mono [OF _ assms(3)] show "uses_bridge (sp_plan (ls_params s')) \<and> own_id env s' cid"
    by simp
qed

text \<open>A step that only moves the clock, the outcome, the reason and the message on the board.\<close>

lemma mid_ok_step:
  assumes "mid_ok env s0 s" and "ls_params s' = ls_params s" "ls_start s' = ls_start s"
    "ls_results s' = ls_results s" "ls_metrics s' = ls_metrics s" "ls_history s' = ls_history s"
    "ls_now s \<le> ls_now s'" "ls_attempts_used s' = ls_attempts_used s" "ls_calls s' = ls_calls s"
    "ls_attempt_cancel_id s' = None \<or> ls_attempt_cancel_id s' = ls_attempt_cancel_id s"
  shows "mid_ok env s0 s'"
proof -
  have "list_all (call_ok env s') (ls_calls s)"
    using calls_ok_mono [of env s "ls_calls s" s'] assms by (simp add: mid_ok_def)
  moreover have "in_flight_ok env s'"
    using in_flight_ok_mono [of env s s'] assms by (simp add: mid_ok_def)
  ultimately show ?thesis using assms(1) unfolding session_inv_defs attempts_made_def assms(2-6,8,9)
    using assms(7) by (meson order_trans)
qed

lemma mid_ok_call:
  assumes "mid_ok env s0 s" and "call_ok env s (ls_now s, c)" and "is_attempt c \<Longrightarrow> fresh s"
  shows "mid_ok env s0 (call_on c s)"
proof -
  have c: "list_all (call_ok env (call_on c s)) (ls_calls s @ [(ls_now s, c)])"
    using calls_ok_mono [of env s "ls_calls s @ [(ls_now s, c)]" "call_on c s"] assms(1,2)
    by (simp add: mid_ok_def frame_simps)
  have f: "in_flight_ok env (call_on c s)"
    using in_flight_ok_mono [of env s "call_on c s"] assms(1) by (simp add: mid_ok_def frame_simps)
  have "length (filter (is_attempt \<circ> snd) (ls_calls s @ [(ls_now s, c)])) \<le> unat (ls_attempts_used s) + 1"
    using assms(1,3) by (cases "is_attempt c") (simp_all add: mid_ok_def fresh_def attempts_made_def)
  with assms(1) c f show ?thesis
    by (clarsimp simp: session_inv_defs frame_simps attempts_made_def)
qed

section \<open>The stages of a round\<close>

lemma select_at_most:
  assumes "select_biased now bs = Some (at, ev)" and "(now + d, e) \<in> set bs"
  shows "now \<le> at \<and> at \<le> now + d"
  using select_biased_cases [OF assms(1)] assms(2) by fastforce

lemma attempt_call_is_attempt: "is_attempt (attempt_call s cid)"
  by (simp add: attempt_call_def split: login_attempt_plan.split)

lemma attempt_call_ok:
  "call_ok env s (t, attempt_call s cid) \<longleftrightarrow> attempt_due env s t"
  by (auto simp: attempt_call_def split: login_attempt_plan.split)

lemma attempt_answer_done: "attempt_answer env c now = Some (t, e) \<Longrightarrow> \<exists>x. e = ExecDone x"
  by (cases c) (auto simp: attempt_answer_def)

lemma run_attempt_ok:
  assumes ok: "mid_ok env s0 s" and "fresh s" and time: "in_time s"
    and r: "run_attempt env cid s = (ev, s')"
  shows "mid_ok env s0 s' \<and> in_time s'"
    and "ls_attempts_used s' = ls_attempts_used s" and "ls_attempt_cancel_id s' = ls_attempt_cancel_id s"
    and "ls_params s' = ls_params s"
    and "ev = ExecDone (Inr structured) \<Longrightarrow> answered env s' (sr_outcome structured)"
    and "ev = ExecCancel \<Longrightarrow> fired (se_cancel_at env) (ls_now s')"
    and "ev = ExecShutdown \<Longrightarrow> fired (se_shutdown_at env) (ls_now s')"
proof -
  define now where "now = ls_now s"
  define remaining where "remaining = session_budget s - elapsed s"
  define started where "started \<longleftrightarrow> \<not> fired (se_cancel_at env) now \<and> \<not> fired (se_shutdown_at env) now \<and> 0 < remaining"
  define c where "c = attempt_call s cid"
  define s1 where "s1 = (if started then call_on c s else s)"
  define work where "work = (if started then (case attempt_answer env c now of Some b \<Rightarrow> [b] | None \<Rightarrow> []) else [])"
  define bs where "bs = branch (se_cancel_at env) ExecCancel @ branch (se_shutdown_at env) ExecShutdown
     @ [(now + remaining, ExecTimeout)] @ work"
  obtain at ev' where sel: "select_biased now bs = Some (at, ev')"
    using select_biased_some [of bs now] by (auto simp: bs_def)
  have r': "ev = ev'" "s' = s1\<lparr>ls_now := at\<rparr>"
    using r sel unfolding run_attempt_def Let_def now_def remaining_def started_def c_def s1_def work_def bs_def
    by simp_all
  have at: "now \<le> at" "at \<le> now + remaining"
    using select_at_most [OF sel, of remaining ExecTimeout] by (simp_all add: bs_def)
  have n0: "ls_start s \<le> now" using ok by (simp add: mid_ok_def now_def)
  have due: "attempt_due env s now" if started
    using that time n0 unfolding attempt_due_def started_def remaining_def in_time_def elapsed_def now_def by auto
  have s1: "mid_ok env s0 s1"
    using mid_ok_call [OF ok, of c] assms(2) due ok
    by (simp add: s1_def c_def attempt_call_ok flip: now_def)
  have f1: "ls_params s1 = ls_params s" "ls_start s1 = ls_start s" "ls_now s1 = now"
      "ls_attempts_used s1 = ls_attempts_used s" "ls_attempt_cancel_id s1 = ls_attempt_cancel_id s"
    by (simp_all add: s1_def frame_simps now_def)
  have "mid_ok env s0 s'" using s1 at(1) f1 by (intro mid_ok_step [OF s1]) (simp_all add: r')
  moreover have "in_time s'"
    using at n0 time unfolding in_time_def elapsed_def session_budget_def r' remaining_def by (auto simp: f1 now_def elapsed_def session_budget_def)
  ultimately show "mid_ok env s0 s' \<and> in_time s'" ..
  show "ls_attempts_used s' = ls_attempts_used s" "ls_attempt_cancel_id s' = ls_attempt_cancel_id s"
    "ls_params s' = ls_params s" by (simp_all add: r' f1)
  obtain t where t: "(t, ev) \<in> set bs" "at = max now t" using select_biased_cases [OF sel] by (auto simp: r')
  show "answered env s' (sr_outcome structured)" if "ev = ExecDone (Inr structured)"
  proof -
    from t(1) that have "(t, ev) \<in> set work" by (auto simp: bs_def branch_member)
    then have "started \<and> attempt_answer env c now = Some (t, ev)"
      by (cases started; cases "attempt_answer env c now") (auto simp: work_def)
    then have st: "started" and a: "attempt_answer env c now = Some (t, ev)" by blast+
    have "(now, c) \<in> set (ls_calls s')" using st by (simp add: r' s1_def frame_simps now_def)
    moreover have "is_attempt c" by (simp add: c_def attempt_call_is_attempt)
    ultimately show ?thesis using a that unfolding answered_def by blast
  qed
  have w: "\<exists>x. t' = ExecDone x" if "(t, t') \<in> set work" for t t'
    using that attempt_answer_done [of env c now]
    by (cases started; cases "attempt_answer env c now") (auto simp: work_def)
  show "fired (se_cancel_at env) (ls_now s')" if "ev = ExecCancel"
    using t that w [of t ev] by (auto simp: r' bs_def branch_member fired_def)
  show "fired (se_shutdown_at env) (ls_now s')" if "ev = ExecShutdown"
    using t that w [of t ev] by (auto simp: r' bs_def branch_member fired_def)
qed

lemma verify_ok:
  assumes ok: "mid_ok env s0 s" and time: "in_time s" and rem: "rem \<le> session_budget s - elapsed s"
    and r: "verify_network_after_login env rem s = (v, s')"
  shows "mid_ok env s0 s' \<and> in_time s'"
    and "ls_params s' = ls_params s" and "ls_attempts_used s' = ls_attempts_used s"
    and "ls_calls s' = ls_calls s" and "ls_attempt_cancel_id s' = ls_attempt_cancel_id s"
    and "v = VerifyOnline \<Longrightarrow> verified env s'"
    and "v = VerifyCancelled \<Longrightarrow> fired (se_cancel_at env) (ls_now s') \<or> fired (se_shutdown_at env) (ls_now s')"
proof -
  have n0: "ls_start s \<le> ls_now s" using ok by (simp add: mid_ok_def)
  have all: "(mid_ok env s0 s' \<and> in_time s') \<and> ls_params s' = ls_params s \<and> ls_attempts_used s' = ls_attempts_used s
      \<and> ls_calls s' = ls_calls s \<and> ls_attempt_cancel_id s' = ls_attempt_cancel_id s
      \<and> (v = VerifyOnline \<longrightarrow> verified env s')
      \<and> (v = VerifyCancelled \<longrightarrow> fired (se_cancel_at env) (ls_now s') \<or> fired (se_shutdown_at env) (ls_now s'))"
  proof (cases "rem = 0")
    case True
    with r ok time show ?thesis by (auto simp: verify_network_after_login_def)
  next
    case False
    define now where "now = ls_now s"
    define chk where "chk = now + from_secs (unat (min (se_post_login_delay env now) 60))"
    define report where "report = map_option (\<lambda>(d, r). (chk + d, VerReport r)) (se_verify env (sp_network (ls_params s)) chk)"
    define bs where "bs = branch (se_cancel_at env) VerCancel @ branch (se_shutdown_at env) VerShutdown
       @ (case report of Some b \<Rightarrow> [b] | None \<Rightarrow> []) @ [(now + rem, VerTimeout)]"
    obtain at ev where sel: "select_biased now bs = Some (at, ev)"
      using select_biased_some [of bs now] by (auto simp: bs_def)
    have r': "(v, s') = (case ev of
                     VerCancel \<Rightarrow> (VerifyCancelled, s\<lparr>ls_now := at\<rparr>)
                   | VerShutdown \<Rightarrow> (VerifyCancelled, s\<lparr>ls_now := at, ls_cancel_reason := Some ''application shutdown''\<rparr>)
                   | VerTimeout \<Rightarrow> (VerifyRetryable, s\<lparr>ls_now := at\<rparr>)
                   | VerReport (Inr report) \<Rightarrow>
                       (if ca_status (pr_assessment report) = Online then VerifyOnline else VerifyRetryable, s\<lparr>ls_now := at\<rparr>)
                   | VerReport (Inl _) \<Rightarrow> (VerifyRetryable, s\<lparr>ls_now := at\<rparr>))"
      using r sel False unfolding verify_network_after_login_def Let_def now_def chk_def report_def bs_def
      by (simp split: verify_event.split sum.split)
    have f: "ls_params s' = ls_params s" "ls_start s' = ls_start s" "ls_results s' = ls_results s"
      "ls_metrics s' = ls_metrics s" "ls_history s' = ls_history s" "ls_now s' = at"
      "ls_attempts_used s' = ls_attempts_used s" "ls_calls s' = ls_calls s"
      "ls_attempt_cancel_id s' = ls_attempt_cancel_id s"
      using r' by (auto split: verify_event.splits sum.splits)
    have at: "now \<le> at" "at \<le> now + rem"
      using select_at_most [OF sel, of rem VerTimeout] by (simp_all add: bs_def)
    have "mid_ok env s0 s'" using at(1) by (intro mid_ok_step [OF ok]) (simp_all add: f now_def)
    moreover have "in_time s'"
      using at n0 time rem unfolding in_time_def elapsed_def session_budget_def f now_def by linarith
    moreover obtain t where t: "(t, ev) \<in> set bs" "at = max now t" using select_biased_cases [OF sel] by auto
    have rep: "report = Some (t, ev) \<or> \<not> (\<exists>x. ev = VerReport x)"
      using t(1) by (cases report) (auto simp: bs_def branch_member)
    have norep: "\<exists>x. e = VerReport x" if "report = Some (t, e)" for t e using that by (auto simp: report_def)
    have "verified env s'" if v: "v = VerifyOnline"
    proof -
      from v r' obtain rp where rp: "ev = VerReport (Inr rp)" "ca_status (pr_assessment rp) = Online"
        by (auto split: verify_event.splits sum.splits if_splits)
      with rep obtain d where d: "se_verify env (sp_network (ls_params s)) chk = Some (d, Inr rp)" "t = chk + d"
        by (auto simp: report_def)
      moreover have "ls_start s \<le> chk" "now \<le> chk" using n0 by (simp_all add: chk_def now_def)
      ultimately show ?thesis using rp t(2) unfolding verified_def f
        by (intro exI [of _ chk] exI [of _ d] exI [of _ rp]) simp
    qed
    moreover have "fired (se_cancel_at env) at \<or> fired (se_shutdown_at env) at" if "v = VerifyCancelled"
    proof -
      from that r' have "ev = VerCancel \<or> ev = VerShutdown" by (auto split: verify_event.splits sum.splits if_splits)
      then show ?thesis using t norep
        by (cases report) (fastforce simp: bs_def branch_member fired_def)+
    qed
    ultimately show ?thesis using f by blast
  qed
  from all show "mid_ok env s0 s' \<and> in_time s'" "ls_params s' = ls_params s" "ls_attempts_used s' = ls_attempts_used s"
    "ls_calls s' = ls_calls s" "ls_attempt_cancel_id s' = ls_attempt_cancel_id s"
    "v = VerifyOnline \<Longrightarrow> verified env s'"
    "v = VerifyCancelled \<Longrightarrow> fired (se_cancel_at env) (ls_now s') \<or> fired (se_shutdown_at env) (ls_now s')"
    by blast+
qed

lemma retry_backoff_mono: "a \<le> b \<Longrightarrow> retry_backoff_delay base a \<le> retry_backoff_delay base b"
proof -
  assume "a \<le> b"
  then have "min (unat a - 1) 8 \<le> min (unat b - 1) 8" by (simp add: word_le_nat_alt min_le_iff_disj) linarith
  then have "(2::nat) ^ min (unat a - 1) 8 \<le> 2 ^ min (unat b - 1) 8" by (intro power_increasing) simp_all
  then have "max base (from_secs 1) * 2 ^ min (unat a - 1) 8 \<le> max base (from_secs 1) * 2 ^ min (unat b - 1) 8"
    by (rule mult_le_mono2)
  then show ?thesis unfolding retry_backoff_eq by (rule min.mono [OF order_refl])
qed

lemma in_time_bound: "in_time s \<Longrightarrow> in_bound env R s"
  by (simp add: in_time_def in_bound_def last_bound_def)

lemma endedI:
  "mid_ok env s0 s \<Longrightarrow> in_bound env R s \<Longrightarrow> result_ok env r s \<Longrightarrow> s' = emit env r s \<Longrightarrow> ended env R s0 s'"
  unfolding ended_def by blast

lemma finish_with_failure_ended:
  "mid_ok env s0 s \<Longrightarrow> in_bound env R s \<Longrightarrow> ended env R s0 (finish_with_failure env msg s)"
  by (rule endedI [OF _ _ _ finish_with_failure_def]) (simp_all add: result_ok_def make_result_def)

lemma make_cancelled_ok:
  "fired (se_cancel_at env) (ls_now s) \<or> fired (se_shutdown_at env) (ls_now s) \<or> answered env s OCancelled
     \<Longrightarrow> result_ok env (make_cancelled_result env s) s"
  by (simp add: result_ok_def make_cancelled_result_def Let_def)

lemma finish_with_cancelled_ended:
  assumes "mid_ok env s0 s" and "in_bound env R s"
    and "fired (se_cancel_at env) (ls_now s) \<or> fired (se_shutdown_at env) (ls_now s) \<or> answered env s OCancelled"
  shows "ended env R s0 (finish_with_cancelled env reason s)"
proof -
  define s1 where "s1 = (case reason of Some r \<Rightarrow> s\<lparr>ls_cancel_reason := Some r\<rparr> | None \<Rightarrow> s)"
  have f: "ls_params s1 = ls_params s" "ls_start s1 = ls_start s" "ls_results s1 = ls_results s"
      "ls_metrics s1 = ls_metrics s" "ls_history s1 = ls_history s" "ls_now s1 = ls_now s"
      "ls_attempts_used s1 = ls_attempts_used s" "ls_calls s1 = ls_calls s"
      "ls_attempt_cancel_id s1 = ls_attempt_cancel_id s"
    by (simp_all add: s1_def split: option.split)
  show ?thesis
  proof (rule endedI)
    show "mid_ok env s0 s1" by (rule mid_ok_step [OF assms(1)]) (simp_all add: f)
    show "in_bound env R s1" using assms(2) by (simp add: in_bound_def last_bound_def elapsed_def session_budget_def f)
    show "result_ok env (make_cancelled_result env s1) s1"
      using assms(3) by (intro make_cancelled_ok) (simp add: f answered_def)
    show "finish_with_cancelled env reason s = emit env (make_cancelled_result env s1) s1"
      by (simp add: finish_with_cancelled_def s1_def Let_def)
  qed
qed

text \<open>How a stage leaves the loop: with the next round due, or ended.\<close>

definition goes_well :: "session_env \<Rightarrow> duration \<Rightarrow> login_session \<Rightarrow> bool \<times> login_session \<Rightarrow> bool" where
  "goes_well env R s0 res \<longleftrightarrow>
     (if fst res then mid_ok env s0 (snd res) \<and> fresh (snd res) \<and> in_bound env R (snd res)
      else ended env R s0 (snd res))"

lemma goes_well_simps [simp]:
  "goes_well env R s0 (True, s) \<longleftrightarrow> mid_ok env s0 s \<and> fresh s \<and> in_bound env R s"
  "goes_well env R s0 (False, s) \<longleftrightarrow> ended env R s0 s"
  by (simp_all add: goes_well_def)

lemma retry_wait_ok:
  assumes ok: "mid_ok env s0 s" and fr: "fresh s" and time: "in_time s"
    and own: "force \<Longrightarrow> uses_bridge (sp_plan (ls_params s)) \<and> (\<exists>cid. owner = Some cid \<and> own_id env s cid)"
  shows "goes_well env R s0 (retry_wait env force owner s)"
proof -
  define backoff where "backoff = retry_backoff s"
  define s2 where "s2 = prepare_retry env force owner s"
  have n2: "ls_now s \<le> ls_now s2"
    "\<forall>own t. fst (se_recycle env own t) \<le> R \<Longrightarrow> ls_now s2 \<le> ls_now s + R"
    by (simp_all add: s2_def prepare_retry_def Let_def frame_simps)
  have f2: "ls_params s2 = ls_params s" "ls_start s2 = ls_start s" "ls_attempts_used s2 = ls_attempts_used s"
    by (simp_all add: s2_def frame_simps)
  have ok2: "mid_ok env s0 s2"
  proof -
    have ok1: "mid_ok env s0 (merge_login env a b m n s)" for a b m n
      by (rule mid_ok_step [OF ok]) (simp_all add: frame_simps)
    have "mid_ok env s0 (call_on (ForceRecycleIfUnowned owner) (merge_login env a b m n s))" if force for a b m n
      using own [OF that] by (intro mid_ok_call [OF ok1]) (auto simp: own_id_def frame_simps)
    moreover have "mid_ok env s0 (x\<lparr>ls_now := ls_now x + d\<rparr>)" if "mid_ok env s0 x" for x d
      by (rule mid_ok_step [OF that]) simp_all
    ultimately show ?thesis using ok1 unfolding s2_def prepare_retry_def Let_def
      by (cases force) (simp_all only: if_True if_False)
  qed
  have fr2: "fresh s2" using fr
    by (simp add: fresh_def attempts_made_def s2_def prepare_retry_def Let_def frame_simps)
  define bs where "bs = branch (se_cancel_at env) RetryCancel @ branch (se_shutdown_at env) RetryShutdown
       @ [(ls_now s2 + backoff, RetrySlept)]"
  obtain at ev where sel: "select_biased (ls_now s2) bs = Some (at, ev)"
    using select_biased_some [of bs "ls_now s2"] by (auto simp: bs_def)
  have at: "ls_now s2 \<le> at" "at \<le> ls_now s2 + backoff"
    using select_at_most [OF sel, of backoff RetrySlept] by (simp_all add: bs_def)
  define s3 where "s3 = s2\<lparr>ls_now := at\<rparr>"
  have ok3: "mid_ok env s0 s3" using at by (intro mid_ok_step [OF ok2]) (simp_all add: s3_def)
  have fr3: "fresh s3" using fr2 by (simp add: s3_def fresh_def attempts_made_def)
  have "backoff \<le> retry_backoff_delay (sp_retry_interval (ls_params s)) (sp_max_retries (ls_params s))"
    unfolding backoff_def retry_backoff_def using ok by (intro retry_backoff_mono) (simp add: mid_ok_def)
  then have b3: "in_bound env R s3"
    using time at n2 by (fastforce simp: in_bound_def last_bound_def elapsed_def in_time_def session_budget_def s3_def f2)
  obtain t where t: "(t, ev) \<in> set bs" "at = max (ls_now s2) t" using select_biased_cases [OF sel] by auto
  have eq: "retry_wait env force owner s = (case ev of
                   RetryCancel \<Rightarrow> (False, emit env (make_cancelled_result env s3) s3)
                 | RetryShutdown \<Rightarrow> (False, finish_with_cancelled env (Some ''application shutdown'') s3)
                 | RetrySlept \<Rightarrow> (True, s3))"
    using sel unfolding retry_wait_def Let_def s2_def [symmetric] backoff_def [symmetric] bs_def [symmetric] s3_def
    by (simp add: finish_with_cancelled_def Let_def split: retry_event.split)
  show ?thesis
  proof (cases ev)
    case RetryCancel
    then have "fired (se_cancel_at env) (ls_now s3)" using t by (auto simp: bs_def branch_member fired_def s3_def)
    with RetryCancel ok3 b3 show ?thesis by (auto simp: eq intro!: endedI make_cancelled_ok)
  next
    case RetryShutdown
    then have "fired (se_shutdown_at env) (ls_now s3)" using t by (auto simp: bs_def branch_member fired_def s3_def)
    with RetryShutdown ok3 b3 show ?thesis by (auto simp: eq intro!: finish_with_cancelled_ended)
  next
    case RetrySlept
    with ok3 fr3 b3 show ?thesis by (simp add: eq)
  qed
qed

lemma try_retry_ok:
  assumes ok: "mid_ok env s0 s" and time: "in_time s"
    and own: "force \<Longrightarrow> uses_bridge (sp_plan (ls_params s)) \<and> (\<exists>cid. owner = Some cid \<and> own_id env s cid)"
  shows "goes_well env R s0 (try_retry env st force owner s)"
proof (cases "sp_max_retries (ls_params s) \<le> ls_attempts_used s")
  case True
  with finish_with_failure_ended [OF ok in_time_bound [OF time]] show ?thesis by (simp add: try_retry_def)
next
  case False
  define s1 where "s1 = s\<lparr>ls_attempts_used := ls_attempts_used s + 1\<rparr>"
  have n: "unat (ls_attempts_used s + 1) = unat (ls_attempts_used s) + 1" using False by (intro unat_suc [of _ "sp_max_retries (ls_params s)"]) auto
  have le: "ls_attempts_used s \<le> ls_attempts_used s1" "ls_attempts_used s1 \<le> sp_max_retries (ls_params s)"
    using False by (simp_all add: s1_def word_le_nat_alt n not_le word_less_nat_alt)
  have c: "list_all (call_ok env s1) (ls_calls s)"
    using calls_ok_mono [of env s "ls_calls s" s1] ok le(1) by (simp add: mid_ok_def s1_def)
  have i: "in_flight_ok env s1"
    using in_flight_ok_mono [of env s s1] ok le(1) by (simp add: mid_ok_def s1_def)
  have "mid_ok env s0 s1"
    using ok c i le(2) n by (auto simp: session_inv_defs s1_def attempts_made_def)
  moreover have "fresh s1" using ok n by (simp add: fresh_def mid_ok_def attempts_made_def s1_def)
  moreover have "in_time s1" using time by (simp add: in_time_def elapsed_def session_budget_def s1_def)
  moreover have "uses_bridge (sp_plan (ls_params s1)) \<and> (\<exists>cid. owner = Some cid \<and> own_id env s1 cid)" if force
    using own [OF that] own_id_mono [OF _ le(1)] by (auto simp: s1_def)
  ultimately have "goes_well env R s0 (retry_wait env force owner s1)" by (intro retry_wait_ok)
  with False show ?thesis by (simp add: try_retry_def s1_def)
qed

lemma answered_cong: "ls_calls s' = ls_calls s \<Longrightarrow> answered env s' out = answered env s out"
  by (simp add: answered_def)

lemma result_ok_success:
  "answered env s OSuccess \<Longrightarrow> has_explicit_success_condition (sp_plan (ls_params s)) \<or> verified env s
     \<Longrightarrow> result_ok env (make_result Success msg s) s"
  by (simp add: result_ok_def make_result_def)

lemma conclude_success_ok:
  assumes ok: "mid_ok env s0 s" and time: "in_time s"
    and ans: "answered env s OSuccess"
  shows "goes_well env R s0 (conclude_success env st owner s)"
proof (cases "has_explicit_success_condition (sp_plan (ls_params s))")
  case True
  with ok time ans show ?thesis
    by (auto simp: conclude_success_def Let_def intro!: endedI in_time_bound result_ok_success)
next
  case False
  define rem where "rem = sp_login_timeout (ls_params s) - elapsed s"
  have rem: "rem \<le> session_budget s - elapsed s" by (simp add: rem_def session_budget_def)
  obtain v s1 where v: "verify_network_after_login env rem s = (v, s1)"
    by (cases "verify_network_after_login env rem s")
  note s1 = verify_ok [OF ok time rem v]
  have ans1: "answered env s1 OSuccess" using ans answered_cong [OF s1(4)] by simp
  show ?thesis
  proof (cases v)
    case VerifyOnline
    with s1 ans1 False show ?thesis
      by (auto simp: conclude_success_def Let_def v simp flip: rem_def
          intro!: endedI in_time_bound result_ok_success)
  next
    case VerifyCancelled
    with s1 False show ?thesis
      by (auto simp: conclude_success_def Let_def v simp flip: rem_def
          intro!: finish_with_cancelled_ended in_time_bound)
  next
    case VerifyRetryable
    define s2 where "s2 = s1\<lparr>ls_last_outcome := Some NetworkError\<rparr>"
    have "mid_ok env s0 s2" by (rule mid_ok_step [of env s0 s1]) (simp_all add: s1 s2_def)
    moreover have "in_time s2" using s1(1) by (simp add: s2_def in_time_def elapsed_def session_budget_def)
    ultimately have "goes_well env R s0 (try_retry env (st\<lparr>sr_outcome := NetworkError,
        sr_message := ''network verification failed''\<rparr>) False owner s2)"
      by (intro try_retry_ok) auto
    with VerifyRetryable False show ?thesis
      by (simp add: conclude_success_def Let_def v s2_def flip: rem_def)
  qed
qed

lemma conclude_attempt_ok:
  assumes ok: "mid_ok env s0 s" and time: "in_time s"
    and ans: "answered env s (sr_outcome st)" and id: "uses_bridge (sp_plan (ls_params s)) \<Longrightarrow> ls_attempt_cancel_id s \<noteq> None"
  shows "goes_well env R s0 (conclude_attempt env st s)"
proof -
  define s1 where "s1 = s\<lparr>ls_last_outcome := Some (sr_outcome st), ls_attempt_cancel_id := None\<rparr>"
  have ok1: "mid_ok env s0 s1" by (rule mid_ok_step [OF ok]) (simp_all add: s1_def)
  have t1: "in_time s1" using time by (simp add: s1_def in_time_def elapsed_def session_budget_def)
  have a1: "answered env s1 (sr_outcome st)" using ans by (simp add: s1_def answered_def)
  note fail = finish_with_failure_ended [OF ok1 in_time_bound [OF t1]]
  have own: "uses_bridge (sp_plan (ls_params s)) \<Longrightarrow> \<exists>cid. ls_attempt_cancel_id s = Some cid \<and> own_id env s1 cid"
    using ok id by (auto simp: mid_ok_def in_flight_ok_def s1_def own_id_def)
  have retry: "goes_well env R s0 (try_retry env st
      (uses_bridge (sp_plan (ls_params s)) \<and> should_force_recycle (sr_outcome st)) (ls_attempt_cancel_id s) s1)"
    using own by (intro try_retry_ok [OF ok1 t1]) (auto simp: s1_def)
  have success: "goes_well env R s0 (conclude_success env st (ls_attempt_cancel_id s) s1)" if "sr_outcome st = OSuccess"
    using a1 that by (intro conclude_success_ok [OF ok1 t1]) simp
  have cancelled: "ended env R s0 (finish_with_cancelled env None s1)" if "sr_outcome st = OCancelled"
    using a1 that by (intro finish_with_cancelled_ended [OF ok1 in_time_bound [OF t1]]) simp
  have p: "ls_params s1 = ls_params s" "ls_attempts_used s1 = ls_attempts_used s" by (simp_all add: s1_def)
  show ?thesis
    using fail retry success cancelled
    unfolding conclude_attempt_def Let_def s1_def [symmetric] p
    by (cases "sr_outcome st") simp_all
qed

lemma begin_attempt_ok:
  assumes ok: "mid_ok env s0 s"
  shows "mid_ok env s0 (begin_attempt env (se_uuid env (ls_attempts_used s)) s)" (is "mid_ok env s0 ?s")
proof -
  have "list_all (call_ok env ?s) (ls_calls s)"
    using calls_ok_mono [of env s "ls_calls s" ?s] ok by (simp add: mid_ok_def frame_simps)
  moreover have "in_flight_ok env ?s"
    using ok by (auto simp: mid_ok_def in_flight_ok_def own_id_def frame_simps)
  ultimately show ?thesis using ok
    by (clarsimp simp: session_inv_defs frame_simps attempts_made_def)
qed

lemma cancel_attempt_ok:
  assumes ok: "mid_ok env s0 s" and "\<And>c. cid = Some c \<Longrightarrow> own_id env s c"
  shows "mid_ok env s0 (cancel_attempt cid s)"
  using assms(2) by (auto simp: cancel_attempt_def ok split: option.split intro!: mid_ok_call [OF ok])

lemma cancel_attempt_frame [frame_simps]:
  "ls_now (cancel_attempt cid s) = ls_now s" "ls_start (cancel_attempt cid s) = ls_start s"
  "ls_params (cancel_attempt cid s) = ls_params s"
  by (simp_all add: cancel_attempt_def frame_simps split: option.split)

lemma in_bound_cancel: "in_bound env R (cancel_attempt cid s) = in_bound env R s"
  by (simp add: in_bound_def last_bound_def elapsed_def session_budget_def frame_simps)

lemma session_attempt_ok:
  assumes ok: "mid_ok env s0 s" and fr: "fresh s" and time: "in_time s"
  shows "goes_well env R s0 (session_attempt env s)"
proof -
  define cid where "cid = se_uuid env (ls_attempts_used s)"
  define s1 where "s1 = begin_attempt env cid s"
  have ok1: "mid_ok env s0 s1" unfolding s1_def cid_def by (rule begin_attempt_ok [OF ok])
  have fr1: "fresh s1" using fr by (simp add: fresh_def attempts_made_def s1_def frame_simps)
  have t1: "in_time s1" using time by (simp add: in_time_def elapsed_def session_budget_def s1_def frame_simps)
  obtain ev s2 where r: "run_attempt env cid s1 = (ev, s2)" by (cases "run_attempt env cid s1")
  note s2 = run_attempt_ok [OF ok1 fr1 t1 r]
  have ok2: "mid_ok env s0 s2" and t2: "in_time s2" using s2(1) by simp_all
  have own: "own_id env s2 cid" by (auto simp: own_id_def s2(2) s1_def frame_simps cid_def)
  have ok3: "mid_ok env s0 (cancel_attempt (Some cid) s2)" using own by (intro cancel_attempt_ok [OF ok2]) simp
  have b3: "in_bound env R (cancel_attempt (Some cid) s2)" using in_time_bound [OF t2] by (simp add: in_bound_cancel)
  have eq: "session_attempt env s = (case ev of
        ExecCancel \<Rightarrow> (False, finish_with_cancelled env None (cancel_attempt (Some cid) s2))
      | ExecShutdown \<Rightarrow> (False, finish_with_cancelled env (Some ''application shutdown'') (cancel_attempt (Some cid) s2))
      | ExecTimeout \<Rightarrow> (False, finish_with_failure env ''login timed out'' (cancel_attempt (Some cid) s2))
      | ExecDone (Inl e) \<Rightarrow> (False, finish_with_failure env e s2)
      | ExecDone (Inr structured) \<Rightarrow> conclude_attempt env structured s2)"
    using r by (simp add: session_attempt_def Let_def s1_def cid_def split: exec_event.split sum.split)
  have id: "uses_bridge (sp_plan (ls_params s2)) \<Longrightarrow> ls_attempt_cancel_id s2 \<noteq> None"
    by (simp add: s2(3,4) s1_def frame_simps)
  show ?thesis
  proof (cases ev)
    case ExecCancel
    have "ended env R s0 (finish_with_cancelled env None (cancel_attempt (Some cid) s2))"
      using s2(6) [OF ExecCancel] by (intro finish_with_cancelled_ended [OF ok3 b3]) (simp add: frame_simps)
    with ExecCancel show ?thesis by (simp add: eq)
  next
    case ExecShutdown
    have "ended env R s0 (finish_with_cancelled env (Some ''application shutdown'') (cancel_attempt (Some cid) s2))"
      using s2(7) [OF ExecShutdown] by (intro finish_with_cancelled_ended [OF ok3 b3]) (simp add: frame_simps)
    with ExecShutdown show ?thesis by (simp add: eq)
  next
    case ExecTimeout
    then show ?thesis using finish_with_failure_ended [OF ok3 b3] by (simp add: eq)
  next
    case (ExecDone x)
    show ?thesis
    proof (cases x)
      case (Inl e)
      then show ?thesis using finish_with_failure_ended [OF ok2 in_time_bound [OF t2]] by (simp add: eq ExecDone)
    next
      case (Inr st)
      then have "answered env s2 (sr_outcome st)" using s2(5) ExecDone by simp
      from conclude_attempt_ok [OF ok2 t2 this id] show ?thesis by (simp add: eq ExecDone Inr)
    qed
  qed
qed

lemma session_round_ok:
  assumes ok: "mid_ok env s0 s" and fr: "fresh s" and bound: "in_bound env R s"
  shows "goes_well env R s0 (session_round env s)"
proof (cases "fired (se_cancel_at env) (ls_now s)")
  case True
  then have "ended env R s0 (finish_with_cancelled env None s)"
    by (intro finish_with_cancelled_ended [OF ok bound]) simp
  with True show ?thesis by (simp add: session_round_def)
next
  case False
  show ?thesis
  proof (cases "session_budget s < elapsed s")
    case True
    have "mid_ok env s0 (cancel_attempt (ls_attempt_cancel_id s) s)"
      using ok by (intro cancel_attempt_ok [OF ok]) (simp add: mid_ok_def in_flight_ok_def)
    then have "ended env R s0 (finish_with_failure env ''login timed out'' (cancel_attempt (ls_attempt_cancel_id s) s))"
      by (intro finish_with_failure_ended) (simp_all add: in_bound_cancel bound)
    with True False show ?thesis by (simp add: session_round_def)
  next
    case False2: False
    then have "in_time s" by (simp add: in_time_def)
    with session_attempt_ok [OF ok fr] False False2 show ?thesis by (simp add: session_round_def)
  qed
qed

end
