(* ===== verification/Login_Session_Props.thy ===== *)
theory Login_Session_Props
  imports Login_Session_Inv
begin

text \<open>
  What holds of a whole login session: it ends, with one terminal result that is accounted for
  everywhere, within its attempts and, up to the last wait, within its time; a success is a
  verified one; and a session makes only its own calls on the bridge.
\<close>

section \<open>The whole session\<close>

definition loop_inv :: "session_env \<Rightarrow> duration \<Rightarrow> login_session \<Rightarrow> login_session \<Rightarrow> bool" where
  "loop_inv env R s0 s \<longleftrightarrow> mid_ok env s0 s \<and> fresh s \<and> in_bound env R s"

interpretation attempts: round_loop "session_round env" "session_loop env" "loop_inv env R s0" retries_left "ended env R s0"
  for env R s0
proof
  show "session_loop env s = (case session_round env s of (go, s') \<Rightarrow> if go then session_loop env s' else s')" for s
    by (rule session_loop.simps)
  show "loop_inv env R s0 s' \<and> retries_left s' < retries_left s"
    if "loop_inv env R s0 s" "session_round env s = (True, s')" for s s'
    using session_round_ok [of env s0 s R] that retries_left_falls [OF that(2)] by (simp add: loop_inv_def)
  show "ended env R s0 s'" if "loop_inv env R s0 s" "session_round env s = (False, s')" for s s'
    using session_round_ok [of env s0 s R] that by (simp add: loop_inv_def)
qed

text \<open>The state in which the loop is entered.\<close>

definition session_entry :: "session_env \<Rightarrow> session_params \<Rightarrow> instant \<Rightarrow> status_snapshot \<Rightarrow> metrics option
    \<Rightarrow> login_history_entry list \<Rightarrow> login_session" where
  "session_entry env params now status ms history =
     merge_login env LoginRunning (Some (sp_source params)) ''logging in'' 0
       (login_session_new params now status ms history)"

lemma session_run_entry:
  "session_run env (login_session_new params now status ms history)
     = session_loop env (session_entry env params now status ms history)"
  by (simp add: session_run_def session_entry_def login_session_new_def)

lemma session_entry_simps [frame_simps]:
  "ls_params (session_entry env params now status ms history) = params"
  "ls_start (session_entry env params now status ms history) = now"
  "ls_now (session_entry env params now status ms history) = now"
  "ls_results (session_entry env params now status ms history) = []"
  "ls_metrics (session_entry env params now status ms history) = ms"
  "ls_history (session_entry env params now status ms history) = history"
  "ls_calls (session_entry env params now status ms history) = []"
  "ls_attempts_used (session_entry env params now status ms history) = 0"
  "ls_attempt_cancel_id (session_entry env params now status ms history) = None"
  by (simp_all add: session_entry_def frame_simps login_session_new_def)

lemma session_entry_inv:
  "loop_inv env R (session_entry env params now status ms history) (session_entry env params now status ms history)"
  by (simp add: loop_inv_def session_inv_defs in_flight_ok_def attempts_made_def fresh_def in_bound_def
      elapsed_def frame_simps)

lemma session_run_ended:
  "ended env R (session_entry env params now status ms history)
     (session_run env (login_session_new params now status ms history))"
  unfolding session_run_entry by (rule attempts.run_post [OF session_entry_inv])

lemma close_browser_simps [frame_simps]:
  "ls_params (close_browser env r s) = ls_params s" "ls_start (close_browser env r s) = ls_start s"
  "ls_now (close_browser env r s) = ls_now s" "ls_results (close_browser env r s) = ls_results s"
  "ls_metrics (close_browser env r s) = ls_metrics s" "ls_history (close_browser env r s) = ls_history s"
  "ls_status (close_browser env r s) = ls_status s" "ls_attempts_used (close_browser env r s) = ls_attempts_used s"
  by (simp_all add: close_browser_def frame_simps)

lemma emit_facts [frame_simps]:
  "ls_params (emit env r s) = ls_params s" "ls_start (emit env r s) = ls_start s"
  "ls_now (emit env r s) = ls_now s" "ls_attempts_used (emit env r s) = ls_attempts_used s"
  "ls_results (emit env r s) = ls_results s @ [r]"
  "ls_metrics (emit env r s) = map_option (count_terminal (history_of (lr_terminal r))) (ls_metrics s)"
  by (simp_all add: emit_def Let_def frame_simps split: prod.split)

lemma emit_status:
  "ss_login_status (ls_status (emit env r s)) = fst (terminal_status (history_of (lr_terminal r)) (lr_message r))
   \<and> ss_retry_count (ls_status (emit env r s)) = sat_sub (lr_attempts r) 1"
  by (simp add: emit_def Let_def frame_simps merge_login_def merge.simps split: prod.split)

lemma emit_history:
  "ls_history (emit env r s) = ls_history s @ (if se_record env (ls_now s) then [history_entry env r s] else [])"
  by (auto simp: emit_def Let_def frame_simps history_entry_def split: prod.split)

lemma emit_calls:
  "ls_calls (emit env r s) = ls_calls s
     \<or> uses_bridge (sp_plan (ls_params s)) \<and> (\<exists>keep. ls_calls (emit env r s) = ls_calls s @ [(ls_now s, CloseBrowser keep)])"
  by (auto simp: emit_def Let_def frame_simps close_browser_def split: prod.split)

lemma session_endE:
  assumes "s' = session_run env (login_session_new params now status ms history)"
  obtains s r where "mid_ok env (session_entry env params now status ms history) s" "in_bound env R s"
    "result_ok env r s" "s' = emit env r s" "ls_params s = params" "ls_start s = now"
    "ls_results s = []" "ls_metrics s = ms" "ls_history s = history"
  using session_run_ended [of env R params now status ms history] assms
  unfolding ended_def by (auto simp: session_inv_defs frame_simps)

section \<open>Properties\<close>

text \<open>C8. A session always ends, with exactly one terminal result: it makes at most one attempt more than
  the retries allow, and the result slot, the board, the counter of its kind and (unless the write
  fails) one history entry all tell the same terminal state.\<close>

theorem login_session_completes:
  "\<exists>r e. let s' = session_run env (login_session_new params now status ms history)
     in ls_results s' = [r]
      \<and> lr_attempts r - 1 \<le> sp_max_retries params
      \<and> length (filter (is_attempt \<circ> snd) (ls_calls s')) \<le> unat (sp_max_retries params) + 1
      \<and> lr_source r = sp_source params
      \<and> ss_login_status (ls_status s') =
          (case lr_terminal r of Success \<Rightarrow> LoginSuccess | Failed \<Rightarrow> LoginFailed | Cancelled \<Rightarrow> LoginCancelled)
      \<and> ls_metrics s' = map_option
          (case lr_terminal r of Success \<Rightarrow> inc_login_success | Failed \<Rightarrow> inc_login_failure
           | Cancelled \<Rightarrow> inc_login_cancel) ms
      \<and> ls_history s' = history @ (if se_record env (ls_now s') then [e] else [])
      \<and> he_result e = history_of (lr_terminal r) \<and> he_channel e = Some (plan_channel (sp_plan params))
      \<and> he_message e = lr_message r"
proof -
  obtain s r where e: "mid_ok env (session_entry env params now status ms history) s" "result_ok env r s"
    "session_run env (login_session_new params now status ms history) = emit env r s"
    "ls_params s = params" "ls_results s = []" "ls_metrics s = ms" "ls_history s = history"
    by (rule session_endE [where R = 0, OF refl]) blast
  have "attempts_made s \<le> unat (ls_attempts_used s) + 1" "ls_attempts_used s \<le> sp_max_retries params"
    using e(1,4) by (simp_all add: mid_ok_def)
  then have n: "attempts_made s \<le> unat (sp_max_retries params) + 1" "lr_attempts r - 1 \<le> sp_max_retries params"
    using e(2) by (simp_all add: word_le_nat_alt result_ok_def)
  have "length (filter (is_attempt \<circ> snd) (ls_calls (emit env r s))) = attempts_made s"
    using emit_calls [of env r s] by (auto simp: attempts_made_def)
  with n e(2) show ?thesis unfolding Let_def e(3)
    by (intro exI [of _ r] exI [of _ "history_entry env r s"])
       (cases "lr_terminal r"; simp add: frame_simps e(4-7) emit_status emit_history history_entry_def result_ok_def)
qed

text \<open>C9. A reported success is real: the worker (or the request, or the script) answered an attempt of
  this session with success, and either the task itself judges the login by a condition or a network
  check of this session's own egress then reported the internet reachable. A reported cancellation
  has a fired token or an attempt answered as cancelled behind it.\<close>

theorem login_success_grounded:
  fixes env params now status ms history
  assumes "r \<in> set (ls_results (session_run env (login_session_new params now status ms history)))"
  defines "s' \<equiv> session_run env (login_session_new params now status ms history)"
  shows "(lr_terminal r = Success \<longrightarrow>
        (\<exists>t c u structured. (t, c) \<in> set (ls_calls s') \<and> is_attempt c
           \<and> attempt_answer env c t = Some (u, ExecDone (Inr structured)) \<and> sr_outcome structured = OSuccess)
        \<and> (has_explicit_success_condition (sp_plan params)
           \<or> (\<exists>t d report. now \<le> t \<and> se_verify env (sp_network params) t = Some (d, Inr report)
                \<and> ca_status (pr_assessment report) = Online \<and> t + d = ls_now s')))
    \<and> (lr_terminal r = Cancelled \<longrightarrow> fired (se_cancel_at env) (ls_now s') \<or> fired (se_shutdown_at env) (ls_now s')
        \<or> (\<exists>t c u structured. (t, c) \<in> set (ls_calls s') \<and> is_attempt c
           \<and> attempt_answer env c t = Some (u, ExecDone (Inr structured)) \<and> sr_outcome structured = OCancelled))"
proof -
  obtain s r' where e: "result_ok env r' s" "s' = emit env r' s" "ls_params s = params" "ls_start s = now" "ls_results s = []"
    unfolding s'_def by (rule session_endE [where R = 0, OF refl]) blast
  have r: "r = r'" using assms(1) unfolding s'_def [symmetric] by (simp add: e frame_simps)
  have "set (ls_calls s) \<subseteq> set (ls_calls s')" using emit_calls [of env r' s] by (auto simp: e(2))
  then have a: "answered env s out \<Longrightarrow> answered env s' out" for out by (auto simp: answered_def)
  have n: "ls_now s' = ls_now s" by (simp add: e(2) frame_simps)
  have su: "answered env s OSuccess \<and> (has_explicit_success_condition (sp_plan params) \<or> verified env s)"
    if "lr_terminal r = Success" using e(1,3) that by (simp add: result_ok_def r)
  have ca: "fired (se_cancel_at env) (ls_now s) \<or> fired (se_shutdown_at env) (ls_now s) \<or> answered env s OCancelled"
    if "lr_terminal r = Cancelled" using e(1) that by (simp add: result_ok_def r)
  have v: "verified env s \<longleftrightarrow> (\<exists>t d report. now \<le> t \<and> se_verify env (sp_network params) t = Some (d, Inr report)
                \<and> ca_status (pr_assessment report) = Online \<and> t + d = ls_now s')"
    by (simp add: verified_def e(3,4) n)
  show ?thesis using su ca a [of OSuccess] a [of OCancelled] unfolding v n [symmetric] answered_def [symmetric] by blast
qed


text \<open>A session never reaches into what it does not own: without the browser channel it makes no call
  on the bridge at all, and with it every cancellation and every recycling names an attempt of this
  very session.\<close>

theorem login_session_owns_calls:
  assumes "(t, c) \<in> set (ls_calls (session_run env (login_session_new params now status ms history)))"
  shows "if uses_bridge (sp_plan params)
    then (case c of
            Execute m a \<Rightarrow> True
          | RunOnce ch \<Rightarrow> False
          | CancelAttempt cid \<Rightarrow> \<exists>k\<le> sp_max_retries params. cid = se_uuid env k
          | ForceRecycleIfUnowned owner \<Rightarrow> \<exists>k\<le> sp_max_retries params. owner = Some (se_uuid env k)
          | CloseBrowser keep \<Rightarrow> True)
    else c = RunOnce (plan_channel (sp_plan params))"
proof -
  obtain s r where e: "mid_ok env (session_entry env params now status ms history) s"
    "session_run env (login_session_new params now status ms history) = emit env r s" "ls_params s = params"
    by (rule session_endE [where R = 0, OF refl]) blast
  have own: "\<exists>k\<le> sp_max_retries params. cid = se_uuid env k" if "own_id env s cid" for cid
    using that e(1,3) unfolding own_id_def mid_ok_def by (metis order_trans)
  from assms e(2) consider "(t, c) \<in> set (ls_calls s)" | keep where "c = CloseBrowser keep" "uses_bridge (sp_plan params)"
    using emit_calls [of env r s] by (auto simp: e(3))
  then show ?thesis
  proof cases
    case 1
    then have "call_ok env s (t, c)" using e(1) by (auto simp: mid_ok_def list_all_iff)
    with own show ?thesis by (cases c) (auto simp: e(3))
  qed simp
qed

section \<open>Witnesses\<close>

definition demo_online :: probe_report where
  "demo_online = \<lparr>pr_evidence = probe_evidence_default,
     pr_assessment = assessment_default\<lparr>ca_status := Online\<rparr>, pr_latency_ms = 0, pr_check_number = 1\<rparr>"

text \<open>A direct request that succeeds after a second; a worker that stays busy.\<close>

definition demo_session_env :: session_env where
  "demo_session_env =
     \<lparr>se_cancel_at = None, se_shutdown_at = None, se_cancel_reason = (\<lambda>_. None), se_wall = (\<lambda>_. demo_wall 0),
      se_uuid = (\<lambda>_. ''id''), se_execute = (\<lambda>_ _ _. Some (from_secs 2, Inl WorkerBusy)),
      se_run_once = (\<lambda>_ _. Some (from_secs 1, bare_result OSuccess ''ok'')), se_parse = (\<lambda>_. Inl []),
      se_post_login_delay = (\<lambda>_. 5), se_verify = (\<lambda>_ _. Some (from_secs 1, Inr demo_online)),
      se_recycle = (\<lambda>_ _. (from_secs 3, True)), se_record = (\<lambda>_. True), se_has_live_worker = (\<lambda>_. False),
      se_keep_alive = (\<lambda>_. False)\<rparr>"

definition demo_params :: "login_attempt_plan \<Rightarrow> session_params" where
  "demo_params plan =
     \<lparr>sp_source = SrcAuto, sp_task_id = None, sp_max_retries = 1, sp_retry_interval = from_secs 100,
      sp_login_timeout = from_secs 10, sp_profile_id = ''default'', sp_network = network_settings_default,
      sp_plan = plan\<rparr>"

definition demo_run :: "login_attempt_plan \<Rightarrow> login_session" where
  "demo_run plan = session_run demo_session_env (login_session_new (demo_params plan) 0 status_snapshot_default None [])"

lemmas demo_run_defs = demo_run_def session_run_def session_loop.simps session_round_def session_attempt_def
  run_attempt_def attempt_call_def attempt_answer_def begin_attempt_def conclude_attempt_def
  conclude_success_def verify_network_after_login_def finish_with_failure_def finish_with_cancelled_def
  make_result_def emit_def merge_login_def call_on_def close_browser_def history_entry_def branch_def fired_def
  session_budget_def elapsed_def demo_session_env_def demo_params_def login_session_new_def
  bare_result_def browser_result_def Let_def

lemma demo_http_result:
  "map lr_terminal (ls_results (demo_run HttpPlan)) = [Success]"
  by (simp add: demo_run_defs demo_online_def from_secs_def NANOS_def)

theorem login_success_grounded_witness:
  "\<exists>t d report. se_verify demo_session_env network_settings_default t = Some (d, Inr report)
     \<and> ca_status (pr_assessment report) = Online \<and> t + d = ls_now (demo_run HttpPlan)"
proof -
  obtain r where r: "ls_results (demo_run HttpPlan) = [r]" "lr_terminal r = Success"
    using demo_http_result by (auto simp: map_eq_Cons_conv)
  show ?thesis
    using login_success_grounded [of r demo_session_env "demo_params HttpPlan" 0 status_snapshot_default None "[]"] r
    unfolding demo_run_def [symmetric] by (auto simp: demo_params_def)
qed

text \<open>The busy worker: two seconds of attempt, three of recycling and a wait of a hundred, with a
  deadline of ten.\<close>

lemma demo_browser_run:
  "map snd (ls_calls (demo_run (BrowserPlan [])))
     = [Execute ''execute_login_attempt'' [(''cancel_id'', JString ''id'')], ForceRecycleIfUnowned (Some ''id'')]
   \<and> ls_now (demo_run (BrowserPlan [])) = from_secs 105
   \<and> map lr_terminal (ls_results (demo_run (BrowserPlan []))) = [Failed]"
  by (simp add: demo_run_defs from_secs_def NANOS_def try_retry_def retry_wait_def prepare_retry_def retry_backoff_def
      retry_backoff_delay_def sat_sub_def should_force_recycle_def DURATION_MAX_def cancel_attempt_def)


theorem login_session_owns_calls_witness:
  "ForceRecycleIfUnowned (Some ''id'') \<in> set (map snd (ls_calls (demo_run (BrowserPlan []))))
   \<and> (\<exists>k \<le> sp_max_retries (demo_params (BrowserPlan [])). Some ''id'' = Some (se_uuid demo_session_env k))"
proof -
  have c: "ForceRecycleIfUnowned (Some ''id'') \<in> set (map snd (ls_calls (demo_run (BrowserPlan []))))"
    unfolding demo_browser_run [THEN conjunct1] by simp
  then obtain t where t: "(t, ForceRecycleIfUnowned (Some ''id'')) \<in> set (ls_calls (demo_run (BrowserPlan [])))" by auto
  from login_session_owns_calls [OF t [unfolded demo_run_def]] have
    "\<exists>k \<le> sp_max_retries (demo_params (BrowserPlan [])). Some ''id'' = Some (se_uuid demo_session_env k)"
    by (simp add: demo_params_def)
  with c show ?thesis by blast
qed

end
