(* ===== verification/Task_Http.thy ===== *)
theory Task_Http
  imports Monitor_Probes
begin

text \<open>
  The direct login task of \<open>tasks/models.rs\<close>: requests, the ordered steps of a flow and what the
  save path and the execution path both check of them. A \<open>f64\<close> number of seconds is kept as the
  nanoseconds \<open>Duration::from_secs_f64\<close> makes of it, beside the values that are not finite. The
  \<open>regex\<close> crate is a parameter: it compiles a pattern or not, and a compiled one has a number of
  groups (the whole match included) and yields the groups of its matches in a text from left to right.
\<close>

section \<open>Data\<close>

datatype float64 = Nanos int | PosInf | NegInf | NaN

type_synonym regex_engine = "string \<Rightarrow> (nat \<times> (string \<Rightarrow> string option list list)) option"

datatype http_request_method = Get | Post

record http_pre_request =
  pr_method :: http_request_method
  pr_url :: string
  pr_headers :: string
  pr_body :: string
  pr_extract :: string
  pr_name :: string

record http_action_request =
  ar_method :: http_request_method
  ar_url :: string
  ar_headers :: string
  ar_body :: string
  ar_wait_secs :: float64

datatype http_flow_step_kind = RequestStep | TransformStep

datatype http_step_on_error = StopOnError | ContinueOnError

record http_extract_rule =
  er_source :: string
  er_name :: string

record http_flow_step =
  fs_id :: string
  fs_name :: string
  fs_kind :: http_flow_step_kind
  fs_method :: http_request_method
  fs_url :: string
  fs_headers :: string
  fs_body :: string
  fs_extract :: string
  fs_extract_as :: string
  fs_extracts :: "http_extract_rule list"
  fs_stop_on_redirect :: bool
  fs_script :: string
  fs_on_error :: http_step_on_error
  fs_wait_secs :: float64

datatype http_failure_action = FailCredential | FailRetry | FailManual

datatype http_success_check = CheckResponse | CheckNetwork

record http_task_config =
  ht_task_id :: string
  ht_name :: string
  ht_description :: string
  ht_schema_version :: u32
  ht_steps :: "http_flow_step list"
  ht_result_step_id :: string
  ht_method :: http_request_method
  ht_url :: string
  ht_auth_url :: string
  ht_headers :: string
  ht_body :: string
  ht_success_pattern :: string
  ht_failure_pattern :: string
  ht_failure_action :: http_failure_action
  ht_success_check :: http_success_check
  ht_crypto_script :: string
  ht_pre_request :: "http_pre_request option"
  ht_logout_request :: "http_action_request option"
  ht_ignore_https_errors :: "bool option"

definition http_task_config_default :: http_task_config where
  "http_task_config_default =
     \<lparr>ht_task_id = [], ht_name = ''unnamed task'', ht_description = [], ht_schema_version = 1, ht_steps = [],
      ht_result_step_id = [], ht_method = Get, ht_url = [], ht_auth_url = [], ht_headers = [], ht_body = [],
      ht_success_pattern = [], ht_failure_pattern = [], ht_failure_action = FailCredential,
      ht_success_check = CheckResponse, ht_crypto_script = [], ht_pre_request = None, ht_logout_request = None,
      ht_ignore_https_errors = None\<rparr>"

section \<open>Addresses\<close>

text \<open>The address of a request template has to name a scheme and a host; placeholders may follow.\<close>

definition url_shape :: "string \<Rightarrow> string \<times> string" where
  "url_shape url =
     (let (scheme, rest) = (case split_once_str ''://'' url of Some p \<Rightarrow> p | None \<Rightarrow> ([], []))
      in (to_ascii_lowercase scheme, authority_of rest))"

definition http_scheme :: "string \<Rightarrow> bool" where
  "http_scheme scheme \<longleftrightarrow> scheme = ''http'' \<or> scheme = ''https''"

section \<open>Requests before the login\<close>

definition extract_path :: "http_pre_request \<Rightarrow> string + string" where
  "extract_path pre =
     (let trimmed = trim (pr_extract pre)
      in if trimmed = [] then Inl ''no extraction''
         else case strip_prefix trimmed ''json:'' of
                Some path \<Rightarrow> if trim path \<noteq> [] then Inr (trim path) else Inl ''no field to extract''
              | None \<Rightarrow> Inl (''only json: is supported, not '' @ trimmed))"

definition placeholder_name :: "http_pre_request \<Rightarrow> string" where
  "placeholder_name pre =
     (let explicit = trim (pr_name pre)
      in if explicit \<noteq> [] then explicit
         else case extract_path pre of
                Inr path \<Rightarrow> (case rsplit_once CHR ''.'' path of Some (_, l) \<Rightarrow> l | None \<Rightarrow> path)
              | Inl _ \<Rightarrow> ''pre'')"

definition validate_request_url :: "string \<Rightarrow> string + unit" where
  "validate_request_url raw =
     (let url = trim raw; (scheme, host) = url_shape url
      in if url = [] then Inl ''no request address''
         else if \<not> http_scheme scheme then Inl ''only http and https''
         else if host = [] then Inl ''no host'' else Inr ())"

definition pre_request_validate :: "http_pre_request \<Rightarrow> string + unit" where
  "pre_request_validate pre =
     bind_res (validate_request_url (pr_url pre)) (\<lambda>_. bind_res (extract_path pre) (\<lambda>_. Inr ()))"

text \<open>The longest wait after a request, in nanoseconds.\<close>

definition MAX_WAIT_SECS :: int where
  "MAX_WAIT_SECS = int (from_secs 30)"

definition action_request_validate :: "http_action_request \<Rightarrow> string + unit" where
  "action_request_validate act =
     bind_res (validate_request_url (ar_url act)) (\<lambda>_.
       case ar_wait_secs act of
         Nanos n \<Rightarrow> if n < 0 then Inl ''negative wait'' else if MAX_WAIT_SECS < n then Inl ''wait too long'' else Inr ()
       | _ \<Rightarrow> Inl ''wait not finite'')"

section \<open>Steps\<close>

definition is_name_byte :: "char \<Rightarrow> bool" where
  "is_name_byte c \<longleftrightarrow> is_ascii_alphanumeric c \<or> c = CHR ''_''"

definition extract_rule_validate :: "regex_engine \<Rightarrow> http_extract_rule \<Rightarrow> string + unit" where
  "extract_rule_validate rx rule =
     (let source = trim (er_source rule)
      in if 1024 < length source then Inl ''rule too long''
         else case split_once CHR '':'' source of
                None \<Rightarrow> Inl ''rule without a kind''
              | Some (kind, arg) \<Rightarrow>
                  if trim arg = [] then Inl ''rule without a field''
                  else bind_res
                    (if kind \<in> {''json'', ''header'', ''url'', ''redirect'', ''html''} then Inr ()
                     else if kind = ''regex''
                       then (case rx arg of
                               None \<Rightarrow> Inl ''invalid pattern''
                             | Some (groups, _) \<Rightarrow> if groups < 2 then Inl ''pattern without a group'' else Inr ())
                     else Inl ''unknown kind of rule'')
                    (\<lambda>_. if er_name rule = [] \<or> 64 < length (er_name rule) \<or> \<not> list_all is_name_byte (er_name rule)
                         then Inl ''invalid name of a variable'' else Inr ()))"

fun validate_rules :: "regex_engine \<Rightarrow> string list \<Rightarrow> http_extract_rule list \<Rightarrow> string + unit" where
  "validate_rules rx names [] = Inr ()"
| "validate_rules rx names (rule # rules) =
     bind_res (extract_rule_validate rx rule) (\<lambda>_.
       if er_name rule \<in> set names then Inl (''duplicate variable '' @ er_name rule)
       else validate_rules rx (er_name rule # names) rules)"

definition step_limits :: "http_flow_step \<Rightarrow> (string \<times> nat \<times> nat) list" where
  "step_limits step =
     [(''address'', length (fs_url step), 8 * 1024), (''headers'', length (fs_headers step), 64 * 1024),
      (''body'', length (fs_body step), 256 * 1024), (''extraction'', length (fs_extract step), 8 * 1024),
      (''placeholder'', length (fs_extract_as step), 128)]"

text \<open>The first limit that is exceeded, as every size check of the tasks reports it.\<close>

definition check_limits :: "(string \<times> nat \<times> nat) list \<Rightarrow> string + unit" where
  "check_limits checks =
     (case find (\<lambda>(label, actual, limit). limit < actual) checks of
        Some (label, actual, limit) \<Rightarrow> Inl (label @ '' too long'')
      | None \<Rightarrow> Inr ())"

definition pre_of_step :: "http_flow_step \<Rightarrow> http_pre_request" where
  "pre_of_step step =
     \<lparr>pr_method = Get, pr_url = [], pr_headers = [], pr_body = [], pr_extract = fs_extract step,
      pr_name = fs_extract_as step\<rparr>"

definition validate_extraction :: "regex_engine \<Rightarrow> http_flow_step \<Rightarrow> string + unit" where
  "validate_extraction rx step =
     (if 12 < length (fs_extracts step) then Inl ''more than 12 variables''
      else bind_res (validate_rules rx [] (fs_extracts step)) (\<lambda>_.
        if fs_extracts step \<noteq> [] \<and> trim (fs_extract step) \<noteq> [] then Inl ''two kinds of extraction''
        else bind_res
          (if trim (fs_extract step) \<noteq> [] then bind_res (extract_path (pre_of_step step)) (\<lambda>_. Inr ())
           else if trim (fs_extract_as step) \<noteq> [] then Inl ''placeholder without extraction'' else Inr ())
          (\<lambda>_. if trim (fs_extract_as step) \<noteq> [] \<and> \<not> list_all is_name_byte (fs_extract_as step)
               then Inl ''invalid placeholder'' else Inr ())))"

definition wait_valid :: "float64 \<Rightarrow> bool" where
  "wait_valid w = (case w of Nanos n \<Rightarrow> 0 \<le> n \<and> n \<le> MAX_WAIT_SECS | _ \<Rightarrow> False)"

definition request_step_validate :: "regex_engine \<Rightarrow> http_flow_step \<Rightarrow> string + unit" where
  "request_step_validate rx step =
     (let (scheme, host) = url_shape (trim (fs_url step))
      in if trim (fs_script step) \<noteq> [] then Inl ''a request with a script''
         else if \<not> http_scheme scheme \<or> host = [] then Inl ''not an http address''
         else bind_res (check_limits (step_limits step)) (\<lambda>_.
           bind_res (validate_extraction rx step) (\<lambda>_.
             if wait_valid (fs_wait_secs step) then Inr () else Inl ''invalid wait'')))"

definition transform_step_validate :: "http_flow_step \<Rightarrow> string + unit" where
  "transform_step_validate step =
     (if trim (fs_url step) \<noteq> [] \<or> trim (fs_headers step) \<noteq> [] \<or> trim (fs_body step) \<noteq> []
         \<or> trim (fs_extract step) \<noteq> [] \<or> trim (fs_extract_as step) \<noteq> [] \<or> fs_extracts step \<noteq> []
         \<or> fs_stop_on_redirect step \<or> fs_on_error step \<noteq> StopOnError \<or> fs_wait_secs step \<noteq> Nanos 0
      then Inl ''a computation takes a script only''
      else if trim (fs_script step) = [] then Inl ''no script''
      else if 128 * 1024 < length (fs_script step) then Inl ''script too long'' else Inr ())"

definition flow_step_validate :: "regex_engine \<Rightarrow> http_flow_step \<Rightarrow> string + unit" where
  "flow_step_validate rx step =
     (if fs_id step = [] \<or> 64 < length (fs_id step)
         \<or> \<not> list_all (\<lambda>c. is_name_byte c \<or> c = CHR ''-'') (fs_id step) then Inl ''invalid id of a step''
      else if 128 < length (fs_name step) then Inl ''name too long''
      else case fs_kind step of
             RequestStep \<Rightarrow> request_step_validate rx step
           | TransformStep \<Rightarrow> transform_step_validate step)"

section \<open>Flows\<close>

fun validate_steps :: "regex_engine \<Rightarrow> string list \<Rightarrow> http_flow_step list \<Rightarrow> string + unit" where
  "validate_steps rx ids [] = Inr ()"
| "validate_steps rx ids (step # steps) =
     bind_res (flow_step_validate rx step) (\<lambda>_.
       if fs_id step \<in> set ids then Inl (''duplicate step '' @ fs_id step)
       else validate_steps rx (fs_id step # ids) steps)"

definition last_request :: "http_flow_step list \<Rightarrow> http_flow_step option" where
  "last_request steps = find (\<lambda>s. fs_kind s = RequestStep) (rev steps)"

definition result_step :: "http_task_config \<Rightarrow> http_flow_step option" where
  "result_step task =
     (if ht_result_step_id task = [] then last_request (ht_steps task)
      else find (\<lambda>s. fs_id s = ht_result_step_id task \<and> fs_kind s = RequestStep) (ht_steps task))"

definition validate_result_step :: "http_flow_step list \<Rightarrow> string \<Rightarrow> string + unit" where
  "validate_result_step steps result_step_id =
     bind_res (if result_step_id = []
               then (case last_request steps of Some s \<Rightarrow> Inr (fs_id s) | None \<Rightarrow> Inl ''no request step'')
               else Inr result_step_id) (\<lambda>selected.
       if \<not> list_ex (\<lambda>s. fs_id s = selected \<and> fs_kind s = RequestStep) steps
       then Inl ''the result must come from a request step''
       else if list_ex (\<lambda>s. fs_id s = selected \<and> fs_on_error s = ContinueOnError) steps
       then Inl ''the step of the result must not ignore failures'' else Inr ())"

definition validate_flow :: "regex_engine \<Rightarrow> http_task_config \<Rightarrow> string + unit" where
  "validate_flow rx task =
     (if ht_steps task = []
      then (if ht_schema_version task \<noteq> 1 then Inl ''invalid version of the flow'' else Inr ())
      else if ht_schema_version task \<noteq> 2 then Inl ''steps need version 2''
      else if 16 < length (ht_steps task) then Inl ''more than 16 steps''
      else bind_res (validate_steps rx [] (ht_steps task)) (\<lambda>_.
        validate_result_step (ht_steps task) (ht_result_step_id task)))"

section \<open>Lemmas\<close>

lemma check_limits_ok:
  assumes "check_limits cs = Inr ()" and "(label, actual, limit) \<in> set cs"
  shows "actual \<le> limit"
proof -
  have "find (\<lambda>(label, actual, limit). limit < actual) cs = None"
    using assms(1) by (cases "find (\<lambda>(label, actual, limit). limit < actual) cs") (auto simp: check_limits_def)
  then show ?thesis using assms(2) by (fastforce simp: find_None_iff not_less)
qed

lemma validate_rules_ok:
  "validate_rules rx names rules = Inr () \<Longrightarrow>
     distinct (map er_name rules) \<and> set names \<inter> er_name ` set rules = {}
     \<and> (\<forall>r\<in>set rules. extract_rule_validate rx r = Inr ())"
proof (induction rules arbitrary: names)
  case (Cons rule rules)
  then have v: "extract_rule_validate rx rule = Inr ()" and n: "er_name rule \<notin> set names"
    and r: "validate_rules rx (er_name rule # names) rules = Inr ()"
    by (auto simp: bind_res_Inr_iff split: if_splits)
  from Cons.IH [OF r] v n show ?case by auto
qed simp

lemma validate_steps_ok:
  "validate_steps rx ids steps = Inr () \<Longrightarrow>
     distinct (map fs_id steps) \<and> set ids \<inter> fs_id ` set steps = {}
     \<and> (\<forall>s\<in>set steps. flow_step_validate rx s = Inr ())"
proof (induction steps arbitrary: ids)
  case (Cons step steps)
  then have v: "flow_step_validate rx step = Inr ()" and n: "fs_id step \<notin> set ids"
    and r: "validate_steps rx (fs_id step # ids) steps = Inr ()"
    by (auto simp: bind_res_Inr_iff split: if_splits)
  from Cons.IH [OF r] v n show ?case by auto
qed simp

lemma last_request_Some:
  "last_request steps = Some s \<Longrightarrow> s \<in> set steps \<and> fs_kind s = RequestStep"
  unfolding last_request_def by (auto simp: find_Some_iff) (metis nth_mem length_rev set_rev)

end
