(* ===== verification/Http_Text.thy ===== *)
theory Http_Text
  imports Task_Http Login_Session Config_Service
begin

text \<open>
  The text functions of \<open>login/http_login.rs\<close>: templates, header lines, the excerpt of a response,
  the values extracted from responses, and the redaction of secrets. A text is the list of its UTF-8
  bytes. What \<open>serde_json\<close>, \<open>url\<close>, \<open>encoding_rs\<close> and \<open>regex\<close> compute is a parameter; the header map
  of a response is the list of its lower-case names with their bytes.
\<close>

section \<open>Templates\<close>

definition is_placeholder_name :: "string \<Rightarrow> bool" where
  "is_placeholder_name name \<longleftrightarrow>
     name \<noteq> [] \<and> list_all (\<lambda>c. is_ascii_alphanumeric c \<or> c = CHR ''_'' \<or> c = CHR ''-'' \<or> c = CHR ''.'') name"

definition utf8_char_len :: "char \<Rightarrow> nat" where
  "utf8_char_len b =
     (if byte b \<le> 127 then 1 else if 192 \<le> byte b \<and> byte b \<le> 223 then 2
      else if 224 \<le> byte b \<and> byte b \<le> 239 then 3 else if 240 \<le> byte b \<and> byte b \<le> 247 then 4 else 1)"

lemma utf8_char_len_pos [simp]: "0 < utf8_char_len b"
  by (simp add: utf8_char_len_def)

type_synonym vars = "(string \<times> string) list"

text \<open>The name and the rest after an opening brace, if a known placeholder starts here.\<close>

definition placeholder_at :: "char \<Rightarrow> string \<Rightarrow> (string \<times> string) option" where
  "placeholder_at c cs =
     (if c = CHR ''{''
      then (case split_once CHR ''}'' cs of
              Some (name, rest) \<Rightarrow> if is_placeholder_name name then Some (name, rest) else None
            | None \<Rightarrow> None)
      else None)"

lemma placeholder_at_shorter: "placeholder_at c cs = Some (name, rest) \<Longrightarrow> length rest < length cs"
  by (auto simp: placeholder_at_def split_once_Some split: if_splits option.splits)

definition lookup_placeholder :: "vars \<Rightarrow> char \<Rightarrow> string \<Rightarrow> (string \<times> string) option" where
  "lookup_placeholder vars c cs =
     (case placeholder_at c cs of
        Some (name, rest) \<Rightarrow> map_option (\<lambda>v. (v, rest)) (map_of vars name)
      | None \<Rightarrow> None)"

function substitute :: "vars \<Rightarrow> string \<Rightarrow> string" where
  "substitute vars [] = []"
| "substitute vars (c # cs) =
     (case lookup_placeholder vars c cs of
        Some (v, rest) \<Rightarrow> v @ substitute vars rest
      | None \<Rightarrow> take (utf8_char_len c) (c # cs) @ substitute vars (drop (utf8_char_len c) (c # cs)))"
  by pat_completeness auto
termination
proof (relation "measure (\<lambda>(vars, s). length s)")
  show "((vars, rest), vars, c # cs) \<in> measure (\<lambda>(vars, s). length s)"
    if "lookup_placeholder vars c cs = Some x" "(v, rest) = x" for vars c cs x v rest
    using that placeholder_at_shorter [of c cs]
    by (auto simp: lookup_placeholder_def split: option.splits prod.splits)
qed auto

definition parse_header_line :: "string \<Rightarrow> (string \<times> string) option" where
  "parse_header_line line =
     (let l = trim line
      in if l = [] then None
         else case split_once CHR '':'' l of
                None \<Rightarrow> None
              | Some (k, v) \<Rightarrow> if trim k = [] then None else Some (trim k, trim v))"

text \<open>\<open>str::lines\<close>: at line feeds, without a carriage return before one, no empty last line.\<close>

definition strip_cr :: "string \<Rightarrow> string" where
  "strip_cr l = (if l \<noteq> [] \<and> last l = char_of (13 :: nat) then butlast l else l)"

definition str_lines :: "string \<Rightarrow> string list" where
  "str_lines s =
     (let ws = split_on (char_of (10 :: nat)) s; ls = (if last ws = [] then butlast ws else ws)
      in map strip_cr ls)"

definition parse_headers :: "string \<Rightarrow> (string \<times> string) list" where
  "parse_headers raw = List.map_filter parse_header_line (str_lines raw)"

section \<open>The excerpt of a response\<close>

definition SNIPPET_LEN :: nat where
  "SNIPPET_LEN = 240"

definition char_count :: "string \<Rightarrow> nat" where
  "char_count s = length (filter (\<lambda>c. \<not> cont_byte c) s)"

fun take_chars :: "nat \<Rightarrow> string \<Rightarrow> string" where
  "take_chars n [] = []"
| "take_chars n (c # cs) =
     (if cont_byte c then c # take_chars n cs
      else case n of 0 \<Rightarrow> [] | Suc m \<Rightarrow> c # take_chars m cs)"

definition ellipsis :: string where
  "ellipsis = bytes [226, 128, 166]"

definition truncate_snippet :: "string \<Rightarrow> string" where
  "truncate_snippet body =
     (let compact = str_join '' '' (split_whitespace body)
      in take_chars SNIPPET_LEN compact @ (if SNIPPET_LEN < char_count compact then ellipsis else []))"

section \<open>Secrets\<close>

text \<open>\<open>str::replace\<close> with a pattern that is not empty.\<close>

function replace_text :: "string \<Rightarrow> string \<Rightarrow> string \<Rightarrow> string" where
  "replace_text p r [] = []"
| "replace_text p r (c # cs) =
     (if p \<noteq> [] \<and> starts_with (c # cs) p then r @ replace_text p r (drop (length p) (c # cs))
      else c # replace_text p r cs)"
  by pat_completeness auto
termination
  by (relation "measure (\<lambda>(p, r, s). length s)") auto

definition redact_text :: "string list \<Rightarrow> string \<Rightarrow> string" where
  "redact_text secrets text = fold (\<lambda>s out. replace_text s ''***'' out) secrets text"

definition redact_url :: "string list \<Rightarrow> string \<Rightarrow> string" where
  "redact_url secrets url = redact_text secrets url"

text \<open>\<open>form_encode\<close> stands for \<open>url::form_urlencoded::byte_serialize\<close>.\<close>

definition add_secret :: "(string \<Rightarrow> string) \<Rightarrow> string \<Rightarrow> string list \<Rightarrow> string list" where
  "add_secret form_encode v secrets =
     (if v = [] then secrets
      else secrets @ [v] @ (if form_encode v \<noteq> v then [form_encode v] else []))"

definition secret_before :: "string \<Rightarrow> string \<Rightarrow> bool" where
  "secret_before a b \<longleftrightarrow> length b < length a \<or> (length a = length b \<and> bytes_le a b)"

fun insert_secret :: "string \<Rightarrow> string list \<Rightarrow> string list" where
  "insert_secret s [] = [s]"
| "insert_secret s (t # ts) = (if secret_before s t then s # t # ts else t # insert_secret s ts)"

definition normalize_secrets :: "string list \<Rightarrow> string list" where
  "normalize_secrets secrets = remdups_adj (foldr insert_secret secrets [])"

definition public_vars :: "string list" where
  "public_vars = [''auth_url'', ''local_ip'', ''local_mac'']"

definition collect_secrets :: "(string \<Rightarrow> string) \<Rightarrow> vars \<Rightarrow> string list" where
  "collect_secrets form_encode vars =
     normalize_secrets (fold (\<lambda>(k, v) secrets. if k \<in> set public_vars then secrets else add_secret form_encode v secrets)
       vars [])"

section \<open>Values from a response\<close>

record http_lib =
  hl_json_parse :: "string \<Rightarrow> string + json"
  hl_json_text :: "json \<Rightarrow> string"
  hl_regex :: regex_engine
  hl_decode :: "string \<Rightarrow> (string \<Rightarrow> string) option"
  hl_gbk :: "string \<Rightarrow> string"
  hl_form_encode :: "string \<Rightarrow> string"

fun json_path :: "json \<Rightarrow> string list \<Rightarrow> json option" where
  "json_path v [] = Some v"
| "json_path v (seg # segs) = (case json_get seg v of Some w \<Rightarrow> json_path w segs | None \<Rightarrow> None)"

text \<open>The text between the first opening and the last closing brace, both included.\<close>

definition braced :: "string \<Rightarrow> string option" where
  "braced raw =
     (case (split_once CHR ''{'' raw, rsplit_once CHR ''}'' raw) of
        (Some (before, _), Some (most, _)) \<Rightarrow>
          if length most \<le> length before then None else Some (drop (length before) most @ ''}'')
      | _ \<Rightarrow> None)"

definition extract_pre_value :: "http_lib \<Rightarrow> string \<Rightarrow> string \<Rightarrow> string + string" where
  "extract_pre_value lib path body =
     (let raw = trim body
      in bind_res
           (case hl_json_parse lib raw of
              Inr v \<Rightarrow> Inr v
            | Inl first \<Rightarrow>
                (case braced raw of
                   None \<Rightarrow> Inl (''not JSON: '' @ first)
                 | Some inner \<Rightarrow> (case hl_json_parse lib inner of Inr v \<Rightarrow> Inr v | Inl e \<Rightarrow> Inl (''not JSON: '' @ e))))
           (\<lambda>v. case json_path v (split_on CHR ''.'' path) of
                  None \<Rightarrow> Inl (''no field '' @ path)
                | Some (JString s) \<Rightarrow> Inr s
                | Some other \<Rightarrow> Inr (hl_json_text lib other)))"

text \<open>A parsed URL and its accessors; \<open>port_or_known_default\<close> is the port.\<close>

record url =
  url_text :: string
  url_scheme :: string
  url_host :: "string option"
  url_port :: "nat option"
  url_query :: "(string \<times> string) list"

type_synonym url_join = "url \<Rightarrow> string \<Rightarrow> string + url"

definition query_value :: "url \<Rightarrow> string \<Rightarrow> string + string" where
  "query_value u name =
     (case map_of (url_query u) name of Some v \<Rightarrow> Inr v | None \<Rightarrow> Inl (''no parameter '' @ name))"

type_synonym header_map = "(string \<times> string) list"

text \<open>\<open>to_str\<close> accepts visible ASCII only.\<close>

definition header_str :: "string \<Rightarrow> string option" where
  "header_str v = (if list_all (\<lambda>c. (32 \<le> byte c \<and> byte c < 127) \<or> byte c = 9) v then Some v else None)"

definition header_get :: "header_map \<Rightarrow> string \<Rightarrow> string option" where
  "header_get headers name = Option.bind (map_of headers (to_ascii_lowercase name)) header_str"

section \<open>Forms in HTML\<close>

definition backslash :: string where
  "backslash = [char_of (92 :: nat)]"

definition INPUT_TAG :: string where
  \<open>INPUT_TAG = ''(?is)<input'' @ backslash @ ''b(?:[^>"\']|"[^"]*"|\'[^\']*\')*>''\<close>

definition ATTRIBUTE :: string where
  \<open>ATTRIBUTE = ''(?is)(['' @ backslash @ ''w:-]+)'' @ backslash @ ''s*='' @ backslash @ ''s*(?:"([^"]*)"|\'([^\']*)\'|([^''
     @ backslash @ ''s"\'=<>`]+))''\<close>

definition regex_matches :: "http_lib \<Rightarrow> string \<Rightarrow> string \<Rightarrow> string option list list" where
  "regex_matches lib pattern text =
     (case hl_regex lib pattern of Some (groups, captures) \<Rightarrow> captures text | None \<Rightarrow> [])"

definition group :: "nat \<Rightarrow> string option list \<Rightarrow> string option" where
  "group n caps = (if n < length caps then caps ! n else None)"

definition group_text :: "nat list \<Rightarrow> string option list \<Rightarrow> string" where
  "group_text ns caps = (case List.map_filter (\<lambda>n. group n caps) ns of [] \<Rightarrow> [] | s # _ \<Rightarrow> s)"

text \<open>The last name and the last value among the attributes of one tag.\<close>

definition input_attributes :: "http_lib \<Rightarrow> string \<Rightarrow> string option \<times> string option" where
  "input_attributes lib tag =
     fold (\<lambda>caps (nm, vl).
         let key = group_text [1] caps; v = group_text [2, 3, 4] caps
         in if eq_ignore_ascii_case key ''name'' then (Some v, vl)
            else if eq_ignore_ascii_case key ''value'' then (nm, Some v)
            else (nm, vl))
       (regex_matches lib ATTRIBUTE tag) (None, None)"

definition is_hex :: "char \<Rightarrow> bool" where
  "is_hex c \<longleftrightarrow> is_ascii_digit c \<or> (97 \<le> byte (ascii_lower c) \<and> byte (ascii_lower c) \<le> 102)"

definition hex_val :: "char \<Rightarrow> nat" where
  "hex_val c = (if is_ascii_digit c then digit_val c else byte (ascii_lower c) - 87)"

definition hex_vals :: "string \<Rightarrow> nat" where
  "hex_vals s = foldl (\<lambda>n c. 16 * n + hex_val c) 0 s"

definition utf8_encode :: "nat \<Rightarrow> string" where
  "utf8_encode n =
     (if n < 128 then bytes [n]
      else if n < 2048 then bytes [192 + n div 64, 128 + n mod 64]
      else if n < 65536 then bytes [224 + n div 4096, 128 + n div 64 mod 64, 128 + n mod 64]
      else bytes [240 + n div 262144, 128 + n div 4096 mod 64, 128 + n div 64 mod 64, 128 + n mod 64])"

text \<open>\<open>char::from_u32\<close> of a number that fits in 32 bits.\<close>

definition char_text :: "nat \<Rightarrow> string option" where
  "char_text n = (if 1114111 < n \<or> (55296 \<le> n \<and> n \<le> 57343) then None else Some (utf8_encode n))"

text \<open>One match of the entity pattern after an ampersand: its replacement and the rest.\<close>

definition entity_at :: "string \<Rightarrow> (string \<times> string) option" where
  "entity_at s =
     (case split_once CHR '';'' s of
        None \<Rightarrow> None
      | Some (name, rest) \<Rightarrow>
          map_option (\<lambda>t. (t, rest))
           (if name = ''amp'' then Some ''&'' else if name = ''lt'' then Some ''<''
            else if name = ''gt'' then Some ''>'' else if name = ''quot'' then Some [char_of (34 :: nat)]
            else if name = ''apos'' then Some [char_of (39 :: nat)]
            else (let raw = ''&'' @ name @ '';'';
                      decoded = (\<lambda>n. case char_text n of Some t \<Rightarrow> Some t | None \<Rightarrow> Some raw)
                  in case name of
                       h # x # d # ds \<Rightarrow>
                         if h = CHR ''#'' \<and> (x = CHR ''x'' \<or> x = CHR ''X'') \<and> list_all is_hex (d # ds)
                         then (if hex_vals (d # ds) < 2 ^ 32 then decoded (hex_vals (d # ds)) else Some raw)
                         else if h = CHR ''#'' \<and> list_all is_ascii_digit (x # d # ds)
                         then (if digits_val (x # d # ds) < 2 ^ 32 then decoded (digits_val (x # d # ds)) else Some raw)
                         else None
                     | [h, d] \<Rightarrow>
                         if h = CHR ''#'' \<and> is_ascii_digit d then decoded (digit_val d) else None
                     | _ \<Rightarrow> None)))"

lemma entity_at_shorter: "entity_at s = Some (t, rest) \<Longrightarrow> length rest < length s"
  by (auto simp: entity_at_def split_once_Some split: option.splits)

function decode_html_entities :: "string \<Rightarrow> string" where
  "decode_html_entities [] = []"
| "decode_html_entities (c # cs) =
     (case (if c = CHR ''&'' then entity_at cs else None) of
        Some (t, rest) \<Rightarrow> t @ decode_html_entities rest
      | None \<Rightarrow> c # decode_html_entities cs)"
  by pat_completeness auto
termination
proof (relation "measure length")
  show "(rest, c # cs) \<in> measure length"
    if "(if c = CHR ''&'' then entity_at cs else None) = Some x" "(t, rest) = x" for c cs x t rest
    using that entity_at_shorter [of cs t rest] by (auto split: if_splits)
qed auto

definition html_input_value :: "http_lib \<Rightarrow> string \<Rightarrow> string \<Rightarrow> string + string" where
  "html_input_value lib body name =
     (case find (\<lambda>(nm, vl). nm = Some name)
             (map (\<lambda>caps. input_attributes lib (group_text [0] caps)) (regex_matches lib INPUT_TAG body)) of
        Some (nm, Some v) \<Rightarrow> Inr (decode_html_entities v)
      | Some (nm, None) \<Rightarrow> Inl (''input without a value: '' @ name)
      | None \<Rightarrow> Inl (''no input '' @ name))"

definition extract_flow_value ::
  "http_lib \<Rightarrow> url_join \<Rightarrow> http_extract_rule \<Rightarrow> string \<Rightarrow> header_map \<Rightarrow> url \<Rightarrow> string + string"
where
  "extract_flow_value lib join rule body headers final_url =
     (case split_once CHR '':'' (trim (er_source rule)) of
        None \<Rightarrow> Inl ''invalid source''
      | Some (kind, raw_arg) \<Rightarrow>
          let arg = trim raw_arg
          in if kind = ''json'' then extract_pre_value lib arg body
             else if kind = ''header'' then
               (case header_get headers arg of Some v \<Rightarrow> Inr v | None \<Rightarrow> Inl (''no header '' @ arg))
             else if kind = ''url'' then query_value final_url arg
             else if kind = ''redirect'' then
               (case header_get headers ''location'' of
                  None \<Rightarrow> Inl ''no location''
                | Some location \<Rightarrow>
                    (case join final_url location of
                       Inl _ \<Rightarrow> Inl ''invalid location''
                     | Inr target \<Rightarrow> query_value target arg))
             else if kind = ''html'' then html_input_value lib body arg
             else if kind = ''regex'' then
               (case hl_regex lib arg of
                  None \<Rightarrow> Inl ''invalid pattern''
                | Some (groups, captures) \<Rightarrow>
                    (case captures body of
                       [] \<Rightarrow> Inl ''no match''
                     | caps # _ \<Rightarrow> (case group 1 caps of Some v \<Rightarrow> Inr v | None \<Rightarrow> Inl ''no match'')))
             else Inl ''unknown source'')"

end
