(* ===== verification/Http_Client.thy ===== *)
theory Http_Client
  imports Http_Text
begin

text \<open>
  The requests of a direct login (\<open>login/http_login.rs\<close>): building one, following redirects hop by
  hop, and reading the answer. The \<open>reqwest\<close> client is a parameter: what it answers depends on the
  requests already sent over it (its connections and cookies), the time and the request, and takes
  time; it reports the head of the answer after one duration and its body after another.
\<close>

section \<open>The exchange\<close>

record sent_request =
  hr_method :: http_request_method
  hr_url :: url
  hr_headers :: "(string \<times> string) list"
  hr_body :: "string option"
  hr_timeout :: duration

record http_answer =
  ha_status :: nat
  ha_headers :: header_map
  ha_body :: "body_event list"
  ha_body_time :: duration

record script_ctx =
  sc_username :: string
  sc_password :: string
  sc_isp :: string
  sc_auth_url :: string
  sc_local_ip :: string
  sc_local_mac :: string
  sc_page :: string
  sc_vars :: vars

record local_address =
  la_ipv4 :: string
  la_mac :: string

record http_env =
  hx_lib :: http_lib
  hx_parse :: "string \<Rightarrow> string + url"
  hx_join :: url_join
  hx_send :: "sent_request list \<Rightarrow> instant \<Rightarrow> sent_request \<Rightarrow> duration \<times> (string + http_answer)"
  hx_script :: "instant \<Rightarrow> string \<Rightarrow> script_ctx \<Rightarrow> duration \<times> (string + vars)"
  hx_prepare :: "network_settings \<Rightarrow> duration \<times> (string + local_address option)"
  hx_client :: "bool \<Rightarrow> string + unit"

text \<open>The report of one step, and what an attempt carries along.\<close>

datatype step_outcome = StepSuccess | StepIgnored | StepFailed

record http_step_report =
  st_id :: string
  st_name :: string
  st_kind :: http_flow_step_kind
  st_outcome :: step_outcome
  st_message :: string
  st_produced_vars :: "string list"
  st_rendered_url :: string
  st_rendered_headers :: string
  st_rendered_body :: string
  st_status :: "nat option"
  st_response_headers :: string
  st_response_snippet :: string
  st_duration_ms :: u64

record http_state =
  hs_now :: instant
  hs_sent :: "sent_request list"
  hs_vars :: vars
  hs_secrets :: "string list"
  hs_page :: "string option"
  hs_reports :: "http_step_report list"
  hs_result :: "(nat \<times> string \<times> string \<times> string \<times> string \<times> string) option"

section \<open>Redirects\<close>

definition MAX_REDIRECTS :: nat where
  "MAX_REDIRECTS = 5"

definition redirect_has_same_origin :: "url \<Rightarrow> url \<Rightarrow> bool" where
  "redirect_has_same_origin origin target \<longleftrightarrow>
     url_scheme target = url_scheme origin \<and> url_host target = url_host origin \<and> url_port target = url_port origin"

definition redirect_is_https_downgrade :: "url \<Rightarrow> url \<Rightarrow> bool" where
  "redirect_is_https_downgrade origin target \<longleftrightarrow> url_scheme origin = ''https'' \<and> url_scheme target = ''http''"

definition build_request :: "http_request_method \<Rightarrow> url \<Rightarrow> string \<Rightarrow> string \<Rightarrow> duration \<Rightarrow> sent_request" where
  "build_request verb u headers body timeout =
     (let parsed = parse_headers headers;
          with_body = (verb = Post \<and> body \<noteq> [])
      in \<lparr>hr_method = verb, hr_url = u,
          hr_headers = parsed @
            (if with_body \<and> \<not> list_ex (\<lambda>(name, _). eq_ignore_ascii_case name ''content-type'') parsed
             then [(''Content-Type'', ''application/x-www-form-urlencoded'')] else []),
          hr_body = (if with_body then Some body else None), hr_timeout = timeout\<rparr>)"

definition exchange :: "http_env \<Rightarrow> sent_request \<Rightarrow> http_state \<Rightarrow> (string + http_answer) \<times> http_state" where
  "exchange env rq st =
     (let (d, res) = hx_send env (hs_sent st) (hs_now st) rq
      in (res, st\<lparr>hs_now := hs_now st + d, hs_sent := hs_sent st @ [rq]\<rparr>))"

text \<open>What follows on an answer: it is the result, the redirect is refused, or the next request is
  sent with what is left of the HTTP verb, headers and body.\<close>

datatype hop = FinalAnswer | RefusedHop string | NextHop url http_request_method string string

definition next_hop ::
  "http_env \<Rightarrow> bool \<Rightarrow> bool \<Rightarrow> url \<Rightarrow> http_request_method \<Rightarrow> string \<Rightarrow> string \<Rightarrow> http_answer \<Rightarrow> hop"
where
  "next_hop env stop_on_redirect last_hop current verb headers body answer =
     (let status = ha_status answer
      in if status \<notin> {301, 302, 303, 307, 308} \<or> stop_on_redirect then FinalAnswer
         else case header_get (ha_headers answer) ''location'' of
                None \<Rightarrow> FinalAnswer
              | Some location \<Rightarrow>
                  if last_hop then RefusedHop ''too many redirects''
                  else (case hx_join env current location of
                          Inl e \<Rightarrow> RefusedHop e
                        | Inr target \<Rightarrow>
                            if \<not> http_scheme (url_scheme target) \<or> url_host target = None
                            then RefusedHop ''redirect to something else''
                            else if redirect_is_https_downgrade current target
                            then RefusedHop ''redirect away from https''
                            else
                              let same = redirect_has_same_origin current target;
                                  to_get = (status = 303 \<or> (status \<in> {301, 302} \<and> verb = Post))
                              in NextHop target (if to_get then Get else verb) (if same then headers else [])
                                   (if same \<and> \<not> to_get then body else [])))"

text \<open>The requests from the hop \<open>MAX_REDIRECTS - n\<close> on.\<close>

fun follow ::
  "http_env \<Rightarrow> instant \<Rightarrow> bool \<Rightarrow> nat \<Rightarrow> url \<Rightarrow> http_request_method \<Rightarrow> string \<Rightarrow> string \<Rightarrow> http_state
     \<Rightarrow> (string + url \<times> http_answer) \<times> http_state"
where
  "follow env deadline stop_on_redirect n current verb headers body st =
     (if deadline \<le> hs_now st then (Inl ''request timed out'', st)
      else case exchange env (build_request verb current headers body (deadline - hs_now st)) st of
             (Inl e, st1) \<Rightarrow> (Inl e, st1)
           | (Inr answer, st1) \<Rightarrow>
               (case next_hop env stop_on_redirect (n = 0) current verb headers body answer of
                  FinalAnswer \<Rightarrow> (Inr (current, answer), st1)
                | RefusedHop e \<Rightarrow> (Inl e, st1)
                | NextHop target verb' headers' body' \<Rightarrow>
                    (case n of
                       0 \<Rightarrow> (Inl ''too many redirects'', st1)
                     | Suc m \<Rightarrow> follow env deadline stop_on_redirect m target verb' headers' body' st1)))"

declare follow.simps [simp del]

definition send_with_redirects ::
  "http_env \<Rightarrow> http_request_method \<Rightarrow> string \<Rightarrow> string \<Rightarrow> string \<Rightarrow> duration \<Rightarrow> bool \<Rightarrow> http_state
     \<Rightarrow> (string + url \<times> http_answer) \<times> http_state"
where
  "send_with_redirects env verb raw headers body timeout stop_on_redirect st =
     (case hx_parse env raw of
        Inl e \<Rightarrow> (Inl e, st)
      | Inr u \<Rightarrow> follow env (hs_now st + timeout) stop_on_redirect MAX_REDIRECTS u verb headers body st)"

section \<open>Answers\<close>

definition MAX_RESPONSE_BYTES :: nat where
  "MAX_RESPONSE_BYTES = 64 * 1024"

definition MAX_RESPONSE_HEADERS_BYTES :: nat where
  "MAX_RESPONSE_HEADERS_BYTES = 8 * 1024"

fun read_limited :: "string \<Rightarrow> body_event list \<Rightarrow> string + string" where
  "read_limited acc [] = Inr acc"
| "read_limited acc (ReadErr e # evs) = Inl e"
| "read_limited acc (Chunk chunk # evs) =
     (let remaining = MAX_RESPONSE_BYTES - length acc
      in if remaining = 0 then Inr acc
         else let acc' = acc @ take (min (length chunk) remaining) chunk
              in if length acc' = MAX_RESPONSE_BYTES then Inr acc' else read_limited acc' evs)"

definition parse_charset :: "string \<Rightarrow> string option" where
  "parse_charset content_type =
     (case List.map_filter
             (\<lambda>part. case split_once CHR ''='' part of
                Some (key, v) \<Rightarrow>
                  if eq_ignore_ascii_case (trim key) ''charset''
                  then (let t = trim_matches (\<lambda>c. c = char_of (34 :: nat) \<or> c = char_of (39 :: nat)) (trim v)
                        in if t = [] then None else Some t)
                  else None
              | None \<Rightarrow> None)
             (tl (split_on CHR '';'' content_type)) of
        t # _ \<Rightarrow> Some t
      | [] \<Rightarrow> None)"

text \<open>Bytes are valid UTF-8 exactly when the lossy decoding changes nothing.\<close>

definition decode_body :: "http_lib \<Rightarrow> string \<Rightarrow> string option \<Rightarrow> string" where
  "decode_body lib raw charset =
     (case Option.bind charset (hl_decode lib) of
        Some decode \<Rightarrow> decode raw
      | None \<Rightarrow> if from_utf8_lossy raw = raw then raw else hl_gbk lib raw)"

definition read_limited_body :: "http_env \<Rightarrow> http_answer \<Rightarrow> http_state \<Rightarrow> (string + string) \<times> http_state" where
  "read_limited_body env answer st =
     (let charset = Option.bind (header_get (ha_headers answer) ''content-type'') parse_charset
      in (map_sum id (\<lambda>raw. decode_body (hx_lib env) raw charset) (read_limited [] (ha_body answer)),
          st\<lparr>hs_now := hs_now st + ha_body_time answer\<rparr>))"

text \<open>The header lines shown in a report, with cookies left out and cut after 8 KiB.\<close>

fun header_lines :: "string \<Rightarrow> header_map \<Rightarrow> string" where
  "header_lines out [] = out"
| "header_lines out ((name, v) # headers) =
     (if name = ''set-cookie'' then header_lines (out @ ''set-cookie: ***'' @ [char_of (10 :: nat)]) headers
      else let out' = out @ name @ '': '' @ trim (from_utf8_lossy v) @ [char_of (10 :: nat)]
           in if MAX_RESPONSE_HEADERS_BYTES \<le> length out' then out' @ ''...(truncated)''
              else header_lines out' headers)"

definition format_response_headers :: "header_map \<Rightarrow> string" where
  "format_response_headers headers = header_lines [] headers"

record http_response =
  hp_status :: nat
  hp_body :: string
  hp_headers :: header_map
  hp_headers_text :: string
  hp_final_url :: url

definition send_http_detailed ::
  "http_env \<Rightarrow> http_request_method \<Rightarrow> string \<Rightarrow> string \<Rightarrow> string \<Rightarrow> duration \<Rightarrow> bool \<Rightarrow> http_state
     \<Rightarrow> (string + http_response) \<times> http_state"
where
  "send_http_detailed env verb raw headers body timeout stop_on_redirect st =
     (case send_with_redirects env verb raw headers body timeout stop_on_redirect st of
        (Inl e, st1) \<Rightarrow> (Inl e, st1)
      | (Inr (final_url, answer), st1) \<Rightarrow>
          (case read_limited_body env answer st1 of
             (Inl e, st2) \<Rightarrow> (Inl e, st2)
           | (Inr text, st2) \<Rightarrow>
               (Inr \<lparr>hp_status = ha_status answer, hp_body = text, hp_headers = ha_headers answer,
                     hp_headers_text = format_response_headers (ha_headers answer), hp_final_url = final_url\<rparr>, st2)))"

definition send_http ::
  "http_env \<Rightarrow> http_request_method \<Rightarrow> string \<Rightarrow> string \<Rightarrow> string \<Rightarrow> duration \<Rightarrow> http_state
     \<Rightarrow> (string + nat \<times> string \<times> string) \<times> http_state"
where
  "send_http env verb raw headers body timeout st =
     (case send_http_detailed env verb raw headers body timeout False st of
        (Inl e, st1) \<Rightarrow> (Inl e, st1)
      | (Inr r, st1) \<Rightarrow> (Inr (hp_status r, hp_body r, hp_headers_text r), st1))"

definition PAGE_FETCH_TIMEOUT :: duration where
  "PAGE_FETCH_TIMEOUT = from_secs 5"

definition fetch_login_page :: "http_env \<Rightarrow> string \<Rightarrow> http_state \<Rightarrow> string \<times> http_state" where
  "fetch_login_page env auth_url st =
     (if auth_url = [] then ([], st)
      else case send_with_redirects env Get auth_url [] [] PAGE_FETCH_TIMEOUT False st of
             (Inl e, st1) \<Rightarrow> ([], st1)
           | (Inr (final_url, answer), st1) \<Rightarrow>
               (case read_limited_body env answer st1 of
                  (Inl e, st2) \<Rightarrow> ([], st2)
                | (Inr text, st2) \<Rightarrow> (text, st2)))"

section \<open>What a request leaves alone\<close>

text \<open>A request takes time and adds to the log; nothing else of the attempt changes.\<close>

definition sends_only :: "http_state \<Rightarrow> http_state \<Rightarrow> bool" where
  "sends_only st st' \<longleftrightarrow> (\<exists>t rqs. st' = st\<lparr>hs_now := hs_now st + t, hs_sent := hs_sent st @ rqs\<rparr>)"

lemma sends_only_refl [simp]: "sends_only st st"
  unfolding sends_only_def by (rule exI [of _ 0], rule exI [of _ "[]"]) simp

lemma sends_only_trans:
  assumes "sends_only a b" and "sends_only b c"
  shows "sends_only a c"
proof -
  from assms obtain t rqs t' rqs' where b: "b = a\<lparr>hs_now := hs_now a + t, hs_sent := hs_sent a @ rqs\<rparr>"
    and c: "c = b\<lparr>hs_now := hs_now b + t', hs_sent := hs_sent b @ rqs'\<rparr>" unfolding sends_only_def by blast
  have "c = a\<lparr>hs_now := hs_now a + (t + t'), hs_sent := hs_sent a @ (rqs @ rqs')\<rparr>" by (simp add: b c)
  then show ?thesis unfolding sends_only_def by blast
qed

lemma sends_onlyD:
  assumes "sends_only st st'"
  shows "hs_vars st' = hs_vars st" "hs_secrets st' = hs_secrets st" "hs_page st' = hs_page st"
    "hs_reports st' = hs_reports st" "hs_result st' = hs_result st" "hs_now st \<le> hs_now st'"
  using assms unfolding sends_only_def by auto

lemma exchange_sends: "exchange env rq st = (res, st') \<Longrightarrow> sends_only st st'"
  unfolding exchange_def sends_only_def by (auto split: prod.splits)

text \<open>Either no request was sent, or one was and ended the matter or led to the next hop.\<close>

lemma follow_cases:
  assumes "follow env deadline stop n current verb headers body st = (res, st')"
  obtains (late) e where "deadline \<le> hs_now st" "res = Inl e" "st' = st"
  | (refused) r e where "hs_now st < deadline"
      "exchange env (build_request verb current headers body (deadline - hs_now st)) st = (r, st')" "res = Inl e"
  | (answered) answer where "hs_now st < deadline"
      "exchange env (build_request verb current headers body (deadline - hs_now st)) st = (Inr answer, st')"
      "res = Inr (current, answer)"
  | (redirected) answer st1 k target verb' headers' body' where "hs_now st < deadline"
      "exchange env (build_request verb current headers body (deadline - hs_now st)) st = (Inr answer, st1)"
      "n = Suc k" "next_hop env stop False current verb headers body answer = NextHop target verb' headers' body'"
      "follow env deadline stop k target verb' headers' body' st1 = (res, st')"
proof (cases "deadline \<le> hs_now st")
  case True
  with assms have "res = Inl ''request timed out''" "st' = st" by (simp_all add: follow.simps)
  with True show ?thesis by (rule that(1))
next
  case False
  then have d: "hs_now st < deadline" by simp
  obtain r st1 where e: "exchange env (build_request verb current headers body (deadline - hs_now st)) st = (r, st1)"
    by (cases "exchange env (build_request verb current headers body (deadline - hs_now st)) st")
  show ?thesis
  proof (cases r)
    case (Inl err)
    with assms False e have "res = Inl err" "st' = st1" by (simp_all add: follow.simps)
    with e show ?thesis by (intro that(2) [OF d]) simp_all
  next
    case (Inr answer)
    show ?thesis
    proof (cases "next_hop env stop (n = 0) current verb headers body answer")
      case FinalAnswer
      with assms False e Inr have "res = Inr (current, answer)" "st' = st1" by (simp_all add: follow.simps)
      with e Inr show ?thesis by (intro that(3) [OF d]) simp_all
    next
      case (RefusedHop err)
      with assms False e Inr have "res = Inl err" "st' = st1" by (simp_all add: follow.simps)
      with e show ?thesis by (intro that(2) [OF d]) simp_all
    next
      case (NextHop target verb' headers' body')
      show ?thesis
      proof (cases n)
        case 0
        with assms False e Inr NextHop have "res = Inl ''too many redirects''" "st' = st1" by (simp_all add: follow.simps)
        with e show ?thesis by (intro that(2) [OF d]) simp_all
      next
        case (Suc k)
        with assms False e Inr NextHop have "follow env deadline stop k target verb' headers' body' st1 = (res, st')"
          by (simp add: follow.simps)
        with e Inr NextHop Suc show ?thesis by (intro that(4) [OF d]) simp_all
      qed
    qed
  qed
qed

lemma follow_sends:
  "follow env deadline stop n current verb headers body st = (res, st') \<Longrightarrow> sends_only st st'"
proof (induction n arbitrary: current verb headers body st)
  case 0
  from 0 show ?case by (cases rule: follow_cases) (auto dest: exchange_sends)
next
  case (Suc n)
  from Suc.prems show ?case
    by (cases rule: follow_cases) (auto dest: exchange_sends intro: sends_only_trans Suc.IH)
qed

lemma send_with_redirects_sends:
  "send_with_redirects env verb raw headers body timeout stop st = (res, st') \<Longrightarrow> sends_only st st'"
  unfolding send_with_redirects_def by (auto dest: follow_sends split: sum.splits)

lemma read_limited_body_sends: "read_limited_body env answer st = (res, st') \<Longrightarrow> sends_only st st'"
  unfolding read_limited_body_def sends_only_def Let_def by (auto intro!: exI [of _ "[]"])

lemma send_http_detailed_sends:
  "send_http_detailed env verb raw headers body timeout stop st = (res, st') \<Longrightarrow> sends_only st st'"
  unfolding send_http_detailed_def
  by (auto dest!: send_with_redirects_sends read_limited_body_sends intro: sends_only_trans
      split: prod.splits sum.splits)

lemma send_http_sends: "send_http env verb raw headers body timeout st = (res, st') \<Longrightarrow> sends_only st st'"
  unfolding send_http_def by (auto dest!: send_http_detailed_sends split: prod.splits sum.splits)

lemma fetch_login_page_sends: "fetch_login_page env auth_url st = (page, st') \<Longrightarrow> sends_only st st'"
  unfolding fetch_login_page_def
  by (auto dest!: send_with_redirects_sends read_limited_body_sends intro: sends_only_trans
      split: prod.splits sum.splits if_splits)

end
