(* ===== verification/Http_Login.thy ===== *)
theory Http_Login
  imports Http_Client
begin

text \<open>
  The direct login (\<open>login/http_login.rs\<close>): the request built from a task and a profile, the fixed
  chain of the older tasks, and the ordered flow of the newer ones. An attempt ends in a report whose
  texts are redacted.
\<close>

section \<open>Requests\<close>

record http_login_request =
  hq_network :: network_settings
  hq_steps :: "http_flow_step list"
  hq_result_step_id :: string
  hq_method :: http_request_method
  hq_url :: string
  hq_headers :: string
  hq_body :: string
  hq_success_pattern :: string
  hq_failure_pattern :: string
  hq_failure_action :: http_failure_action
  hq_success_check :: http_success_check
  hq_crypto_script :: string
  hq_pre_request :: "http_pre_request option"
  hq_logout_request :: "http_action_request option"
  hq_username :: string
  hq_password :: string
  hq_isp :: string
  hq_auth_url :: string
  hq_local_ip :: string
  hq_local_mac :: string
  hq_fetch_page :: bool
  hq_ignore_https_errors :: bool

definition MAX_URL_BYTES :: nat where "MAX_URL_BYTES = 8 * 1024"
definition MAX_HEADERS_BYTES :: nat where "MAX_HEADERS_BYTES = 64 * 1024"
definition MAX_REQUEST_BODY_BYTES :: nat where "MAX_REQUEST_BODY_BYTES = 256 * 1024"
definition MAX_PATTERN_BYTES :: nat where "MAX_PATTERN_BYTES = 8 * 1024"
definition MAX_SCRIPT_BYTES :: nat where "MAX_SCRIPT_BYTES = 128 * 1024"

definition validate_url :: "(string \<Rightarrow> string + url) \<Rightarrow> string \<Rightarrow> string + unit" where
  "validate_url parse raw =
     (case parse (trim raw) of
        Inl e \<Rightarrow> Inl (''cannot parse the address: '' @ e)
      | Inr u \<Rightarrow>
          if http_scheme (url_scheme u)
          then (case url_host u of
                  Some (c # cs) \<Rightarrow> Inr ()
                | _ \<Rightarrow> Inl ''no host'')
          else Inl (''only http and https, not '' @ url_scheme u))"

definition validate_logout_request :: "http_action_request \<Rightarrow> string + unit" where
  "validate_logout_request logout =
     bind_res (action_request_validate logout) (\<lambda>_. check_limits
       [(''logout address'', length (ar_url logout), MAX_URL_BYTES),
        (''logout headers'', length (ar_headers logout), MAX_HEADERS_BYTES),
        (''logout body'', length (ar_body logout), MAX_REQUEST_BODY_BYTES)])"

definition validate_pre_request :: "http_pre_request \<Rightarrow> string + unit" where
  "validate_pre_request pre =
     bind_res (pre_request_validate pre) (\<lambda>_. check_limits
       [(''address before'', length (pr_url pre), MAX_URL_BYTES),
        (''headers before'', length (pr_headers pre), MAX_HEADERS_BYTES),
        (''body before'', length (pr_body pre), MAX_REQUEST_BODY_BYTES),
        (''extraction'', length (pr_extract pre), MAX_PATTERN_BYTES),
        (''placeholder'', length (pr_name pre), MAX_PATTERN_BYTES)])"

definition validate_templates :: "string \<Rightarrow> string \<Rightarrow> string \<Rightarrow> string \<Rightarrow> string \<Rightarrow> string \<Rightarrow> string + unit" where
  "validate_templates url headers body success_pattern failure_pattern crypto_script =
     check_limits
       [(''address'', length url, MAX_URL_BYTES), (''headers'', length headers, MAX_HEADERS_BYTES),
        (''body'', length body, MAX_REQUEST_BODY_BYTES),
        (''success pattern'', length success_pattern, MAX_PATTERN_BYTES),
        (''failure pattern'', length failure_pattern, MAX_PATTERN_BYTES),
        (''script'', length crypto_script, MAX_SCRIPT_BYTES)]"

definition request_validate :: "(string \<Rightarrow> string + url) \<Rightarrow> regex_engine \<Rightarrow> http_login_request \<Rightarrow> string + unit" where
  "request_validate parse rx req =
     bind_res
       (if hq_steps req = [] then validate_url parse (hq_url req)
        else validate_flow rx
               (http_task_config_default\<lparr>ht_schema_version := 2, ht_steps := hq_steps req,
                  ht_result_step_id := hq_result_step_id req\<rparr>)) (\<lambda>_.
     bind_res (validate_templates (hq_url req) (hq_headers req) (hq_body req) (hq_success_pattern req)
                 (hq_failure_pattern req) (hq_crypto_script req)) (\<lambda>_.
     bind_res (case hq_pre_request req of Some pre \<Rightarrow> validate_pre_request pre | None \<Rightarrow> Inr ()) (\<lambda>_.
     case hq_logout_request req of Some logout \<Rightarrow> validate_logout_request logout | None \<Rightarrow> Inr ())))"

definition from_task ::
  "(string \<Rightarrow> string + url) \<Rightarrow> regex_engine \<Rightarrow> http_task_config \<Rightarrow> string \<Rightarrow> string \<Rightarrow> string \<Rightarrow> string \<Rightarrow> bool \<Rightarrow> bool
     \<Rightarrow> string + http_login_request"
where
  "from_task parse rx task username password isp auth_url fetch_page global_ignore_https_errors =
     bind_res (validate_flow rx task) (\<lambda>_.
     bind_res (if ht_steps task = [] \<and> trim (ht_url task) = [] then Inl ''no request address'' else Inr ()) (\<lambda>_.
     bind_res (if ht_steps task = [] then validate_url parse (ht_url task) else Inr ()) (\<lambda>_.
       let request =
         \<lparr>hq_network = network_settings_default, hq_steps = ht_steps task, hq_result_step_id = ht_result_step_id task,
          hq_method = ht_method task, hq_url = trim (ht_url task), hq_headers = ht_headers task,
          hq_body = ht_body task, hq_success_pattern = ht_success_pattern task,
          hq_failure_pattern = ht_failure_pattern task, hq_failure_action = ht_failure_action task,
          hq_success_check = ht_success_check task, hq_crypto_script = ht_crypto_script task,
          hq_pre_request = ht_pre_request task, hq_logout_request = ht_logout_request task,
          hq_username = trim username, hq_password = password, hq_isp = trim isp, hq_auth_url = trim auth_url,
          hq_local_ip = [], hq_local_mac = [], hq_fetch_page = fetch_page,
          hq_ignore_https_errors =
            (case ht_ignore_https_errors task of Some b \<Rightarrow> b | None \<Rightarrow> global_ignore_https_errors)\<rparr>
       in bind_res (request_validate parse rx request) (\<lambda>_. Inr request))))"

definition uses_crypto_script :: "http_login_request \<Rightarrow> bool" where
  "uses_crypto_script req =
     (if hq_steps req = [] then trim (hq_crypto_script req) \<noteq> []
      else list_ex (\<lambda>s. fs_kind s = TransformStep) (hq_steps req))"

definition mentions_local :: "string \<Rightarrow> bool" where
  "mentions_local text \<longleftrightarrow> str_contains text ''{local_ip}'' \<or> str_contains text ''{local_mac}''"

definition needs_local_address :: "http_login_request \<Rightarrow> bool" where
  "needs_local_address req \<longleftrightarrow>
     uses_crypto_script req
     \<or> list_ex (\<lambda>s. mentions_local (fs_url s) \<or> mentions_local (fs_headers s) \<or> mentions_local (fs_body s)) (hq_steps req)
     \<or> mentions_local (hq_url req) \<or> mentions_local (hq_headers req) \<or> mentions_local (hq_body req)
     \<or> (case hq_pre_request req of
          Some p \<Rightarrow> mentions_local (pr_url p) \<or> mentions_local (pr_headers p) \<or> mentions_local (pr_body p)
        | None \<Rightarrow> False)
     \<or> (case hq_logout_request req of
          Some l \<Rightarrow> mentions_local (ar_url l) \<or> mentions_local (ar_headers l) \<or> mentions_local (ar_body l)
        | None \<Rightarrow> False)"

definition with_local_address :: "local_address \<Rightarrow> http_login_request \<Rightarrow> http_login_request" where
  "with_local_address addr req = req\<lparr>hq_local_ip := la_ipv4 addr, hq_local_mac := la_mac addr\<rparr>"

section \<open>Reports\<close>

record http_attempt_report =
  rp_step_reports :: "http_step_report list"
  rp_outcome :: outcome
  rp_message :: string
  rp_rendered_url :: string
  rp_rendered_headers :: string
  rp_rendered_body :: string
  rp_status :: "nat option"
  rp_response_headers :: string
  rp_response_snippet :: string
  rp_script_error :: "string option"
  rp_duration_ms :: u64

text \<open>\<open>as_millis() as u64\<close>.\<close>

definition as_millis :: "duration \<Rightarrow> u64" where
  "as_millis d = word_of_nat (d div 1000000)"

definition redact_step :: "string list \<Rightarrow> http_step_report \<Rightarrow> http_step_report" where
  "redact_step secrets r =
     r\<lparr>st_message := redact_text secrets (st_message r),
       st_produced_vars := map (redact_text secrets) (st_produced_vars r),
       st_rendered_url := redact_url secrets (st_rendered_url r),
       st_rendered_headers := redact_text secrets (st_rendered_headers r),
       st_rendered_body := redact_text secrets (st_rendered_body r),
       st_response_headers := redact_text secrets (st_response_headers r),
       st_response_snippet := redact_text secrets (st_response_snippet r)\<rparr>"

definition to_structured :: "http_attempt_report \<Rightarrow> structured_result" where
  "to_structured r =
     \<lparr>sr_outcome = rp_outcome r, sr_message = rp_message r,
      sr_data = JObject [(''http_status'', (case rp_status r of Some n \<Rightarrow> JNumber (show_nat n) | None \<Rightarrow> JNull)),
                         (''response_snippet'', JString (rp_response_snippet r))],
      sr_screenshot_url = None, sr_duration_ms = rp_duration_ms r\<rparr>"

type_synonym rendered = "string \<times> string \<times> string"
type_synonym seen_response = "nat \<times> string \<times> string"

definition abort_report ::
  "outcome \<Rightarrow> string \<Rightarrow> rendered option \<Rightarrow> seen_response option \<Rightarrow> string option \<Rightarrow> u64 \<Rightarrow> http_attempt_report"
where
  "abort_report outcome message rendered response script_error duration_ms =
     (let (url, headers, body) = (case rendered of Some r \<Rightarrow> r | None \<Rightarrow> ([], [], []));
          (status, response_headers, response_snippet) = (case response of Some r \<Rightarrow> r | None \<Rightarrow> (0, [], []))
      in \<lparr>rp_step_reports = [], rp_outcome = outcome, rp_message = message, rp_rendered_url = url,
          rp_rendered_headers = headers, rp_rendered_body = body,
          rp_status = (if status \<noteq> 0 then Some status else None), rp_response_headers = response_headers,
          rp_response_snippet = response_snippet, rp_script_error = script_error, rp_duration_ms = duration_ms\<rparr>)"

section \<open>Verdict\<close>

definition initial_vars :: "http_login_request \<Rightarrow> vars" where
  "initial_vars req =
     [(''auth_url'', hq_auth_url req), (''isp'', hq_isp req), (''local_ip'', hq_local_ip req),
      (''local_mac'', hq_local_mac req), (''password'', hq_password req), (''username'', hq_username req)]"

datatype http_response_verdict = VerdictFailure outcome | VerdictSuccess | MissingSuccess

definition status_success :: "nat \<Rightarrow> bool" where
  "status_success status \<longleftrightarrow> 200 \<le> status \<and> status \<le> 299"

definition classify_response :: "http_login_request \<Rightarrow> nat \<Rightarrow> string \<Rightarrow> http_response_verdict" where
  "classify_response req status body =
     (let failure_pattern = trim (hq_failure_pattern req);
          success_pattern = trim (hq_success_pattern req)
      in if failure_pattern \<noteq> [] \<and> str_contains body failure_pattern
         then VerdictFailure (case hq_failure_action req of
                                FailCredential \<Rightarrow> InvalidCredential
                              | FailRetry \<Rightarrow> AssertionFailed
                              | FailManual \<Rightarrow> ManualRequired)
         else if hq_success_check req = CheckNetwork then VerdictSuccess
         else if (success_pattern = [] \<and> status_success status)
               \<or> (success_pattern \<noteq> [] \<and> str_contains body success_pattern)
         then VerdictSuccess else MissingSuccess)"

section \<open>The fixed chain\<close>

definition PRE_REQUEST_TIMEOUT :: duration where "PRE_REQUEST_TIMEOUT = from_secs 10"
definition LOGOUT_REQUEST_TIMEOUT :: duration where "LOGOUT_REQUEST_TIMEOUT = from_secs 10"
definition REQUEST_TIMEOUT :: duration where "REQUEST_TIMEOUT = from_secs 20"
definition FLOW_TIMEOUT :: duration where "FLOW_TIMEOUT = from_secs 120"
definition LOGOUT_MAX_WAIT :: duration where "LOGOUT_MAX_WAIT = from_secs 30"

type_synonym 'a attempt = "http_state \<Rightarrow> (http_attempt_report + 'a) \<times> http_state"

definition then_attempt :: "'a attempt \<Rightarrow> ('a \<Rightarrow> 'b attempt) \<Rightarrow> 'b attempt" where
  "then_attempt m f st = (case m st of (Inl r, st') \<Rightarrow> (Inl r, st') | (Inr x, st') \<Rightarrow> f x st')"

definition attempt_new :: "instant \<Rightarrow> http_state" where
  "attempt_new start = \<lparr>hs_now = start, hs_sent = [], hs_vars = [], hs_secrets = [], hs_page = None,
                        hs_reports = [], hs_result = None\<rparr>"

definition millis :: "instant \<Rightarrow> http_state \<Rightarrow> u64" where
  "millis start st = as_millis (hs_now st - start)"

text \<open>Both formats begin alike: the egress, the client, and the table of the placeholders.\<close>

definition open_attempt :: "http_env \<Rightarrow> instant \<Rightarrow> http_login_request \<Rightarrow> http_login_request attempt" where
  "open_attempt env start req0 st0 =
     (let (d, prepared) = hx_prepare env (hq_network req0); st = st0\<lparr>hs_now := hs_now st0 + d\<rparr>
      in case prepared of
           Inl e \<Rightarrow> (Inl (abort_report NavigationTimeout e None None None (millis start st)), st)
         | Inr bound \<Rightarrow>
             let req = (case bound of Some addr \<Rightarrow> with_local_address addr req0 | None \<Rightarrow> req0)
             in case hx_client env (hq_ignore_https_errors req) of
                  Inl e \<Rightarrow> (Inl (abort_report UnknownError (''cannot build the client: '' @ e) None None None (millis start st)), st)
                | Inr _ \<Rightarrow>
                    (Inr req, st\<lparr>hs_vars := initial_vars req,
                                 hs_secrets := collect_secrets (hl_form_encode (hx_lib env)) (initial_vars req)\<rparr>))"

text \<open>The request that ends an older session: whatever becomes of it, the login goes on.\<close>

definition logout_wait :: "float64 \<Rightarrow> duration" where
  "logout_wait w = (case w of Nanos n \<Rightarrow> min (nat n) LOGOUT_MAX_WAIT | PosInf \<Rightarrow> LOGOUT_MAX_WAIT | _ \<Rightarrow> 0)"

definition logout_phase :: "http_env \<Rightarrow> http_login_request \<Rightarrow> http_state \<Rightarrow> http_state" where
  "logout_phase env req st =
     (case hq_logout_request req of
        None \<Rightarrow> st
      | Some logout \<Rightarrow>
          let st1 = snd (send_http env (ar_method logout) (substitute (hs_vars st) (ar_url logout))
                           (substitute (hs_vars st) (ar_headers logout)) (substitute (hs_vars st) (ar_body logout))
                           LOGOUT_REQUEST_TIMEOUT st)
          in st1\<lparr>hs_now := hs_now st1 + logout_wait (ar_wait_secs logout)\<rparr>)"

definition script_ctx_of :: "http_login_request \<Rightarrow> string \<Rightarrow> vars \<Rightarrow> script_ctx" where
  "script_ctx_of req page vars =
     \<lparr>sc_username = hq_username req, sc_password = hq_password req, sc_isp = hq_isp req,
      sc_auth_url = hq_auth_url req, sc_local_ip = hq_local_ip req, sc_local_mac = hq_local_mac req,
      sc_page = page, sc_vars = vars\<rparr>"

definition run_script :: "http_env \<Rightarrow> string \<Rightarrow> script_ctx \<Rightarrow> http_state \<Rightarrow> (string + vars) \<times> http_state" where
  "run_script env script ctx st =
     (let (d, res) = hx_script env (hs_now st) script ctx in (res, st\<lparr>hs_now := hs_now st + d\<rparr>))"

text \<open>New values join the placeholders and the secrets.\<close>

definition learn :: "http_env \<Rightarrow> vars \<Rightarrow> http_state \<Rightarrow> http_state" where
  "learn env values st =
     st\<lparr>hs_secrets := fold (\<lambda>(k, v). add_secret (hl_form_encode (hx_lib env)) v) values (hs_secrets st),
        hs_vars := fold (\<lambda>(k, v). AList.update k v) values (hs_vars st)\<rparr>"

definition normalized :: "http_state \<Rightarrow> http_state" where
  "normalized st = st\<lparr>hs_secrets := normalize_secrets (hs_secrets st)\<rparr>"

definition script_phase :: "http_env \<Rightarrow> instant \<Rightarrow> http_login_request \<Rightarrow> unit attempt" where
  "script_phase env start req st =
     (if \<not> uses_crypto_script req then (Inr (), st)
      else let (page, st1) = (if hq_fetch_page req then fetch_login_page env (hq_auth_url req) st else ([], st))
           in case run_script env (hq_crypto_script req) (script_ctx_of req page []) st1 of
                (Inr values, st2) \<Rightarrow> (Inr (), learn env values st2)
              | (Inl e, st2) \<Rightarrow>
                  let st3 = normalized st2
                  in (Inl (abort_report UnknownError (redact_text (hs_secrets st3) (''the script failed: '' @ e)) None None
                             (Some (redact_text (hs_secrets st3) e)) (millis start st3)), st3))"

text \<open>The request before the login, with the value taken from its answer.\<close>

definition pre_phase :: "http_env \<Rightarrow> instant \<Rightarrow> http_login_request \<Rightarrow> unit attempt" where
  "pre_phase env start req st =
     (case hq_pre_request req of
        None \<Rightarrow> (Inr (), st)
      | Some pre \<Rightarrow>
          let vars = hs_vars st;
              url = substitute vars (pr_url pre); headers = substitute vars (pr_headers pre);
              body = substitute vars (pr_body pre);
              st1 = normalized st;
              rd = redact_text (hs_secrets st1);
              rendered = Some (redact_url (hs_secrets st1) url, rd headers, rd body)
          in case send_http env (pr_method pre) url headers body PRE_REQUEST_TIMEOUT st1 of
               (Inl e, st2) \<Rightarrow>
                 (Inl (abort_report NetworkError (rd (''the request before the login failed: '' @ e)) rendered None None
                         (millis start st2)), st2)
             | (Inr (status, response, response_headers), st2) \<Rightarrow>
                 (case bind_res (extract_path pre) (\<lambda>path. extract_pre_value (hx_lib env) path response) of
                    Inr v \<Rightarrow> (Inr (), learn env [(placeholder_name pre, v)] st2)
                  | Inl e \<Rightarrow>
                      (Inl (abort_report UnknownError (rd (''nothing extracted: '' @ e)) rendered
                              (Some (status, rd response_headers, rd (truncate_snippet response))) None
                              (millis start st2)), st2)))"

definition verdict_outcome :: "http_response_verdict \<Rightarrow> outcome" where
  "verdict_outcome verdict =
     (case verdict of VerdictFailure failure \<Rightarrow> failure | VerdictSuccess \<Rightarrow> OSuccess | MissingSuccess \<Rightarrow> AssertionFailed)"

definition verdict_message :: "http_login_request \<Rightarrow> http_response_verdict \<Rightarrow> nat \<Rightarrow> string \<Rightarrow> string" where
  "verdict_message req verdict status shown =
     (case verdict of
        VerdictFailure _ \<Rightarrow> ''the portal reports a failure (HTTP '' @ show_nat status @ ''): '' @ shown
      | VerdictSuccess \<Rightarrow>
          if hq_success_check req = CheckNetwork
          then ''request sent (HTTP '' @ show_nat status @ ''), the network check decides''
          else ''request done (HTTP '' @ show_nat status @ '')''
      | MissingSuccess \<Rightarrow> ''no sign of success (HTTP '' @ show_nat status @ ''): '' @ shown)"

definition login_phase :: "http_env \<Rightarrow> instant \<Rightarrow> http_login_request \<Rightarrow> http_state \<Rightarrow> http_attempt_report \<times> http_state" where
  "login_phase env start req st =
     (let vars = hs_vars st;
          url = substitute vars (hq_url req); headers = substitute vars (hq_headers req);
          body = substitute vars (hq_body req);
          (res, st1) = send_http env (hq_method req) url headers body REQUEST_TIMEOUT st;
          st2 = normalized st1;
          rd = redact_text (hs_secrets st2);
          shown_url = redact_url (hs_secrets st2) url
      in case res of
           Inl e \<Rightarrow>
             (abort_report NetworkError (rd (''the request failed: '' @ e)) (Some (shown_url, rd headers, rd body)) None None
                (millis start st2), st2)
         | Inr (status, response, response_headers) \<Rightarrow>
             let verdict = classify_response req status response; snippet = rd (truncate_snippet response)
             in (\<lparr>rp_step_reports = [], rp_outcome = verdict_outcome verdict,
                  rp_message = verdict_message req verdict status snippet, rp_rendered_url = shown_url,
                  rp_rendered_headers = rd headers, rp_rendered_body = rd body, rp_status = Some status,
                  rp_response_headers = rd response_headers, rp_response_snippet = snippet,
                  rp_script_error = None, rp_duration_ms = millis start st2\<rparr>, st2))"

definition run_chain :: "http_env \<Rightarrow> instant \<Rightarrow> http_login_request \<Rightarrow> http_attempt_report \<times> http_state" where
  "run_chain env start req0 =
     (case then_attempt (open_attempt env start req0) (\<lambda>req st.
             let st1 = logout_phase env req st
             in then_attempt (script_phase env start req) (\<lambda>_.
                then_attempt (pre_phase env start req) (\<lambda>_ st2. (Inr req, st2))) st1) (attempt_new start) of
        (Inl r, st) \<Rightarrow> (r, st)
      | (Inr req, st) \<Rightarrow> login_phase env start req st)"

end
