(* ===== verification/Http_Flow.thy ===== *)
theory Http_Flow
  imports Http_Login
begin

text \<open>
  The ordered flow of a direct login (\<open>run_flow_once\<close> in \<open>login/http_login.rs\<close>): at most sixteen
  steps share one client, one table of variables and one deadline of two minutes. A request may fill
  several variables at once, and keeps none of them if one is missing; a failed step ends the attempt
  unless it is marked to be ignored. The last word is the response of the step of the result.
\<close>

section \<open>Reports of a flow\<close>

definition flow_step_report ::
  "http_flow_step \<Rightarrow> step_outcome \<Rightarrow> string \<Rightarrow> rendered \<Rightarrow> seen_response option \<Rightarrow> string list \<Rightarrow> instant
     \<Rightarrow> http_state \<Rightarrow> http_step_report"
where
  "flow_step_report step outcome message rendered response produced step_start st =
     (let (status, response_headers, response_body) = (case response of Some r \<Rightarrow> r | None \<Rightarrow> (0, [], []))
      in \<lparr>st_id = fs_id step, st_name = fs_name step, st_kind = fs_kind step, st_outcome = outcome,
          st_message = message, st_produced_vars = produced, st_rendered_url = fst rendered,
          st_rendered_headers = fst (snd rendered), st_rendered_body = snd (snd rendered),
          st_status = (if status \<noteq> 0 then Some status else None), st_response_headers = response_headers,
          st_response_snippet = truncate_snippet response_body, st_duration_ms = millis step_start st\<rparr>)"

definition flow_abort ::
  "outcome \<Rightarrow> string \<Rightarrow> rendered option \<Rightarrow> seen_response option \<Rightarrow> string option \<Rightarrow> instant \<Rightarrow> http_state
     \<Rightarrow> http_attempt_report"
where
  "flow_abort outcome message rendered response script_error start st =
     (let secrets = normalize_secrets (hs_secrets st);
          rd = redact_text secrets;
          r = abort_report outcome (rd message) rendered response (map_option rd script_error) (millis start st)
      in r\<lparr>rp_rendered_url := redact_url secrets (rp_rendered_url r),
           rp_rendered_headers := rd (rp_rendered_headers r), rp_rendered_body := rd (rp_rendered_body r),
           rp_response_headers := rd (rp_response_headers r),
           rp_response_snippet := rd (truncate_snippet (rp_response_snippet r)),
           rp_step_reports := map (redact_step secrets) (hs_reports st)\<rparr>)"

definition push_report :: "http_step_report \<Rightarrow> http_state \<Rightarrow> http_state" where
  "push_report r st = st\<lparr>hs_reports := hs_reports st @ [r]\<rparr>"

definition flow_timed_out :: "instant \<Rightarrow> http_state \<Rightarrow> (http_attempt_report + 'a) \<times> http_state" where
  "flow_timed_out start st =
     (Inl (flow_abort NetworkError ''the flow timed out'' None None None start st), st)"

section \<open>Computations\<close>

definition MAX_EXTRACT_VALUE_BYTES :: nat where "MAX_EXTRACT_VALUE_BYTES = 8 * 1024"
definition MAX_FLOW_VARIABLE_BYTES :: nat where "MAX_FLOW_VARIABLE_BYTES = 128 * 1024"

definition vars_bytes :: "vars \<Rightarrow> nat" where
  "vars_bytes vars = sum_list (map (\<lambda>(k, v). length v) vars)"

text \<open>The login page is fetched once per attempt.\<close>

definition flow_page :: "http_env \<Rightarrow> http_login_request \<Rightarrow> http_state \<Rightarrow> string \<times> http_state" where
  "flow_page env req st =
     (if \<not> hq_fetch_page req then ([], st)
      else case hs_page st of
             Some page \<Rightarrow> (page, st)
           | None \<Rightarrow>
               let (page, st1) = fetch_login_page env (hq_auth_url req) st
               in (page, st1\<lparr>hs_page := Some page\<rparr>))"

definition transform_step ::
  "http_env \<Rightarrow> instant \<Rightarrow> http_login_request \<Rightarrow> http_flow_step \<Rightarrow> unit attempt"
where
  "transform_step env start req step st =
     (let (page, st1) = flow_page env req st;
          report = (\<lambda>out msg produced st'. push_report (flow_step_report step out msg ([], [], []) None produced (hs_now st) st') st')
      in case run_script env (fs_script step) (script_ctx_of req page (hs_vars st1)) st1 of
           (Inl e, st2) \<Rightarrow>
             let st3 = report StepFailed (''the computation failed: '' @ e) [] st2
             in (Inl (flow_abort UnknownError (''step '' @ fs_name step @ '' failed: '' @ e) None None (Some e) start st3), st3)
         | (Inr values, st2) \<Rightarrow>
             if list_ex (\<lambda>(k, v). MAX_EXTRACT_VALUE_BYTES < length v) values
                \<or> MAX_FLOW_VARIABLE_BYTES < vars_bytes (hs_vars st2) + vars_bytes values
             then let st3 = report StepFailed ''variables too large'' [] st2
                  in (Inl (flow_abort UnknownError ''variables too large'' None None None start st3), st3)
             else (Inr (), report StepSuccess (''computed '' @ show_nat (length values) @ '' fields'') (map fst values)
                             (learn env values st2)))"

section \<open>Requests\<close>

text \<open>All rules of a step, with the bytes of the variables so far and the secrets learnt on the way.\<close>

fun extract_rules ::
  "http_env \<Rightarrow> http_response \<Rightarrow> vars \<Rightarrow> nat \<Rightarrow> vars \<Rightarrow> string list \<Rightarrow> http_extract_rule list
     \<Rightarrow> (string + vars) \<times> string list"
where
  "extract_rules env resp vars used pending secrets [] = (Inr pending, secrets)"
| "extract_rules env resp vars used pending secrets (rule # rules) =
     (case extract_flow_value (hx_lib env) (hx_join env) rule (hp_body resp) (hp_headers resp) (hp_final_url resp) of
        Inl e \<Rightarrow> (Inl (''extracting '' @ er_name rule @ '' failed: '' @ e), secrets)
      | Inr v \<Rightarrow>
          let previous = (case map_of (rev pending) (er_name rule) of
                            Some p \<Rightarrow> length p
                          | None \<Rightarrow> (case map_of vars (er_name rule) of Some p \<Rightarrow> length p | None \<Rightarrow> 0))
          in if MAX_EXTRACT_VALUE_BYTES < length v \<or> MAX_FLOW_VARIABLE_BYTES < used - previous + length v
             then (Inl (''extracting '' @ er_name rule @ '' failed: too large''), secrets)
             else extract_rules env resp vars (used - previous + length v) (pending @ [(er_name rule, v)])
                    (add_secret (hl_form_encode (hx_lib env)) v secrets) rules)"

text \<open>What a response fills in: the problem, the new names, and the state.\<close>

definition step_extraction ::
  "http_env \<Rightarrow> http_flow_step \<Rightarrow> http_response \<Rightarrow> http_state \<Rightarrow> string option \<times> string list \<times> http_state"
where
  "step_extraction env step resp st =
     (if fs_extracts step \<noteq> []
      then (case extract_rules env resp (hs_vars st) (vars_bytes (hs_vars st)) [] (hs_secrets st) (fs_extracts step) of
              (Inl e, secrets) \<Rightarrow> (Some e, [], st\<lparr>hs_secrets := secrets\<rparr>)
            | (Inr pending, secrets) \<Rightarrow>
                (None, map fst pending,
                 st\<lparr>hs_secrets := secrets, hs_vars := fold (\<lambda>(k, v). AList.update k v) pending (hs_vars st)\<rparr>))
      else if trim (fs_extract step) \<noteq> []
      then (let pre = pre_of_step step
            in case bind_res (extract_path pre) (\<lambda>path. extract_pre_value (hx_lib env) path (hp_body resp)) of
                 Inl e \<Rightarrow> (Some (''extraction failed: '' @ e), [], st)
               | Inr v \<Rightarrow>
                   if MAX_EXTRACT_VALUE_BYTES < length v
                      \<or> MAX_FLOW_VARIABLE_BYTES < vars_bytes (hs_vars st) + length v
                   then (Some ''extraction failed: too large'', [], st)
                   else (None, [placeholder_name pre], learn env [(placeholder_name pre, v)] st))
      else (None, [], st))"

text \<open>The pause after a request, if it still fits before the deadline. Validation has excluded the
  waits that are not finite.\<close>

definition wait_flow_step :: "float64 \<Rightarrow> instant \<Rightarrow> http_state \<Rightarrow> bool \<times> http_state" where
  "wait_flow_step w start st =
     (case w of
        Nanos n \<Rightarrow>
          if n \<le> 0 then (True, st)
          else if FLOW_TIMEOUT - (hs_now st - start) < nat n then (False, st)
          else (True, st\<lparr>hs_now := hs_now st + nat n\<rparr>)
      | NegInf \<Rightarrow> (True, st)
      | _ \<Rightarrow> (False, st))"

definition wait_or_abort :: "float64 \<Rightarrow> instant \<Rightarrow> unit attempt" where
  "wait_or_abort w start st =
     (case wait_flow_step w start st of
        (True, st1) \<Rightarrow> (Inr (), st1)
      | (False, st1) \<Rightarrow> flow_timed_out start st1)"

text \<open>What follows on the response of a request step.\<close>

definition conclude_step ::
  "http_env \<Rightarrow> instant \<Rightarrow> string \<Rightarrow> http_flow_step \<Rightarrow> rendered \<Rightarrow> instant \<Rightarrow> http_response \<Rightarrow> unit attempt"
where
  "conclude_step env start result_id step rendered step_start resp st =
     (let is_result = (fs_id step = result_id);
          seen = (hp_status resp, hp_headers_text resp, hp_body resp);
          (issue0, produced, st1) = step_extraction env step resp st;
          issue = (case issue0 of
                     Some e \<Rightarrow> Some (e, UnknownError)
                   | None \<Rightarrow>
                       if \<not> status_success (hp_status resp) \<and> \<not> is_result
                          \<and> trim (fs_extract step) = [] \<and> fs_extracts step = []
                       then Some (''HTTP '' @ show_nat (hp_status resp), AssertionFailed) else None);
          ignored = (issue \<noteq> None \<and> fs_on_error step = ContinueOnError);
          message = (case issue of Some (e, _) \<Rightarrow> e | None \<Rightarrow> ''HTTP '' @ show_nat (hp_status resp));
          out = (if ignored then StepIgnored else if issue \<noteq> None then StepFailed else StepSuccess);
          st2 = push_report (flow_step_report step out message rendered (Some seen) produced step_start st1) st1
      in case issue of
           Some (e, outcome) \<Rightarrow>
             if \<not> ignored
             then (Inl (flow_abort outcome (''step '' @ fs_name step @ '' failed: '' @ e) (Some rendered) (Some seen) None start st2), st2)
             else wait_or_abort (fs_wait_secs step) start
                    (if is_result then st2\<lparr>hs_result := Some (hp_status resp, hp_body resp, hp_headers_text resp, rendered)\<rparr> else st2)
         | None \<Rightarrow>
             wait_or_abort (fs_wait_secs step) start
               (if is_result then st2\<lparr>hs_result := Some (hp_status resp, hp_body resp, hp_headers_text resp, rendered)\<rparr> else st2))"

definition request_step ::
  "http_env \<Rightarrow> instant \<Rightarrow> string \<Rightarrow> http_flow_step \<Rightarrow> unit attempt"
where
  "request_step env start result_id step st =
     (let vars = hs_vars st;
          url = substitute vars (fs_url step); headers = substitute vars (fs_headers step);
          body = substitute vars (fs_body step);
          rendered = (url, headers, body);
          timeout = min REQUEST_TIMEOUT (FLOW_TIMEOUT - (hs_now st - start))
      in case send_http_detailed env (fs_method step) url headers body timeout (fs_stop_on_redirect step) st of
           (Inr resp, st1) \<Rightarrow> conclude_step env start result_id step rendered (hs_now st) resp st1
         | (Inl e, st1) \<Rightarrow>
             let ignored = (fs_on_error step = ContinueOnError);
                 st2 = push_report (flow_step_report step (if ignored then StepIgnored else StepFailed)
                                      (''the request failed: '' @ e) rendered None [] (hs_now st) st1) st1
             in if ignored then wait_or_abort (fs_wait_secs step) start st2
                else (Inl (flow_abort NetworkError (''step '' @ fs_name step @ '': the request failed: '' @ e)
                             (Some rendered) None None start st2), st2))"

section \<open>The flow\<close>

definition flow_step :: "http_env \<Rightarrow> instant \<Rightarrow> http_login_request \<Rightarrow> string \<Rightarrow> http_flow_step \<Rightarrow> unit attempt" where
  "flow_step env start req result_id step st =
     (if FLOW_TIMEOUT \<le> hs_now st - start then flow_timed_out start st
      else case fs_kind step of
             TransformStep \<Rightarrow> transform_step env start req step st
           | RequestStep \<Rightarrow> request_step env start result_id step st)"

fun flow_steps :: "http_env \<Rightarrow> instant \<Rightarrow> http_login_request \<Rightarrow> string \<Rightarrow> http_flow_step list \<Rightarrow> unit attempt" where
  "flow_steps env start req result_id [] st = (Inr (), st)"
| "flow_steps env start req result_id (step # steps) st =
     then_attempt (flow_step env start req result_id step) (\<lambda>_. flow_steps env start req result_id steps) st"

definition result_step_of :: "http_login_request \<Rightarrow> string" where
  "result_step_of req =
     (if hq_result_step_id req = []
      then (case last_request (hq_steps req) of Some s \<Rightarrow> fs_id s | None \<Rightarrow> [])
      else hq_result_step_id req)"

definition flow_message :: "http_login_request \<Rightarrow> http_response_verdict \<Rightarrow> nat \<Rightarrow> string" where
  "flow_message req verdict status =
     (case verdict of
        VerdictFailure _ \<Rightarrow> ''step '' @ result_step_of req @ '' shows a failure (HTTP '' @ show_nat status @ '')''
      | VerdictSuccess \<Rightarrow>
          if hq_success_check req = CheckNetwork
          then ''flow done (HTTP '' @ show_nat status @ ''), the network check decides''
          else ''flow done (HTTP '' @ show_nat status @ '')''
      | MissingSuccess \<Rightarrow> ''step '' @ result_step_of req @ '' shows no success (HTTP '' @ show_nat status @ '')'')"

definition finish_flow :: "instant \<Rightarrow> http_login_request \<Rightarrow> http_state \<Rightarrow> http_attempt_report" where
  "finish_flow start req st =
     (case hs_result st of
        None \<Rightarrow> flow_abort UnknownError ''no response of the step of the result'' None None None start st
      | Some (status, body, response_headers, url, headers, request_body) \<Rightarrow>
          let verdict = classify_response req status body;
              secrets = normalize_secrets (hs_secrets st); rd = redact_text secrets
          in \<lparr>rp_step_reports = map (redact_step secrets) (hs_reports st), rp_outcome = verdict_outcome verdict,
              rp_message = rd (flow_message req verdict status), rp_rendered_url = redact_url secrets url,
              rp_rendered_headers = rd headers, rp_rendered_body = rd request_body, rp_status = Some status,
              rp_response_headers = rd response_headers, rp_response_snippet = rd (truncate_snippet body),
              rp_script_error = None, rp_duration_ms = millis start st\<rparr>)"

definition run_flow_once :: "http_env \<Rightarrow> instant \<Rightarrow> http_login_request \<Rightarrow> http_attempt_report \<times> http_state" where
  "run_flow_once env start req0 =
     (case then_attempt (open_attempt env start req0)
             (\<lambda>req. then_attempt (flow_steps env start req (result_step_of req) (hq_steps req)) (\<lambda>_ st. (Inr req, st)))
             (attempt_new start) of
        (Inl r, st) \<Rightarrow> (r, st)
      | (Inr req, st) \<Rightarrow> (finish_flow start req st, st))"

text \<open>One attempt of a direct login.\<close>

definition run_once :: "http_env \<Rightarrow> instant \<Rightarrow> http_login_request \<Rightarrow> http_attempt_report \<times> http_state" where
  "run_once env start req = (if hq_steps req \<noteq> [] then run_flow_once env start req else run_chain env start req)"

end
