(* ===== verification/Http_Text_Props.thy ===== *)
theory Http_Text_Props
  imports Http_Text
begin

text \<open>
  What the text functions of a direct login guarantee: a template is rendered in one pass over its
  own text, redaction removes every occurrence of a secret, and the excerpt of a response is short.
\<close>

section \<open>Rendering\<close>

text \<open>A reference reading of templates that does not know the variables.\<close>

datatype template_piece = Literal string | Hole string

function template_pieces :: "string \<Rightarrow> template_piece list" where
  "template_pieces [] = []"
| "template_pieces (c # cs) =
     (case placeholder_at c cs of
        Some (name, rest) \<Rightarrow> Hole name # template_pieces rest
      | None \<Rightarrow> Literal (take (utf8_char_len c) (c # cs)) # template_pieces (drop (utf8_char_len c) (c # cs)))"
  by pat_completeness auto
termination
proof (relation "measure length")
  show "(rest, c # cs) \<in> measure length"
    if "placeholder_at c cs = Some x" "(name, rest) = x" for c cs x name rest
    using that placeholder_at_shorter [of c cs] by fastforce
qed auto

fun piece_text :: "template_piece \<Rightarrow> string" where
  "piece_text (Literal t) = t"
| "piece_text (Hole name) = ''{'' @ name @ ''}''"

fun render_piece :: "vars \<Rightarrow> template_piece \<Rightarrow> string" where
  "render_piece vars (Literal t) = t"
| "render_piece vars (Hole name) =
     (case map_of vars name of Some v \<Rightarrow> v | None \<Rightarrow> piece_text (Hole name))"

lemma placeholder_at_Some:
  "placeholder_at c cs = Some (name, rest) \<longleftrightarrow>
     c = CHR ''{'' \<and> cs = name @ CHR ''}'' # rest \<and> is_placeholder_name name"
proof -
  have b: "CHR ''}'' \<notin> set n" if "is_placeholder_name n" for n
    using that by (auto simp: is_placeholder_name_def list_all_iff is_ascii_alphanumeric_def Let_def)
  show ?thesis
  proof
    assume "placeholder_at c cs = Some (name, rest)"
    then show "c = CHR ''{'' \<and> cs = name @ CHR ''}'' # rest \<and> is_placeholder_name name"
      by (auto simp: placeholder_at_def split_once_Some split: if_splits option.splits)
  qed (use b [of name] in \<open>simp add: placeholder_at_def\<close>)
qed

lemma name_char:
  assumes "is_ascii_alphanumeric c \<or> c = CHR ''_'' \<or> c = CHR ''-'' \<or> c = CHR ''.'' \<or> c = CHR ''}''"
  shows "placeholder_at c cs = None" and "utf8_char_len c = 1"
proof -
  have "c \<noteq> CHR ''{''" using assms by (auto simp: is_ascii_alphanumeric_def Let_def)
  then show "placeholder_at c cs = None" by (simp add: placeholder_at_def)
  have "byte c \<le> 127" using assms by (auto simp: is_ascii_alphanumeric_def Let_def)
  then show "utf8_char_len c = 1" by (simp add: utf8_char_len_def)
qed

lemma substitute_name:
  assumes "list_all (\<lambda>c. is_ascii_alphanumeric c \<or> c = CHR ''_'' \<or> c = CHR ''-'' \<or> c = CHR ''.'' \<or> c = CHR ''}'') s"
  shows "substitute vars (s @ t) = s @ substitute vars t"
  using assms by (induction s) (simp_all add: lookup_placeholder_def name_char)

lemma substitute_pieces: "substitute vars t = concat (map (render_piece vars) (template_pieces t))"
proof (induction t rule: template_pieces.induct)
  case (2 c cs)
  show ?case
  proof (cases "placeholder_at c cs")
    case None
    show ?thesis by (simp add: lookup_placeholder_def None 2(1) [OF None] del: take_Cons' drop_Cons')
  next
    case (Some nr)
    then obtain name rest where p: "placeholder_at c cs = Some (name, rest)" by (cases nr) auto
    have ih: "substitute vars rest = concat (map (render_piece vars) (template_pieces rest))"
      by (rule 2(2) [OF p refl])
    show ?thesis
    proof (cases "map_of vars name")
      case (Some v)
      with p ih show ?thesis by (simp add: lookup_placeholder_def)
    next
      case None
      from p have c: "c = CHR ''{''" and cs: "cs = (name @ ''}'') @ rest" and n: "is_placeholder_name name"
        by (auto simp: placeholder_at_Some)
      have w: "utf8_char_len c = 1" by (simp add: c utf8_char_len_def)
      have "substitute vars cs = (name @ ''}'') @ substitute vars rest"
        unfolding cs using n by (intro substitute_name) (auto simp: is_placeholder_name_def list_all_iff)
      then have "substitute vars (c # cs) = ''{'' @ (name @ ''}'') @ substitute vars rest"
        using p None w c by (simp add: lookup_placeholder_def)
      with p None ih show ?thesis by simp
    qed
  qed
qed simp

lemma pieces_text: "concat (map piece_text (template_pieces t)) = t"
proof (induction t rule: template_pieces.induct)
  case (2 c cs)
  show ?case
  proof (cases "placeholder_at c cs")
    case None
    have "take (utf8_char_len c) (c # cs) @ drop (utf8_char_len c) (c # cs) = c # cs" by (rule append_take_drop_id)
    then show ?thesis by (simp add: None 2(1) [OF None] del: append_take_drop_id)
  next
    case (Some nr)
    then obtain name rest where p: "placeholder_at c cs = Some (name, rest)" by (cases nr) auto
    with 2(2) [OF p refl] have "concat (map piece_text (template_pieces (c # cs))) = ''{'' @ name @ ''}'' @ rest"
      by simp
    with p show ?thesis by (simp add: placeholder_at_Some)
  qed
qed simp

text \<open>Rendering a template is one pass over its own text: the template splits into literal pieces
  and placeholders, independently of the variables, and every known placeholder is replaced by its
  value as it is, every unknown one stays, so nothing in a value is ever read as a placeholder.\<close>

theorem template_one_pass:
  "concat (map piece_text (template_pieces t)) = t
   \<and> substitute vars t = concat (map (render_piece vars) (template_pieces t))"
  using pieces_text substitute_pieces by blast

section \<open>Redaction\<close>

lemma replace_prefix:
  assumes "starts_with (replace_text p ''***'' t) s" and "CHR ''*'' \<notin> set s"
  shows "starts_with t s"
  using assms
proof (induction p "''***''" t arbitrary: s rule: replace_text.induct)
  case (2 p c cs)
  then show ?case by (cases s) (auto split: if_splits)
qed simp

lemma contains_Cons: "str_contains (c # cs) s \<longleftrightarrow> starts_with (c # cs) s \<or> str_contains cs s"
  by (subst str_contains.simps) simp

lemma contains_Nil: "str_contains [] s \<longleftrightarrow> s = []"
  by (subst str_contains.simps) (cases s; simp)

lemma contains_stars:
  "s \<noteq> [] \<Longrightarrow> CHR ''*'' \<notin> set s \<Longrightarrow> str_contains (''***'' @ t) s \<longleftrightarrow> str_contains t s"
  by (cases s) (auto simp: contains_Cons)

lemma contains_drop: "str_contains (drop n t) s \<Longrightarrow> str_contains t s"
  unfolding str_contains_iff by (metis append.assoc append_take_drop_id)

lemma replace_contains:
  assumes "s \<noteq> []" "CHR ''*'' \<notin> set s" "str_contains (replace_text p ''***'' t) s"
  shows "str_contains t s"
  using assms
proof (induction p "''***''" t rule: replace_text.induct)
  case (2 p c cs)
  show ?case
  proof (cases "p \<noteq> [] \<and> starts_with (c # cs) p")
    case True
    with 2 have "str_contains (replace_text p ''***'' (drop (length p) (c # cs))) s"
      by (metis contains_stars replace_text.simps(2))
    with 2(1) [OF True] 2(3,4) have "str_contains (drop (length p) (c # cs)) s" by blast
    then show ?thesis by (rule contains_drop)
  next
    case False
    then have e: "replace_text p ''***'' (c # cs) = c # replace_text p ''***'' cs" by auto
    show ?thesis
    proof (cases "starts_with (c # replace_text p ''***'' cs) s")
      case True
      then have "starts_with (c # cs) s" using 2(4) e replace_prefix [of p "c # cs" s] by metis
      then show ?thesis by (simp add: contains_Cons)
    next
      case not: False
      with 2(5) e have "str_contains (replace_text p ''***'' cs) s" by (simp add: contains_Cons)
      with 2(2) [OF False] 2(3,4) show ?thesis by (simp add: contains_Cons)
    qed
  qed
qed simp

lemma replace_removes:
  assumes "p \<noteq> []" "CHR ''*'' \<notin> set p"
  shows "\<not> str_contains (replace_text p ''***'' t) p"
  using assms
proof (induction p "''***''" t rule: replace_text.induct)
  case (1 p)
  then show ?case by (simp add: contains_Nil)
next
  case (2 p c cs)
  show ?case
  proof (cases "starts_with (c # cs) p")
    case True
    with 2(3,4) have "replace_text p ''***'' (c # cs) = ''***'' @ replace_text p ''***'' (drop (length p) (c # cs))"
      by simp
    with 2(1) True 2(3,4) show ?thesis by (metis contains_stars)
  next
    case False
    then have e: "replace_text p ''***'' (c # cs) = c # replace_text p ''***'' cs" by auto
    have "\<not> starts_with (c # replace_text p ''***'' cs) p"
      using False 2(4) e replace_prefix [of p "c # cs" p] by metis
    with 2(2) False 2(3,4) e show ?thesis by (simp add: contains_Cons)
  qed
qed

lemma redact_keeps_away:
  "s \<noteq> [] \<Longrightarrow> CHR ''*'' \<notin> set s \<Longrightarrow> \<not> str_contains t s \<Longrightarrow> \<not> str_contains (redact_text secrets t) s"
  by (induction secrets arbitrary: t) (auto simp: redact_text_def dest: replace_contains)

lemma redact_removes:
  assumes "s \<in> set secrets" "s \<noteq> []" "CHR ''*'' \<notin> set s"
  shows "\<not> str_contains (redact_text secrets t) s"
  using assms(1)
proof (induction secrets arbitrary: t)
  case (Cons p secrets)
  have e: "redact_text (p # secrets) t = redact_text secrets (replace_text p ''***'' t)"
    by (simp add: redact_text_def)
  show ?case
  proof (cases "s = p")
    case True
    with assms replace_removes redact_keeps_away show ?thesis unfolding e by blast
  next
    case False
    with Cons show ?thesis unfolding e by simp
  qed
qed simp

section \<open>The dictionary of secrets\<close>

lemma set_insert_secret [simp]: "set (insert_secret s ts) = insert s (set ts)"
  by (induction ts) auto

lemma set_normalize [simp]: "set (normalize_secrets secrets) = set secrets"
proof -
  have "set (foldr insert_secret secrets []) = set secrets" by (induction secrets) auto
  then show ?thesis by (simp add: normalize_secrets_def)
qed

lemma add_secret_set:
  "set (add_secret enc v secrets) = (if v = [] then set secrets else set secrets \<union> {v, enc v})"
  by (auto simp: add_secret_def)

abbreviation collect_step :: "(string \<Rightarrow> string) \<Rightarrow> string \<times> string \<Rightarrow> string list \<Rightarrow> string list" where
  "collect_step enc \<equiv> (\<lambda>(k, v) secrets. if k \<in> set public_vars then secrets else add_secret enc v secrets)"

lemma collect_keeps: "s \<in> set acc \<Longrightarrow> s \<in> set (fold (collect_step enc) vars acc)"
  by (induction vars arbitrary: acc) (auto simp: add_secret_set)

lemma collect_adds:
  "(k, v) \<in> set vars \<Longrightarrow> k \<notin> set public_vars \<Longrightarrow> v \<noteq> []
     \<Longrightarrow> {v, enc v} \<subseteq> set (fold (collect_step enc) vars acc)"
proof (induction vars arbitrary: acc)
  case (Cons kv vars)
  show ?case
  proof (cases "kv = (k, v)")
    case True
    with Cons.prems have "{v, enc v} \<subseteq> set (collect_step enc kv acc)" by (simp add: add_secret_set)
    then show ?thesis by (auto intro: collect_keeps)
  next
    case False
    with Cons show ?thesis by auto
  qed
qed simp

lemma collect_secrets_set:
  "(k, v) \<in> set vars \<Longrightarrow> k \<notin> set public_vars \<Longrightarrow> v \<noteq> []
     \<Longrightarrow> v \<in> set (collect_secrets enc vars) \<and> enc v \<in> set (collect_secrets enc vars)"
  using collect_adds [of k v vars enc "[]"] by (auto simp: collect_secrets_def)

section \<open>Excerpts\<close>

lemma char_count_append [simp]: "char_count (a @ b) = char_count a + char_count b"
  by (simp add: char_count_def)

lemma take_chars_count: "char_count (take_chars n s) \<le> n"
  by (induction n s rule: take_chars.induct) (auto simp: char_count_def split: nat.splits)

lemma snippet_short: "char_count (truncate_snippet body) \<le> SNIPPET_LEN + 1"
proof -
  have "char_count ellipsis = 1" by (simp add: char_count_def ellipsis_def bytes_def cont_byte_def)
  then show ?thesis
    using take_chars_count [of SNIPPET_LEN "str_join '' '' (split_whitespace body)"]
    by (simp add: truncate_snippet_def Let_def char_count_def)
qed

end
