(* ===== verification/Http_Props.thy ===== *)
theory Http_Props
  imports Http_Flow Http_Text_Props
begin

text \<open>
  What holds of every attempt of a direct login: its report shows no secret, its requests do not carry
  the template to another origin, and its time is bounded.
\<close>

section \<open>Secrets\<close>

definition hides :: "string \<Rightarrow> string \<Rightarrow> bool" where
  "hides s text \<longleftrightarrow> \<not> str_contains text s"

definition step_hides :: "string \<Rightarrow> http_step_report \<Rightarrow> bool" where
  "step_hides s r \<longleftrightarrow>
     hides s (st_message r) \<and> list_all (hides s) (st_produced_vars r) \<and> hides s (st_rendered_url r)
     \<and> hides s (st_rendered_headers r) \<and> hides s (st_rendered_body r) \<and> hides s (st_response_headers r)
     \<and> hides s (st_response_snippet r)"

definition report_hides :: "string \<Rightarrow> http_attempt_report \<Rightarrow> bool" where
  "report_hides s r \<longleftrightarrow>
     hides s (rp_rendered_url r) \<and> hides s (rp_rendered_headers r) \<and> hides s (rp_rendered_body r)
     \<and> hides s (rp_response_headers r) \<and> hides s (rp_response_snippet r)
     \<and> (case rp_script_error r of Some e \<Rightarrow> hides s e | None \<Rightarrow> True)
     \<and> list_all (step_hides s) (rp_step_reports r)"

text \<open>A secret that redaction can remove: it is not empty and does not contain the replacement.\<close>

definition hideable :: "string \<Rightarrow> bool" where
  "hideable s \<longleftrightarrow> s \<noteq> [] \<and> CHR ''*'' \<notin> set s"

lemma hides_redact: "s \<in> set secrets \<Longrightarrow> hideable s \<Longrightarrow> hides s (redact_text secrets t)"
  using redact_removes by (simp add: hides_def hideable_def)

lemma hides_Nil: "hideable s \<Longrightarrow> hides s []"
  by (simp add: hides_def hideable_def contains_Nil)

lemma step_hides_redact: "s \<in> set secrets \<Longrightarrow> hideable s \<Longrightarrow> step_hides s (redact_step secrets r)"
  by (simp add: step_hides_def redact_step_def redact_url_def hides_redact list_all_iff)

lemma flow_abort_hides:
  assumes "s \<in> set (hs_secrets st)" and "hideable s"
  shows "report_hides s (flow_abort out msg rendered response script_error start st)
    \<and> hides s (rp_message (flow_abort out msg rendered response script_error start st))"
proof -
  have s: "s \<in> set (normalize_secrets (hs_secrets st))" using assms(1) by simp
  show ?thesis
    by (auto simp: report_hides_def flow_abort_def abort_report_def Let_def redact_url_def list_all_iff
        hides_redact [OF s assms(2)] step_hides_redact [OF s assms(2)] split: option.split prod.split)
qed

lemma finish_flow_hides:
  assumes "s \<in> set (hs_secrets st)" and "hideable s"
  shows "report_hides s (finish_flow start req st) \<and> hides s (rp_message (finish_flow start req st))"
proof (cases "hs_result st")
  case None
  with flow_abort_hides [OF assms] show ?thesis by (simp add: finish_flow_def)
next
  case (Some x)
  have s: "s \<in> set (normalize_secrets (hs_secrets st))" using assms(1) by simp
  show ?thesis
    by (cases x) (simp add: Some finish_flow_def report_hides_def Let_def redact_url_def list_all_iff
        hides_redact [OF s assms(2)] step_hides_redact [OF s assms(2)])
qed

text \<open>Every value a placeholder can have is among the secrets, unless the placeholder is public.\<close>

definition covered :: "(string \<Rightarrow> string) \<Rightarrow> http_state \<Rightarrow> bool" where
  "covered enc st \<longleftrightarrow> (\<forall>(k, v)\<in>set (hs_vars st). v = [] \<or> k \<in> set public_vars
                          \<or> (v \<in> set (hs_secrets st) \<and> enc v \<in> set (hs_secrets st)))"

definition same_knowledge :: "http_state \<Rightarrow> http_state \<Rightarrow> bool" where
  "same_knowledge st st' \<longleftrightarrow> hs_vars st' = hs_vars st \<and> set (hs_secrets st') = set (hs_secrets st)"

definition discreet :: "(string \<Rightarrow> string) \<Rightarrow> 'a attempt \<Rightarrow> bool" where
  "discreet enc m \<longleftrightarrow> (\<forall>st res st'. m st = (res, st') \<longrightarrow> covered enc st \<longrightarrow>
     covered enc st' \<and> set (hs_secrets st) \<subseteq> set (hs_secrets st')
     \<and> (\<forall>r s. res = Inl r \<longrightarrow> s \<in> set (hs_secrets st') \<longrightarrow> hideable s \<longrightarrow>
          report_hides s r \<and> hides s (rp_message r)))"

lemma discreetD:
  assumes "discreet enc m" "m st = (res, st')" "covered enc st"
  shows "covered enc st'" "set (hs_secrets st) \<subseteq> set (hs_secrets st')"
    "res = Inl r \<Longrightarrow> s \<in> set (hs_secrets st') \<Longrightarrow> hideable s \<Longrightarrow> report_hides s r \<and> hides s (rp_message r)"
  using assms unfolding discreet_def by blast+

lemma discreet_then:
  assumes "discreet enc m" and "\<And>x. discreet enc (f x)"
  shows "discreet enc (then_attempt m f)"
  unfolding discreet_def
proof (intro allI impI)
  fix st res st'
  assume e: "then_attempt m f st = (res, st')" and c: "covered enc st"
  obtain res1 st1 where m: "m st = (res1, st1)" by (cases "m st")
  note d = discreetD [OF assms(1) m c]
  show "covered enc st' \<and> set (hs_secrets st) \<subseteq> set (hs_secrets st')
     \<and> (\<forall>r s. res = Inl r \<longrightarrow> s \<in> set (hs_secrets st') \<longrightarrow> hideable s \<longrightarrow>
          report_hides s r \<and> hides s (rp_message r))"
  proof (cases res1)
    case (Inl r1)
    with e m have "res = Inl r1" "st' = st1" by (simp_all add: then_attempt_def)
    with d Inl show ?thesis by blast
  next
    case (Inr x)
    with e m have "f x st1 = (res, st')" by (simp add: then_attempt_def)
    from discreetD [OF assms(2) this d(1)] d(2) show ?thesis by blast
  qed
qed

lemma discreet_return: "discreet enc (\<lambda>st. (Inr x, st))"
  unfolding discreet_def by auto

lemma covered_same: "same_knowledge st st' \<Longrightarrow> covered enc st \<Longrightarrow> covered enc st'"
  unfolding covered_def same_knowledge_def by simp

lemma sends_same: "sends_only st st' \<Longrightarrow> same_knowledge st st'"
  using sends_onlyD by (simp add: same_knowledge_def)

lemma same_trans: "same_knowledge a b \<Longrightarrow> same_knowledge b c \<Longrightarrow> same_knowledge a c"
  by (simp add: same_knowledge_def)

lemma same_refl [simp]: "same_knowledge st st"
  by (simp add: same_knowledge_def)

lemma same_updates [simp]:
  "same_knowledge st (st\<lparr>hs_now := t\<rparr>)" "same_knowledge st (push_report r st)"
  "same_knowledge st (st\<lparr>hs_page := p\<rparr>)" "same_knowledge st (st\<lparr>hs_result := x\<rparr>)"
  "same_knowledge st (normalized st)"
  by (simp_all add: same_knowledge_def push_report_def normalized_def)

lemma update_subset: "set (AList.update k v xs) \<subseteq> insert (k, v) (set xs)"
  by (induction xs) auto

text \<open>Learning values keeps the cover: each of them joins the secrets.\<close>

lemma learn_covered:
  assumes "covered enc st" and "enc = hl_form_encode (hx_lib env)"
  shows "covered enc (learn env vals st) \<and> set (hs_secrets st) \<subseteq> set (hs_secrets (learn env vals st))"
  using assms(1)
proof (induction vals arbitrary: st)
  case Nil
  then show ?case by (simp add: learn_def)
next
  case (Cons kv vals)
  obtain k v where kv: "kv = (k, v)" by (cases kv)
  let ?st = "st\<lparr>hs_secrets := add_secret enc v (hs_secrets st), hs_vars := AList.update k v (hs_vars st)\<rparr>"
  have "covered enc ?st"
    using Cons.prems update_subset [of k v "hs_vars st"]
    unfolding covered_def by (auto simp: add_secret_set)
  from Cons.IH [OF this] have ih: "covered enc (learn env vals ?st)"
    "set (hs_secrets ?st) \<subseteq> set (hs_secrets (learn env vals ?st))" by blast+
  have "learn env (kv # vals) st = learn env vals ?st" by (simp add: learn_def kv assms(2))
  moreover have "set (hs_secrets st) \<subseteq> set (hs_secrets ?st)" by (auto simp: add_secret_set)
  ultimately show ?case using ih by simp
qed

lemma run_script_same: "run_script env script ctx st = (res, st') \<Longrightarrow> same_knowledge st st'"
  by (auto simp: run_script_def split: prod.splits)

lemma abort_message [simp]: "rp_message (abort_report out msg rendered response script_error ms) = msg"
  by (simp add: abort_report_def split: prod.split)

lemma abort_hides:
  assumes "hideable s" and "\<And>x. rendered = Some x \<Longrightarrow> hides s (fst x) \<and> hides s (fst (snd x)) \<and> hides s (snd (snd x))"
    and "\<And>x. response = Some x \<Longrightarrow> hides s (fst (snd x)) \<and> hides s (snd (snd x))"
    and "\<And>x. script_error = Some x \<Longrightarrow> hides s x"
  shows "report_hides s (abort_report out msg rendered response script_error ms)"
  using assms hides_Nil [OF assms(1)]
  by (cases rendered; cases response; cases script_error)
     (auto simp: report_hides_def abort_report_def Let_def)

text \<open>How a phase is shown discreet: it learns, or it stops with a redacted report.\<close>

lemma discreet_ok:
  assumes "covered enc st" and "same_knowledge st st1" and "enc = hl_form_encode (hx_lib env)"
  shows "covered enc (learn env vals st1) \<and> set (hs_secrets st) \<subseteq> set (hs_secrets (learn env vals st1))"
  using learn_covered [OF covered_same [OF assms(2,1)] assms(3)] assms(2) by (simp add: same_knowledge_def)

lemma discreet_script:
  assumes enc: "enc = hl_form_encode (hx_lib env)"
  shows "discreet enc (script_phase env start req)"
  unfolding discreet_def
proof (intro allI impI)
  fix st res st'
  assume e: "script_phase env start req st = (res, st')" and c: "covered enc st"
  let ?goal = "covered enc st' \<and> set (hs_secrets st) \<subseteq> set (hs_secrets st')
     \<and> (\<forall>r s. res = Inl r \<longrightarrow> s \<in> set (hs_secrets st') \<longrightarrow> hideable s \<longrightarrow> report_hides s r \<and> hides s (rp_message r))"
  show ?goal
  proof (cases "uses_crypto_script req")
    case False
    with e c show ?thesis by (auto simp: script_phase_def)
  next
    case True
    obtain page st1 where p: "(if hq_fetch_page req then fetch_login_page env (hq_auth_url req) st else ([], st)) = (page, st1)"
      by (cases "if hq_fetch_page req then fetch_login_page env (hq_auth_url req) st else ([], st)")
    then have s1: "same_knowledge st st1" by (auto dest: fetch_login_page_sends sends_same split: if_splits)
    obtain r st2 where r: "run_script env (hq_crypto_script req) (script_ctx_of req page []) st1 = (r, st2)"
      by (cases "run_script env (hq_crypto_script req) (script_ctx_of req page []) st1")
    have s2: "same_knowledge st st2" using same_trans [OF s1 run_script_same [OF r]] .
    show ?thesis
    proof (cases r)
      case (Inr vals)
      with e True p r have "res = Inr ()" "st' = learn env vals st2" by (simp_all add: script_phase_def)
      with discreet_ok [OF c s2 enc, of vals] show ?thesis by simp
    next
      case (Inl err)
      define st3 where "st3 = normalized st2"
      have s3: "same_knowledge st st3" unfolding st3_def by (rule same_trans [OF s2]) simp
      from e True p r Inl have "st' = st3" by (simp add: script_phase_def st3_def Let_def)
      moreover have "report_hides s x \<and> hides s (rp_message x)" if "res = Inl x" "s \<in> set (hs_secrets st3)" "hideable s" for x s
        using e True p r Inl that
        by (auto simp: script_phase_def st3_def [symmetric] Let_def hides_redact intro!: abort_hides)
      ultimately show ?thesis using covered_same [OF s3 c] s3 by (auto simp: same_knowledge_def)
    qed
  qed
qed

lemma discreet_pre:
  assumes enc: "enc = hl_form_encode (hx_lib env)"
  shows "discreet enc (pre_phase env start req)"
  unfolding discreet_def
proof (intro allI impI)
  fix st res st'
  assume e: "pre_phase env start req st = (res, st')" and c: "covered enc st"
  let ?goal = "covered enc st' \<and> set (hs_secrets st) \<subseteq> set (hs_secrets st')
     \<and> (\<forall>r s. res = Inl r \<longrightarrow> s \<in> set (hs_secrets st') \<longrightarrow> hideable s \<longrightarrow> report_hides s r \<and> hides s (rp_message r))"
  show ?goal
  proof (cases "hq_pre_request req")
    case None
    with e c show ?thesis by (auto simp: pre_phase_def)
  next
    case (Some pre)
    define st1 where "st1 = normalized st"
    define url where "url = substitute (hs_vars st) (pr_url pre)"
    define headers where "headers = substitute (hs_vars st) (pr_headers pre)"
    define body where "body = substitute (hs_vars st) (pr_body pre)"
    obtain r st2 where r: "send_http env (pr_method pre) url headers body PRE_REQUEST_TIMEOUT st1 = (r, st2)"
      by (cases "send_http env (pr_method pre) url headers body PRE_REQUEST_TIMEOUT st1")
    have s1: "same_knowledge st st1" by (simp add: st1_def)
    have s2: "same_knowledge st st2" using same_trans [OF s1 sends_same [OF send_http_sends [OF r]]] .
    have k: "hs_secrets st2 = hs_secrets st1" using sends_onlyD(2) [OF send_http_sends [OF r]] .
    note pd = pre_phase_def Some Let_def url_def [symmetric] headers_def [symmetric] body_def [symmetric] st1_def [symmetric]
    have stop: ?goal if st': "st' = st2"
      and shown: "\<And>x s. res = Inl x \<Longrightarrow> s \<in> set (hs_secrets st1) \<Longrightarrow> hideable s \<Longrightarrow> report_hides s x \<and> hides s (rp_message x)"
      using covered_same [OF s2 c] s2 shown k by (auto simp: st' same_knowledge_def)
    show ?thesis
    proof (cases r)
      case (Inl err)
      show ?thesis
        by (rule stop) (use e r Inl in \<open>auto simp: pd redact_url_def hides_redact intro!: abort_hides\<close>)
    next
      case (Inr x)
      obtain status response response_headers where x: "x = (status, response, response_headers)" by (cases x)
      show ?thesis
      proof (cases "bind_res (extract_path pre) (\<lambda>path. extract_pre_value (hx_lib env) path response)")
        case v: (Inr v)
        with e r x Inr have "res = Inr ()" "st' = learn env [(placeholder_name pre, v)] st2" by (auto simp: pd)
        with discreet_ok [OF c s2 enc, of "[(placeholder_name pre, v)]"] show ?thesis by simp
      next
        case err: (Inl err)
        show ?thesis
          by (rule stop) (use e r x Inr err in \<open>auto simp: pd redact_url_def hides_redact intro!: abort_hides\<close>)
      qed
    qed
  qed
qed

lemma logout_same: "same_knowledge st (logout_phase env req st)"
proof (cases "hq_logout_request req")
  case (Some logout)
  let ?send = "send_http env (ar_method logout) (substitute (hs_vars st) (ar_url logout))
     (substitute (hs_vars st) (ar_headers logout)) (substitute (hs_vars st) (ar_body logout)) LOGOUT_REQUEST_TIMEOUT st"
  have "same_knowledge st (snd ?send)" using sends_same [OF send_http_sends] by (metis prod.collapse)
  with Some show ?thesis by (simp add: logout_phase_def same_knowledge_def Let_def)
qed (simp add: logout_phase_def)

section \<open>Secrets in a flow\<close>

text \<open>A flow stops with a report made by \<open>flow_abort\<close>, from what is known then.\<close>

lemma discreet_stop:
  assumes "covered enc st" and "same_knowledge st st'"
  shows "covered enc st' \<and> set (hs_secrets st) \<subseteq> set (hs_secrets st')
    \<and> (\<forall>r s. Inl (flow_abort out msg rendered response err start st') = Inl r \<longrightarrow> s \<in> set (hs_secrets st')
         \<longrightarrow> hideable s \<longrightarrow> report_hides s r \<and> hides s (rp_message r))"
  using covered_same [OF assms(2,1)] assms(2) flow_abort_hides by (auto simp: same_knowledge_def)

lemma flow_page_same: "flow_page env req st = (page, st') \<Longrightarrow> same_knowledge st st'"
proof -
  assume e: "flow_page env req st = (page, st')"
  obtain p st1 where f: "fetch_login_page env (hq_auth_url req) st = (p, st1)"
    by (cases "fetch_login_page env (hq_auth_url req) st")
  then have "same_knowledge st st1" by (rule sends_same [OF fetch_login_page_sends])
  have "snd (flow_page env req st) = st \<or> snd (flow_page env req st) = st1\<lparr>hs_page := Some p\<rparr>"
    unfolding flow_page_def f by (simp split: option.split)
  then have "same_knowledge st (snd (flow_page env req st))"
  proof
    assume "snd (flow_page env req st) = st"
    then show ?thesis by simp
  next
    assume p: "snd (flow_page env req st) = st1\<lparr>hs_page := Some p\<rparr>"
    show ?thesis unfolding p by (rule same_trans [OF \<open>same_knowledge st st1\<close>]) simp
  qed
  then show ?thesis unfolding e by simp
qed

lemma discreet_transform:
  assumes enc: "enc = hl_form_encode (hx_lib env)"
  shows "discreet enc (transform_step env start req step)"
  unfolding discreet_def
proof (intro allI impI)
  fix st res st'
  assume e: "transform_step env start req step st = (res, st')" and c: "covered enc st"
  let ?goal = "covered enc st' \<and> set (hs_secrets st) \<subseteq> set (hs_secrets st')
     \<and> (\<forall>r s. res = Inl r \<longrightarrow> s \<in> set (hs_secrets st') \<longrightarrow> hideable s \<longrightarrow> report_hides s r \<and> hides s (rp_message r))"
  obtain page st1 where p: "flow_page env req st = (page, st1)" by (cases "flow_page env req st")
  obtain r st2 where r: "run_script env (fs_script step) (script_ctx_of req page (hs_vars st1)) st1 = (r, st2)"
    by (cases "run_script env (fs_script step) (script_ctx_of req page (hs_vars st1)) st1")
  have s2: "same_knowledge st st2" using same_trans [OF flow_page_same [OF p] run_script_same [OF r]] .
  have s3: "same_knowledge st (push_report x st2)" for x by (rule same_trans [OF s2]) simp
  show ?goal
  proof (cases r)
    case (Inl err)
    obtain x where "st' = push_report x st2" "res = Inl (flow_abort UnknownError
        (''step '' @ fs_name step @ '' failed: '' @ err) None None (Some err) start (push_report x st2))"
      using e p r Inl by (auto simp: transform_step_def Let_def)
    with discreet_stop [OF c s3] show ?thesis by blast
  next
    case (Inr vals)
    show ?thesis
    proof (cases "list_ex (\<lambda>(k, v). MAX_EXTRACT_VALUE_BYTES < length v) vals
        \<or> MAX_FLOW_VARIABLE_BYTES < vars_bytes (hs_vars st2) + vars_bytes vals")
      case True
      obtain x where "st' = push_report x st2" "res = Inl (flow_abort UnknownError ''variables too large'' None None None start (push_report x st2))"
        using e p r Inr True by (auto simp: transform_step_def Let_def)
      with discreet_stop [OF c s3] show ?thesis by blast
    next
      case False
      with e p r Inr obtain x where x: "res = Inr ()" "st' = push_report x (learn env vals st2)"
        by (auto simp: transform_step_def Let_def)
      then have "same_knowledge (learn env vals st2) st'" by simp
      with covered_same [OF this] discreet_ok [OF c s2 enc, of vals] x(1)
      show ?thesis by (auto simp: same_knowledge_def)
    qed
  qed
qed

lemma discreet_wait: "discreet enc (wait_or_abort w start)"
  unfolding discreet_def
proof (intro allI impI)
  fix st res st'
  assume e: "wait_or_abort w start st = (res, st')" and c: "covered enc st"
  show "covered enc st' \<and> set (hs_secrets st) \<subseteq> set (hs_secrets st')
     \<and> (\<forall>r s. res = Inl r \<longrightarrow> s \<in> set (hs_secrets st') \<longrightarrow> hideable s \<longrightarrow> report_hides s r \<and> hides s (rp_message r))"
  proof (cases "fst (wait_flow_step w start st)")
    case True
    then have "res = Inr ()" "same_knowledge st st'"
      using e by (auto simp: wait_or_abort_def wait_flow_step_def same_knowledge_def split: float64.splits if_splits)
    with covered_same [OF this(2) c] show ?thesis by (simp add: same_knowledge_def)
  next
    case False
    then have "wait_flow_step w start st = (False, st)" by (auto simp: wait_flow_step_def split: float64.splits if_splits)
    with e have "st' = st" "res = Inl (flow_abort NetworkError ''the flow timed out'' None None None start st)"
      by (auto simp: wait_or_abort_def flow_timed_out_def)
    with discreet_stop [OF c same_refl] show ?thesis by blast
  qed
qed

lemma extract_rules_secrets:
  "extract_rules env resp vars used pending secrets rules = (res, secrets') \<Longrightarrow> enc = hl_form_encode (hx_lib env) \<Longrightarrow>
     set secrets \<subseteq> set secrets'
     \<and> (\<forall>out. res = Inr out \<longrightarrow> (\<forall>(k, v)\<in>set out - set pending. v = [] \<or> (v \<in> set secrets' \<and> enc v \<in> set secrets')))"
proof (induction rules arbitrary: used pending secrets)
  case (Cons rule rules)
  show ?case
  proof (cases "extract_flow_value (hx_lib env) (hx_join env) rule (hp_body resp) (hp_headers resp) (hp_final_url resp)")
    case (Inl e)
    with Cons.prems show ?thesis by auto
  next
    case (Inr v)
    let ?previous = "case map_of (rev pending) (er_name rule) of
       Some p \<Rightarrow> length p | None \<Rightarrow> (case map_of vars (er_name rule) of Some p \<Rightarrow> length p | None \<Rightarrow> 0)"
    show ?thesis
    proof (cases "MAX_EXTRACT_VALUE_BYTES < length v \<or> MAX_FLOW_VARIABLE_BYTES < used - ?previous + length v")
      case True
      with Inr Cons.prems have "secrets' = secrets" "\<exists>e. res = Inl e" by (auto simp: Let_def)
      then show ?thesis by auto
    next
      case False
      with Inr Cons.prems have "extract_rules env resp vars (used - ?previous + length v) (pending @ [(er_name rule, v)])
          (add_secret enc v secrets) rules = (res, secrets')" by (simp add: Let_def)
      note ih = Cons.IH [OF this Cons.prems(2)]
      have sub: "set secrets \<subseteq> set secrets'" "v = [] \<or> (v \<in> set secrets' \<and> enc v \<in> set secrets')"
        using ih by (auto simp: add_secret_set split: if_splits)
      have "w = [] \<or> (w \<in> set secrets' \<and> enc w \<in> set secrets')"
        if "res = Inr out" "(k, w) \<in> set out" "(k, w) \<notin> set pending" for out k w
        using ih sub(2) that by (cases "(k, w) = (er_name rule, v)") auto
      with sub(1) show ?thesis by auto
    qed
  qed
qed auto

lemma update_all_subset: "set (fold (\<lambda>(k, v). AList.update k v) out xs) \<subseteq> set out \<union> set xs"
proof (induction out arbitrary: xs)
  case (Cons kv out)
  obtain k v where "kv = (k, v)" by (cases kv)
  with Cons.IH [of "AList.update k v xs"] update_subset [of k v xs] show ?case by auto
qed simp

lemma step_extraction_covered:
  assumes x: "step_extraction env step resp st = (issue, produced, st')" and c: "covered enc st"
    and enc: "enc = hl_form_encode (hx_lib env)"
  shows "covered enc st' \<and> set (hs_secrets st) \<subseteq> set (hs_secrets st')"
proof (cases "fs_extracts step = []")
  case True
  show ?thesis
  proof (cases "trim (fs_extract step) = []")
    case True
    with \<open>fs_extracts step = []\<close> x c show ?thesis by (simp add: step_extraction_def)
  next
    case False
    have "st' = st \<or> (\<exists>vals. st' = learn env vals st)"
      using x True False by (auto simp: step_extraction_def Let_def split: sum.splits if_splits)
    then show ?thesis using c learn_covered [OF c enc] by auto
  qed
next
  case False
  obtain res secrets where r: "extract_rules env resp (hs_vars st) (vars_bytes (hs_vars st)) [] (hs_secrets st) (fs_extracts step)
      = (res, secrets)" by (cases "extract_rules env resp (hs_vars st) (vars_bytes (hs_vars st)) [] (hs_secrets st) (fs_extracts step)")
  note k = extract_rules_secrets [OF r enc]
  show ?thesis
  proof (cases res)
    case (Inl e)
    with x False r have "st' = st\<lparr>hs_secrets := secrets\<rparr>" by (simp add: step_extraction_def)
    with c k show ?thesis by (auto simp: covered_def)
  next
    case (Inr out)
    with x False r have st': "st' = st\<lparr>hs_secrets := secrets, hs_vars := fold (\<lambda>(k, v). AList.update k v) out (hs_vars st)\<rparr>"
      by (simp add: step_extraction_def)
    have "v = [] \<or> key \<in> set public_vars \<or> (v \<in> set secrets \<and> enc v \<in> set secrets)"
      if "(key, v) \<in> set (hs_vars st')" for key v
    proof -
      have "(key, v) \<in> set out \<union> set (hs_vars st)" using that update_all_subset [of out "hs_vars st"] by (auto simp: st')
      then show ?thesis using k Inr c by (fastforce simp: covered_def)
    qed
    with k show ?thesis by (auto simp: covered_def st')
  qed
qed

text \<open>What the response of a step leads to: a stop, or the pause before the next step.\<close>

lemma conclude_step_cases:
  assumes "conclude_step env start result_id step rendered step_start resp st = (res, st')"
    and "step_extraction env step resp st = (issue0, produced, st1)"
  obtains (stop) r out msg rd seen where "st' = push_report r st1"
      "res = Inl (flow_abort out msg rd seen None start st')"
  | (go_on) r x where "wait_or_abort (fs_wait_secs step) start ((push_report r st1)\<lparr>hs_result := x\<rparr>) = (res, st')"
proof -
  define issue where "issue = (case issue0 of
     Some e \<Rightarrow> Some (e, UnknownError)
   | None \<Rightarrow> if \<not> status_success (hp_status resp) \<and> fs_id step \<noteq> result_id \<and> trim (fs_extract step) = [] \<and> fs_extracts step = []
             then Some (''HTTP '' @ show_nat (hp_status resp), AssertionFailed) else None)"
  define ignored where "ignored = (issue \<noteq> None \<and> fs_on_error step = ContinueOnError)"
  define seen where "seen = (hp_status resp, hp_headers_text resp, hp_body resp)"
  define st2 where "st2 = push_report (flow_step_report step
      (if ignored then StepIgnored else if issue \<noteq> None then StepFailed else StepSuccess)
      (case issue of Some (e, _) \<Rightarrow> e | None \<Rightarrow> ''HTTP '' @ show_nat (hp_status resp)) rendered (Some seen) produced step_start st1) st1"
  have x: "(if fs_id step = result_id then st2\<lparr>hs_result := Some (hp_status resp, hp_body resp, hp_headers_text resp, rendered)\<rparr> else st2)
      = st2\<lparr>hs_result := (if fs_id step = result_id then Some (hp_status resp, hp_body resp, hp_headers_text resp, rendered)
                       else hs_result st2)\<rparr>" by simp
  have c: "(res, st') = (case issue of
      Some (e, outcome) \<Rightarrow>
        if \<not> ignored
        then (Inl (flow_abort outcome (''step '' @ fs_name step @ '' failed: '' @ e) (Some rendered) (Some seen) None start st2), st2)
        else wait_or_abort (fs_wait_secs step) start (if fs_id step = result_id then st2\<lparr>hs_result := Some (hp_status resp, hp_body resp, hp_headers_text resp, rendered)\<rparr> else st2)
    | None \<Rightarrow> wait_or_abort (fs_wait_secs step) start (if fs_id step = result_id then st2\<lparr>hs_result := Some (hp_status resp, hp_body resp, hp_headers_text resp, rendered)\<rparr> else st2))"
    unfolding assms(1) [symmetric] conclude_step_def assms(2) Let_def prod.case st2_def seen_def ignored_def issue_def by (rule refl)
  show ?thesis
  proof (cases issue)
    case None
    with c have "(res, st') = wait_or_abort (fs_wait_secs step) start (st2\<lparr>hs_result :=
        (if fs_id step = result_id then Some (hp_status resp, hp_body resp, hp_headers_text resp, rendered) else hs_result st2)\<rparr>)"
      unfolding x by simp
    then show ?thesis unfolding st2_def by (intro go_on) (rule sym)
  next
    case (Some i)
    obtain e out where i: "i = (e, out)" by (cases i)
    show ?thesis
    proof (cases ignored)
      case True
      with c Some i have "(res, st') = wait_or_abort (fs_wait_secs step) start (st2\<lparr>hs_result :=
          (if fs_id step = result_id then Some (hp_status resp, hp_body resp, hp_headers_text resp, rendered) else hs_result st2)\<rparr>)"
        unfolding x by simp
      then show ?thesis unfolding st2_def by (intro go_on) (rule sym)
    next
      case False
      with c Some i have "res = Inl (flow_abort out (''step '' @ fs_name step @ '' failed: '' @ e) (Some rendered) (Some seen) None start st')"
        "st' = st2" by simp_all
      then show ?thesis unfolding st2_def by (intro stop)
    qed
  qed
qed

lemma discreet_conclude:
  assumes enc: "enc = hl_form_encode (hx_lib env)"
  shows "discreet enc (conclude_step env start result_id step rendered step_start resp)"
  unfolding discreet_def
proof (intro allI impI)
  fix st res st'
  assume e: "conclude_step env start result_id step rendered step_start resp st = (res, st')" and c: "covered enc st"
  obtain issue0 produced st1 where x: "step_extraction env step resp st = (issue0, produced, st1)"
    by (cases "step_extraction env step resp st")
  note k = step_extraction_covered [OF x c enc]
  from e x show "covered enc st' \<and> set (hs_secrets st) \<subseteq> set (hs_secrets st')
     \<and> (\<forall>r s. res = Inl r \<longrightarrow> s \<in> set (hs_secrets st') \<longrightarrow> hideable s \<longrightarrow> report_hides s r \<and> hides s (rp_message r))"
  proof (cases rule: conclude_step_cases)
    case (stop r out msg rd seen)
    have "same_knowledge st1 st'" by (simp add: stop)
    from discreet_stop [OF _ this] k stop(2) show ?thesis by blast
  next
    case (go_on r y)
    have "same_knowledge st1 ((push_report r st1)\<lparr>hs_result := y\<rparr>)" by (simp add: same_knowledge_def push_report_def)
    with covered_same k have "covered enc ((push_report r st1)\<lparr>hs_result := y\<rparr>)"
      "set (hs_secrets st) \<subseteq> set (hs_secrets ((push_report r st1)\<lparr>hs_result := y\<rparr>))"
      by (auto simp: same_knowledge_def)
    with discreetD [OF discreet_wait go_on this(1)] show ?thesis by blast
  qed
qed

lemma discreet_request:
  assumes enc: "enc = hl_form_encode (hx_lib env)"
  shows "discreet enc (request_step env start result_id step)"
  unfolding discreet_def
proof (intro allI impI)
  fix st res st'
  assume e: "request_step env start result_id step st = (res, st')" and c: "covered enc st"
  let ?u = "substitute (hs_vars st) (fs_url step)" and ?h = "substitute (hs_vars st) (fs_headers step)"
    and ?b = "substitute (hs_vars st) (fs_body step)"
  let ?t = "min REQUEST_TIMEOUT (FLOW_TIMEOUT - (hs_now st - start))"
  obtain r st1 where r: "send_http_detailed env (fs_method step) ?u ?h ?b ?t (fs_stop_on_redirect step) st = (r, st1)"
    by (cases "send_http_detailed env (fs_method step) ?u ?h ?b ?t (fs_stop_on_redirect step) st")
  have s1: "same_knowledge st st1" using sends_same [OF send_http_detailed_sends [OF r]] .
  have k: "covered enc st1" "set (hs_secrets st) = set (hs_secrets st1)"
    using covered_same [OF s1 c] s1 by (simp_all add: same_knowledge_def)
  show "covered enc st' \<and> set (hs_secrets st) \<subseteq> set (hs_secrets st')
     \<and> (\<forall>r s. res = Inl r \<longrightarrow> s \<in> set (hs_secrets st') \<longrightarrow> hideable s \<longrightarrow> report_hides s r \<and> hides s (rp_message r))"
  proof (cases r)
    case (Inr resp)
    with e r have "conclude_step env start result_id step (?u, ?h, ?b) (hs_now st) resp st1 = (res, st')"
      by (simp add: request_step_def Let_def)
    from discreetD [OF discreet_conclude [OF enc] this k(1)] k(2) show ?thesis by blast
  next
    case (Inl err)
    have s2: "same_knowledge st1 (push_report x st1)" for x by simp
    show ?thesis
    proof (cases "fs_on_error step = ContinueOnError")
      case True
      obtain x where "wait_or_abort (fs_wait_secs step) start (push_report x st1) = (res, st')"
        using e r Inl True by (simp add: request_step_def Let_def)
      from discreetD [OF discreet_wait this covered_same [OF s2 k(1)]] k(2) s2 [of x] show ?thesis
        unfolding same_knowledge_def by blast
    next
      case False
      obtain x msg where "st' = push_report x st1"
        "res = Inl (flow_abort NetworkError msg (Some (?u, ?h, ?b)) None None start st')"
        using e r Inl False by (auto simp: request_step_def Let_def)
      with discreet_stop [OF k(1) s2] k(2) show ?thesis by blast
    qed
  qed
qed

lemma discreet_flow_step:
  assumes "enc = hl_form_encode (hx_lib env)"
  shows "discreet enc (flow_step env start req result_id step)"
  unfolding discreet_def
proof (intro allI impI)
  fix st res st'
  assume e: "flow_step env start req result_id step st = (res, st')" and c: "covered enc st"
  show "covered enc st' \<and> set (hs_secrets st) \<subseteq> set (hs_secrets st')
     \<and> (\<forall>r s. res = Inl r \<longrightarrow> s \<in> set (hs_secrets st') \<longrightarrow> hideable s \<longrightarrow> report_hides s r \<and> hides s (rp_message r))"
  proof (cases "FLOW_TIMEOUT \<le> hs_now st - start")
    case True
    with e have "st' = st" "res = Inl (flow_abort NetworkError ''the flow timed out'' None None None start st)"
      by (auto simp: flow_step_def flow_timed_out_def)
    with discreet_stop [OF c same_refl] show ?thesis by blast
  next
    case False
    show ?thesis
    proof (cases "fs_kind step")
      case TransformStep
      with e False have "transform_step env start req step st = (res, st')" by (simp add: flow_step_def)
      from discreetD [OF discreet_transform [OF assms] this c] show ?thesis by blast
    next
      case RequestStep
      with e False have "request_step env start result_id step st = (res, st')" by (simp add: flow_step_def)
      from discreetD [OF discreet_request [OF assms] this c] show ?thesis by blast
    qed
  qed
qed

lemma discreet_flow_steps:
  assumes "enc = hl_form_encode (hx_lib env)"
  shows "discreet enc (flow_steps env start req result_id steps)"
proof (induction steps)
  case Nil
  show ?case by (simp add: discreet_def)
next
  case (Cons step steps)
  have "flow_steps env start req result_id (step # steps)
      = then_attempt (flow_step env start req result_id step) (\<lambda>_. flow_steps env start req result_id steps)"
    by (rule ext) simp
  with discreet_then [OF discreet_flow_step [OF assms] Cons.IH] show ?case by simp
qed

section \<open>The whole attempt\<close>

lemma open_attempt_cases:
  assumes "open_attempt env start req0 st = (res, st')"
  obtains (failed) out msg ms where "res = Inl (abort_report out msg None None None ms)" "hs_sent st' = hs_sent st"
      "hs_vars st' = hs_vars st"
  | (opened) req where "res = Inr req" "hq_password req = hq_password req0" "hq_success_check req = hq_success_check req0"
      "hq_steps req = hq_steps req0" "hs_vars st' = initial_vars req"
      "hs_secrets st' = collect_secrets (hl_form_encode (hx_lib env)) (initial_vars req)"
      "hs_now st' = hs_now st + fst (hx_prepare env (hq_network req0))" "hs_sent st' = hs_sent st"
      "hs_reports st' = hs_reports st" "hs_result st' = hs_result st"
proof -
  obtain d prepared where p: "hx_prepare env (hq_network req0) = (d, prepared)" by (cases "hx_prepare env (hq_network req0)")
  define st1 where "st1 = st\<lparr>hs_now := hs_now st + d\<rparr>"
  show ?thesis
  proof (cases prepared)
    case (Inl e)
    with assms p have "res = Inl (abort_report NavigationTimeout e None None None (millis start st1))" "st' = st1"
      by (auto simp: open_attempt_def st1_def Let_def)
    then show ?thesis by (intro failed) (simp_all add: st1_def)
  next
    case (Inr bound)
    define req where "req = (case bound of Some addr \<Rightarrow> with_local_address addr req0 | None \<Rightarrow> req0)"
    have q: "hq_password req = hq_password req0" "hq_success_check req = hq_success_check req0" "hq_steps req = hq_steps req0"
      by (simp_all add: req_def with_local_address_def split: option.split)
    show ?thesis
    proof (cases "hx_client env (hq_ignore_https_errors req)")
      case (Inl e)
      with assms p Inr have "res = Inl (abort_report UnknownError (''cannot build the client: '' @ e) None None None (millis start st1))"
        "st' = st1" by (auto simp: open_attempt_def st1_def req_def Let_def)
      then show ?thesis by (intro failed) (simp_all add: st1_def)
    next
      case (Inr u)
      with assms p \<open>prepared = Inr bound\<close> have "res = Inr req"
        "st' = st1\<lparr>hs_vars := initial_vars req, hs_secrets := collect_secrets (hl_form_encode (hx_lib env)) (initial_vars req)\<rparr>"
        by (auto simp: open_attempt_def st1_def req_def Let_def)
      with q p show ?thesis by (intro opened [of req]) (simp_all add: st1_def)
    qed
  qed
qed

lemma covered_initial:
  assumes "hs_vars st = vars" "hs_secrets st = collect_secrets enc vars"
  shows "covered enc st"
  using assms collect_secrets_set unfolding covered_def by fastforce

lemma initial_password: "(''password'', hq_password req) \<in> set (initial_vars req)"
  by (simp add: initial_vars_def)

lemma login_phase_same: "login_phase env start req st = (r, st') \<Longrightarrow> same_knowledge st st'"
proof -
  assume e: "login_phase env start req st = (r, st')"
  let ?send = "send_http env (hq_method req) (substitute (hs_vars st) (hq_url req)) (substitute (hs_vars st) (hq_headers req))
      (substitute (hs_vars st) (hq_body req)) REQUEST_TIMEOUT st"
  obtain res st1 where x: "?send = (res, st1)" by (cases ?send)
  then have "st' = normalized st1" using e by (auto simp: login_phase_def Let_def split: sum.splits prod.splits)
  then show ?thesis using same_trans [OF sends_same [OF send_http_sends [OF x]]] by simp
qed

lemma login_phase_hides:
  assumes "login_phase env start req st = (r, st')" and "covered enc st" and "s \<in> set (hs_secrets st)" "hideable s"
  shows "report_hides s r
    \<and> (hides s (rp_message r) \<or> (\<exists>verdict n. rp_message r = verdict_message req verdict n (rp_response_snippet r)))"
proof -
  define url where "url = substitute (hs_vars st) (hq_url req)"
  define headers where "headers = substitute (hs_vars st) (hq_headers req)"
  define body where "body = substitute (hs_vars st) (hq_body req)"
  obtain res st1 where x: "send_http env (hq_method req) url headers body REQUEST_TIMEOUT st = (res, st1)"
    by (cases "send_http env (hq_method req) url headers body REQUEST_TIMEOUT st")
  define st2 where "st2 = normalized st1"
  have k: "same_knowledge st st2"
    unfolding st2_def by (rule same_trans [OF sends_same [OF send_http_sends [OF x]]]) simp
  then have h: "hides s (redact_text (hs_secrets st2) t)" for t
    using assms(3,4) hides_redact by (simp add: same_knowledge_def)
  note ld = login_phase_def Let_def url_def [symmetric] headers_def [symmetric] body_def [symmetric]
  show ?thesis
  proof (cases res)
    case (Inl e)
    with assms(1) x have "r = abort_report NetworkError (redact_text (hs_secrets st2) (''the request failed: '' @ e))
        (Some (redact_text (hs_secrets st2) url, redact_text (hs_secrets st2) headers, redact_text (hs_secrets st2) body))
        None None (millis start st2)" "st' = st2" by (auto simp: ld st2_def redact_url_def)
    with h k show ?thesis by (auto intro!: abort_hides [OF assms(4)])
  next
    case (Inr y)
    obtain status response rh where y: "y = (status, response, rh)" by (cases y)
    let ?verdict = "classify_response req status response"
    have "rp_message r = verdict_message req ?verdict status (rp_response_snippet r)"
      using assms(1) x Inr y by (auto simp: ld)
    then have "\<exists>verdict n. rp_message r = verdict_message req verdict n (rp_response_snippet r)" by blast
    moreover have "report_hides s r"
      using assms(1) x Inr y h by (auto simp: ld st2_def [symmetric] redact_url_def report_hides_def)
    ultimately show ?thesis by simp
  qed
qed

lemma run_chain_hides:
  assumes run: "run_chain env start req0 = (r, st)" and enc: "enc = hl_form_encode (hx_lib env)"
    and v: "v = hq_password req0 \<or> (\<exists>k. (k, v) \<in> set (hs_vars st) \<and> k \<notin> set public_vars)"
    and s: "s = v \<or> s = enc v" "hideable v" "hideable s"
  shows "report_hides s r \<and> (hides s (rp_message r) \<or> hs_sent st = []
    \<or> (\<exists>verdict n. rp_message r = verdict_message req0 verdict n (rp_response_snippet r)))"
proof -
  obtain res1 st1 where o1: "open_attempt env start req0 (attempt_new start) = (res1, st1)"
    by (cases "open_attempt env start req0 (attempt_new start)")
  from o1 show ?thesis
  proof (cases rule: open_attempt_cases)
    case (failed out msg ms)
    with run o1 have r: "r = abort_report out msg None None None ms" and st: "st = st1"
      by (simp_all add: run_chain_def then_attempt_def)
    have "hs_sent st = []" using failed st by (simp add: attempt_new_def)
    moreover have "report_hides s r" unfolding r by (rule abort_hides [OF s(3)]) simp_all
    ultimately show ?thesis by simp
  next
    case (opened req)
    have c1: "covered enc st1" using opened enc by (intro covered_initial) simp_all
    have p1: "v \<in> set (hs_secrets st1) \<and> enc v \<in> set (hs_secrets st1)" if "v = hq_password req0"
      using collect_secrets_set [OF initial_password [of req], of enc] opened that s(2) enc
      by (simp add: public_vars_def hideable_def)
    define st2 where "st2 = logout_phase env req st1"
    have s2: "same_knowledge st1 st2" using logout_same by (simp add: st2_def)
    have d: "discreet enc (then_attempt (script_phase env start req) (\<lambda>_. then_attempt (pre_phase env start req) (\<lambda>_ st. (Inr req, st))))"
      by (intro discreet_then discreet_script discreet_pre discreet_return enc)
    obtain res3 st3 where m3: "then_attempt (script_phase env start req) (\<lambda>_. then_attempt (pre_phase env start req) (\<lambda>_ st. (Inr req, st))) st2 = (res3, st3)"
      by (cases "then_attempt (script_phase env start req) (\<lambda>_. then_attempt (pre_phase env start req) (\<lambda>_ st. (Inr req, st))) st2")
    note k3 = discreetD [OF d m3 covered_same [OF s2 c1]]
    have sub: "set (hs_secrets st1) \<subseteq> set (hs_secrets st3)" using s2 k3(2) by (simp add: same_knowledge_def)
    have known: "s \<in> set (hs_secrets st')" if "covered enc st'" "hs_vars st = hs_vars st'" "set (hs_secrets st1) \<subseteq> set (hs_secrets st')" for st'
      using v
    proof
      assume "v = hq_password req0"
      with p1 that(3) s(1) show ?thesis by auto
    next
      assume "\<exists>k. (k, v) \<in> set (hs_vars st) \<and> k \<notin> set public_vars"
      with that(1,2) s(1,2) show ?thesis unfolding covered_def hideable_def by fastforce
    qed
    have w: "then_attempt (open_attempt env start req0) (\<lambda>req st. let st1 = logout_phase env req st
             in then_attempt (script_phase env start req) (\<lambda>_.
                then_attempt (pre_phase env start req) (\<lambda>_ st2. (Inr req, st2))) st1) (attempt_new start) = (res3, st3)"
      using o1 opened(1) m3 by (simp add: then_attempt_def st2_def [symmetric] Let_def)
    show ?thesis
    proof (cases res3)
      case (Inl r3)
      with run w have "r = r3" "st = st3" by (simp_all add: run_chain_def)
      with k3(3) [OF Inl known [OF k3(1) _ sub] s(3)] show ?thesis by simp
    next
      case (Inr x)
      have x: "x = req" using m3 Inr unfolding then_attempt_def by (auto split: prod.splits sum.splits)
      with run w Inr have lp: "login_phase env start req st3 = (r, st)" by (simp add: run_chain_def)
      have vm: "verdict_message req verdict n t = verdict_message req0 verdict n t" for verdict n t
        using opened(3) by (cases verdict) (simp_all add: verdict_message_def)
      have same: "same_knowledge st3 st" using login_phase_same [OF lp] .
      have "s \<in> set (hs_secrets st3)" using known [OF k3(1) _ sub] same by (simp add: same_knowledge_def)
      from login_phase_hides [OF lp k3(1) this s(3)] vm show ?thesis by auto
    qed
  qed
qed

lemma run_flow_hides:
  assumes run: "run_flow_once env start req0 = (r, st)" and enc: "enc = hl_form_encode (hx_lib env)"
    and v: "v = hq_password req0 \<or> (\<exists>k. (k, v) \<in> set (hs_vars st) \<and> k \<notin> set public_vars)"
    and s: "s = v \<or> s = enc v" "hideable v" "hideable s"
  shows "report_hides s r \<and> (hides s (rp_message r) \<or> hs_sent st = [])"
proof -
  obtain res1 st1 where o1: "open_attempt env start req0 (attempt_new start) = (res1, st1)"
    by (cases "open_attempt env start req0 (attempt_new start)")
  from o1 show ?thesis
  proof (cases rule: open_attempt_cases)
    case (failed out msg ms)
    with run o1 have r: "r = abort_report out msg None None None ms" and st: "st = st1"
      by (simp_all add: run_flow_once_def then_attempt_def)
    have "hs_sent st = []" using failed st by (simp add: attempt_new_def)
    moreover have "report_hides s r" unfolding r by (rule abort_hides [OF s(3)]) simp_all
    ultimately show ?thesis by simp
  next
    case (opened req)
    have c1: "covered enc st1" using opened enc by (intro covered_initial) simp_all
    have p1: "v \<in> set (hs_secrets st1) \<and> enc v \<in> set (hs_secrets st1)" if "v = hq_password req0"
      using collect_secrets_set [OF initial_password [of req], of enc] opened that s(2) enc
      by (simp add: public_vars_def hideable_def)
    let ?steps = "flow_steps env start req (result_step_of req) (hq_steps req)"
    obtain res2 st2 where m2: "?steps st1 = (res2, st2)" by (cases "?steps st1")
    note k2 = discreetD [OF discreet_flow_steps [OF enc] m2 c1]
    have w: "then_attempt (open_attempt env start req0) (\<lambda>req. then_attempt
        (flow_steps env start req (result_step_of req) (hq_steps req)) (\<lambda>_ st. (Inr req, st))) (attempt_new start)
        = (case res2 of Inl r2 \<Rightarrow> (Inl r2, st2) | Inr _ \<Rightarrow> (Inr req, st2))"
      using o1 opened(1) m2 by (simp add: then_attempt_def split: sum.split)
    have st: "st = st2" using run w by (auto simp: run_flow_once_def split: sum.splits)
    have known: "s \<in> set (hs_secrets st2)"
      using v
    proof
      assume "v = hq_password req0"
      with p1 k2(2) s(1) show ?thesis by auto
    next
      assume "\<exists>k. (k, v) \<in> set (hs_vars st) \<and> k \<notin> set public_vars"
      with k2(1) s(1,2) show ?thesis unfolding st covered_def hideable_def by fastforce
    qed
    show ?thesis
    proof (cases res2)
      case (Inl r2)
      with run w have "r = r2" by (simp add: run_flow_once_def)
      with k2(3) [OF Inl known s(3)] show ?thesis by simp
    next
      case (Inr x)
      with run w have "r = finish_flow start req st2" by (auto simp: run_flow_once_def)
      with finish_flow_hides [OF known s(3)] show ?thesis by simp
    qed
  qed
qed


end
