(* ===== verification/Http_Net_Props.thy ===== *)
theory Http_Net_Props
  imports Http_Props
begin

text \<open>
  The requests of a direct login and their time: where a redirect may take the template, how many
  requests there are, and when an attempt is over.
\<close>

section \<open>Redirects\<close>

lemma parse_headers_Nil [simp]: "parse_headers [] = []"
  by (simp add: parse_headers_def str_lines_def)

text \<open>A request that carries nothing of the template.\<close>

definition bare :: "sent_request \<Rightarrow> bool" where
  "bare rq \<longleftrightarrow> hr_headers rq = [] \<and> hr_body rq = None"

lemma build_request_simps [simp]:
  "hr_url (build_request verb u headers body timeout) = u"
  "hr_timeout (build_request verb u headers body timeout) = timeout"
  "bare (build_request verb u [] [] timeout)"
  by (simp_all add: build_request_def bare_def Let_def)

lemma same_origin_refl [simp]: "redirect_has_same_origin u u"
  by (simp add: redirect_has_same_origin_def)

lemma same_origin_trans:
  "redirect_has_same_origin a b \<Longrightarrow> redirect_has_same_origin a c \<longleftrightarrow> redirect_has_same_origin b c"
  by (auto simp: redirect_has_same_origin_def)

lemma next_hop_NextHop:
  assumes "next_hop env stop lst current verb headers body answer = NextHop target verb' headers' body'"
  shows "http_scheme (url_scheme target)" and "\<not> redirect_is_https_downgrade current target"
    and "redirect_has_same_origin current target \<or> (headers' = [] \<and> body' = [])"
    and "headers = [] \<Longrightarrow> headers' = []" and "body = [] \<Longrightarrow> body' = []"
  using assms unfolding next_hop_def Let_def by (auto split: if_splits option.splits sum.splits)

lemma exchange_sent: "exchange env rq st = (res, st') \<Longrightarrow> hs_sent st' = hs_sent st @ [rq]"
  by (auto simp: exchange_def split: prod.splits)

text \<open>What the requests of one chain of redirects have in common, from \<open>u\<close> on.\<close>

definition chain_ok :: "url \<Rightarrow> sent_request list \<Rightarrow> bool" where
  "chain_ok u rqs \<longleftrightarrow>
     (rqs \<noteq> [] \<longrightarrow> hr_url (hd rqs) = u)
     \<and> (\<forall>i<length rqs. \<forall>j\<le>i. \<not> redirect_has_same_origin u (hr_url (rqs ! j)) \<longrightarrow> bare (rqs ! i))
     \<and> (\<forall>i. Suc i < length rqs \<longrightarrow> http_scheme (url_scheme (hr_url (rqs ! Suc i)))
            \<and> \<not> redirect_is_https_downgrade (hr_url (rqs ! i)) (hr_url (rqs ! Suc i)))"

lemma chain_ok_Nil [simp]: "chain_ok u []"
  by (simp add: chain_ok_def)

lemma chain_ok_single: "hr_url rq = u \<Longrightarrow> chain_ok u [rq]"
  by (simp add: chain_ok_def)

lemma chain_ok_Cons:
  assumes "hr_url rq = u" and "chain_ok v rqs" and "\<not> redirect_is_https_downgrade u v" "http_scheme (url_scheme v)"
    and "redirect_has_same_origin u v \<or> (\<forall>r\<in>set rqs. bare r)"
  shows "chain_ok u (rq # rqs)"
  unfolding chain_ok_def
proof (intro conjI allI impI)
  show "hr_url (hd (rq # rqs)) = u" by (simp add: assms(1))
next
  fix i j assume i: "i < length (rq # rqs)" "j \<le> i" and n: "\<not> redirect_has_same_origin u (hr_url ((rq # rqs) ! j))"
  then have j: "j \<noteq> 0" using assms(1) by (cases j) auto
  then obtain i' j' where ij: "i = Suc i'" "j = Suc j'" "j' \<le> i'" "i' < length rqs"
    using i by (cases i; cases j) auto
  from assms(5) show "bare ((rq # rqs) ! i)"
  proof
    assume "redirect_has_same_origin u v"
    with n ij have "\<not> redirect_has_same_origin v (hr_url (rqs ! j'))" using same_origin_trans by auto
    with assms(2) ij show ?thesis unfolding chain_ok_def by auto
  qed (use ij in auto)
next
  fix i assume i: "Suc i < length (rq # rqs)"
  then have ne: "rqs \<noteq> []" by auto
  with assms(2) have hd: "hr_url (rqs ! 0) = v" unfolding chain_ok_def by (simp add: hd_conv_nth)
  show "http_scheme (url_scheme (hr_url ((rq # rqs) ! Suc i)))"
    using i assms(2,4) hd unfolding chain_ok_def by (cases i) auto
  show "\<not> redirect_is_https_downgrade (hr_url ((rq # rqs) ! i)) (hr_url ((rq # rqs) ! Suc i))"
    using i assms(1-3) hd unfolding chain_ok_def by (cases i) auto
qed

lemma follow_chain:
  "follow env deadline stop n current verb headers body st = (res, st') \<Longrightarrow>
     \<exists>rqs. hs_sent st' = hs_sent st @ rqs \<and> chain_ok current rqs \<and> length rqs \<le> Suc n
       \<and> (headers = [] \<and> body = [] \<longrightarrow> (\<forall>r\<in>set rqs. bare r))"
proof (induction n arbitrary: current verb headers body st)
  case 0
  let ?rq = "build_request verb current headers body (deadline - hs_now st)"
  from 0 show ?case
  proof (cases rule: follow_cases)
    case (late e)
    then show ?thesis by (intro exI [of _ "[]"]) simp
  qed (auto dest!: exchange_sent intro!: exI [of _ "[?rq]"] chain_ok_single)
next
  case (Suc n)
  let ?rq = "build_request verb current headers body (deadline - hs_now st)"
  from Suc.prems show ?case
  proof (cases rule: follow_cases)
    case (late e)
    then show ?thesis by (intro exI [of _ "[]"]) simp
  next
    case (redirected answer st1 k target verb' headers' body')
    from Suc.IH [of target verb' headers' body' st1] redirected(3,5)
    obtain rqs where rqs: "hs_sent st' = hs_sent st1 @ rqs" "chain_ok target rqs" "length rqs \<le> Suc n"
      "headers' = [] \<and> body' = [] \<longrightarrow> (\<forall>r\<in>set rqs. bare r)" by auto
    note h = next_hop_NextHop [OF redirected(4)]
    have "chain_ok current (?rq # rqs)"
      using rqs(2,4) h(1-3) by (intro chain_ok_Cons) auto
    moreover have "\<forall>r\<in>set (?rq # rqs). bare r" if "headers = []" "body = []"
      using rqs(4) h(4,5) that by simp
    ultimately show ?thesis
      using rqs(1,3) exchange_sent [OF redirected(2)] by (intro exI [of _ "?rq # rqs"]) auto
  qed (auto dest!: exchange_sent intro!: exI [of _ "[?rq]"] chain_ok_single)
qed

text \<open>C23. A request is followed through at most five redirects; from the first one that leaves the
  origin of the request on, no header and no body of the template is sent, also not when a later
  redirect leads back; every redirect goes to an HTTP address and none from HTTPS to plain HTTP.\<close>

theorem redirects_keep_template_home:
  assumes "send_with_redirects env verb raw headers body timeout stop_on_redirect st = (res, st')"
  shows "\<exists>rqs. hs_sent st' = hs_sent st @ rqs \<and> length rqs \<le> 1 + MAX_REDIRECTS
    \<and> (rqs \<noteq> [] \<longrightarrow> hx_parse env raw = Inr (hr_url (hd rqs)))
    \<and> (\<forall>i<length rqs. \<forall>j\<le>i. \<not> redirect_has_same_origin (hr_url (hd rqs)) (hr_url (rqs ! j))
         \<longrightarrow> hr_headers (rqs ! i) = [] \<and> hr_body (rqs ! i) = None)
    \<and> (\<forall>i. Suc i < length rqs \<longrightarrow> http_scheme (url_scheme (hr_url (rqs ! Suc i)))
         \<and> \<not> (url_scheme (hr_url (rqs ! i)) = ''https'' \<and> url_scheme (hr_url (rqs ! Suc i)) = ''http''))"
proof (cases "hx_parse env raw")
  case (Inl e)
  with assms show ?thesis by (intro exI [of _ "[]"]) (simp add: send_with_redirects_def)
next
  case (Inr u)
  with assms have "follow env (hs_now st + timeout) stop_on_redirect MAX_REDIRECTS u verb headers body st = (res, st')"
    by (simp add: send_with_redirects_def)
  from follow_chain [OF this] obtain rqs where rqs: "hs_sent st' = hs_sent st @ rqs" "chain_ok u rqs"
      "length rqs \<le> Suc MAX_REDIRECTS" by blast
  have u: "hr_url (hd rqs) = u" if "rqs \<noteq> []" using rqs(2) that unfolding chain_ok_def by blast
  show ?thesis
  proof (intro exI [of _ rqs] conjI impI allI)
    show "hs_sent st' = hs_sent st @ rqs" by (rule rqs(1))
    show "length rqs \<le> 1 + MAX_REDIRECTS" using rqs(3) by simp
    show "hx_parse env raw = Inr (hr_url (hd rqs))" if "rqs \<noteq> []" using Inr u [OF that] by simp
  next
    fix i j assume i: "i < length rqs" "j \<le> i" "\<not> redirect_has_same_origin (hr_url (hd rqs)) (hr_url (rqs ! j))"
    moreover from i(1) have "rqs \<noteq> []" by auto
    ultimately have "bare (rqs ! i)" using rqs(2) u unfolding chain_ok_def by metis
    then show "hr_headers (rqs ! i) = []" "hr_body (rqs ! i) = None" by (simp_all add: bare_def)
  next
    fix i assume "Suc i < length rqs"
    with rqs(2) show "http_scheme (url_scheme (hr_url (rqs ! Suc i)))"
      "\<not> (url_scheme (hr_url (rqs ! i)) = ''https'' \<and> url_scheme (hr_url (rqs ! Suc i)) = ''http'')"
      unfolding chain_ok_def redirect_is_https_downgrade_def by blast+
  qed
qed

section \<open>Time\<close>

text \<open>The client keeps the timeout of a request, body included; a script and the egress keep theirs.\<close>

fun answer_time :: "duration \<times> (string + http_answer) \<Rightarrow> duration" where
  "answer_time (d, Inl e) = d"
| "answer_time (d, Inr answer) = d + ha_body_time answer"

definition timely :: "http_env \<Rightarrow> duration \<Rightarrow> duration \<Rightarrow> bool" where
  "timely env script_limit prepare_limit \<longleftrightarrow>
     (\<forall>log now rq. answer_time (hx_send env log now rq) \<le> hr_timeout rq)
     \<and> (\<forall>now script ctx. fst (hx_script env now script ctx) \<le> script_limit)
     \<and> (\<forall>net. fst (hx_prepare env net) \<le> prepare_limit)"

lemma exchange_time:
  assumes "timely env B P" and "exchange env rq st = (res, st')"
  shows "hs_now st' + (case res of Inr answer \<Rightarrow> ha_body_time answer | Inl _ \<Rightarrow> 0) \<le> hs_now st + hr_timeout rq"
proof -
  obtain d r where r: "hx_send env (hs_sent st) (hs_now st) rq = (d, r)" by (cases "hx_send env (hs_sent st) (hs_now st) rq")
  have k: "answer_time (d, r) \<le> hr_timeout rq" using assms(1) unfolding timely_def by (simp flip: r)
  have "res = r" "hs_now st' = hs_now st + d" using assms(2) unfolding exchange_def r by auto
  with k show ?thesis by (cases r) simp_all
qed

lemma follow_time:
  assumes t: "timely env B P"
  shows "follow env deadline stop n current verb headers body st = (res, st') \<Longrightarrow> hs_now st \<le> deadline
    \<Longrightarrow> hs_now st' + (case res of Inr (u, answer) \<Rightarrow> ha_body_time answer | Inl _ \<Rightarrow> 0) \<le> deadline"
proof (induction n arbitrary: current verb headers body st)
  case 0
  from 0(1) show ?case
  proof (cases rule: follow_cases)
    case (refused r e)
    with exchange_time [OF t refused(2)] show ?thesis by (cases r) auto
  next
    case (answered answer)
    with exchange_time [OF t answered(2)] show ?thesis by auto
  qed (use 0(2) in auto)
next
  case (Suc n)
  from Suc.prems(1) show ?case
  proof (cases rule: follow_cases)
    case (refused r e)
    with exchange_time [OF t refused(2)] show ?thesis by (cases r) auto
  next
    case (answered answer)
    with exchange_time [OF t answered(2)] show ?thesis by auto
  next
    case (redirected answer st1 k target verb' headers' body')
    have "hs_now st1 \<le> deadline" using exchange_time [OF t redirected(2)] redirected(1) by auto
    with Suc.IH redirected(3,5) show ?thesis by blast
  qed (use Suc.prems(2) in auto)
qed

lemma send_with_redirects_time:
  assumes "timely env B P" and "send_with_redirects env verb raw headers body timeout stop st = (res, st')"
  shows "hs_now st' + (case res of Inr (u, answer) \<Rightarrow> ha_body_time answer | Inl _ \<Rightarrow> 0) \<le> hs_now st + timeout"
proof (cases "hx_parse env raw")
  case (Inl e)
  with assms(2) show ?thesis by (auto simp: send_with_redirects_def)
next
  case (Inr u)
  with assms(2) have "follow env (hs_now st + timeout) stop MAX_REDIRECTS u verb headers body st = (res, st')"
    by (simp add: send_with_redirects_def)
  from follow_time [OF assms(1) this] show ?thesis by simp
qed

lemma send_http_detailed_time:
  assumes "timely env B P" and "send_http_detailed env verb raw headers body timeout stop st = (res, st')"
  shows "hs_now st' \<le> hs_now st + timeout"
proof -
  obtain r st1 where r: "send_with_redirects env verb raw headers body timeout stop st = (r, st1)"
    by (cases "send_with_redirects env verb raw headers body timeout stop st")
  have "hs_now st' = hs_now st1 + (case r of Inr (u, answer) \<Rightarrow> ha_body_time answer | Inl _ \<Rightarrow> 0)"
    using assms(2) r by (auto simp: send_http_detailed_def read_limited_body_def Let_def split: sum.splits prod.splits)
  with send_with_redirects_time [OF assms(1) r] show ?thesis by simp
qed

lemma send_http_time:
  "timely env B P \<Longrightarrow> send_http env verb raw headers body timeout st = (res, st') \<Longrightarrow> hs_now st' \<le> hs_now st + timeout"
  by (cases "send_http_detailed env verb raw headers body timeout False st")
     (auto simp: send_http_def dest: send_http_detailed_time split: sum.splits)

lemma fetch_login_page_time:
  assumes "timely env B P" and "fetch_login_page env auth_url st = (page, st')"
  shows "hs_now st' \<le> hs_now st + PAGE_FETCH_TIMEOUT"
proof (cases "auth_url = []")
  case True
  with assms(2) show ?thesis by (simp add: fetch_login_page_def)
next
  case False
  obtain r st1 where r: "send_with_redirects env Get auth_url [] [] PAGE_FETCH_TIMEOUT False st = (r, st1)"
    by (cases "send_with_redirects env Get auth_url [] [] PAGE_FETCH_TIMEOUT False st")
  have "hs_now st' = hs_now st1 + (case r of Inr (u, answer) \<Rightarrow> ha_body_time answer | Inl _ \<Rightarrow> 0)"
    using assms(2) r False by (auto simp: fetch_login_page_def read_limited_body_def Let_def split: sum.splits prod.splits)
  with send_with_redirects_time [OF assms(1) r] show ?thesis by simp
qed

lemma now_simps [simp]:
  "hs_now (push_report r st) = hs_now st" "hs_now (learn env vals st) = hs_now st" "hs_now (normalized st) = hs_now st"
  by (simp_all add: push_report_def learn_def normalized_def)

lemma step_extraction_now: "step_extraction env step resp st = (issue, produced, st') \<Longrightarrow> hs_now st' = hs_now st"
  by (auto simp: step_extraction_def Let_def split: if_splits sum.splits prod.splits)

lemma run_script_time:
  assumes "timely env B P" and "run_script env script ctx st = (res, st')"
  shows "hs_now st' \<le> hs_now st + B"
proof -
  have "fst (hx_script env (hs_now st) script ctx) \<le> B" using assms(1) unfolding timely_def by blast
  moreover have "hs_now st' = hs_now st + fst (hx_script env (hs_now st) script ctx)"
    using assms(2) by (auto simp: run_script_def split: prod.splits)
  ultimately show ?thesis by simp
qed

lemma wait_or_abort_time:
  assumes "wait_or_abort w start st = (res, st')"
  shows "hs_now st' \<le> max (hs_now st) (start + FLOW_TIMEOUT)"
  using assms by (auto simp: wait_or_abort_def wait_flow_step_def flow_timed_out_def split: float64.splits if_splits)

lemma request_step_time:
  assumes t: "timely env B P" and e: "request_step env start result_id step st = (res, st')"
  shows "hs_now st' \<le> max (hs_now st) (start + FLOW_TIMEOUT)"
proof -
  let ?u = "substitute (hs_vars st) (fs_url step)" and ?h = "substitute (hs_vars st) (fs_headers step)"
    and ?b = "substitute (hs_vars st) (fs_body step)"
  let ?t = "min REQUEST_TIMEOUT (FLOW_TIMEOUT - (hs_now st - start))"
  obtain r st1 where r: "send_http_detailed env (fs_method step) ?u ?h ?b ?t (fs_stop_on_redirect step) st = (r, st1)"
    by (cases "send_http_detailed env (fs_method step) ?u ?h ?b ?t (fs_stop_on_redirect step) st")
  have s1: "hs_now st1 \<le> max (hs_now st) (start + FLOW_TIMEOUT)"
    using send_http_detailed_time [OF t r] by (auto simp: max_def min_def split: if_splits)
  show ?thesis
  proof (cases r)
    case (Inr resp)
    with e r have c: "conclude_step env start result_id step (?u, ?h, ?b) (hs_now st) resp st1 = (res, st')"
      by (simp add: request_step_def Let_def)
    obtain issue0 produced st2 where x: "step_extraction env step resp st1 = (issue0, produced, st2)"
      by (cases "step_extraction env step resp st1")
    from c x show ?thesis
    proof (cases rule: conclude_step_cases)
      case (stop rep out msg rd seen)
      with s1 step_extraction_now [OF x] show ?thesis by simp
    next
      case (go_on rep y)
      from wait_or_abort_time [OF go_on] step_extraction_now [OF x] s1 show ?thesis by simp
    qed
  next
    case (Inl err)
    show ?thesis
    proof (cases "fs_on_error step = ContinueOnError")
      case True
      obtain x where "wait_or_abort (fs_wait_secs step) start (push_report x st1) = (res, st')"
        using e r Inl True by (simp add: request_step_def Let_def)
      from wait_or_abort_time [OF this] s1 show ?thesis by simp
    next
      case False
      obtain x where "st' = push_report x st1"
        using e r Inl False by (auto simp: request_step_def Let_def)
      with s1 show ?thesis by simp
    qed
  qed
qed

lemma transform_step_time:
  assumes t: "timely env B P" and e: "transform_step env start req step st = (res, st')"
  shows "hs_now st' \<le> hs_now st + PAGE_FETCH_TIMEOUT + B"
proof -
  obtain page st1 where p: "flow_page env req st = (page, st1)" by (cases "flow_page env req st")
  obtain pg st0 where f: "fetch_login_page env (hq_auth_url req) st = (pg, st0)"
    by (cases "fetch_login_page env (hq_auth_url req) st")
  have "hs_now (snd (flow_page env req st)) \<le> max (hs_now st) (hs_now st0)"
    unfolding flow_page_def f by (simp split: option.split)
  with p fetch_login_page_time [OF t f] have s1: "hs_now st1 \<le> hs_now st + PAGE_FETCH_TIMEOUT" by simp
  obtain r st2 where r: "run_script env (fs_script step) (script_ctx_of req page (hs_vars st1)) st1 = (r, st2)"
    by (cases "run_script env (fs_script step) (script_ctx_of req page (hs_vars st1)) st1")
  have "hs_now st' = hs_now st2"
    using e p r by (cases r) (auto simp: transform_step_def Let_def split: if_splits)
  with s1 run_script_time [OF t r] show ?thesis by simp
qed

lemma flow_steps_time:
  assumes t: "timely env B P"
  shows "flow_steps env start req result_id steps st = (res, st')
    \<Longrightarrow> hs_now st' \<le> max (hs_now st) (start + FLOW_TIMEOUT + PAGE_FETCH_TIMEOUT + B)"
proof (induction steps arbitrary: st)
  case (Cons step steps)
  obtain r st1 where r: "flow_step env start req result_id step st = (r, st1)"
    by (cases "flow_step env start req result_id step st")
  have s1: "hs_now st1 \<le> max (hs_now st) (start + FLOW_TIMEOUT + PAGE_FETCH_TIMEOUT + B)"
  proof (cases "FLOW_TIMEOUT \<le> hs_now st - start")
    case True
    with r show ?thesis by (auto simp: flow_step_def flow_timed_out_def)
  next
    case False
    show ?thesis
    proof (cases "fs_kind step")
      case TransformStep
      with r False have "transform_step env start req step st = (r, st1)" by (simp add: flow_step_def)
      from transform_step_time [OF t this] False show ?thesis by auto
    next
      case RequestStep
      with r False have "request_step env start result_id step st = (r, st1)" by (simp add: flow_step_def)
      from request_step_time [OF t this] show ?thesis by auto
    qed
  qed
  show ?case
  proof (cases r)
    case (Inl x)
    with Cons.prems r s1 show ?thesis by (auto simp: then_attempt_def)
  next
    case (Inr x)
    with Cons.prems r have "flow_steps env start req result_id steps st1 = (res, st')" by (simp add: then_attempt_def)
    from Cons.IH [OF this] s1 show ?thesis by simp
  qed
qed simp

lemma open_attempt_time:
  assumes "timely env B P" and "open_attempt env start req st = (res, st')"
  shows "hs_now st' \<le> hs_now st + P"
proof -
  have "fst (hx_prepare env (hq_network req)) \<le> P" using assms(1) unfolding timely_def by blast
  moreover have "hs_now st' = hs_now st + fst (hx_prepare env (hq_network req))"
    using assms(2) by (auto simp: open_attempt_def Let_def split: prod.splits sum.splits)
  ultimately show ?thesis by simp
qed

lemma logout_phase_time:
  assumes "timely env B P"
  shows "hs_now (logout_phase env req st) \<le> hs_now st + LOGOUT_REQUEST_TIMEOUT + LOGOUT_MAX_WAIT"
proof (cases "hq_logout_request req")
  case (Some logout)
  let ?send = "send_http env (ar_method logout) (substitute (hs_vars st) (ar_url logout))
     (substitute (hs_vars st) (ar_headers logout)) (substitute (hs_vars st) (ar_body logout)) LOGOUT_REQUEST_TIMEOUT st"
  have "hs_now (snd ?send) \<le> hs_now st + LOGOUT_REQUEST_TIMEOUT"
    using send_http_time [OF assms] by (metis prod.collapse)
  moreover have "logout_wait (ar_wait_secs logout) \<le> LOGOUT_MAX_WAIT"
    by (simp add: logout_wait_def split: float64.split)
  ultimately show ?thesis by (simp add: logout_phase_def Some Let_def)
qed (simp add: logout_phase_def)

lemma script_phase_time:
  assumes t: "timely env B P" and e: "script_phase env start req st = (res, st')"
  shows "hs_now st' \<le> hs_now st + PAGE_FETCH_TIMEOUT + B"
proof (cases "uses_crypto_script req")
  case False
  with e show ?thesis by (simp add: script_phase_def)
next
  case True
  obtain page st1 where p: "(if hq_fetch_page req then fetch_login_page env (hq_auth_url req) st else ([], st)) = (page, st1)"
    by (cases "if hq_fetch_page req then fetch_login_page env (hq_auth_url req) st else ([], st)")
  then have s1: "hs_now st1 \<le> hs_now st + PAGE_FETCH_TIMEOUT"
    by (auto dest: fetch_login_page_time [OF t] split: if_splits)
  obtain r st2 where r: "run_script env (hq_crypto_script req) (script_ctx_of req page []) st1 = (r, st2)"
    by (cases "run_script env (hq_crypto_script req) (script_ctx_of req page []) st1")
  have "hs_now st' = hs_now st2" using e True p r by (cases r) (auto simp: script_phase_def Let_def)
  with s1 run_script_time [OF t r] show ?thesis by simp
qed

lemma pre_phase_time:
  assumes t: "timely env B P" and e: "pre_phase env start req st = (res, st')"
  shows "hs_now st' \<le> hs_now st + PRE_REQUEST_TIMEOUT"
proof (cases "hq_pre_request req")
  case None
  with e show ?thesis by (simp add: pre_phase_def)
next
  case (Some pre)
  let ?send = "send_http env (pr_method pre) (substitute (hs_vars st) (pr_url pre)) (substitute (hs_vars st) (pr_headers pre))
     (substitute (hs_vars st) (pr_body pre)) PRE_REQUEST_TIMEOUT (normalized st)"
  obtain r st1 where r: "?send = (r, st1)" by (cases ?send)
  have "hs_now st' = hs_now st1" using e Some r by (auto simp: pre_phase_def Let_def split: sum.splits)
  with send_http_time [OF t r] show ?thesis by simp
qed

lemma login_phase_time:
  assumes t: "timely env B P" and e: "login_phase env start req st = (r, st')"
  shows "hs_now st' \<le> hs_now st + REQUEST_TIMEOUT"
proof -
  let ?send = "send_http env (hq_method req) (substitute (hs_vars st) (hq_url req)) (substitute (hs_vars st) (hq_headers req))
      (substitute (hs_vars st) (hq_body req)) REQUEST_TIMEOUT st"
  obtain res st1 where x: "?send = (res, st1)" by (cases ?send)
  then have "hs_now st' = hs_now st1" using e by (auto simp: login_phase_def Let_def split: sum.splits prod.splits)
  with send_http_time [OF t x] show ?thesis by simp
qed

lemma then_attempt_time:
  assumes "then_attempt m f st = (res, st')"
    and "\<And>r st1. m st = (r, st1) \<Longrightarrow> hs_now st1 \<le> hs_now st + a"
    and "\<And>x r st1 st2. f x st1 = (r, st2) \<Longrightarrow> hs_now st2 \<le> hs_now st1 + b"
  shows "hs_now st' \<le> hs_now st + a + b"
proof -
  obtain r st1 where m: "m st = (r, st1)" by (cases "m st")
  note s1 = assms(2) [OF m]
  show ?thesis
  proof (cases r)
    case (Inl x)
    with assms(1) m s1 show ?thesis by (simp add: then_attempt_def)
  next
    case (Inr x)
    with assms(1) m have "f x st1 = (res, st')" by (simp add: then_attempt_def)
    from assms(3) [OF this] s1 show ?thesis by simp
  qed
qed

lemma run_chain_time:
  assumes t: "timely env B P" and e: "run_chain env start req = (r, st)"
  shows "hs_now st \<le> start + P + LOGOUT_REQUEST_TIMEOUT + LOGOUT_MAX_WAIT + PAGE_FETCH_TIMEOUT + B
    + PRE_REQUEST_TIMEOUT + REQUEST_TIMEOUT"
proof -
  let ?rest = "\<lambda>req st. let st1 = logout_phase env req st
     in then_attempt (script_phase env start req) (\<lambda>_. then_attempt (pre_phase env start req) (\<lambda>_ st2. (Inr req, st2))) st1"
  let ?m = "then_attempt (open_attempt env start req) ?rest (attempt_new start)"
  obtain res st1 where m: "?m = (res, st1)" by (cases ?m)
  have pre: "hs_now b \<le> hs_now a + PRE_REQUEST_TIMEOUT + 0"
    if "then_attempt (pre_phase env start req') (\<lambda>_ st2. (Inr req', st2)) a = (x, b)" for req' :: http_login_request and a x b
    using that pre_phase_time [OF t] by (rule then_attempt_time) auto
  have script: "hs_now b \<le> hs_now a + (PAGE_FETCH_TIMEOUT + B) + PRE_REQUEST_TIMEOUT"
    if "then_attempt (script_phase env start req') (\<lambda>_. then_attempt (pre_phase env start req') (\<lambda>_ st2. (Inr req', st2))) a = (x, b)"
    for req' a x b
    using that
  proof (rule then_attempt_time)
    show "hs_now b \<le> hs_now a + (PAGE_FETCH_TIMEOUT + B)" if "script_phase env start req' a = (r, b)" for r b
      using script_phase_time [OF t that] by simp
  qed (use pre in auto)
  have rest: "hs_now b \<le> hs_now a + (LOGOUT_REQUEST_TIMEOUT + LOGOUT_MAX_WAIT + PAGE_FETCH_TIMEOUT + B + PRE_REQUEST_TIMEOUT)"
    if "?rest req' a = (x, b)" for req' a x b
    using script [of req' "logout_phase env req' a"] that logout_phase_time [OF t, of req' a] by (auto simp: Let_def)
  have "hs_now st1 \<le> hs_now (attempt_new start) + P
      + (LOGOUT_REQUEST_TIMEOUT + LOGOUT_MAX_WAIT + PAGE_FETCH_TIMEOUT + B + PRE_REQUEST_TIMEOUT)"
    using m by (rule then_attempt_time) (use open_attempt_time [OF t] rest in auto)
  then have s1: "hs_now st1 \<le> start + P + LOGOUT_REQUEST_TIMEOUT + LOGOUT_MAX_WAIT + PAGE_FETCH_TIMEOUT + B + PRE_REQUEST_TIMEOUT"
    by (simp add: attempt_new_def)
  show ?thesis
  proof (cases res)
    case (Inl x)
    with e m s1 show ?thesis by (simp add: run_chain_def)
  next
    case (Inr x)
    with e m have "login_phase env start x st1 = (r, st)" by (simp add: run_chain_def)
    from login_phase_time [OF t this] s1 show ?thesis by simp
  qed
qed

lemma run_flow_time:
  assumes t: "timely env B P" and e: "run_flow_once env start req = (r, st)"
  shows "hs_now st \<le> start + max P (FLOW_TIMEOUT + PAGE_FETCH_TIMEOUT + B)"
proof -
  obtain res st1 where o1: "open_attempt env start req (attempt_new start) = (res, st1)"
    by (cases "open_attempt env start req (attempt_new start)")
  have s1: "hs_now st1 \<le> start + P" using open_attempt_time [OF t o1] by (simp add: attempt_new_def)
  show ?thesis
  proof (cases res)
    case (Inl x)
    with e o1 s1 show ?thesis by (auto simp: run_flow_once_def then_attempt_def)
  next
    case (Inr req')
    let ?steps = "flow_steps env start req' (result_step_of req') (hq_steps req')"
    obtain r2 st2 where m: "?steps st1 = (r2, st2)" by (cases "?steps st1")
    have "st = st2" using e o1 Inr m by (cases r2) (auto simp: run_flow_once_def then_attempt_def)
    with flow_steps_time [OF t m] s1 show ?thesis by simp
  qed
qed

text \<open>An attempt is over in time: a flow at the latest when its two minutes are up, plus one fetch
  of the login page and one computation that were already under way, and the fixed chain after the
  sum of the limits of its parts, 75 seconds beside the computation and the choice of the egress.\<close>

theorem direct_login_time:
  assumes "timely env script_limit prepare_limit" and "run_once env start req = (r, st)"
  shows "hs_now st \<le> start +
    (if hq_steps req \<noteq> [] then max prepare_limit (from_secs 125 + script_limit)
     else prepare_limit + from_secs 75 + script_limit)"
proof (cases "hq_steps req = []")
  case True
  with assms(2) have "run_chain env start req = (r, st)" by (simp add: run_once_def)
  from run_chain_time [OF assms(1) this] True show ?thesis
    by (simp add: LOGOUT_REQUEST_TIMEOUT_def LOGOUT_MAX_WAIT_def PAGE_FETCH_TIMEOUT_def PRE_REQUEST_TIMEOUT_def
        REQUEST_TIMEOUT_def from_secs_def)
next
  case False
  with assms(2) have "run_flow_once env start req = (r, st)" by (simp add: run_once_def)
  from run_flow_time [OF assms(1) this] False show ?thesis
    by (simp add: FLOW_TIMEOUT_def PAGE_FETCH_TIMEOUT_def from_secs_def)
qed

end
