(* ===== verification/Http_Login_Props.thy ===== *)
theory Http_Login_Props
  imports Http_Net_Props
begin

text \<open>
  The two formats of a direct task, what the excerpt in a report can still show, and what is left of a
  step that fails to extract its values.
\<close>

section \<open>The two formats\<close>

text \<open>A task of the older format without further requests, written as a flow of one step.\<close>

definition single_step :: "string \<Rightarrow> http_login_request \<Rightarrow> http_flow_step" where
  "single_step sid req =
     \<lparr>fs_id = sid, fs_name = [], fs_kind = RequestStep, fs_method = hq_method req, fs_url = hq_url req,
      fs_headers = hq_headers req, fs_body = hq_body req, fs_extract = [], fs_extract_as = [], fs_extracts = [],
      fs_stop_on_redirect = False, fs_script = [], fs_on_error = StopOnError, fs_wait_secs = Nanos 0\<rparr>"

definition as_flow :: "string \<Rightarrow> http_login_request \<Rightarrow> http_login_request" where
  "as_flow sid req = req\<lparr>hq_steps := [single_step sid req], hq_result_step_id := []\<rparr>"

definition plain_request :: "http_login_request \<Rightarrow> bool" where
  "plain_request req \<longleftrightarrow> hq_steps req = [] \<and> hq_logout_request req = None \<and> hq_pre_request req = None
     \<and> trim (hq_crypto_script req) = []"

text \<open>The parts of a report that do not depend on the format.\<close>

definition same_result :: "http_attempt_report \<Rightarrow> http_attempt_report \<Rightarrow> bool" where
  "same_result r r' \<longleftrightarrow> rp_outcome r' = rp_outcome r \<and> rp_status r' = rp_status r
     \<and> rp_rendered_url r' = rp_rendered_url r \<and> rp_rendered_headers r' = rp_rendered_headers r
     \<and> rp_rendered_body r' = rp_rendered_body r \<and> rp_response_headers r' = rp_response_headers r
     \<and> rp_response_snippet r' = rp_response_snippet r"

lemma as_flow_fields [simp]:
  "hq_network (as_flow sid req) = hq_network req" "initial_vars (as_flow sid req) = initial_vars req"
  "hq_ignore_https_errors (as_flow sid req) = hq_ignore_https_errors req"
  "hq_steps (as_flow sid req) = [single_step sid req]" "hq_result_step_id (as_flow sid req) = []"
  "classify_response (as_flow sid req) = classify_response req"
  by (simp_all add: as_flow_def initial_vars_def classify_response_def fun_eq_iff Let_def)

lemma as_flow_local: "with_local_address addr (as_flow sid req) = as_flow sid (with_local_address addr req)"
  by (simp add: as_flow_def with_local_address_def single_step_def)

lemma open_attempt_as_flow:
  "open_attempt env start (as_flow sid req) st = map_prod (map_sum id (as_flow sid)) id (open_attempt env start req st)"
proof -
  obtain d prepared where p: "hx_prepare env (hq_network req) = (d, prepared)" by (cases "hx_prepare env (hq_network req)")
  show ?thesis
  proof (cases prepared)
    case (Inl e)
    with p show ?thesis by (simp add: open_attempt_def Let_def)
  next
    case (Inr bound)
    define req' where "req' = (case bound of Some addr \<Rightarrow> with_local_address addr req | None \<Rightarrow> req)"
    have r: "(case bound of Some addr \<Rightarrow> with_local_address addr (as_flow sid req) | None \<Rightarrow> as_flow sid req) = as_flow sid req'"
      by (simp add: req'_def as_flow_local split: option.split)
    show ?thesis unfolding open_attempt_def as_flow_fields p Let_def prod.case Inr sum.case r req'_def [symmetric]
      by (cases "hx_client env (hq_ignore_https_errors req')") simp_all
  qed
qed

lemma truncate_Nil [simp]: "truncate_snippet [] = []"
  by (simp add: truncate_snippet_def split_whitespace_def char_count_def SNIPPET_LEN_def)

lemma redact_Nil [simp]: "redact_text secrets [] = []"
  by (induction secrets) (simp_all add: redact_text_def)

lemma single_step_fields [simp]:
  "fs_id (single_step sid req) = sid" "fs_kind (single_step sid req) = RequestStep"
  "fs_method (single_step sid req) = hq_method req" "fs_url (single_step sid req) = hq_url req"
  "fs_headers (single_step sid req) = hq_headers req" "fs_body (single_step sid req) = hq_body req"
  "fs_extract (single_step sid req) = []" "fs_extracts (single_step sid req) = []"
  "fs_stop_on_redirect (single_step sid req) = False" "fs_on_error (single_step sid req) = StopOnError"
  "fs_wait_secs (single_step sid req) = Nanos 0"
  by (simp_all add: single_step_def)

lemma result_step_as_flow [simp]: "result_step_of (as_flow sid req) = sid"
  by (simp add: result_step_of_def last_request_def)

lemma single_step_run:
  assumes "hs_now st - start \<le> from_secs 100"
  shows "flow_step env start (as_flow sid req) sid (single_step sid req) st = request_step env start sid (single_step sid req) st"
    and "min REQUEST_TIMEOUT (FLOW_TIMEOUT - (hs_now st - start)) = REQUEST_TIMEOUT"
  using assms by (auto simp: flow_step_def FLOW_TIMEOUT_def REQUEST_TIMEOUT_def from_secs_def NANOS_def)

lemma login_as_flow:
  assumes "hs_now st - start \<le> from_secs 100" and l: "login_phase env start req st = (r, st1)"
    and f: "(case flow_steps env start (as_flow sid req) sid [single_step sid req] st of
              (Inl r, st2) \<Rightarrow> (r, st2) | (Inr _, st2) \<Rightarrow> (finish_flow start (as_flow sid req) st2, st2)) = (r', st1')"
  shows "same_result r r' \<and> hs_sent st1' = hs_sent st1 \<and> hs_now st1' = hs_now st1"
proof -
  define url where "url = substitute (hs_vars st) (hq_url req)"
  define headers where "headers = substitute (hs_vars st) (hq_headers req)"
  define body where "body = substitute (hs_vars st) (hq_body req)"
  note tm = single_step_run [OF assms(1)]
  obtain res st2 where x: "send_http_detailed env (hq_method req) url headers body REQUEST_TIMEOUT False st = (res, st2)"
    by (cases "send_http_detailed env (hq_method req) url headers body REQUEST_TIMEOUT False st")
  define rd where "rd = redact_text (normalize_secrets (hs_secrets st2))"
  have h: "send_http env (hq_method req) url headers body REQUEST_TIMEOUT st
      = (map_sum id (\<lambda>p. (hp_status p, hp_body p, hp_headers_text p)) res, st2)"
    using x by (cases res) (simp_all add: send_http_def)
  note ld = login_phase_def Let_def url_def [symmetric] headers_def [symmetric] body_def [symmetric] h
  have n: "hs_secrets (normalized st2) = normalize_secrets (hs_secrets st2)" "hs_sent (normalized st2) = hs_sent st2"
    "hs_now (normalized st2) = hs_now st2" by (simp_all add: normalized_def)
  show ?thesis
  proof (cases res)
    case (Inl e)
    have a: "rp_outcome r = NetworkError" "rp_status r = None" "rp_rendered_url r = rd url" "rp_rendered_headers r = rd headers"
      "rp_rendered_body r = rd body" "rp_response_headers r = []" "rp_response_snippet r = []" "st1 = normalized st2"
      using l Inl by (auto simp: ld n rd_def redact_url_def abort_report_def)
    obtain rep msg where b: "r' = flow_abort NetworkError msg (Some (url, headers, body)) None None start (push_report rep st2)"
      "st1' = push_report rep st2"
      using f x Inl tm by (auto simp: then_attempt_def request_step_def Let_def url_def headers_def body_def)
    have p: "hs_secrets (push_report rep st2) = hs_secrets st2" "hs_sent (push_report rep st2) = hs_sent st2"
      by (simp_all add: push_report_def)
    show ?thesis
      by (simp add: same_result_def a b flow_abort_def abort_report_def Let_def redact_url_def p rd_def n)
  next
    case (Inr resp)
    let ?verdict = "classify_response req (hp_status resp) (hp_body resp)"
    have a: "rp_outcome r = verdict_outcome ?verdict" "rp_status r = Some (hp_status resp)" "rp_rendered_url r = rd url"
      "rp_rendered_headers r = rd headers" "rp_rendered_body r = rd body" "rp_response_headers r = rd (hp_headers_text resp)"
      "rp_response_snippet r = rd (truncate_snippet (hp_body resp))" "st1 = normalized st2"
      using l Inr by (auto simp: ld n rd_def redact_url_def)
    have c: "conclude_step env start sid (single_step sid req) (url, headers, body) (hs_now st) resp st2
        = (Inr (), (push_report (flow_step_report (single_step sid req) StepSuccess (''HTTP '' @ show_nat (hp_status resp))
             (url, headers, body) (Some (hp_status resp, hp_headers_text resp, hp_body resp)) [] (hs_now st) st2) st2)
             \<lparr>hs_result := Some (hp_status resp, hp_body resp, hp_headers_text resp, url, headers, body)\<rparr>)"
      by (simp add: conclude_step_def step_extraction_def Let_def wait_or_abort_def wait_flow_step_def)
    obtain st3 where b: "r' = finish_flow start (as_flow sid req) st3" "st1' = st3"
      "hs_result st3 = Some (hp_status resp, hp_body resp, hp_headers_text resp, url, headers, body)"
      "hs_secrets st3 = hs_secrets st2" "hs_sent st3 = hs_sent st2" "hs_now st3 = hs_now st2"
      using f x Inr tm c by (auto simp: then_attempt_def request_step_def Let_def url_def headers_def body_def push_report_def)
    show ?thesis
      by (simp add: same_result_def a b finish_flow_def Let_def redact_url_def rd_def n)
  qed
qed


section \<open>Values of one step\<close>

abbreviation update_all :: "vars \<Rightarrow> vars \<Rightarrow> vars" where
  "update_all \<equiv> fold (\<lambda>(k, v). AList.update k v)"

lemma map_of_update_all:
  "map_of (update_all out vars) k = (case map_of (rev out) k of Some v \<Rightarrow> Some v | None \<Rightarrow> map_of vars k)"
proof (induction out arbitrary: vars)
  case (Cons kv out)
  obtain k' v' where "kv = (k', v')" by (cases kv)
  with Cons.IH [of "AList.update k' v' vars"] show ?case
    by (auto simp: map_add_def AList.update_conv' split: option.splits)
qed simp

lemma vars_bytes_update:
  "distinct (map fst vars) \<Longrightarrow>
     vars_bytes (AList.update k v vars) + (case map_of vars k of Some p \<Rightarrow> length p | None \<Rightarrow> 0) = vars_bytes vars + length v"
  by (induction vars) (auto simp: vars_bytes_def split: option.splits)

lemma distinct_update_all: "distinct (map fst vars) \<Longrightarrow> distinct (map fst (update_all out vars))"
  by (induction out arbitrary: vars) (auto intro: distinct_update)

lemma previous_bytes: "map_of vars k = Some p \<Longrightarrow> length p \<le> vars_bytes vars"
  by (induction vars) (auto simp: vars_bytes_def split: if_splits)

text \<open>The bytes counted along are those of the table the pending values would make.\<close>

lemma extract_rules_ok:
  assumes "extract_rules env resp vars used pending secrets rules = (Inr out, secrets')"
    and "used = vars_bytes (update_all pending vars)" and "distinct (map fst vars)"
    and "pending \<noteq> [] \<longrightarrow> used \<le> MAX_FLOW_VARIABLE_BYTES"
  shows "\<exists>vals. out = pending @ zip (map er_name rules) vals \<and> length vals = length rules
    \<and> (\<forall>(rule, v)\<in>set (zip rules vals). extract_flow_value (hx_lib env) (hx_join env) rule (hp_body resp) (hp_headers resp)
         (hp_final_url resp) = Inr v \<and> length v \<le> MAX_EXTRACT_VALUE_BYTES)
    \<and> (out \<noteq> [] \<longrightarrow> vars_bytes (update_all out vars) \<le> MAX_FLOW_VARIABLE_BYTES)"
  using assms
proof (induction rules arbitrary: used pending secrets)
  case Nil
  then show ?case by (intro exI [of _ "[]"]) auto
next
  case (Cons rule rules)
  let ?x = "extract_flow_value (hx_lib env) (hx_join env) rule (hp_body resp) (hp_headers resp) (hp_final_url resp)"
  let ?p = "case map_of (rev pending) (er_name rule) of
       Some p \<Rightarrow> length p | None \<Rightarrow> (case map_of vars (er_name rule) of Some p \<Rightarrow> length p | None \<Rightarrow> 0)"
  obtain v where v: "?x = Inr v" using Cons.prems(1) by (cases ?x) auto
  with Cons.prems(1) have small: "length v \<le> MAX_EXTRACT_VALUE_BYTES" "used - ?p + length v \<le> MAX_FLOW_VARIABLE_BYTES"
    and next': "extract_rules env resp vars (used - ?p + length v) (pending @ [(er_name rule, v)])
        (add_secret (hl_form_encode (hx_lib env)) v secrets) rules = (Inr out, secrets')"
    by (auto simp: Let_def not_less split: if_splits)
  let ?t = "update_all pending vars"
  have d: "distinct (map fst ?t)" by (rule distinct_update_all [OF Cons.prems(3)])
  have p: "?p = (case map_of ?t (er_name rule) of Some p \<Rightarrow> length p | None \<Rightarrow> 0)"
    by (simp add: map_of_update_all split: option.split)
  have "?p \<le> vars_bytes ?t" unfolding p using previous_bytes [of ?t "er_name rule"] by (auto split: option.split)
  then have used: "used - ?p + length v = vars_bytes (update_all (pending @ [(er_name rule, v)]) vars)"
    using vars_bytes_update [OF d, of "er_name rule" v] unfolding p [symmetric] Cons.prems(2) by simp
  from Cons.IH [OF next' used Cons.prems(3)] small(2) obtain vals where
    vals: "out = pending @ [(er_name rule, v)] @ zip (map er_name rules) vals" "length vals = length rules"
      "\<forall>(rule, v)\<in>set (zip rules vals). extract_flow_value (hx_lib env) (hx_join env) rule (hp_body resp) (hp_headers resp)
         (hp_final_url resp) = Inr v \<and> length v \<le> MAX_EXTRACT_VALUE_BYTES"
      "vars_bytes (update_all out vars) \<le> MAX_FLOW_VARIABLE_BYTES" by auto
  show ?case
    by (intro exI [of _ "v # vals"]) (use vals v small(1) in auto)
qed

lemma map_of_rev_distinct:
  assumes "distinct (map fst xs)"
  shows "map_of (rev xs) k = map_of xs k"
proof -
  have "distinct (map fst (rev xs))" using assms by (simp flip: rev_map)
  then have e: "map_of (rev xs) k = Some v \<longleftrightarrow> map_of xs k = Some v" for v
    using assms by (simp add: map_of_eq_Some_iff)
  show ?thesis
  proof (cases "map_of xs k")
    case None
    then show ?thesis using e by (metis not_None_eq)
  next
    case (Some v)
    then show ?thesis using e [of v] by simp
  qed
qed

text \<open>A step that fills several variables fills all or none: when one value is missing or would
  break a limit, the variables stay as they were, whether or not the failure is then ignored;
  otherwise every variable named by a rule has the value its rule finds, no other variable changes,
  and all variables together stay within 128 KiB.\<close>

theorem extraction_all_or_nothing:
  assumes "step_extraction env step resp st = (issue, produced, st')" and "fs_extracts step \<noteq> []"
    and "distinct (map er_name (fs_extracts step))" and "distinct (map fst (hs_vars st))"
  shows "if issue \<noteq> None then hs_vars st' = hs_vars st \<and> produced = []
    else produced = map er_name (fs_extracts step) \<and> vars_bytes (hs_vars st') \<le> MAX_FLOW_VARIABLE_BYTES
      \<and> (\<forall>rule\<in>set (fs_extracts step). \<exists>v. map_of (hs_vars st') (er_name rule) = Some v
           \<and> extract_flow_value (hx_lib env) (hx_join env) rule (hp_body resp) (hp_headers resp) (hp_final_url resp) = Inr v
           \<and> length v \<le> MAX_EXTRACT_VALUE_BYTES)
      \<and> (\<forall>k. k \<notin> er_name ` set (fs_extracts step) \<longrightarrow> map_of (hs_vars st') k = map_of (hs_vars st) k)"
proof -
  let ?rules = "fs_extracts step"
  obtain res secrets where r: "extract_rules env resp (hs_vars st) (vars_bytes (hs_vars st)) [] (hs_secrets st) ?rules = (res, secrets)"
    by (cases "extract_rules env resp (hs_vars st) (vars_bytes (hs_vars st)) [] (hs_secrets st) ?rules")
  show ?thesis
  proof (cases res)
    case (Inl e)
    with assms(1,2) r show ?thesis by (auto simp: step_extraction_def)
  next
    case (Inr out)
    with assms(1,2) r have st': "issue = None" "produced = map fst out" "hs_vars st' = update_all out (hs_vars st)"
      by (auto simp: step_extraction_def)
    from extract_rules_ok [OF r [unfolded Inr] _ assms(4)] obtain vals where
      vals: "out = zip (map er_name ?rules) vals" "length vals = length ?rules"
        "\<forall>(rule, v)\<in>set (zip ?rules vals). extract_flow_value (hx_lib env) (hx_join env) rule (hp_body resp) (hp_headers resp)
           (hp_final_url resp) = Inr v \<and> length v \<le> MAX_EXTRACT_VALUE_BYTES"
        "out \<noteq> [] \<longrightarrow> vars_bytes (hs_vars st') \<le> MAX_FLOW_VARIABLE_BYTES" by (auto simp: st'(3))
    have names: "map fst out = map er_name ?rules" by (simp add: vals(1,2))
    then have d: "distinct (map fst out)" using assms(3) by simp
    have look: "map_of (hs_vars st') k = (case map_of out k of Some v \<Rightarrow> Some v | None \<Rightarrow> map_of (hs_vars st) k)" for k
      by (simp add: st'(3) map_of_update_all map_of_rev_distinct [OF d])
    have "\<exists>v. map_of (hs_vars st') (er_name rule) = Some v
         \<and> extract_flow_value (hx_lib env) (hx_join env) rule (hp_body resp) (hp_headers resp) (hp_final_url resp) = Inr v
         \<and> length v \<le> MAX_EXTRACT_VALUE_BYTES" if rule: "rule \<in> set ?rules" for rule
    proof -
      obtain i where i: "i < length ?rules" "rule = ?rules ! i" using rule by (auto simp: in_set_conv_nth)
      then have "(er_name rule, vals ! i) \<in> set out" and z: "(rule, vals ! i) \<in> set (zip ?rules vals)"
        using vals(1,2) by (auto simp: in_set_zip intro!: exI [of _ i])
      then have "map_of out (er_name rule) = Some (vals ! i)" using d by simp
      with look z vals(3) show ?thesis by auto
    qed
    moreover have "map_of (hs_vars st') k = map_of (hs_vars st) k" if "k \<notin> er_name ` set ?rules" for k
    proof -
      have "k \<notin> fst ` set out" using that names by (metis list.set_map)
      then have "map_of out k = None" by (simp add: map_of_eq_None_iff)
      with look show ?thesis by simp
    qed
    moreover have "out \<noteq> []" using names assms(2) by auto
    ultimately show ?thesis using st'(1,2) names vals(4) by simp
  qed
qed

section \<open>Excerpts\<close>

lemma graphic_chars:
  assumes "list_all graphic s"
  shows "filter (\<lambda>c. \<not> cont_byte c) s = s" and "take_chars n s = take n s"
proof -
  have c: "\<not> cont_byte c" if "graphic c" for c using that by (simp add: graphic_def cont_byte_def)
  then show "filter (\<lambda>c. \<not> cont_byte c) s = s" using assms by (induction s) auto
  show "take_chars n s = take n s" using assms c by (induction n s rule: take_chars.induct) (auto split: nat.split)
qed

lemma truncate_graphic:
  assumes "list_all graphic body" and "SNIPPET_LEN < length body"
  shows "truncate_snippet body = take SNIPPET_LEN body @ ellipsis"
proof -
  have "body \<noteq> []" using assms(2) by auto
  then have "split_whitespace body = [body]"
    using assms(1) by (rule split_whitespace_graphic)
  then show ?thesis
    unfolding truncate_snippet_def Let_def using graphic_chars [OF assms(1)] assms(2) by (simp add: char_count_def)
qed

lemma replace_absent: "\<not> str_contains t p \<Longrightarrow> replace_text p r t = t"
  by (induction p r t rule: replace_text.induct) (auto simp: contains_Cons)

lemma redact_absent: "(\<And>s. s \<in> set secrets \<Longrightarrow> \<not> str_contains t s) \<Longrightarrow> redact_text secrets t = t"
  by (induction secrets) (auto simp: redact_text_def replace_absent)

text \<open>The excerpt of a response is cut to 240 characters before it is redacted. A portal that echoes
  a secret across that limit thereby shows the part of it before the limit, in the report of a step as
  in the report of the attempt: the whole secret no longer occurs in the excerpt, so nothing of it is
  replaced.\<close>

theorem excerpt_shows_cut_secret:
  assumes "list_all graphic (before @ secret @ after)" and "length before < SNIPPET_LEN"
    and "SNIPPET_LEN < length before + length secret" and "secret \<in> set secrets"
    and "\<forall>s\<in>set secrets. \<not> str_contains (take SNIPPET_LEN (before @ secret) @ ellipsis) s"
  shows "st_response_snippet (redact_step secrets
      (flow_step_report step out msg rendered (Some (status, headers, before @ secret @ after)) produced t st))
    = before @ take (SNIPPET_LEN - length before) secret @ ellipsis"
proof -
  have "take SNIPPET_LEN (before @ secret @ after) = before @ take (SNIPPET_LEN - length before) secret"
    using assms(2,3) by simp
  then have "truncate_snippet (before @ secret @ after) = before @ take (SNIPPET_LEN - length before) secret @ ellipsis"
    using truncate_graphic [OF assms(1)] assms(3) by simp
  moreover have "redact_text secrets (before @ take (SNIPPET_LEN - length before) secret @ ellipsis)
      = before @ take (SNIPPET_LEN - length before) secret @ ellipsis"
    using assms(2,5) by (intro redact_absent) simp
  ultimately show ?thesis by (simp add: redact_step_def flow_step_report_def)
qed

section \<open>Witnesses\<close>

text \<open>A portal that answers the first request with a redirect to another host and the next ones with
  a page that echoes the password.\<close>

definition demo_url :: "string \<Rightarrow> url" where
  "demo_url host = \<lparr>url_text = host, url_scheme = ''http'', url_host = Some host, url_port = Some 80, url_query = []\<rparr>"

definition demo_answer :: "nat \<Rightarrow> http_answer" where
  "demo_answer n =
     (if n = 0 then \<lparr>ha_status = 302, ha_headers = [(''location'', ''portal2'')], ha_body = [], ha_body_time = 0\<rparr>
      else \<lparr>ha_status = 200, ha_headers = [(''x-token'', ''t42'')], ha_body = [Chunk ''hello hunter2''], ha_body_time = 0\<rparr>)"

definition demo_http_env :: http_env where
  "demo_http_env =
     \<lparr>hx_lib = \<lparr>hl_json_parse = (\<lambda>_. Inl ''no''), hl_json_text = (\<lambda>_. []), hl_regex = (\<lambda>_. None),
               hl_decode = (\<lambda>_. None), hl_gbk = id, hl_form_encode = id\<rparr>,
      hx_parse = (\<lambda>_. Inr (demo_url ''portal'')), hx_join = (\<lambda>u location. Inr (demo_url location)),
      hx_send = (\<lambda>log now rq. (0, Inr (demo_answer (length log)))),
      hx_script = (\<lambda>_ _ _. (0, Inr [])), hx_prepare = (\<lambda>_. (from_secs 1, Inr None)), hx_client = (\<lambda>_. Inr ())\<rparr>"

definition demo_http_request :: http_login_request where
  "demo_http_request =
     \<lparr>hq_network = network_settings_default, hq_steps = [], hq_result_step_id = [], hq_method = Post,
      hq_url = ''http://portal/login'', hq_headers = ''X-User: {username}'', hq_body = ''p={password}'',
      hq_success_pattern = [], hq_failure_pattern = [], hq_failure_action = FailCredential,
      hq_success_check = CheckResponse, hq_crypto_script = [], hq_pre_request = None, hq_logout_request = None,
      hq_username = ''me'', hq_password = ''hunter2'', hq_isp = [], hq_auth_url = [], hq_local_ip = [],
      hq_local_mac = [], hq_fetch_page = False, hq_ignore_https_errors = True\<rparr>"


lemma demo_second_request:
  "length (hs_sent (snd (send_with_redirects demo_http_env Post ''http://portal/'' [] ''p=hunter2'' (from_secs 20) False (attempt_new 0)))) = 2
   \<and> hr_url (hs_sent (snd (send_with_redirects demo_http_env Post ''http://portal/'' [] ''p=hunter2'' (from_secs 20) False (attempt_new 0))) ! 1)
       = demo_url ''portal2''
   \<and> hr_body (hs_sent (snd (send_with_redirects demo_http_env Post ''http://portal/'' [] ''p=hunter2'' (from_secs 20) False (attempt_new 0))) ! 0)
       = Some ''p=hunter2''"
  by (simp add: send_with_redirects_def demo_http_env_def follow.simps attempt_new_def exchange_def demo_answer_def
      next_hop_def header_get_def header_str_def demo_url_def http_scheme_def redirect_is_https_downgrade_def
      redirect_has_same_origin_def MAX_REDIRECTS_def from_secs_def NANOS_def build_request_def Let_def
      to_ascii_lowercase_def ascii_lower_def)

theorem redirects_keep_template_home_witness:
  "hr_body (hs_sent (snd (send_with_redirects demo_http_env Post ''http://portal/'' [] ''p=hunter2'' (from_secs 20) False (attempt_new 0))) ! 1)
     = None"
proof -
  let ?run = "send_with_redirects demo_http_env Post ''http://portal/'' [] ''p=hunter2'' (from_secs 20) False (attempt_new 0)"
  have "?run = (fst ?run, snd ?run)" by simp
  from redirects_keep_template_home [OF this] obtain rqs where
    sent: "hs_sent (snd ?run) = hs_sent (attempt_new 0) @ rqs"
    and first: "rqs \<noteq> [] \<longrightarrow> hx_parse demo_http_env ''http://portal/'' = Inr (hr_url (hd rqs))"
    and bare: "\<forall>i<length rqs. \<forall>j\<le>i. \<not> redirect_has_same_origin (hr_url (hd rqs)) (hr_url (rqs ! j))
         \<longrightarrow> hr_headers (rqs ! i) = [] \<and> hr_body (rqs ! i) = None" by blast
  have r: "rqs = hs_sent (snd ?run)" using sent by (simp add: attempt_new_def)
  have len: "length rqs = 2" and second: "hr_url (rqs ! 1) = demo_url ''portal2''"
    unfolding r using demo_second_request by blast+
  then have "rqs \<noteq> []" by auto
  with first have "hr_url (hd rqs) = demo_url ''portal''" by (simp add: demo_http_env_def)
  with second have "\<not> redirect_has_same_origin (hr_url (hd rqs)) (hr_url (rqs ! 1))"
    by (simp add: redirect_has_same_origin_def demo_url_def)
  moreover have "1 < length rqs" using len by simp
  ultimately have "hr_body (rqs ! 1) = None" using bare by blast
  then show ?thesis by (simp add: r)
qed

lemma demo_timely: "timely demo_http_env 0 (from_secs 1)"
  by (simp add: timely_def demo_http_env_def demo_answer_def)

theorem direct_login_time_witness:
  "hs_now (snd (run_once demo_http_env 0 demo_http_request)) \<le> from_secs 76"
proof -
  have "run_once demo_http_env 0 demo_http_request
      = (fst (run_once demo_http_env 0 demo_http_request), snd (run_once demo_http_env 0 demo_http_request))" by simp
  from direct_login_time [OF demo_timely this] show ?thesis by (simp add: demo_http_request_def from_secs_def)
qed


definition demo_two_values :: "http_extract_rule list" where
  "demo_two_values = [\<lparr>er_source = ''header:x-token'', er_name = ''token''\<rparr>, \<lparr>er_source = ''url:id'', er_name = ''id''\<rparr>]"

definition demo_response :: http_response where
  "demo_response = \<lparr>hp_status = 200, hp_body = [], hp_headers = [(''x-token'', ''t42'')], hp_headers_text = [],
     hp_final_url = demo_url ''portal''\<rparr>"

text \<open>The first rule finds its value and the second does not.\<close>

lemma demo_rules:
  "extract_flow_value (hx_lib demo_http_env) (hx_join demo_http_env) (demo_two_values ! 0) (hp_body demo_response)
     (hp_headers demo_response) (hp_final_url demo_response) = Inr ''t42''"
  "extract_flow_value (hx_lib demo_http_env) (hx_join demo_http_env) (demo_two_values ! 1) (hp_body demo_response)
     (hp_headers demo_response) (hp_final_url demo_response) = Inl ''no parameter id''"
proof -
  have t: "trim ''header:x-token'' = ''header:x-token''" "trim ''url:id'' = ''url:id''" "trim ''x-token'' = ''x-token''"
    "trim ''id'' = ''id''" by (rule trim_graphic; simp add: graphic_def)+
  show "extract_flow_value (hx_lib demo_http_env) (hx_join demo_http_env) (demo_two_values ! 0) (hp_body demo_response)
     (hp_headers demo_response) (hp_final_url demo_response) = Inr ''t42''"
    by (simp add: extract_flow_value_def demo_two_values_def demo_response_def t header_get_def header_str_def
        to_ascii_lowercase_def ascii_lower_def Let_def)
  show "extract_flow_value (hx_lib demo_http_env) (hx_join demo_http_env) (demo_two_values ! 1) (hp_body demo_response)
     (hp_headers demo_response) (hp_final_url demo_response) = Inl ''no parameter id''"
    by (simp add: extract_flow_value_def demo_two_values_def demo_response_def t query_value_def demo_url_def Let_def)
qed

theorem extraction_all_or_nothing_witness:
  "\<exists>issue st'. step_extraction demo_http_env ((single_step ''s1'' demo_http_request)\<lparr>fs_extracts := demo_two_values\<rparr>)
      demo_response (attempt_new 0) = (Some issue, [], st') \<and> hs_vars st' = []
      \<and> ''t42'' \<in> set (hs_secrets st')"
proof -
  let ?step = "(single_step ''s1'' demo_http_request)\<lparr>fs_extracts := demo_two_values\<rparr>"
  have x: "extract_rules demo_http_env demo_response [] 0 [] [] demo_two_values
      = (Inl (''extracting id failed: no parameter id''), [''t42''])"
    using demo_rules by (simp add: demo_two_values_def vars_bytes_def MAX_EXTRACT_VALUE_BYTES_def
        MAX_FLOW_VARIABLE_BYTES_def add_secret_def demo_http_env_def)
  have ne: "fs_extracts ?step \<noteq> []" "distinct (map er_name (fs_extracts ?step))" "distinct (map fst (hs_vars (attempt_new 0)))"
    by (simp_all add: demo_two_values_def attempt_new_def)
  have e: "step_extraction demo_http_env ?step demo_response (attempt_new 0)
      = (Some ''extracting id failed: no parameter id'', [], (attempt_new 0)\<lparr>hs_secrets := [''t42'']\<rparr>)"
    using ne(1) x by (simp add: step_extraction_def attempt_new_def vars_bytes_def)
  from extraction_all_or_nothing [OF e ne] e show ?thesis by (simp add: attempt_new_def)
qed

lemma not_contained: "x \<in> set s \<Longrightarrow> x \<notin> set t \<Longrightarrow> \<not> str_contains t s"
  by (auto simp: str_contains_iff)

theorem excerpt_shows_cut_secret_witness:
  "st_response_snippet (redact_step [''hunter2'']
      (flow_step_report (single_step ''s1'' demo_http_request) StepSuccess [] ([], [], [])
         (Some (200, [], replicate 235 CHR ''a'' @ ''hunter2'' @ [])) [] 0 (attempt_new 0)))
    = replicate 235 CHR ''a'' @ ''hunte'' @ ellipsis"
proof -
  have "list_all graphic (replicate 235 CHR ''a'' @ ''hunter2'' @ [])"
    by (simp add: list_all_iff graphic_def)
  moreover have "\<forall>s\<in>set [''hunter2'']. \<not> str_contains (take SNIPPET_LEN (replicate 235 CHR ''a'' @ ''hunter2'') @ ellipsis) s"
  proof -
    have "take SNIPPET_LEN (replicate 235 CHR ''a'' @ ''hunter2'') @ ellipsis = replicate 235 CHR ''a'' @ ''hunte'' @ ellipsis"
      by (simp add: SNIPPET_LEN_def)
    moreover have "CHR ''2'' \<notin> set (replicate 235 CHR ''a'' @ ''hunte'' @ ellipsis)"
      by (simp add: ellipsis_def bytes_def) code_simp
    ultimately show ?thesis using not_contained [of "CHR ''2''" "''hunter2''"] by simp
  qed
  ultimately have "st_response_snippet (redact_step [''hunter2'']
      (flow_step_report (single_step ''s1'' demo_http_request) StepSuccess [] ([], [], [])
         (Some (200, [], replicate 235 CHR ''a'' @ ''hunter2'' @ [])) [] 0 (attempt_new 0)))
    = replicate 235 CHR ''a'' @ take (SNIPPET_LEN - length (replicate 235 CHR ''a'')) ''hunter2'' @ ellipsis"
    by (intro excerpt_shows_cut_secret) (simp_all add: SNIPPET_LEN_def)
  then show ?thesis by (simp add: SNIPPET_LEN_def)
qed

end
