(* ===== verification/Login_Prepare.thy ===== *)
theory Login_Prepare
  imports Login_Session Config_Service Http_Login
begin

text \<open>
  What \<open>LoginOrchestrator::submit\<close> does before it competes for the session slot
  (\<open>login/mod.rs\<close>, with \<open>browser.rs\<close>): it resolves the configuration, the task and the channel,
  validates the profile, builds the plan of a direct or script login, and for the browser channel
  finds a usable browser, installing the environment first where that is needed. A request that
  fails here gets a handle that is terminal at once.

  The machine is seen through a view per instant: which browsers and engines are installed and
  what the environment manager reports. The stores of the tasks, the serialisers, the URL parser and
  the regex crate are functions of the surroundings.
\<close>

section \<open>Browser channels\<close>

record host_view =
  hv_edge :: bool
  hv_chrome :: bool
  hv_engine_ready :: "string \<Rightarrow> bool"
  hv_is_file :: "string \<Rightarrow> bool"
  hv_playwright_ready :: bool
  hv_system_browser_ready :: bool
  hv_capability_ready :: bool
  hv_last_error :: "string option"

definition managed_engine_of :: "string \<Rightarrow> string option" where
  "managed_engine_of channel =
     (let c = to_ascii_lowercase (trim channel)
      in if c = ''chromium'' \<or> c = ''playwright'' then Some ''chromium''
         else if c = ''firefox'' then Some ''firefox''
         else if c = ''webkit'' then Some ''webkit''
         else None)"

definition is_channel_available :: "host_view \<Rightarrow> string \<Rightarrow> string \<Rightarrow> bool" where
  "is_channel_available hv channel custom_path =
     (let c = to_ascii_lowercase (trim channel)
      in if c = ''msedge'' then hv_edge hv
         else if c = ''chrome'' then hv_chrome hv
         else if c = ''custom'' then (let p = trim custom_path in p \<noteq> [] \<and> hv_is_file hv p)
         else (case managed_engine_of c of Some engine \<Rightarrow> hv_engine_ready hv engine | None \<Rightarrow> False))"

definition system_browser_channel :: "host_view \<Rightarrow> string option" where
  "system_browser_channel hv =
     (if hv_edge hv then Some ''msedge'' else if hv_chrome hv then Some ''chrome'' else None)"

definition first_available_from :: "string option \<Rightarrow> (string \<Rightarrow> bool) \<Rightarrow> string option" where
  "first_available_from system managed =
     (case system of Some c \<Rightarrow> Some c | None \<Rightarrow> find managed [''chromium'', ''firefox'', ''webkit''])"

definition first_available_channel :: "host_view \<Rightarrow> string option" where
  "first_available_channel hv = first_available_from (system_browser_channel hv) (hv_engine_ready hv)"

definition decide_browser_override :: "bool \<Rightarrow> string option \<Rightarrow> string option" where
  "decide_browser_override configured_available first_available =
     (if configured_available then None else first_available)"

section \<open>Tasks\<close>

datatype task_kind = TaskBrowser json | TaskScript | TaskHttp http_task_config

definition DEFAULT_TASK_ID :: string where
  "DEFAULT_TASK_ID = ''default''"

record task_choice =
  tc_task_id :: "string option"
  tc_fell_back :: bool

definition resolve_task_choice :: "string option \<Rightarrow> string \<Rightarrow> bool \<Rightarrow> bool \<Rightarrow> task_choice" where
  "resolve_task_choice explicit profile_active_task bound_usable default_usable =
     (let fallback_default = (\<lambda>fell_back. \<lparr>tc_task_id = (if default_usable then Some DEFAULT_TASK_ID else None),
                                            tc_fell_back = fell_back\<rparr>);
          bound = trim profile_active_task
      in case explicit of
           Some (c # cs) \<Rightarrow> \<lparr>tc_task_id = Some (c # cs), tc_fell_back = False\<rparr>
         | _ \<Rightarrow> if bound = [] then fallback_default False
                else if bound_usable then \<lparr>tc_task_id = Some bound, tc_fell_back = False\<rparr>
                else fallback_default True)"

section \<open>The surroundings of a request\<close>

record login_request =
  rq_source :: login_source
  rq_task_id :: "string option"
  rq_profile_id :: "string option"

record submit_env =
  su_openwrt :: bool
  su_runtime :: runtime_config
  su_runtime_for_profile :: "string \<Rightarrow> config_error + runtime_config"
  su_load_task :: "string \<Rightarrow> string + task_kind"
  su_url_parse :: "string \<Rightarrow> string + url"
  su_regex :: regex_engine
  su_local_address :: "instant \<Rightarrow> local_address"
  su_network_json :: "network_settings \<Rightarrow> json"
  su_browser_json :: "browser_settings \<Rightarrow> string + (string \<times> json) list"
  su_host :: "instant \<Rightarrow> host_view"
  su_ensure :: "instant \<Rightarrow> duration \<times> (string + unit)"
  su_cancel_at :: "instant option"
  su_local_now :: "instant \<Rightarrow> wall"
  su_record :: "instant \<Rightarrow> bool"

text \<open>The part of the orchestrator a request changes while it is prepared.\<close>

record prep_state =
  pp_now :: instant
  pp_channel_probe_cache :: "(string \<times> string \<times> bool \<times> bool) \<rightharpoonup> instant \<times> bool"
  pp_first_available_cache :: "((bool \<times> bool) \<times> instant \<times> string option) option"
  pp_status :: status_snapshot
  pp_history :: "login_history_entry list"

type_synonym 'a prep = "prep_state \<Rightarrow> (login_result + 'a) \<times> prep_state"

definition then_prep :: "'a prep \<Rightarrow> ('a \<Rightarrow> 'b prep) \<Rightarrow> 'b prep" where
  "then_prep m f st = (case m st of (Inl r, st') \<Rightarrow> (Inl r, st') | (Inr x, st') \<Rightarrow> f x st')"

definition return_prep :: "'a \<Rightarrow> 'a prep" where
  "return_prep x st = (Inr x, st)"

definition record_entry :: "submit_env \<Rightarrow> login_source \<Rightarrow> string \<Rightarrow> history_result \<Rightarrow> string \<Rightarrow> prep_state \<Rightarrow> prep_state" where
  "record_entry env source profile_id result message st =
     (if su_record env (pp_now st)
      then st\<lparr>pp_history := pp_history st @
             [\<lparr>he_timestamp = su_local_now env (pp_now st), he_source = source, he_channel = None,
               he_profile_id = profile_id, he_result = result, he_message = message, he_duration = 0\<rparr>]\<rparr>
      else st)"

definition merge_prep :: "submit_env \<Rightarrow> login_status \<Rightarrow> login_source \<Rightarrow> string \<Rightarrow> prep_state \<Rightarrow> prep_state" where
  "merge_prep env status source message st =
     st\<lparr>pp_status := merge (su_local_now env (pp_now st), PLogin status (Some source) (Some message) 0) (pp_status st)\<rparr>"

definition cancelled_handle :: "submit_env \<Rightarrow> login_source \<Rightarrow> string \<Rightarrow> 'a prep" where
  "cancelled_handle env source profile_id st =
     (Inl \<lparr>lr_network_retryable = False, lr_terminal = Cancelled, lr_message = ''login cancelled'',
           lr_source = source, lr_duration = 0, lr_attempts = 0\<rparr>,
      record_entry env source profile_id HCancelled ''login cancelled (preparing)''
        (merge_prep env LoginCancelled source ''login cancelled'' st))"

definition immediate_handle :: "submit_env \<Rightarrow> login_source \<Rightarrow> bool \<Rightarrow> string \<Rightarrow> string \<Rightarrow> 'a prep" where
  "immediate_handle env source success message profile_id st =
     (Inl \<lparr>lr_network_retryable = False, lr_terminal = (if success then Success else Failed),
           lr_message = message, lr_source = source, lr_duration = 0, lr_attempts = 0\<rparr>,
      record_entry env source profile_id (if success then HSuccess else HFailed) message
        (merge_prep env (if success then LoginSuccess else LoginFailed) source message st))"

section \<open>Resolving configuration and tasks\<close>

definition resolve_runtime :: "submit_env \<Rightarrow> login_source \<Rightarrow> runtime_config \<Rightarrow> string option \<Rightarrow> runtime_config prep" where
  "resolve_runtime env source rt profile_id =
     (case profile_id of
        Some (c # cs) \<Rightarrow>
          (case su_runtime_for_profile env (c # cs) of
             Inr rc \<Rightarrow> return_prep rc
           | Inl e \<Rightarrow> immediate_handle env source False (''cannot load profile '' @ (c # cs)) (c # cs))
      | _ \<Rightarrow> return_prep rt)"

definition is_usable_browser_task :: "submit_env \<Rightarrow> string \<Rightarrow> bool" where
  "is_usable_browser_task env tid =
     (case su_load_task env tid of Inr (TaskBrowser _) \<Rightarrow> True | _ \<Rightarrow> False)"

definition resolve_active_task :: "submit_env \<Rightarrow> string option \<Rightarrow> profile_snapshot \<Rightarrow> string option" where
  "resolve_active_task env explicit profile =
     (let bound_usable = (trim (sn_active_task profile) \<noteq> []
                          \<and> is_usable_browser_task env (trim (sn_active_task profile)));
          default_usable = is_usable_browser_task env DEFAULT_TASK_ID
      in tc_task_id (resolve_task_choice explicit (sn_active_task profile) bound_usable default_usable))"

definition resolve_http_task :: "submit_env \<Rightarrow> profile_snapshot \<Rightarrow> string + http_task_config" where
  "resolve_http_task env profile =
     (let tid = trim (sn_active_http_task profile)
      in if tid = [] then Inl ''no direct task bound''
         else case su_load_task env tid of
                Inr (TaskHttp cfg) \<Rightarrow> Inr cfg
              | Inr _ \<Rightarrow> Inl (tid @ '' is not a direct task'')
              | Inl _ \<Rightarrow> Inl (''direct task '' @ tid @ '' does not exist''))"

definition resolve_script_task :: "submit_env \<Rightarrow> profile_snapshot \<Rightarrow> string + unit" where
  "resolve_script_task env profile =
     (let tid = trim (sn_active_script_task profile)
      in if tid = [] then Inl ''no login script bound''
         else case su_load_task env tid of
                Inr TaskScript \<Rightarrow> Inr ()
              | Inr _ \<Rightarrow> Inl (tid @ '' is not a script task'')
              | Inl _ \<Rightarrow> Inl (''login script '' @ tid @ '' does not exist''))"

definition missing_items :: "profile_snapshot \<Rightarrow> string option \<Rightarrow> bool \<Rightarrow> bool \<Rightarrow> string list" where
  "missing_items profile effective_task_id use_http use_script =
     (if sn_username profile = [] then [''no user name''] else [])
     @ (if sn_password profile = [] then [''no password''] else [])
     @ (if use_http \<and> trim (sn_active_http_task profile) = [] then [''no direct task bound''] else [])
     @ (if use_script \<and> trim (sn_active_script_task profile) = [] then [''no login script bound''] else [])
     @ (if \<not> use_http \<and> \<not> use_script \<and> effective_task_id = None then [''no usable browser task''] else [])"

definition validate_profile ::
  "submit_env \<Rightarrow> login_source \<Rightarrow> profile_snapshot \<Rightarrow> string option \<Rightarrow> bool \<Rightarrow> bool \<Rightarrow> unit prep"
where
  "validate_profile env source profile effective_task_id use_http use_script =
     (let missing = missing_items profile effective_task_id use_http use_script
      in if missing = [] then return_prep ()
         else immediate_handle env source False (''incomplete configuration: '' @ str_join ''; '' missing)
                (sn_id profile))"

section \<open>The browser of a login\<close>

definition CHANNEL_PROBE_TTL :: duration where
  "CHANNEL_PROBE_TTL = from_secs 60"

definition channel_available_cached :: "submit_env \<Rightarrow> string \<Rightarrow> string \<Rightarrow> prep_state \<Rightarrow> bool \<times> prep_state" where
  "channel_available_cached env channel custom_path st =
     (let now = pp_now st; hv = su_host env now;
          key = (channel, trim custom_path, hv_playwright_ready hv, hv_system_browser_ready hv);
          probe = (let available = is_channel_available hv channel custom_path
                   in (available, st\<lparr>pp_channel_probe_cache := (pp_channel_probe_cache st)(key \<mapsto> (now, available))\<rparr>))
      in case pp_channel_probe_cache st key of
           Some (at, available) \<Rightarrow> if now - at < CHANNEL_PROBE_TTL then (available, st) else probe
         | None \<Rightarrow> probe)"

definition first_available_channel_cached :: "submit_env \<Rightarrow> prep_state \<Rightarrow> string option \<times> prep_state" where
  "first_available_channel_cached env st =
     (let now = pp_now st; hv = su_host env now;
          key = (hv_playwright_ready hv, hv_system_browser_ready hv);
          probe = (let probed = first_available_channel hv
                   in (probed, st\<lparr>pp_first_available_cache := Some (key, now, probed)\<rparr>))
      in case pp_first_available_cache st of
           Some (cached_key, at, cached) \<Rightarrow>
             if cached_key = key \<and> now - at < CHANNEL_PROBE_TTL then (cached, st) else probe
         | None \<Rightarrow> probe)"

definition resolve_browser_channel :: "submit_env \<Rightarrow> string \<Rightarrow> string \<Rightarrow> prep_state \<Rightarrow> string option \<times> prep_state" where
  "resolve_browser_channel env channel custom_path st =
     (let (available, st1) = channel_available_cached env channel custom_path st;
          (first, st2) = first_available_channel_cached env st1
      in (decide_browser_override available first, st2))"

definition no_browser_hint :: "host_view \<Rightarrow> string" where
  "no_browser_hint hv = (if first_available_channel hv = None then ''; no usable browser'' else [])"

definition NO_BROWSER_MESSAGE :: string where
  "NO_BROWSER_MESSAGE = ''no usable browser, please install Chromium''"

text \<open>The installation of the environment, raced against the cancellation of the request, then the
  check that it is ready now.\<close>

definition ensure_environment :: "submit_env \<Rightarrow> login_source \<Rightarrow> string \<Rightarrow> unit prep" where
  "ensure_environment env source profile_id st =
     (let hint = (\<lambda>st'. if source = SrcBrowser then [] else no_browser_hint (su_host env (pp_now st')));
          st0 = (if source = SrcBrowser then st
                 else merge_prep env LoginRunning source ''initialising the Python environment'' st);
          (d, init_result) = su_ensure env (pp_now st0);
          done_at = pp_now st0 + d
      in if fired (su_cancel_at env) done_at
         then cancelled_handle env source profile_id
                (st0\<lparr>pp_now := max (pp_now st0) (the (su_cancel_at env))\<rparr>)
         else let st1 = st0\<lparr>pp_now := done_at\<rparr>; hv = su_host env done_at
              in case init_result of
                   Inl e \<Rightarrow>
                     immediate_handle env source False
                       (''environment not ready, initialisation failed: ''
                          @ (case hv_last_error hv of Some l \<Rightarrow> l | None \<Rightarrow> e) @ hint st1) profile_id st1
                 | Inr _ \<Rightarrow>
                     if hv_capability_ready hv then return_prep () st1
                     else immediate_handle env source False
                       (''environment not ready after initialisation: ''
                          @ (case hv_last_error hv of Some l \<Rightarrow> l | None \<Rightarrow> ''unknown'') @ hint st1) profile_id st1)"

text \<open>The last check of the browser, without the cache.\<close>

definition final_browser_check ::
  "submit_env \<Rightarrow> login_source \<Rightarrow> profile_snapshot \<Rightarrow> runtime_config \<Rightarrow> string option \<Rightarrow> string option prep"
where
  "final_browser_check env source profile rt browser_override st =
     (let channel = (case browser_override of Some c \<Rightarrow> c | None \<Rightarrow> bs_browser_channel (rc_browser rt));
          path = bs_browser_custom_path (rc_browser rt)
      in if is_channel_available (su_host env (pp_now st)) channel path
         then (Inr browser_override, st)
         else case resolve_browser_channel env channel path st of
                (Some c, st') \<Rightarrow> (Inr (Some c), st')
              | (None, st') \<Rightarrow> immediate_handle env source False NO_BROWSER_MESSAGE (sn_id profile) st')"

definition prepare_browser ::
  "submit_env \<Rightarrow> login_source \<Rightarrow> profile_snapshot \<Rightarrow> runtime_config \<Rightarrow> string option prep"
where
  "prepare_browser env source profile rt st =
     (let (browser_override, st1) = resolve_browser_channel env (bs_browser_channel (rc_browser rt))
                                      (bs_browser_custom_path (rc_browser rt)) st
      in then_prep
           (\<lambda>st'. if hv_capability_ready (su_host env (pp_now st')) then return_prep () st'
                  else ensure_environment env source (sn_id profile) st')
           (\<lambda>_. final_browser_check env source profile rt browser_override) st1)"

section \<open>The plan\<close>

definition embed_task_config :: "submit_env \<Rightarrow> string \<Rightarrow> (string \<times> json) list \<Rightarrow> (string \<times> json) list" where
  "embed_task_config env task_id args =
     (if task_id = [] then args
      else case su_load_task env task_id of
             Inr (TaskBrowser task_val) \<Rightarrow> AList.update ''task_config'' task_val args
           | _ \<Rightarrow> args)"

definition build_worker_config ::
  "submit_env \<Rightarrow> runtime_config \<Rightarrow> profile_snapshot \<Rightarrow> string \<Rightarrow> string option \<Rightarrow> (string \<times> json) list"
where
  "build_worker_config env rt profile task_id channel_override =
     (let trigger_url = (if uses_redirect_login profile then effective_browser_login_url profile else []);
          cfg = [(''username'', JString (sn_username profile)), (''password'', JString (sn_password profile)),
                 (''auth_url'', JString (sn_auth_url profile)), (''network'', su_network_json env (rc_network rt)),
                 (''trigger_url'', JString trigger_url), (''isp'', JString (sn_isp profile)),
                 (''gateway_ip'', JString (sn_gateway_ip profile)), (''wifi_ssid'', JString (sn_wifi_ssid profile)),
                 (''active_task'', JString task_id)];
          cfg1 = (case su_browser_json env (rc_browser rt) of
                    Inr browser \<Rightarrow>
                      AList.update ''browser_settings''
                        (JObject (case channel_override of
                                    Some channel \<Rightarrow> AList.update ''browser_channel'' (JString channel) browser
                                  | None \<Rightarrow> browser)) cfg
                  | Inl _ \<Rightarrow> cfg)
      in embed_task_config env task_id cfg1)"

definition effective_channel :: "login_source \<Rightarrow> profile_snapshot \<Rightarrow> login_channel" where
  "effective_channel source profile = (if source = SrcBrowser then ChBrowser else sn_login_channel profile)"

text \<open>The direct request: the address of the task goes before that of the profile, its egress is that
  of the profile, and the address of this machine is looked up only where it is needed.\<close>

definition prepare_http ::
  "submit_env \<Rightarrow> login_source \<Rightarrow> runtime_config \<Rightarrow> profile_snapshot \<Rightarrow> http_login_request prep"
where
  "prepare_http env source rt profile st =
     (case resolve_http_task env profile of
        Inl e \<Rightarrow> immediate_handle env source False e (sn_id profile) st
      | Inr task \<Rightarrow>
          let auth_url = (if trim (ht_auth_url task) = [] then sn_auth_url profile else ht_auth_url task)
          in case from_task (su_url_parse env) (su_regex env) task (sn_username profile) (sn_password profile)
                    (sn_isp profile) auth_url True (bs_ignore_https_errors (rc_browser rt)) of
               Inl e \<Rightarrow> immediate_handle env source False e (sn_id profile) st
             | Inr p \<Rightarrow>
                 let p1 = p\<lparr>hq_network := rc_network rt\<rparr>
                 in return_prep
                      (if needs_local_address p1 \<and> ns_mode (rc_network rt) \<noteq> Interface
                       then with_local_address (su_local_address env (pp_now st)) p1 else p1) st)"

definition prepare_script :: "submit_env \<Rightarrow> login_source \<Rightarrow> profile_snapshot \<Rightarrow> unit prep" where
  "prepare_script env source profile =
     (case resolve_script_task env profile of
        Inl e \<Rightarrow> immediate_handle env source False e (sn_id profile)
      | Inr _ \<Rightarrow> return_prep ())"

definition session_params_of ::
  "runtime_config \<Rightarrow> login_source \<Rightarrow> string option \<Rightarrow> login_attempt_plan \<Rightarrow> session_params"
where
  "session_params_of rt source effective_task_id plan =
     \<lparr>sp_source = source, sp_task_id = effective_task_id, sp_max_retries = rs_max_retries (rc_retry rt),
      sp_retry_interval = from_secs (unat (rs_retry_interval (rc_retry rt))),
      sp_login_timeout = from_secs (max (unat (bs_login_timeout (rc_browser rt))) 1),
      sp_profile_id = sn_id (rc_profile rt), sp_network = rc_network rt, sp_plan = plan\<rparr>"

definition login_plan ::
  "submit_env \<Rightarrow> runtime_config \<Rightarrow> login_channel \<Rightarrow> string option \<Rightarrow> string option \<Rightarrow> login_attempt_plan"
where
  "login_plan env rt channel effective_task_id browser_override =
     (case channel of
        ChHttp \<Rightarrow> HttpPlan
      | ChScript \<Rightarrow> ScriptPlan
      | ChBrowser \<Rightarrow>
          BrowserPlan (build_worker_config env rt (rc_profile rt)
            (case effective_task_id of Some t \<Rightarrow> t | None \<Rightarrow> []) browser_override))"

text \<open>What the channel needs: the request, the script, or a browser.\<close>

definition prepare_channel ::
  "submit_env \<Rightarrow> login_source \<Rightarrow> runtime_config \<Rightarrow> login_channel \<Rightarrow> string option prep"
where
  "prepare_channel env source rt channel =
     then_prep (if channel = ChHttp then then_prep (prepare_http env source rt (rc_profile rt)) (\<lambda>p. return_prep (Some p))
                else return_prep None) (\<lambda>_.
     then_prep (if channel = ChScript then prepare_script env source (rc_profile rt) else return_prep ()) (\<lambda>_.
     (if is_in_process channel then return_prep None
      else prepare_browser env source (rc_profile rt) rt)))"

definition prepare_with :: "submit_env \<Rightarrow> login_request \<Rightarrow> runtime_config \<Rightarrow> session_params prep" where
  "prepare_with env rq rt =
     (let source = rq_source rq;
          profile = rc_profile rt;
          effective_task_id = resolve_active_task env (rq_task_id rq) profile;
          channel = effective_channel source profile
      in if channel = ChScript \<and> ns_mode (rc_network rt) = Interface
         then immediate_handle env source False ''the script channel cannot be bound to an interface'' (sn_id profile)
         else if \<not> is_supported (su_openwrt env) channel
         then immediate_handle env source False ''no browser login on OpenWrt'' (sn_id profile)
         else then_prep (validate_profile env source profile effective_task_id (channel = ChHttp) (channel = ChScript)) (\<lambda>_.
              then_prep (prepare_channel env source rt channel) (\<lambda>browser_override.
                return_prep (session_params_of rt source effective_task_id
                  (login_plan env rt channel effective_task_id browser_override)))))"

text \<open>All of it, up to the submit gate; the worker's configuration is built behind the gate, from the
  same values.\<close>

definition prepare_login :: "submit_env \<Rightarrow> login_request \<Rightarrow> session_params prep" where
  "prepare_login env rq =
     then_prep (resolve_runtime env (rq_source rq) (su_runtime env) (rq_profile_id rq)) (prepare_with env rq)"

end
