(* ===== verification/Login_Prepare_Props.thy ===== *)
theory Login_Prepare_Props
  imports Login_Prepare
begin

text \<open>
  What a prepared login satisfies, and the case in which the cached look at the browsers refuses a
  login that could run.
\<close>

lemma then_prep_Inr:
  "then_prep m f st = (Inr y, st') \<longleftrightarrow> (\<exists>x st1. m st = (Inr x, st1) \<and> f x st1 = (Inr y, st'))"
  by (auto simp: then_prep_def split: prod.splits sum.splits)

lemma return_prep_Inr: "return_prep x st = (Inr y, st') \<longleftrightarrow> y = x \<and> st' = st"
  by (auto simp: return_prep_def)

lemma immediate_not_Inr [simp]: "immediate_handle env src ok msg pid st \<noteq> (Inr y, st')"
  by (simp add: immediate_handle_def)

lemma cancelled_not_Inr [simp]: "cancelled_handle env src pid st \<noteq> (Inr y, st')"
  by (simp add: cancelled_handle_def)

lemma if_prep_Inr:
  "(if b then m else m') st = (Inr y, st') \<longleftrightarrow> (if b then m st = (Inr y, st') else m' st = (Inr y, st'))"
  by simp

lemma validate_profile_Inr:
  "validate_profile env src p t h s st = (Inr u, st') \<longleftrightarrow> missing_items p t h s = [] \<and> st' = st"
  by (auto simp: validate_profile_def Let_def return_prep_def)

lemma missing_items_Nil:
  "missing_items p t h s = [] \<longleftrightarrow> sn_username p \<noteq> [] \<and> sn_password p \<noteq> []
     \<and> (h \<longrightarrow> trim (sn_active_http_task p) \<noteq> []) \<and> (s \<longrightarrow> trim (sn_active_script_task p) \<noteq> [])
     \<and> (\<not> h \<and> \<not> s \<longrightarrow> t \<noteq> None)"
  by (simp add: missing_items_def)

text \<open>The bound direct task of a profile, and that a request can be built from it.\<close>

definition direct_task_ok :: "submit_env \<Rightarrow> runtime_config \<Rightarrow> bool" where
  "direct_task_ok env rt \<longleftrightarrow>
     (\<exists>cfg auth_url request. su_load_task env (trim (sn_active_http_task (rc_profile rt))) = Inr (TaskHttp cfg)
        \<and> auth_url = (if trim (ht_auth_url cfg) = [] then sn_auth_url (rc_profile rt) else ht_auth_url cfg)
        \<and> from_task (su_url_parse env) (su_regex env) cfg (sn_username (rc_profile rt)) (sn_password (rc_profile rt))
            (sn_isp (rc_profile rt)) auth_url True (bs_ignore_https_errors (rc_browser rt)) = Inr request)"

lemma prepare_http_Inr:
  assumes "prepare_http env src rt (rc_profile rt) st = (Inr u, st')"
  shows "direct_task_ok env rt"
proof -
  from assms obtain cfg where c: "resolve_http_task env (rc_profile rt) = Inr cfg"
    by (auto simp: prepare_http_def split: sum.splits)
  then have l: "su_load_task env (trim (sn_active_http_task (rc_profile rt))) = Inr (TaskHttp cfg)"
    by (auto simp: resolve_http_task_def Let_def split: sum.splits if_splits task_kind.splits)
  let ?f = "from_task (su_url_parse env) (su_regex env) cfg (sn_username (rc_profile rt)) (sn_password (rc_profile rt))
    (sn_isp (rc_profile rt)) (if trim (ht_auth_url cfg) = [] then sn_auth_url (rc_profile rt) else ht_auth_url cfg) True
    (bs_ignore_https_errors (rc_browser rt))"
  have "\<exists>request. ?f = Inr request" using assms c by (cases ?f) (auto simp: prepare_http_def Let_def)
  with l show ?thesis unfolding direct_task_ok_def by blast
qed

lemma prepare_script_Inr:
  "prepare_script env src p st = (Inr u, st') \<Longrightarrow> su_load_task env (trim (sn_active_script_task p)) = Inr TaskScript"
  by (auto simp: prepare_script_def resolve_script_task_def Let_def split: sum.splits if_splits task_kind.splits)

lemma resolve_runtime_Inr:
  "resolve_runtime env src rt0 pid st = (Inr rt, st') \<Longrightarrow>
     (case pid of Some (c # cs) \<Rightarrow> su_runtime_for_profile env (c # cs) = Inr rt | _ \<Rightarrow> rt = rt0) \<and> st' = st"
  by (auto simp: resolve_runtime_def return_prep_def split: option.splits list.splits sum.splits)

lemma final_check_Inr:
  assumes "final_browser_check env src p rt ov st = (Inr ov', st')"
  shows "ov' = ov \<and> is_channel_available (su_host env (pp_now st))
           (case ov of Some c \<Rightarrow> c | None \<Rightarrow> bs_browser_channel (rc_browser rt)) (bs_browser_custom_path (rc_browser rt))
       \<or> ov' \<noteq> None"
  using assms by (auto simp: final_browser_check_def Let_def split: if_splits prod.splits option.splits)

lemma prepare_channel_Inr:
  assumes "prepare_channel env src rt ch st = (Inr ov, st')"
  shows "(ch = ChHttp \<longrightarrow> direct_task_ok env rt)
    \<and> (ch = ChScript \<longrightarrow> su_load_task env (trim (sn_active_script_task (rc_profile rt))) = Inr TaskScript)"
proof -
  from assms obtain u1 s1 u2 s2 where
    1: "(if ch = ChHttp then then_prep (prepare_http env src rt (rc_profile rt)) (\<lambda>p. return_prep (Some p))
         else return_prep None) st = (Inr u1, s1)"
    and 2: "(if ch = ChScript then prepare_script env src (rc_profile rt) else return_prep ()) s1 = (Inr u2, s2)"
    unfolding prepare_channel_def then_prep_Inr by blast
  from 1 have "direct_task_ok env rt" if "ch = ChHttp" using that prepare_http_Inr by (auto simp: then_prep_Inr)
  with 2 prepare_script_Inr [of env src "rc_profile rt" s1 u2 s2] show ?thesis
    by (cases ch) simp_all
qed

lemma prepare_with_Inr:
  assumes "prepare_with env rq rt st = (Inr params, st')"
  defines "ch \<equiv> effective_channel (rq_source rq) (rc_profile rt)"
    and "t \<equiv> resolve_active_task env (rq_task_id rq) (rc_profile rt)"
  shows "\<not> (ch = ChScript \<and> ns_mode (rc_network rt) = Interface)" and "is_supported (su_openwrt env) ch"
    and "missing_items (rc_profile rt) t (ch = ChHttp) (ch = ChScript) = []"
    and "\<exists>ov s s'. prepare_channel env (rq_source rq) rt ch s = (Inr ov, s')
           \<and> params = session_params_of rt (rq_source rq) t (login_plan env rt ch t ov)"
proof -
  show g: "\<not> (ch = ChScript \<and> ns_mode (rc_network rt) = Interface)" "is_supported (su_openwrt env) ch"
    using assms(1) unfolding prepare_with_def Let_def ch_def by (auto split: if_splits)
  have eq: "prepare_with env rq rt st =
      then_prep (validate_profile env (rq_source rq) (rc_profile rt) t (ch = ChHttp) (ch = ChScript)) (\<lambda>_.
              then_prep (prepare_channel env (rq_source rq) rt ch) (\<lambda>browser_override.
                return_prep (session_params_of rt (rq_source rq) t
                  (login_plan env rt ch t browser_override)))) st"
    using g unfolding prepare_with_def Let_def ch_def [symmetric] t_def [symmetric] by auto
  from assms(1) [unfolded eq] obtain u s1 ov s2 where
    "validate_profile env (rq_source rq) (rc_profile rt) t (ch = ChHttp) (ch = ChScript) st = (Inr u, s1)"
    "prepare_channel env (rq_source rq) rt ch s1 = (Inr ov, s2)"
    "params = session_params_of rt (rq_source rq) t (login_plan env rt ch t ov)"
    unfolding then_prep_Inr return_prep_Inr by blast
  then show "missing_items (rc_profile rt) t (ch = ChHttp) (ch = ChScript) = []"
    and "\<exists>ov s s'. prepare_channel env (rq_source rq) rt ch s = (Inr ov, s')
           \<and> params = session_params_of rt (rq_source rq) t (login_plan env rt ch t ov)"
    using validate_profile_Inr by blast+
qed


text \<open>The cached look at the browsers refuses logins: when the configured browser was seen less than
  a minute ago and is gone now, the last check finds it missing, but the search for another one asks
  the cache, takes the missing one for available and looks no further. The login is refused for want
  of a browser although another one is installed.\<close>

theorem stale_browser_cache_refuses:
  assumes "hv_capability_ready (su_host env (pp_now st))"
    and "bs_browser_channel (rc_browser rt) = channel" and "bs_browser_custom_path (rc_browser rt) = path"
    and "pp_channel_probe_cache st (channel, trim path, hv_playwright_ready (su_host env (pp_now st)),
           hv_system_browser_ready (su_host env (pp_now st))) = Some (at, True)"
    and "pp_now st - at < CHANNEL_PROBE_TTL"
    and "\<not> is_channel_available (su_host env (pp_now st)) channel path"
    and "first_available_channel (su_host env (pp_now st)) = Some other"
  shows "\<exists>r st'. prepare_browser env source profile rt st = (Inl r, st')
    \<and> lr_terminal r = Failed \<and> lr_message r = NO_BROWSER_MESSAGE"
proof -
  obtain first st1 where f: "first_available_channel_cached env st = (first, st1)"
    by (cases "first_available_channel_cached env st")
  have n: "pp_now st1 = pp_now st" "pp_channel_probe_cache st1 = pp_channel_probe_cache st"
    using f by (auto simp: first_available_channel_cached_def Let_def split: option.splits prod.splits if_splits)
  have a: "channel_available_cached env channel path s = (True, s)"
    if "pp_now s = pp_now st" "pp_channel_probe_cache s = pp_channel_probe_cache st" for s
    using assms(4,5) that by (simp add: channel_available_cached_def Let_def)
  have r: "\<exists>s'. resolve_browser_channel env channel path s = (None, s') \<and> pp_now s' = pp_now st
       \<and> pp_channel_probe_cache s' = pp_channel_probe_cache st"
    if "pp_now s = pp_now st" "pp_channel_probe_cache s = pp_channel_probe_cache st" for s
    using that a [OF that]
    by (auto simp: resolve_browser_channel_def decide_browser_override_def first_available_channel_cached_def Let_def
        split: option.splits prod.splits if_splits)
  obtain s1 where s1: "resolve_browser_channel env channel path st = (None, s1)" "pp_now s1 = pp_now st"
    "pp_channel_probe_cache s1 = pp_channel_probe_cache st" using r [of st] by auto
  obtain s2 where s2: "resolve_browser_channel env channel path s1 = (None, s2)" using r [of s1] s1 by auto
  show ?thesis using assms(1,6) s1 s2
    by (simp add: prepare_browser_def final_browser_check_def assms(2,3) then_prep_def return_prep_def
        immediate_handle_def Let_def)
qed

section \<open>Witnesses\<close>

text \<open>A profile with a direct task; a machine whose configured Chrome is gone while Edge is there.\<close>

definition demo_direct_runtime :: runtime_config where
  "demo_direct_runtime =
     (let rt = build_runtime_config (\<lambda>_ _. (Inr ''secret'' :: unit + string)) settings_data_default profile_data_default
      in rt\<lparr>rc_browser := (rc_browser rt)\<lparr>bs_browser_channel := ''chrome'', bs_browser_custom_path := []\<rparr>,
            rc_profile := (rc_profile rt)\<lparr>sn_username := ''alice'', sn_password := ''secret'',
                                           sn_login_channel := ChHttp, sn_active_http_task := ''portal''\<rparr>\<rparr>)"

definition demo_host :: host_view where
  "demo_host = \<lparr>hv_edge = True, hv_chrome = False, hv_engine_ready = (\<lambda>_. False), hv_is_file = (\<lambda>_. False),
     hv_playwright_ready = False, hv_system_browser_ready = True, hv_capability_ready = True, hv_last_error = None\<rparr>"

definition demo_portal_task :: http_task_config where
  "demo_portal_task = http_task_config_default\<lparr>ht_url := ''http://portal/login''\<rparr>"

definition demo_submit_env :: submit_env where
  "demo_submit_env =
     \<lparr>su_openwrt = False, su_runtime = demo_direct_runtime, su_runtime_for_profile = (\<lambda>_. Inr demo_direct_runtime),
      su_load_task = (\<lambda>t. if t = ''portal'' then Inr (TaskHttp demo_portal_task) else Inl ''not found''),
      su_url_parse = (\<lambda>s. Inr \<lparr>url_text = s, url_scheme = ''http'', url_host = Some ''portal'', url_port = Some 80,
        url_query = []\<rparr>), su_regex = (\<lambda>_. None), su_local_address = (\<lambda>_. \<lparr>la_ipv4 = [], la_mac = []\<rparr>),
      su_network_json = (\<lambda>_. JNull), su_browser_json = (\<lambda>_. Inr []),
      su_host = (\<lambda>_. demo_host), su_ensure = (\<lambda>_. (0, Inr ())), su_cancel_at = None,
      su_local_now = (\<lambda>_. demo_wall 0), su_record = (\<lambda>_. True)\<rparr>"

definition demo_prep :: prep_state where
  "demo_prep = \<lparr>pp_now = from_secs 100,
     pp_channel_probe_cache = [(''chrome'', [], False, True) \<mapsto> (from_secs 90, True)],
     pp_first_available_cache = None, pp_status = status_snapshot_default, pp_history = []\<rparr>"

lemma demo_trim: "trim ''portal'' = ''portal''" "trim ''chrome'' = ''chrome''"
  by (simp_all add: trim_graphic graphic_def)

lemma demo_lowercase: "to_ascii_lowercase ''chrome'' = ''chrome''"
  by (simp add: to_ascii_lowercase_def ascii_lower_def)

definition demo_direct_request :: login_request where
  "demo_direct_request = \<lparr>rq_source = SrcAuto, rq_task_id = None, rq_profile_id = None\<rparr>"

lemma demo_direct_fields:
  "sn_username (rc_profile demo_direct_runtime) = ''alice''" "sn_password (rc_profile demo_direct_runtime) = ''secret''"
  "sn_login_channel (rc_profile demo_direct_runtime) = ChHttp"
  "sn_active_http_task (rc_profile demo_direct_runtime) = ''portal''"
  by (simp_all add: demo_direct_runtime_def Let_def)

lemma demo_env_fields:
  "su_openwrt demo_submit_env = False" "su_runtime demo_submit_env = demo_direct_runtime"
  "su_load_task demo_submit_env ''portal'' = Inr (TaskHttp demo_portal_task)"
  "su_url_parse demo_submit_env s = Inr \<lparr>url_text = s, url_scheme = ''http'', url_host = Some ''portal'', url_port = Some 80,
     url_query = []\<rparr>"
  "rq_source demo_direct_request = SrcAuto" "rq_profile_id demo_direct_request = None"
  by (simp_all add: demo_submit_env_def demo_direct_request_def)

lemma demo_from_task:
  "\<exists>req. from_task (su_url_parse demo_submit_env) (su_regex demo_submit_env) demo_portal_task u pw isp url True ig = Inr req"
proof -
  have t: "trim ''http://portal/login'' = ''http://portal/login''" by (rule trim_graphic; simp add: graphic_def)
  have v: "validate_url (su_url_parse demo_submit_env) ''http://portal/login'' = Inr ()"
    by (simp add: validate_url_def demo_env_fields http_scheme_def)
  show ?thesis
    by (simp add: from_task_def demo_portal_task_def http_task_config_default_def validate_flow_def t v request_validate_def
        validate_templates_def check_limits_def Let_def MAX_URL_BYTES_def MAX_HEADERS_BYTES_def MAX_REQUEST_BODY_BYTES_def
        MAX_PATTERN_BYTES_def MAX_SCRIPT_BYTES_def)
qed

lemma demo_prepared:
  "\<exists>params st'. prepare_login demo_submit_env demo_direct_request demo_prep = (Inr params, st')
     \<and> sp_plan params = HttpPlan"
proof -
  obtain req where f: "from_task (su_url_parse demo_submit_env) (su_regex demo_submit_env) demo_portal_task u pw isp url True ig = Inr (req u pw isp url ig)"
    for u pw isp url ig using demo_from_task by metis
  have h: "\<exists>p. prepare_http demo_submit_env SrcAuto demo_direct_runtime (rc_profile demo_direct_runtime) st = (Inr p, st)" for st
    by (simp add: prepare_http_def resolve_http_task_def demo_direct_fields demo_env_fields demo_trim return_prep_def Let_def f)
  have v: "validate_profile demo_submit_env SrcAuto (rc_profile demo_direct_runtime) t True False st = (Inr (), st)" for t st
    by (simp add: validate_profile_def missing_items_def demo_direct_fields demo_trim return_prep_def)
  have c: "prepare_channel demo_submit_env SrcAuto demo_direct_runtime ChHttp st = (Inr None, st)" for st
    using h [of st] by (auto simp: prepare_channel_def then_prep_def return_prep_def is_in_process_def)
  show ?thesis
    by (simp add: prepare_login_def prepare_with_def resolve_runtime_def then_prep_def v c demo_env_fields
        demo_direct_fields effective_channel_def is_supported_def return_prep_def login_plan_def session_params_of_def Let_def)
qed


theorem stale_browser_cache_refuses_witness:
  "\<exists>r st'. prepare_browser demo_submit_env SrcAuto (rc_profile demo_direct_runtime) demo_direct_runtime demo_prep
      = (Inl r, st') \<and> lr_message r = NO_BROWSER_MESSAGE"
proof -
  have "\<exists>r st'. prepare_browser demo_submit_env SrcAuto (rc_profile demo_direct_runtime) demo_direct_runtime demo_prep
      = (Inl r, st') \<and> lr_terminal r = Failed \<and> lr_message r = NO_BROWSER_MESSAGE"
    by (rule stale_browser_cache_refuses [of _ _ _ "''chrome''" "[]" "from_secs 90" "''msedge''"])
       (simp_all add: demo_submit_env_def demo_host_def demo_prep_def demo_direct_runtime_def demo_trim demo_lowercase Let_def
          CHANNEL_PROBE_TTL_def from_secs_def NANOS_def is_channel_available_def first_available_channel_def
          first_available_from_def system_browser_channel_def)
  then show ?thesis by blast
qed

end
