(* ===== verification/Login_Orchestrator.thy ===== *)
theory Login_Orchestrator
  imports Login_Prepare
begin

text \<open>
  The competition for the session slot (\<open>login/mod.rs\<close>): requests are accepted, prepared, pass the
  submit gate one at a time, join, preempt or create a session, and sessions run, write their
  result, finish and leave the slot, while the user or the engine's clean-up cancels. Every part of
  \<open>submit\<close> between two awaits, or within one critical section, is one step; the steps of different
  requests and sessions interleave freely. What the preparation does is in \<open>Login_Prepare\<close>, what a
  session does in \<open>Login_Session\<close>: here they end in one of their ways.

  A cancellation token is the number of its request and belongs to the set of fired tokens.
\<close>

section \<open>State\<close>

datatype login_handle = SessionHandle nat | ImmediateHandle login_terminal

datatype submit_phase =
    NotSubmitted | Numbered | Preparing | AtGate | Deciding | Preempting nat | WaitingFor nat | Creating
  | Returned login_handle

record orchestrator =
  oc_next_session_id :: nat
  oc_active_session :: "nat option"
  oc_submit_gate :: "nat option"
  oc_pending_cancels :: "nat set"
  oc_cancelled :: "nat set"
  oc_source :: "nat \<Rightarrow> login_source"
  oc_phase :: "nat \<Rightarrow> submit_phase"
  oc_running :: "nat set"
  oc_finished :: "nat set"
  oc_result :: "nat \<Rightarrow> login_terminal option"

definition orchestrator_new :: orchestrator where
  "orchestrator_new =
     \<lparr>oc_next_session_id = 0, oc_active_session = None, oc_submit_gate = None, oc_pending_cancels = {},
      oc_cancelled = {}, oc_source = (\<lambda>_. SrcAuto), oc_phase = (\<lambda>_. NotSubmitted), oc_running = {},
      oc_finished = {}, oc_result = (\<lambda>_. None)\<rparr>"

section \<open>The steps of a request\<close>

text \<open>The request is numbered under the lock of the state; its token is registered after that.\<close>

definition accept_request :: "login_source \<Rightarrow> orchestrator \<Rightarrow> orchestrator" where
  "accept_request source w =
     (let i = oc_next_session_id w
      in w\<lparr>oc_next_session_id := i + 1, oc_source := (oc_source w)(i := source),
           oc_phase := (oc_phase w)(i := Numbered)\<rparr>)"

definition register_pending :: "nat \<Rightarrow> orchestrator \<Rightarrow> orchestrator" where
  "register_pending i w =
     w\<lparr>oc_pending_cancels := insert i (oc_pending_cancels w), oc_phase := (oc_phase w)(i := Preparing)\<rparr>"

definition goto_phase :: "nat \<Rightarrow> submit_phase \<Rightarrow> orchestrator \<Rightarrow> orchestrator" where
  "goto_phase i p w = w\<lparr>oc_phase := (oc_phase w)(i := p)\<rparr>"

text \<open>Every return drops the guards: the registration and, if it is held, the gate.\<close>

definition return_handle :: "nat \<Rightarrow> login_handle \<Rightarrow> orchestrator \<Rightarrow> orchestrator" where
  "return_handle i h w =
     w\<lparr>oc_phase := (oc_phase w)(i := Returned h), oc_pending_cancels := oc_pending_cancels w - {i},
       oc_submit_gate := (if oc_submit_gate w = Some i then None else oc_submit_gate w)\<rparr>"

definition enter_gate :: "nat \<Rightarrow> orchestrator \<Rightarrow> orchestrator" where
  "enter_gate i w = (goto_phase i Deciding w)\<lparr>oc_submit_gate := Some i\<rparr>"

text \<open>The decision and the taking of the old session, under one lock.\<close>

definition decide_slot :: "nat \<Rightarrow> orchestrator \<Rightarrow> orchestrator" where
  "decide_slot i w =
     (case (case oc_active_session w of
              None \<Rightarrow> Create
            | Some a \<Rightarrow> decide (oc_source w i) (Some (oc_source w a)) (Some (SessionHandle a))) of
        Reuse h \<Rightarrow> return_handle i h w
      | Preempt \<Rightarrow>
          (case oc_active_session w of
             Some old \<Rightarrow> (goto_phase i (Preempting old) w)\<lparr>oc_active_session := None\<rparr>
           | None \<Rightarrow> goto_phase i Creating w)
      | Create \<Rightarrow> goto_phase i Creating w)"

definition propagate_cancel :: "nat \<Rightarrow> orchestrator \<Rightarrow> orchestrator" where
  "propagate_cancel a w = w\<lparr>oc_cancelled := insert a (oc_cancelled w)\<rparr>"

text \<open>The new session takes the slot; the branch for a taken slot is the one the gate rules out.\<close>

definition install_session :: "nat \<Rightarrow> orchestrator \<Rightarrow> orchestrator" where
  "install_session i w =
     (if oc_active_session w = None
      then (return_handle i (SessionHandle i) w)
             \<lparr>oc_active_session := Some i, oc_running := insert i (oc_running w)\<rparr>
      else return_handle i (SessionHandle i) (w\<lparr>oc_result := (oc_result w)(i := Some Cancelled)\<rparr>))"

section \<open>The steps of a session and of the cancellations\<close>

definition write_result :: "nat \<Rightarrow> login_terminal \<Rightarrow> orchestrator \<Rightarrow> orchestrator" where
  "write_result a r w = w\<lparr>oc_result := (oc_result w)(a := Some r)\<rparr>"

text \<open>\<open>run\<close> has returned or panicked; after a panic a failure is written whatever was there.\<close>

definition finish_session :: "nat \<Rightarrow> bool \<Rightarrow> orchestrator \<Rightarrow> orchestrator" where
  "finish_session a panicked w =
     (if panicked then write_result a Failed w else w)
       \<lparr>oc_running := oc_running w - {a}, oc_finished := insert a (oc_finished w)\<rparr>"

definition clear_slot :: "nat \<Rightarrow> orchestrator \<Rightarrow> orchestrator" where
  "clear_slot a w = (if oc_active_session w = Some a then w\<lparr>oc_active_session := None\<rparr> else w)"

definition cancel_current :: "orchestrator \<Rightarrow> orchestrator" where
  "cancel_current w =
     (let w1 = (case oc_active_session w of Some a \<Rightarrow> propagate_cancel a w | None \<Rightarrow> w)
      in w1\<lparr>oc_cancelled := oc_cancelled w1 \<union> oc_pending_cancels w1\<rparr>)"

definition cancel_auto_pending :: "orchestrator \<Rightarrow> orchestrator" where
  "cancel_auto_pending w =
     (let w1 = (case oc_active_session w of
                  Some a \<Rightarrow> if oc_source w a = SrcAuto then propagate_cancel a w else w
                | None \<Rightarrow> w)
      in w1\<lparr>oc_cancelled := oc_cancelled w1 \<union> {i \<in> oc_pending_cancels w1. oc_source w1 i = SrcAuto}\<rparr>)"

inductive orchestrator_step :: "orchestrator \<Rightarrow> orchestrator \<Rightarrow> bool" where
  accepted: "orchestrator_step w (accept_request source w)"
| registered: "oc_phase w i = Numbered \<Longrightarrow> orchestrator_step w (register_pending i w)"
| refused: "oc_phase w i = Preparing \<Longrightarrow> orchestrator_step w (return_handle i (ImmediateHandle Failed) w)"
| cancelled_preparing: "oc_phase w i = Preparing \<Longrightarrow> i \<in> oc_cancelled w
    \<Longrightarrow> orchestrator_step w (return_handle i (ImmediateHandle Cancelled) w)"
| prepared: "oc_phase w i = Preparing \<Longrightarrow> orchestrator_step w (goto_phase i AtGate w)"
| entered: "oc_phase w i = AtGate \<Longrightarrow> oc_submit_gate w = None \<Longrightarrow> orchestrator_step w (enter_gate i w)"
| decided: "oc_phase w i = Deciding \<Longrightarrow> orchestrator_step w (decide_slot i w)"
| preempted: "oc_phase w i = Preempting a
    \<Longrightarrow> orchestrator_step w (goto_phase i (WaitingFor a) (propagate_cancel a w))"
| waited: "oc_phase w i = WaitingFor a \<Longrightarrow> a \<in> oc_finished w \<Longrightarrow> orchestrator_step w (goto_phase i Creating w)"
| gave_up_waiting: "oc_phase w i = WaitingFor a \<Longrightarrow> orchestrator_step w (goto_phase i Creating w)"
| cancelled_waiting: "oc_phase w i = WaitingFor a \<Longrightarrow> i \<in> oc_cancelled w
    \<Longrightarrow> orchestrator_step w (return_handle i (ImmediateHandle Cancelled) w)"
| installed: "oc_phase w i = Creating \<Longrightarrow> orchestrator_step w (install_session i w)"
| result: "a \<in> oc_running w \<Longrightarrow> oc_result w a = None \<Longrightarrow> orchestrator_step w (write_result a r w)"
| finished: "a \<in> oc_running w \<Longrightarrow> oc_result w a \<noteq> None \<Longrightarrow> orchestrator_step w (finish_session a False w)"
| panicked: "a \<in> oc_running w \<Longrightarrow> orchestrator_step w (finish_session a True w)"
| cleared: "a \<in> oc_finished w \<Longrightarrow> orchestrator_step w (clear_slot a w)"
| user_cancel: "orchestrator_step w (cancel_current w)"
| auto_cancel: "orchestrator_step w (cancel_auto_pending w)"

inductive_cases orchestrator_stepE: "orchestrator_step w w'"

definition orchestrator_reachable :: "orchestrator \<Rightarrow> bool" where
  "orchestrator_reachable = rtranclp orchestrator_step orchestrator_new"

section \<open>Invariant\<close>

fun in_flight :: "submit_phase \<Rightarrow> bool" where
  "in_flight NotSubmitted = False"
| "in_flight Numbered = False"
| "in_flight (Returned _) = False"
| "in_flight _ = True"

fun holds_gate :: "submit_phase \<Rightarrow> bool" where
  "holds_gate Deciding = True"
| "holds_gate (Preempting _) = True"
| "holds_gate (WaitingFor _) = True"
| "holds_gate Creating = True"
| "holds_gate _ = False"

fun slot_taken_away :: "submit_phase \<Rightarrow> bool" where
  "slot_taken_away (Preempting _) = True"
| "slot_taken_away (WaitingFor _) = True"
| "slot_taken_away Creating = True"
| "slot_taken_away _ = False"

definition gate_ok :: "orchestrator \<Rightarrow> bool" where
  "gate_ok w \<longleftrightarrow> (\<forall>i. oc_submit_gate w = Some i \<longleftrightarrow> holds_gate (oc_phase w i))
     \<and> (\<forall>i. slot_taken_away (oc_phase w i) \<longrightarrow> oc_active_session w = None)
     \<and> (\<forall>i. i \<in> oc_pending_cancels w \<longleftrightarrow> in_flight (oc_phase w i))
     \<and> (\<forall>i. oc_phase w i \<noteq> NotSubmitted \<longrightarrow> i < oc_next_session_id w)"

definition sessions_ok :: "orchestrator \<Rightarrow> bool" where
  "sessions_ok w \<longleftrightarrow>
     (\<forall>a\<in>oc_running w. oc_phase w a = Returned (SessionHandle a) \<and> a \<notin> oc_finished w)
     \<and> (\<forall>a\<in>oc_finished w. oc_phase w a = Returned (SessionHandle a) \<and> oc_result w a \<noteq> None)
     \<and> (\<forall>a. oc_active_session w = Some a \<longrightarrow> a \<in> oc_running w \<union> oc_finished w)
     \<and> (\<forall>a\<in>oc_running w. oc_active_session w = Some a \<or> a \<in> oc_cancelled w \<or> (\<exists>i. oc_phase w i = Preempting a))
     \<and> (\<forall>i a. oc_phase w i = Returned (SessionHandle a) \<longrightarrow> a \<in> oc_running w \<union> oc_finished w)"

definition orchestrator_ok :: "orchestrator \<Rightarrow> bool" where
  "orchestrator_ok w \<longleftrightarrow> gate_ok w \<and> sessions_ok w"

lemmas orchestrator_op_defs = accept_request_def register_pending_def goto_phase_def return_handle_def enter_gate_def
  propagate_cancel_def install_session_def write_result_def clear_slot_def cancel_current_def
  cancel_auto_pending_def Let_def

lemma finish_session_fields [simp]:
  "oc_phase (finish_session a b w) = oc_phase w" "oc_submit_gate (finish_session a b w) = oc_submit_gate w"
  "oc_active_session (finish_session a b w) = oc_active_session w"
  "oc_pending_cancels (finish_session a b w) = oc_pending_cancels w"
  "oc_next_session_id (finish_session a b w) = oc_next_session_id w"
  "oc_cancelled (finish_session a b w) = oc_cancelled w" "oc_running (finish_session a b w) = oc_running w - {a}"
  "oc_finished (finish_session a b w) = insert a (oc_finished w)"
  by (simp_all add: finish_session_def write_result_def)

lemma finish_session_result:
  "oc_result (finish_session a panicked w) = (if panicked then (oc_result w)(a := Some Failed) else oc_result w)"
  by (simp add: finish_session_def write_result_def)

lemma decide_slot_cases:
  "decide_slot i w = (case oc_active_session w of
     None \<Rightarrow> goto_phase i Creating w
   | Some a \<Rightarrow>
       if decide (oc_source w i) (Some (oc_source w a)) (Some (SessionHandle a)) = Preempt
       then (goto_phase i (Preempting a) w)\<lparr>oc_active_session := None\<rparr>
       else return_handle i (SessionHandle a) w)"
  by (cases "oc_active_session w")
     (auto simp: decide_slot_def split: preemption_decision.splits if_splits option.splits)

lemma orchestrator_init_ok: "orchestrator_ok orchestrator_new"
  by (simp add: orchestrator_ok_def gate_ok_def sessions_ok_def orchestrator_new_def)

lemma gate_okD:
  assumes "gate_ok w"
  shows "oc_submit_gate w = Some i \<longleftrightarrow> holds_gate (oc_phase w i)"
    and "slot_taken_away (oc_phase w i) \<Longrightarrow> oc_active_session w = None"
    and "i \<in> oc_pending_cancels w \<longleftrightarrow> in_flight (oc_phase w i)"
    and "oc_phase w i \<noteq> NotSubmitted \<Longrightarrow> i < oc_next_session_id w"
  using assms unfolding gate_ok_def by blast+

lemma holds_in_flight: "holds_gate p \<Longrightarrow> in_flight p"
  by (cases p) simp_all

lemma taken_holds: "slot_taken_away p \<Longrightarrow> holds_gate p"
  by (cases p) simp_all

text \<open>A request moves on without leaving the gate or the list of pending ones.\<close>

lemma goto_gate_ok:
  assumes "gate_ok w" and "in_flight (oc_phase w i)" "in_flight p" "holds_gate p \<longleftrightarrow> holds_gate (oc_phase w i)"
    and "slot_taken_away p \<Longrightarrow> oc_active_session w = None"
  shows "gate_ok (goto_phase i p w)"
  using assms unfolding gate_ok_def goto_phase_def by (cases "oc_phase w i") auto

lemma gate_only: "gate_ok w \<Longrightarrow> holds_gate (oc_phase w i) \<Longrightarrow> holds_gate (oc_phase w j) \<Longrightarrow> j = i"
  using gate_okD(1) by (metis option.inject)

lemma return_gate_ok:
  assumes "gate_ok w" and "in_flight (oc_phase w i)"
  shows "gate_ok (return_handle i h w)"
  unfolding gate_ok_def
proof (intro conjI allI)
  fix j
  show "oc_submit_gate (return_handle i h w) = Some j \<longleftrightarrow> holds_gate (oc_phase (return_handle i h w) j)"
    using gate_okD(1) [OF assms(1), of j] gate_okD(1) [OF assms(1), of i] by (auto simp: return_handle_def)
  show "slot_taken_away (oc_phase (return_handle i h w) j) \<longrightarrow> oc_active_session (return_handle i h w) = None"
    using gate_okD(2) [OF assms(1), of j] by (simp add: return_handle_def)
  show "j \<in> oc_pending_cancels (return_handle i h w) \<longleftrightarrow> in_flight (oc_phase (return_handle i h w) j)"
    using gate_okD(3) [OF assms(1), of j] by (simp add: return_handle_def)
  have "oc_phase w i \<noteq> NotSubmitted" using assms(2) by auto
  then show "oc_phase (return_handle i h w) j \<noteq> NotSubmitted \<longrightarrow> j < oc_next_session_id (return_handle i h w)"
    using gate_okD(4) [OF assms(1), of j] gate_okD(4) [OF assms(1), of i] by (simp add: return_handle_def)
qed

lemma gate_ok_cong:
  assumes "gate_ok w" and "oc_phase w' = oc_phase w" "oc_submit_gate w' = oc_submit_gate w"
    "oc_pending_cancels w' = oc_pending_cancels w" "oc_next_session_id w' = oc_next_session_id w"
    "oc_active_session w' = oc_active_session w \<or> oc_active_session w' = None"
  shows "gate_ok w'"
  using assms unfolding gate_ok_def by auto

lemma gate_ok_activate:
  "gate_ok w \<Longrightarrow> \<forall>j. \<not> slot_taken_away (oc_phase w j)
     \<Longrightarrow> gate_ok (w\<lparr>oc_active_session := x, oc_running := r\<rparr>)"
  by (simp add: gate_ok_def)

lemma cancel_frame [frame_simps]:
  "oc_phase (cancel_current w) = oc_phase w" "oc_submit_gate (cancel_current w) = oc_submit_gate w"
  "oc_pending_cancels (cancel_current w) = oc_pending_cancels w"
  "oc_next_session_id (cancel_current w) = oc_next_session_id w"
  "oc_active_session (cancel_current w) = oc_active_session w" "oc_running (cancel_current w) = oc_running w"
  "oc_finished (cancel_current w) = oc_finished w" "oc_result (cancel_current w) = oc_result w"
  "oc_phase (cancel_auto_pending w) = oc_phase w" "oc_submit_gate (cancel_auto_pending w) = oc_submit_gate w"
  "oc_pending_cancels (cancel_auto_pending w) = oc_pending_cancels w"
  "oc_next_session_id (cancel_auto_pending w) = oc_next_session_id w"
  "oc_active_session (cancel_auto_pending w) = oc_active_session w"
  "oc_running (cancel_auto_pending w) = oc_running w"
  "oc_finished (cancel_auto_pending w) = oc_finished w" "oc_result (cancel_auto_pending w) = oc_result w"
  by (simp_all add: cancel_current_def cancel_auto_pending_def propagate_cancel_def Let_def split: option.split)

lemma cancel_mono:
  "oc_cancelled w \<subseteq> oc_cancelled (cancel_current w)" "oc_cancelled w \<subseteq> oc_cancelled (cancel_auto_pending w)"
  by (auto simp: cancel_current_def cancel_auto_pending_def propagate_cancel_def Let_def split: option.split)

lemma gate_ok_step: "orchestrator_step w w' \<Longrightarrow> gate_ok w \<Longrightarrow> gate_ok w'"
proof (induction rule: orchestrator_step.induct)
  case (accepted w source)
  have "oc_phase w (oc_next_session_id w) = NotSubmitted" using gate_okD(4) [OF accepted] by blast
  with accepted show ?case unfolding gate_ok_def accept_request_def Let_def by (auto intro: less_SucI)
next
  case (entered w i)
  have n: "\<not> holds_gate (oc_phase w j)" for j using gate_okD(1) [OF entered(3), of j] entered(2) by simp
  then have "\<not> slot_taken_away (oc_phase w j)" for j using taken_holds by blast
  with n entered show ?case unfolding gate_ok_def enter_gate_def goto_phase_def by auto
next
  case (decided w i)
  show ?case
  proof (cases "oc_active_session w")
    case None
    with decided show ?thesis by (auto simp: decide_slot_cases intro: goto_gate_ok)
  next
    case (Some a)
    then have n: "\<not> slot_taken_away (oc_phase w j)" for j using gate_okD(2) [OF decided(2), of j] by auto
    have "gate_ok ((goto_phase i (Preempting a) w)\<lparr>oc_active_session := None\<rparr>)"
      using decided n by (auto simp: gate_ok_def goto_phase_def)
    with Some decided show ?thesis by (auto simp: decide_slot_cases intro: return_gate_ok)
  qed
next
  case (preempted w i a)
  have "gate_ok (propagate_cancel a w)"
    using preempted(2) by (rule gate_ok_cong) (simp_all add: propagate_cancel_def)
  then show ?case using preempted(1) gate_okD(2) [OF preempted(2), of i]
    by (intro goto_gate_ok) (simp_all add: propagate_cancel_def)
next
  case (installed w i)
  have a: "oc_active_session w = None" using gate_okD(2) [OF installed(2), of i] installed(1) by simp
  have n: "\<not> slot_taken_away (oc_phase (return_handle i (SessionHandle i) w) j)" for j
  proof (cases "j = i")
    case False
    then have "\<not> holds_gate (oc_phase w j)" using gate_only [OF installed(2), of i j] installed(1) by auto
    with False taken_holds show ?thesis by (auto simp: return_handle_def)
  qed (simp add: return_handle_def)
  have "gate_ok (return_handle i (SessionHandle i) w)" using installed by (intro return_gate_ok) simp_all
  then have "gate_ok ((return_handle i (SessionHandle i) w)\<lparr>oc_active_session := Some i, oc_running := insert i (oc_running w)\<rparr>)"
    using n by (intro gate_ok_activate) simp_all
  then show ?case using a by (simp add: install_session_def)
next
  case (cleared a w)
  show ?case by (rule gate_ok_cong [OF cleared(2)]) (simp_all add: clear_slot_def)
next
  case (result a w r)
  show ?case by (rule gate_ok_cong [OF result(3)]) (simp_all add: write_result_def)
next
  case (registered w i)
  then show ?case using gate_okD(4) [OF registered(2), of i] gate_okD(1) [OF registered(2), of i]
    unfolding gate_ok_def register_pending_def by auto
next
  case (finished a w)
  show ?case by (rule gate_ok_cong [OF finished(3)]) simp_all
next
  case (panicked a w)
  show ?case by (rule gate_ok_cong [OF panicked(2)]) simp_all
next
  case (user_cancel w)
  show ?case by (rule gate_ok_cong [OF user_cancel]) (simp_all add: frame_simps)
next
  case (auto_cancel w)
  show ?case by (rule gate_ok_cong [OF auto_cancel]) (simp_all add: frame_simps)
next
  case (waited w i a)
  then show ?case using gate_okD(2) [OF waited(3), of i] by (intro goto_gate_ok) simp_all
next
  case (gave_up_waiting w i a)
  then show ?case using gate_okD(2) [OF gave_up_waiting(2), of i] by (intro goto_gate_ok) simp_all
qed (auto intro!: goto_gate_ok return_gate_ok)

lemma sessions_okD:
  assumes "sessions_ok w"
  shows "a \<in> oc_running w \<Longrightarrow> oc_phase w a = Returned (SessionHandle a)"
    and "a \<in> oc_running w \<Longrightarrow> a \<notin> oc_finished w"
    and "a \<in> oc_finished w \<Longrightarrow> oc_phase w a = Returned (SessionHandle a)"
    and "a \<in> oc_finished w \<Longrightarrow> oc_result w a \<noteq> None"
    and "oc_active_session w = Some a \<Longrightarrow> a \<in> oc_running w \<union> oc_finished w"
    and "a \<in> oc_running w \<Longrightarrow> oc_active_session w = Some a \<or> a \<in> oc_cancelled w \<or> (\<exists>i. oc_phase w i = Preempting a)"
    and "oc_phase w i = Returned (SessionHandle a) \<Longrightarrow> a \<in> oc_running w \<union> oc_finished w"
  using assms unfolding sessions_ok_def by blast+

text \<open>A request in flight moves on; a session that waits for its cancellation keeps waiting or gets it.\<close>

lemma goto_sessions_ok:
  assumes "sessions_ok w" and "in_flight (oc_phase w i)" "in_flight p"
    and "\<And>a. oc_phase w i = Preempting a \<Longrightarrow> a \<in> oc_cancelled w"
  shows "sessions_ok (goto_phase i p w)"
proof -
  have ne: "oc_phase w i \<noteq> Returned h" "p \<noteq> Returned h" for h using assms(2,3) by auto
  have r: "a \<noteq> i" if "a \<in> oc_running w \<union> oc_finished w" for a
    using that ne(1) sessions_okD(1,3) [OF assms(1), of a] by auto
  have c: "oc_active_session w = Some a \<or> a \<in> oc_cancelled w \<or> (\<exists>j. j \<noteq> i \<and> oc_phase w j = Preempting a)"
    if "a \<in> oc_running w" for a
    using sessions_okD(6) [OF assms(1) that] assms(4) [of a] by metis
  show ?thesis unfolding sessions_ok_def goto_phase_def
    using sessions_okD [OF assms(1)] r c ne by (auto, metis+)
qed

lemma return_sessions_ok:
  assumes "sessions_ok w" and "in_flight (oc_phase w i)" "\<And>a. oc_phase w i \<noteq> Preempting a"
    and "\<And>a. h = SessionHandle a \<Longrightarrow> a \<in> oc_running w \<union> oc_finished w"
  shows "sessions_ok (return_handle i h w)"
proof -
  have r: "a \<noteq> i" if "a \<in> oc_running w \<union> oc_finished w" for a
    using that assms(2) sessions_okD(1,3) [OF assms(1), of a] by auto
  have c: "oc_active_session w = Some a \<or> a \<in> oc_cancelled w \<or> (\<exists>j. j \<noteq> i \<and> oc_phase w j = Preempting a)"
    if "a \<in> oc_running w" for a
    using sessions_okD(6) [OF assms(1) that] assms(3) [of a] by metis
  show ?thesis unfolding sessions_ok_def return_handle_def
    using sessions_okD [OF assms(1)] r c assms(4) by (auto, metis+)
qed

lemma cancel_sessions_ok:
  assumes "sessions_ok w" and "oc_phase w' = oc_phase w" "oc_running w' = oc_running w"
    "oc_finished w' = oc_finished w" "oc_result w' = oc_result w" "oc_active_session w' = oc_active_session w"
    "oc_cancelled w \<subseteq> oc_cancelled w'"
  shows "sessions_ok w'"
  using assms(1,7) unfolding sessions_ok_def assms(2-6) by blast

lemma sessions_ok_step:
  "orchestrator_step w w' \<Longrightarrow> gate_ok w \<Longrightarrow> sessions_ok w \<Longrightarrow> sessions_ok w'"
proof (induction rule: orchestrator_step.induct)
  case (accepted w source)
  have n: "oc_phase w (oc_next_session_id w) = NotSubmitted" using gate_okD(4) [OF accepted(1)] by blast
  then have "a \<noteq> oc_next_session_id w" if "a \<in> oc_running w \<union> oc_finished w" for a
    using that sessions_okD(1,3) [OF accepted(2), of a] by auto
  with n show ?case unfolding sessions_ok_def accept_request_def Let_def
    using sessions_okD [OF accepted(2)] by (auto, metis submit_phase.distinct)
next
  case (registered w i)
  then have "a \<noteq> i" if "a \<in> oc_running w \<union> oc_finished w" for a
    using that sessions_okD(1,3) [OF registered(3), of a] by auto
  then show ?case unfolding sessions_ok_def register_pending_def
    using sessions_okD [OF registered(3)] registered(1) by (auto, metis submit_phase.distinct)
next
  case (entered w i)
  have "sessions_ok (goto_phase i Deciding w)" using entered by (intro goto_sessions_ok) simp_all
  then show ?case by (simp add: enter_gate_def sessions_ok_def)
next
  case (decided w i)
  show ?case
  proof (cases "oc_active_session w")
    case None
    with decided show ?thesis by (auto simp: decide_slot_cases intro: goto_sessions_ok)
  next
    case (Some a)
    have r: "sessions_ok (return_handle i (SessionHandle a) w)"
      using decided sessions_okD(5) [OF decided(3) Some] by (intro return_sessions_ok) auto
    have t: "b \<noteq> i" if "b \<in> oc_running w \<union> oc_finished w" for b
      using that decided(1) sessions_okD(1,3) [OF decided(3), of b] by auto
    have "sessions_ok ((goto_phase i (Preempting a) w)\<lparr>oc_active_session := None\<rparr>)"
    proof -
      have c: "b \<in> oc_cancelled w \<or> (\<exists>j. ((oc_phase w)(i := Preempting a)) j = Preempting b)"
        if b: "b \<in> oc_running w" for b
        using sessions_okD(6) [OF decided(3) b]
      proof (elim disjE exE)
        fix j assume "oc_phase w j = Preempting b"
        with decided(1) have "((oc_phase w)(i := Preempting a)) j = Preempting b" by auto
        then show ?thesis by blast
      qed (use Some in auto)
      have h: "b \<in> oc_running w \<or> b \<in> oc_finished w"
        if "((oc_phase w)(i := Preempting a)) k = Returned (SessionHandle b)" for k b
        using that sessions_okD(7) [OF decided(3), of k b] by (cases "k = i") auto
      have p: "((oc_phase w)(i := Preempting a)) b = oc_phase w b" if "b \<in> oc_running w \<union> oc_finished w" for b
        using t [OF that] by simp
      show ?thesis unfolding sessions_ok_def goto_phase_def
      proof (intro conjI ballI allI impI, goal_cases)
        case (1 b)
        with sessions_okD(1) [OF decided(3)] p [of b] show ?case by simp
      next
        case (2 b)
        with sessions_okD(2) [OF decided(3)] show ?case by simp
      next
        case (3 b)
        with sessions_okD(3) [OF decided(3)] p [of b] show ?case by simp
      next
        case (4 b)
        with sessions_okD(4) [OF decided(3)] show ?case by simp
      next
        case (6 b)
        with c [of b] show ?case by simp
      next
        case (7 k b)
        with h [of k b] show ?case by simp
      qed simp_all
    qed
    with r Some show ?thesis by (auto simp: decide_slot_cases)
  qed
next
  case (preempted w i a)
  have "sessions_ok (propagate_cancel a w)"
    by (rule cancel_sessions_ok [OF preempted(3)]) (auto simp: propagate_cancel_def)
  then show ?case using preempted(1)
    by (intro goto_sessions_ok) (simp_all add: propagate_cancel_def)
next
  case (installed w i)
  have a: "oc_active_session w = None" using gate_okD(2) [OF installed(2), of i] installed(1) by simp
  have p: "\<not> (\<exists>j. oc_phase w j = Preempting b)" for b
    using gate_only [OF installed(2), of i] installed(1) by (metis holds_gate.simps(2,4) submit_phase.distinct)
  have t: "b \<noteq> i" if "b \<in> oc_running w \<union> oc_finished w" for b
    using that installed(1) sessions_okD(1,3) [OF installed(3), of b] by auto
  have c: "b \<in> oc_cancelled w" if "b \<in> oc_running w" for b
    using sessions_okD(6) [OF installed(3) that] a p by auto
  show ?case unfolding sessions_ok_def install_session_def return_handle_def
    using sessions_okD [OF installed(3)] t c a t [of i] by auto
next
  case (cleared a w)
  then show ?case unfolding sessions_ok_def clear_slot_def by auto
next
  case (result a w r)
  then show ?case unfolding sessions_ok_def write_result_def by auto
next
  case (finished a w)
  then show ?case unfolding sessions_ok_def
    by (auto simp: finish_session_result simp del: not_None_eq)
next
  case (panicked a w)
  then show ?case unfolding sessions_ok_def
    by (auto simp: finish_session_result simp del: not_None_eq)
next
  case (user_cancel w)
  show ?case by (rule cancel_sessions_ok [OF user_cancel(2)]) (simp_all add: frame_simps cancel_mono)
next
  case (auto_cancel w)
  show ?case by (rule cancel_sessions_ok [OF auto_cancel(2)]) (simp_all add: frame_simps cancel_mono)
qed (auto intro!: goto_sessions_ok return_sessions_ok)

interpretation orchestrator: transition_system "\<lambda>w. w = orchestrator_new" orchestrator_step orchestrator_ok
proof
  show "orchestrator_ok w" if "w = orchestrator_new" for w using that orchestrator_init_ok by simp
  show "orchestrator_ok w'" if "orchestrator_ok w" "orchestrator_step w w'" for w w'
    using that gate_ok_step sessions_ok_step by (simp add: orchestrator_ok_def)
qed

section \<open>Properties\<close>

lemma reachable_ok: "orchestrator_reachable w \<Longrightarrow> orchestrator_ok w"
  unfolding orchestrator_reachable_def by (rule orchestrator.inv_reachable [OF refl])

text \<open>C11. However requests, sessions and cancellations interleave: at most one running session has not
  been told to stop; the request that is about to install its session finds the slot free, so no
  request is turned away there; and every handle given out belongs to a session that is still
  running or has written its result, so waiting for it ends when the session does.\<close>

theorem single_live_session:
  assumes "orchestrator_reachable w"
  shows "(\<exists>a. oc_running w - oc_cancelled w \<subseteq> {a})
    \<and> (oc_phase w i = Creating \<longrightarrow> oc_active_session w = None
         \<and> oc_active_session (install_session i w) = Some i \<and> i \<in> oc_running (install_session i w))
    \<and> (oc_phase w i = Returned (SessionHandle a) \<longrightarrow> a \<in> oc_running w \<or> oc_result w a \<noteq> None)"
proof -
  have g: "gate_ok w" and s: "sessions_ok w" using reachable_ok [OF assms] by (simp_all add: orchestrator_ok_def)
  have one: "a = b" if "a \<in> oc_running w - oc_cancelled w" "b \<in> oc_running w - oc_cancelled w" for a b
  proof -
    have a: "oc_active_session w = Some a \<or> (\<exists>i. oc_phase w i = Preempting a)"
      and b: "oc_active_session w = Some b \<or> (\<exists>i. oc_phase w i = Preempting b)"
      using sessions_okD(6) [OF s] that by blast+
    have n: "oc_active_session w = None" if "oc_phase w i = Preempting c" for i c
      using gate_okD(2) [OF g, of i] that by simp
    have u: "c = d" if "oc_phase w i = Preempting c" "oc_phase w j = Preempting d" for i j c d
      using gate_only [OF g, of i j] that by simp
    show ?thesis using a b n u by (metis option.distinct(1) option.inject)
  qed
  then have "\<exists>a. oc_running w - oc_cancelled w \<subseteq> {a}" by blast
  moreover have "oc_active_session w = None \<and> oc_active_session (install_session i w) = Some i
      \<and> i \<in> oc_running (install_session i w)" if "oc_phase w i = Creating"
    using gate_okD(2) [OF g, of i] that by (simp add: install_session_def)
  moreover have "a \<in> oc_running w \<or> oc_result w a \<noteq> None" if "oc_phase w i = Returned (SessionHandle a)"
    using sessions_okD(4,7) [OF s] that by blast
  ultimately show ?thesis by blast
qed

text \<open>What was registered before a cancellation stays cancelled.\<close>

fun was_registered :: "submit_phase \<Rightarrow> bool" where
  "was_registered NotSubmitted = False"
| "was_registered Numbered = False"
| "was_registered _ = True"

definition told_to_stop :: "nat set \<Rightarrow> orchestrator \<Rightarrow> bool" where
  "told_to_stop S w \<longleftrightarrow> (\<forall>i\<in>S. was_registered (oc_phase w i)
     \<and> (in_flight (oc_phase w i) \<or> oc_active_session w = Some i \<longrightarrow> i \<in> oc_cancelled w))"

lemma told_to_stop_cancel: "gate_ok w \<Longrightarrow> told_to_stop {i. was_registered (oc_phase w i)} (cancel_current w)"
  using gate_okD(3)
  by (auto simp: told_to_stop_def frame_simps cancel_current_def propagate_cancel_def Let_def split: option.split)

lemma told_to_stopD:
  assumes "told_to_stop S w" and "i \<in> S"
  shows "was_registered (oc_phase w i)"
    and "in_flight (oc_phase w i) \<or> oc_active_session w = Some i \<Longrightarrow> i \<in> oc_cancelled w"
  using assms unfolding told_to_stop_def by blast+

lemma in_flight_registered: "in_flight p \<Longrightarrow> was_registered p"
  by (cases p) simp_all

lemma told_to_stop_cong:
  assumes "told_to_stop S w" and "oc_cancelled w \<subseteq> oc_cancelled w'"
    and "\<And>i. i \<in> S \<Longrightarrow> was_registered (oc_phase w i) \<Longrightarrow> was_registered (oc_phase w' i)"
    and "\<And>i. i \<in> S \<Longrightarrow> was_registered (oc_phase w i) \<Longrightarrow> in_flight (oc_phase w' i) \<Longrightarrow> in_flight (oc_phase w i)"
    and "\<And>i. i \<in> S \<Longrightarrow> oc_active_session w' = Some i \<Longrightarrow> oc_active_session w = Some i \<or> in_flight (oc_phase w i)"
  shows "told_to_stop S w'"
proof -
  have "was_registered (oc_phase w' i)" if "i \<in> S" for i
    using told_to_stopD(1) [OF assms(1) that] assms(3) that by blast
  moreover have "i \<in> oc_cancelled w'" if "i \<in> S" "in_flight (oc_phase w' i) \<or> oc_active_session w' = Some i" for i
    using told_to_stopD [OF assms(1) that(1)] assms(4,5) [OF that(1)] that(2) assms(2) by blast
  ultimately show ?thesis unfolding told_to_stop_def by simp
qed

lemma told_to_stop_step: "orchestrator_step w w' \<Longrightarrow> gate_ok w \<Longrightarrow> told_to_stop S w \<Longrightarrow> told_to_stop S w'"
proof (induction rule: orchestrator_step.induct)
  case (accepted w source)
  have n: "oc_phase w (oc_next_session_id w) = NotSubmitted" using gate_okD(4) [OF accepted(1)] by blast
  show ?case
    by (rule told_to_stop_cong [OF accepted(2)])
       (use n in \<open>auto simp: accept_request_def Let_def split: if_splits\<close>)
next
  case (registered w i)
  show ?case
    by (rule told_to_stop_cong [OF registered(3)])
       (use registered(1) in \<open>auto simp: register_pending_def split: if_splits\<close>)
next
  case (decided w i)
  show ?case
    by (rule told_to_stop_cong [OF decided(3)])
       (use decided in \<open>auto simp: decide_slot_cases goto_phase_def return_handle_def split: if_splits option.splits\<close>)
next
  case (finished a w)
  show ?case by (rule told_to_stop_cong [OF finished(4)]) simp_all
next
  case (panicked a w)
  show ?case by (rule told_to_stop_cong [OF panicked(3)]) simp_all
next
  case (user_cancel w)
  show ?case by (rule told_to_stop_cong [OF user_cancel(2)]) (simp_all add: frame_simps cancel_mono)
next
  case (auto_cancel w)
  show ?case by (rule told_to_stop_cong [OF auto_cancel(2)]) (simp_all add: frame_simps cancel_mono)
qed (erule told_to_stop_cong;
     auto simp: goto_phase_def return_handle_def enter_gate_def propagate_cancel_def install_session_def
       write_result_def clear_slot_def split: if_splits)+

text \<open>C12. A cancellation by the user reaches every registered request, also what is still being
  prepared or waits at the gate: whatever happens afterwards, no session of such a request runs
  without its token fired, except a session that a preempting request has taken out of the slot and
  is about to cancel itself.\<close>

theorem cancel_reaches_everything:
  assumes "orchestrator_reachable w" and "rtranclp orchestrator_step (cancel_current w) w'"
    and "was_registered (oc_phase w a)" and "a \<in> oc_running w'"
  shows "a \<in> oc_cancelled w' \<or> (\<exists>i. oc_phase w' i = Preempting a)"
proof -
  let ?S = "{i. was_registered (oc_phase w i)}"
  have "orchestrator_reachable w'"
    using assms(1,2) unfolding orchestrator_reachable_def by (meson user_cancel rtranclp.rtrancl_into_rtrancl rtranclp_trans)
  then have s: "sessions_ok w'" using reachable_ok by (simp add: orchestrator_ok_def)
  have g: "gate_ok w" using reachable_ok [OF assms(1)] by (simp add: orchestrator_ok_def)
  then have "gate_ok (cancel_current w) \<and> told_to_stop ?S (cancel_current w)"
    using gate_ok_step [OF user_cancel] told_to_stop_cancel by blast
  with assms(2) have t: "gate_ok w' \<and> told_to_stop ?S w'"
    by (induction rule: rtranclp_induct) (auto intro: gate_ok_step told_to_stop_step)
  show ?thesis using sessions_okD(6) [OF s assms(4)] told_to_stopD [of ?S w' a] t assms(3) by blast
qed

section \<open>Witnesses\<close>

text \<open>A request on its way to a session of its own, with a free gate and a free slot.\<close>

definition demo_admit :: "nat \<Rightarrow> orchestrator \<Rightarrow> orchestrator" where
  "demo_admit i w = decide_slot i (enter_gate i (goto_phase i AtGate w))"

lemma demo_admit_steps:
  assumes "oc_phase w i = Preparing" and "oc_submit_gate w = None"
  shows "rtranclp orchestrator_step w (demo_admit i w)"
proof -
  have "orchestrator_step w (goto_phase i AtGate w)" using assms(1) by (rule prepared)
  moreover have "orchestrator_step (goto_phase i AtGate w) (enter_gate i (goto_phase i AtGate w))"
    by (rule entered) (simp_all add: goto_phase_def assms(2))
  moreover have "orchestrator_step (enter_gate i (goto_phase i AtGate w)) (demo_admit i w)"
    unfolding demo_admit_def by (rule decided) (simp add: enter_gate_def goto_phase_def)
  ultimately show ?thesis by (meson converse_rtranclp_into_rtranclp rtranclp.rtrancl_refl)
qed

definition demo_accepted :: orchestrator where
  "demo_accepted = register_pending 0 (accept_request SrcAuto orchestrator_new)"

definition demo_held :: orchestrator where
  "demo_held = install_session 0 (demo_admit 0 demo_accepted)"

text \<open>A manual login preempts it and installs its session while the first one still winds down.\<close>

definition demo_replaced :: orchestrator where
  "demo_replaced =
     (let w = demo_admit 1 (register_pending 1 (accept_request SrcManual demo_held))
      in install_session 1 (goto_phase 1 Creating (goto_phase 1 (WaitingFor 0) (propagate_cancel 0 w))))"

lemmas demo_simps = demo_accepted_def demo_held_def demo_admit_def demo_replaced_def orchestrator_new_def
  accept_request_def register_pending_def goto_phase_def enter_gate_def decide_slot_cases install_session_def return_handle_def
  propagate_cancel_def cancel_current_def Let_def

lemma demo_accepted_reachable: "orchestrator_reachable demo_accepted"
proof -
  have "orchestrator_step orchestrator_new (accept_request SrcAuto orchestrator_new)" by (rule accepted)
  moreover have "orchestrator_step (accept_request SrcAuto orchestrator_new) demo_accepted"
    unfolding demo_accepted_def by (rule registered) (simp add: accept_request_def orchestrator_new_def Let_def)
  ultimately show ?thesis unfolding orchestrator_reachable_def by (meson rtranclp.simps)
qed

lemma demo_held_steps:
  assumes "w = demo_accepted \<or> w = cancel_current demo_accepted"
  shows "rtranclp orchestrator_step w (install_session 0 (demo_admit 0 w))"
proof -
  have "rtranclp orchestrator_step w (demo_admit 0 w)"
    using assms by (intro demo_admit_steps) (auto simp: demo_simps)
  moreover have "orchestrator_step (demo_admit 0 w) (install_session 0 (demo_admit 0 w))"
    using assms by (intro installed) (auto simp: demo_simps)
  ultimately show ?thesis by (rule rtranclp.rtrancl_into_rtrancl)
qed

lemma demo_replaced_reachable: "orchestrator_reachable demo_replaced"
proof -
  let ?n = "accept_request SrcManual demo_held"
  let ?a = "register_pending 1 ?n"
  let ?d = "demo_admit 1 ?a"
  let ?p = "goto_phase 1 (WaitingFor 0) (propagate_cancel 0 ?d)"
  have "rtranclp orchestrator_step orchestrator_new demo_held"
    using demo_accepted_reachable demo_held_steps [of demo_accepted]
    unfolding orchestrator_reachable_def demo_held_def by (meson rtranclp_trans)
  also have "orchestrator_step demo_held ?n" by (rule accepted)
  also have "orchestrator_step ?n ?a" by (rule registered) (simp add: demo_simps)
  also have "rtranclp orchestrator_step ?a ?d"
    by (rule demo_admit_steps) (simp_all add: demo_simps)
  also have "orchestrator_step ?d ?p" by (rule preempted) (simp add: demo_simps)
  also have "orchestrator_step ?p (goto_phase 1 Creating ?p)"
    by (rule gave_up_waiting [of _ _ 0]) (simp add: goto_phase_def)
  also have "orchestrator_step (goto_phase 1 Creating ?p) demo_replaced"
    unfolding demo_replaced_def Let_def by (rule installed) (simp add: goto_phase_def)
  finally show ?thesis by (simp add: orchestrator_reachable_def)
qed

theorem single_live_session_witness:
  "orchestrator_reachable demo_replaced \<and> oc_running demo_replaced = {0, 1}
     \<and> oc_cancelled demo_replaced = {0} \<and> (\<exists>a. oc_running demo_replaced - oc_cancelled demo_replaced \<subseteq> {a})"
proof (intro conjI)
  show "oc_running demo_replaced = {0, 1}" by (simp add: demo_simps insert_commute)
  show "oc_cancelled demo_replaced = {0}" by (simp add: demo_simps)
qed (use demo_replaced_reachable single_live_session [of demo_replaced] in blast)+

text \<open>Cancelled while it is being prepared, the request still gets its session, with a fired token.\<close>

theorem cancel_reaches_everything_witness:
  "let w' = install_session 0 (demo_admit 0 (cancel_current demo_accepted))
   in 0 \<in> oc_running w' \<and> oc_phase w' 0 = Returned (SessionHandle 0)
     \<and> (0 \<in> oc_cancelled w' \<or> (\<exists>i. oc_phase w' i = Preempting 0))"
  unfolding Let_def
proof (intro conjI)
  let ?w = "install_session 0 (demo_admit 0 (cancel_current demo_accepted))"
  show r: "0 \<in> oc_running ?w" by (simp add: demo_simps)
  show "oc_phase ?w 0 = Returned (SessionHandle 0)" by (simp add: demo_simps)
  have "was_registered (oc_phase demo_accepted 0)" by (simp add: demo_simps)
  then show "0 \<in> oc_cancelled ?w \<or> (\<exists>i. oc_phase ?w i = Preempting 0)"
    using cancel_reaches_everything [OF demo_accepted_reachable demo_held_steps] r by blast
qed

end
