(* ===== verification/Login_Srun.thy ===== *)
theory Login_Srun
  imports Rust_Str
begin

text \<open>
  The computations of the vendor portals that task scripts may call (\<open>login/srun.rs\<close>,
  \<open>login/ruijie.rs\<close>): the SRUN cipher over 32-bit words and the textbook RSA of one portal. The text
  encoding of the cipher's bytes (the \<open>base64\<close> crate with the vendor's alphabet) is a parameter.
\<close>

section \<open>Bytes and words\<close>

fun chunks :: "nat \<Rightarrow> 'a list \<Rightarrow> 'a list list" where
  "chunks n xs = (if xs = [] \<or> n = 0 then [] else take n xs # chunks n (drop n xs))"

declare chunks.simps [simp del]

definition from_le_bytes :: "u8 list \<Rightarrow> u32" where
  "from_le_bytes bs = word_of_nat (foldr (\<lambda>b n. unat b + 256 * n) bs 0)"

definition to_le_bytes :: "u32 \<Rightarrow> u8 list" where
  "to_le_bytes w = map (\<lambda>i. word_of_nat (unat w div 256 ^ i)) [0..<4]"

definition words :: "u8 list \<Rightarrow> bool \<Rightarrow> u32 list" where
  "words input append_len =
     map (\<lambda>chunk. from_le_bytes (chunk @ replicate (4 - length chunk) 0)) (chunks 4 input)
       @ (if append_len then [word_of_nat (length input)] else [])"

section \<open>The cipher\<close>

definition mix :: "u32 list \<Rightarrow> u32 \<Rightarrow> nat \<Rightarrow> u32 \<Rightarrow> u32 \<Rightarrow> u32" where
  "mix key phase index previous following =
     (let selector = unat (drop_bit 2 phase AND 3);
          mixed = (drop_bit 5 previous XOR push_bit 2 following)
                    + (drop_bit 3 following XOR push_bit 4 previous XOR (phase XOR following))
      in mixed + (key ! ((index AND 3) XOR selector) XOR previous))"

definition encode_word :: "u32 list \<Rightarrow> u32 \<Rightarrow> nat \<Rightarrow> u32 list \<times> u32 \<Rightarrow> u32 list \<times> u32" where
  "encode_word key phase index = (\<lambda>(data, previous).
     let following = data ! ((index + 1) mod length data);
         w = data ! index + mix key phase index previous following
     in (data[index := w], w))"

definition encode_round :: "u32 list \<Rightarrow> u32 \<Rightarrow> u32 list \<times> u32 \<Rightarrow> u32 list \<times> u32" where
  "encode_round key phase st = fold (encode_word key phase) [0..<length (fst st)] st"

definition SRUN_DELTA :: u32 where
  "SRUN_DELTA = 0x9e3779b9"

fun encode_rounds :: "nat \<Rightarrow> u32 list \<Rightarrow> u32 \<Rightarrow> u32 list \<times> u32 \<Rightarrow> u32 list \<times> u32" where
  "encode_rounds 0 key phase st = st"
| "encode_rounds (Suc n) key phase st = encode_rounds n key (phase + SRUN_DELTA) (encode_round key (phase + SRUN_DELTA) st)"

definition srun_key :: "u8 list \<Rightarrow> u32 list" where
  "srun_key challenge = (let key = words challenge False in key @ replicate (4 - length key) 0)"

definition xencode :: "u8 list \<Rightarrow> u8 list \<Rightarrow> u8 list" where
  "xencode info challenge =
     (if info = [] then []
      else let data = words info True
           in concat (map to_le_bytes (fst (encode_rounds (6 + 52 div length data) (srun_key challenge) 0 (data, last data)))))"

definition str_bytes :: "string \<Rightarrow> u8 list" where
  "str_bytes s = map of_char s"

definition encode_info :: "(u8 list \<Rightarrow> string) \<Rightarrow> string \<Rightarrow> string \<Rightarrow> string + string" where
  "encode_info base64 info_json challenge =
     (if 64 * 1024 < length info_json \<or> 8 * 1024 < length challenge then Inl ''input too large''
      else if challenge = [] then Inl ''empty challenge''
      else Inr (''{SRBX1}'' @ base64 (xencode (str_bytes info_json) (str_bytes challenge))))"

section \<open>The cipher can be undone\<close>

text \<open>What the portal does: the same rounds backwards, with the sum counted down, and the length in
  the last word.\<close>

definition decode_word :: "u32 list \<Rightarrow> u32 \<Rightarrow> nat \<Rightarrow> u32 list \<Rightarrow> u32 list" where
  "decode_word key phase index data =
     (let n = length data
      in data[index := data ! index - mix key phase index (data ! ((index + n - 1) mod n)) (data ! ((index + 1) mod n))])"

definition decode_round :: "u32 list \<Rightarrow> u32 \<Rightarrow> u32 list \<Rightarrow> u32 list" where
  "decode_round key phase data = foldr (decode_word key phase) [0..<length data] data"

fun decode_rounds :: "nat \<Rightarrow> u32 list \<Rightarrow> u32 \<Rightarrow> u32 list \<Rightarrow> u32 list" where
  "decode_rounds 0 key phase data = data"
| "decode_rounds (Suc n) key phase data = decode_round key (phase + SRUN_DELTA) (decode_rounds n key (phase + SRUN_DELTA) data)"

definition xdecode :: "u8 list \<Rightarrow> u8 list \<Rightarrow> u8 list" where
  "xdecode code challenge =
     (let data = words code False;
          plain = decode_rounds (6 + 52 div length data) (srun_key challenge) 0 data
      in take (unat (last plain)) (concat (map to_le_bytes (butlast plain))))"

text \<open>One word: the code carries the word before in a variable, which is the word at that place.\<close>

definition carries :: "nat \<Rightarrow> u32 list \<times> u32 \<Rightarrow> bool" where
  "carries index st \<longleftrightarrow>
     (let n = length (fst st) in 2 \<le> n \<and> snd st = fst st ! ((index + n - 1) mod n))"

lemma encode_word_length [simp]: "length (fst (encode_word key phase i st)) = length (fst st)"
  by (simp add: encode_word_def Let_def split: prod.split)

lemma decode_encode_word:
  assumes "carries i st" and "i < length (fst st)"
  shows "decode_word key phase i (fst (encode_word key phase i st)) = fst st"
    and "carries (Suc i) (encode_word key phase i st)"
proof -
  obtain data prev where st: "st = (data, prev)" by (cases st)
  let ?n = "length data"
  have n: "2 \<le> ?n" and i: "i < ?n" and prev: "prev = data ! ((i + ?n - 1) mod ?n)"
    using assms by (simp_all add: st carries_def Let_def)
  have before: "(i + ?n - 1) mod ?n \<noteq> i"
  proof (cases i)
    case 0 with n show ?thesis by simp
  next
    case (Suc k)
    then have "(i + ?n - 1) mod ?n = k" using i by simp
    with Suc show ?thesis by simp
  qed
  have after: "(i + 1) mod ?n \<noteq> i"
  proof (cases "i + 1 = ?n")
    case True with n show ?thesis by simp
  next
    case False with i show ?thesis by simp
  qed
  show "decode_word key phase i (fst (encode_word key phase i st)) = fst st"
    using i before after by (simp add: st encode_word_def decode_word_def Let_def prev list_update_id)
  have "(Suc i + ?n - 1) mod ?n = i" using i by simp
  then show "carries (Suc i) (encode_word key phase i st)"
    using n i by (simp add: st encode_word_def carries_def Let_def)
qed

lemma encode_words_length [simp]: "length (fst (fold (encode_word key phase) is st)) = length (fst st)"
  by (induction "is" arbitrary: st) simp_all

lemma decode_encode_words:
  assumes "carries i st" and "j \<le> length (fst st)" and "i \<le> j"
  shows "foldr (decode_word key phase) [i..<j] (fst (fold (encode_word key phase) [i..<j] st)) = fst st
    \<and> carries j (fold (encode_word key phase) [i..<j] st)"
  using assms
proof (induction "j - i" arbitrary: i st)
  case 0
  then show ?case by simp
next
  case (Suc d)
  then have ij: "i < j" "d = j - Suc i" by simp_all
  then have up: "[i..<j] = i # [Suc i..<j]" by (simp add: upt_conv_Cons)
  let ?st = "encode_word key phase i st"
  have w: "decode_word key phase i (fst ?st) = fst st" "carries (Suc i) ?st"
    using decode_encode_word [OF Suc.prems(1)] Suc.prems(2) ij(1) by simp_all
  have "foldr (decode_word key phase) [Suc i..<j] (fst (fold (encode_word key phase) [Suc i..<j] ?st)) = fst ?st
    \<and> carries j (fold (encode_word key phase) [Suc i..<j] ?st)"
    using Suc.hyps(1) [OF ij(2) w(2)] Suc.prems(2) ij(1) by simp
  with w(1) show ?case by (simp add: up)
qed

lemma carries_wrap: "carries (length (fst st)) st = carries 0 st"
  by (cases "length (fst st)") (simp_all add: carries_def Let_def)

lemma decode_encode_round:
  assumes "carries 0 st"
  shows "decode_round key phase (fst (encode_round key phase st)) = fst st"
    and "carries 0 (encode_round key phase st)" and "length (fst (encode_round key phase st)) = length (fst st)"
proof -
  have l: "length (fst (encode_round key phase st)) = length (fst st)" by (simp add: encode_round_def)
  note r = decode_encode_words [OF assms order.refl, of key phase]
  show "length (fst (encode_round key phase st)) = length (fst st)" by (rule l)
  show "decode_round key phase (fst (encode_round key phase st)) = fst st"
    using r l by (simp add: decode_round_def encode_round_def)
  show "carries 0 (encode_round key phase st)"
    using r carries_wrap [of "encode_round key phase st"] l by (simp add: encode_round_def)
qed

lemma decode_encode_rounds:
  "carries 0 st \<Longrightarrow> decode_rounds n key phase (fst (encode_rounds n key phase st)) = fst st
     \<and> length (fst (encode_rounds n key phase st)) = length (fst st)"
  by (induction n arbitrary: phase st) (simp_all add: decode_encode_round)

section \<open>Bytes survive\<close>

lemma le_number_bound: "foldr (\<lambda>b n. unat (b :: u8) + 256 * n) bs 0 < 256 ^ length bs"
proof (induction bs)
  case (Cons b bs)
  moreover have "unat b < 256" using unsigned_less [of b] by simp
  ultimately show ?case by simp
qed simp

lemma four_places: "[0..<4] = [0, 1, 2, 3 :: nat]"
  by (simp add: upt_rec numeral_eq_Suc)

lemma unat_small: "m < 2 ^ 32 \<Longrightarrow> unat (word_of_nat m :: u32) = m"
  by (simp only: unat_of_nat) simp

lemma small_byte: "unat (w :: u8) < 256"
  using unsigned_less [of w] by simp

lemma byte_of_nat: "unat (word_of_nat m :: u8) = m mod 256"
  by (simp only: unat_of_nat) simp

lemma to_from_le_bytes: "length bs = 4 \<Longrightarrow> to_le_bytes (from_le_bytes bs) = bs"
proof -
  assume "length bs = 4"
  then obtain a b c d where bs: "bs = [a, b, c, d]" by (auto simp: numeral_eq_Suc length_Suc_conv)
  have l: "unat w < 256" for w :: u8 using unsigned_less [of w] by simp
  let ?n = "unat a + 256 * (unat b + 256 * (unat c + 256 * unat d))"
  have "?n < 2 ^ 32" using l [of a] l [of b] l [of c] l [of d] by simp
  moreover have "foldr (\<lambda>b n. unat b + 256 * n) bs 0 = ?n" by (simp add: bs)
  ultimately have w: "unat (from_le_bytes bs) = ?n" unfolding from_le_bytes_def by (simp only: unat_small)
  have div1: "(unat a + 256 * m) div 256 = m" for m using l [of a] by simp
  have div2: "(unat b + 256 * m) div 256 = m" for m using l [of b] by simp
  have div3: "(unat c + 256 * m) div 256 = m" for m using l [of c] by simp
  have q: "?n div 256 = unat b + 256 * (unat c + 256 * unat d)" "?n div 65536 = unat c + 256 * unat d"
    "?n div 16777216 = unat d"
  proof -
    show 1: "?n div 256 = unat b + 256 * (unat c + 256 * unat d)" by (rule div1)
    show 2: "?n div 65536 = unat c + 256 * unat d"
      using div2 [of "unat c + 256 * unat d"] 1 div_mult2_eq [of ?n 256 256] by simp
    show "?n div 16777216 = unat d"
      using div3 [of "unat d"] 2 div_mult2_eq [of ?n 65536 256] by simp
  qed
  have low: "(word_of_nat (unat w + 256 * m) :: u8) = w" for w m
    by (rule word_unat_eq_iff [THEN iffD2]) (simp only: byte_of_nat, simp add: l)
  have d: "(word_of_nat (unat d) :: u8) = d" using low [of d 0] by simp
  have "to_le_bytes (from_le_bytes bs)
      = [word_of_nat ?n, word_of_nat (?n div 256), word_of_nat (?n div 65536), word_of_nat (?n div 16777216)]"
    unfolding to_le_bytes_def w four_places by (simp only: list.map power_0 power_one_right div_by_1) simp
  then show ?thesis by (simp only: q d low bs)
qed

lemma to_le_bytes_length [simp]: "length (to_le_bytes w) = 4"
  by (simp add: to_le_bytes_def)

lemma from_to_le_bytes: "from_le_bytes (to_le_bytes w) = w"
proof -
  let ?n = "unat w"
  have n: "?n < 2 ^ 32" using unsigned_less [of w] by simp
  have "?n mod 256 + 256 * (?n div 256 mod 256 + 256 * (?n div 65536 mod 256 + 256 * (?n div 16777216 mod 256))) = ?n"
  proof -
    have "?n div 65536 = ?n div 256 div 256" "?n div 16777216 = ?n div 256 div 256 div 256"
      by (simp_all flip: div_mult2_eq)
    moreover have "?n div 16777216 mod 256 = ?n div 16777216" using n by simp
    ultimately show ?thesis by (metis mod_mult_div_eq)
  qed
  moreover have "foldr (\<lambda>b n. unat b + 256 * n) (to_le_bytes w) 0
      = ?n mod 256 + 256 * (?n div 256 mod 256 + 256 * (?n div 65536 mod 256 + 256 * (?n div 16777216 mod 256)))"
    by (simp only: to_le_bytes_def four_places list.map foldr.simps comp_def byte_of_nat) simp
  ultimately have "foldr (\<lambda>b n. unat b + 256 * n) (to_le_bytes w) 0 = ?n" by (rule trans [rotated])
  then show ?thesis unfolding from_le_bytes_def by (simp only: of_nat_unat ucast_id)
qed

lemma chunks_concat:
  assumes "\<forall>w\<in>set ws. length w = 4"
  shows "chunks 4 (concat ws) = ws"
  using assms
proof (induction ws)
  case Nil
  then show ?case by (simp add: chunks.simps)
next
  case (Cons w ws)
  then have "w \<noteq> []" by auto
  with Cons show ?case by (subst chunks.simps) simp
qed

lemma words_of_bytes: "words (concat (map to_le_bytes ws)) False = ws"
  by (simp add: words_def chunks_concat comp_def from_to_le_bytes)

lemma bytes_of_words:
  "take (length bs) (concat (map (\<lambda>chunk. to_le_bytes (from_le_bytes (chunk @ replicate (4 - length chunk) 0))) (chunks 4 bs))) = bs"
proof (induction "4 :: nat" bs rule: chunks.induct)
  case (1 bs)
  show ?case
  proof (cases "bs = []")
    case False
    let ?c = "take 4 bs"
    have c: "to_le_bytes (from_le_bytes (?c @ replicate (4 - length ?c) 0)) = ?c @ replicate (4 - length ?c) 0"
      by (rule to_from_le_bytes) simp
    have s: "chunks 4 bs = ?c # chunks 4 (drop 4 bs)" using False by (subst chunks.simps) simp
    show ?thesis
    proof (cases "4 \<le> length bs")
      case True
      then have "length ?c = 4" by simp
      with c 1 False show ?thesis unfolding s by (simp add: True)
    next
      case False
      then have "?c = bs" by simp
      with c show ?thesis unfolding s by simp
    qed
  qed (simp add: chunks.simps)
qed

lemma chunks_Nil_iff: "chunks 4 bs = [] \<longleftrightarrow> bs = []"
  by (subst chunks.simps) simp

lemma xdecode_xencode:
  assumes "info \<noteq> []" and "length info < 2 ^ 32"
  shows "xdecode (xencode info challenge) challenge = info"
proof -
  let ?data = "words info True" and ?key = "srun_key challenge"
  let ?chunks = "map (\<lambda>chunk. from_le_bytes (chunk @ replicate (4 - length chunk) 0)) (chunks 4 info)"
  have data: "?data = ?chunks @ [word_of_nat (length info)]" by (simp add: words_def)
  have two: "2 \<le> length ?data" using assms(1) chunks_Nil_iff [of info]
    by (cases "chunks 4 info") (simp_all add: data)
  then have c: "carries 0 (?data, last ?data)" by (cases "?data = []") (simp_all add: carries_def Let_def last_conv_nth)
  let ?code = "fst (encode_rounds (6 + 52 div length ?data) ?key 0 (?data, last ?data))"
  have r: "decode_rounds (6 + 52 div length ?data) ?key 0 ?code = ?data" "length ?code = length ?data"
    using decode_encode_rounds [OF c, of "6 + 52 div length ?data" ?key 0] by simp_all
  have x: "words (xencode info challenge) False = ?code"
    using assms(1) by (simp add: xencode_def Let_def words_of_bytes)
  have "xdecode (xencode info challenge) challenge
      = take (unat (last ?data)) (concat (map to_le_bytes (butlast ?data)))"
    using r by (simp add: xdecode_def x Let_def)
  also have "\<dots> = take (length info) (concat (map to_le_bytes ?chunks))"
    using assms(2) by (simp add: data unat_of_nat)
  also have "\<dots> = info" using bytes_of_words [of info] by (simp add: comp_def)
  finally show ?thesis .
qed


definition demo_text :: "u8 list \<Rightarrow> string" where
  "demo_text bs = map (\<lambda>b. char_of (unat b)) bs"

definition demo_untext :: "string \<Rightarrow> u8 list" where
  "demo_untext s = map (\<lambda>c. word_of_nat (of_char c)) s"

lemma demo_untext_text: "demo_untext (demo_text bs) = bs"
proof -
  have "(word_of_nat (unat b mod 256) :: u8) = b" for b
    by (rule word_unat_eq_iff [THEN iffD2]) (simp only: byte_of_nat, simp add: small_byte)
  then show ?thesis by (simp add: demo_text_def demo_untext_def comp_def)
qed


end
