(* ===== verification/Web_Ssrf.thy ===== *)
theory Web_Ssrf
  imports Http_Text
begin

text \<open>
  The guard of the downloads the web interface makes on behalf of a page (\<open>web/ssrf.rs\<close>): which
  addresses are private or reserved, and the fetch that resolves a name once, connects to exactly the
  address it has checked, and checks every redirect again. The name server is a parameter that may
  change its answer from one question to the next.
\<close>

section \<open>Addresses\<close>

text \<open>\<open>Ipv4Addr\<close> is its four octets and \<open>Ipv6Addr\<close> its eight segments.\<close>

datatype ipv4 = Ipv4 u8 u8 u8 u8
datatype ipv6 = Ipv6 u16 u16 u16 u16 u16 u16 u16 u16
datatype ip_addr = V4 ipv4 | V6 ipv6

fun ipv4_bits :: "ipv4 \<Rightarrow> nat" where
  "ipv4_bits (Ipv4 a b c d) = ((unat a * 256 + unat b) * 256 + unat c) * 256 + unat d"

lemma octet_unique: "x * 256 + a = y * 256 + b \<Longrightarrow> a < 256 \<Longrightarrow> b < 256 \<Longrightarrow> x = y \<and> a = b"
  for x y a b :: nat
proof -
  assume e: "x * 256 + a = y * 256 + b" and a: "a < 256" and b: "b < 256"
  have "(x * 256 + a) div 256 = x" "(y * 256 + b) div 256 = y" using a b by simp_all
  then have "x = y" using e by metis
  with e show ?thesis by simp
qed

lemma octet_bound [simp]: "unat (w :: u8) < 256"
  using unsigned_less [of w] by simp

lemma ipv4_bits_inject: "ipv4_bits x = ipv4_bits y \<Longrightarrow> x = y"
proof (cases x; cases y)
  fix a b c d a' b' c' d'
  assume eq: "ipv4_bits x = ipv4_bits y" and xy: "x = Ipv4 a b c d" "y = Ipv4 a' b' c' d'"
  from eq have "unat a = unat a' \<and> unat b = unat b' \<and> unat c = unat c' \<and> unat d = unat d'"
    unfolding xy ipv4_bits.simps by (meson octet_unique octet_bound)
  then show "x = y" by (simp add: xy word_unat_eq_iff)
qed

text \<open>Addresses are compared octet by octet.\<close>

instantiation ipv4 :: linorder
begin

definition less_eq_ipv4 :: "ipv4 \<Rightarrow> ipv4 \<Rightarrow> bool" where
  "less_eq_ipv4 x y \<longleftrightarrow> ipv4_bits x \<le> ipv4_bits y"

definition less_ipv4 :: "ipv4 \<Rightarrow> ipv4 \<Rightarrow> bool" where
  "less_ipv4 x y \<longleftrightarrow> ipv4_bits x < ipv4_bits y"

instance
  by standard (auto simp: less_eq_ipv4_def less_ipv4_def dest: ipv4_bits_inject)

end

text \<open>The predicates of the standard library.\<close>

fun is_private :: "ipv4 \<Rightarrow> bool" where
  "is_private (Ipv4 a b c d) \<longleftrightarrow> a = 10 \<or> (a = 172 \<and> 16 \<le> b \<and> b \<le> 31) \<or> (a = 192 \<and> b = 168)"

fun is_loopback4 :: "ipv4 \<Rightarrow> bool" where
  "is_loopback4 (Ipv4 a b c d) \<longleftrightarrow> a = 127"

fun is_unspecified4 :: "ipv4 \<Rightarrow> bool" where
  "is_unspecified4 (Ipv4 a b c d) \<longleftrightarrow> a = 0 \<and> b = 0 \<and> c = 0 \<and> d = 0"

fun is_multicast4 :: "ipv4 \<Rightarrow> bool" where
  "is_multicast4 (Ipv4 a b c d) \<longleftrightarrow> 224 \<le> a \<and> a \<le> 239"

fun is_link_local :: "ipv4 \<Rightarrow> bool" where
  "is_link_local (Ipv4 a b c d) \<longleftrightarrow> a = 169 \<and> b = 254"

fun is_broadcast :: "ipv4 \<Rightarrow> bool" where
  "is_broadcast (Ipv4 a b c d) \<longleftrightarrow> a = 255 \<and> b = 255 \<and> c = 255 \<and> d = 255"

definition within :: "ipv4 \<Rightarrow> ipv4 \<Rightarrow> ipv4 \<Rightarrow> bool" where
  "within lo hi x \<longleftrightarrow> lo \<le> x \<and> x \<le> hi"

definition is_restricted_ipv4 :: "ipv4 \<Rightarrow> bool" where
  "is_restricted_ipv4 v4 \<longleftrightarrow>
     is_private v4 \<or> is_loopback4 v4 \<or> is_unspecified4 v4 \<or> is_multicast4 v4 \<or> is_link_local v4 \<or> is_broadcast v4
     \<or> within (Ipv4 0 0 0 0) (Ipv4 0 255 255 255) v4
     \<or> within (Ipv4 100 64 0 0) (Ipv4 100 127 255 255) v4
     \<or> within (Ipv4 192 0 2 0) (Ipv4 192 0 2 255) v4
     \<or> within (Ipv4 198 51 100 0) (Ipv4 198 51 100 255) v4
     \<or> within (Ipv4 203 0 113 0) (Ipv4 203 0 113 255) v4
     \<or> within (Ipv4 198 18 0 0) (Ipv4 198 19 255 255) v4
     \<or> within (Ipv4 240 0 0 0) (Ipv4 255 255 255 255) v4"

definition two_bytes :: "u16 \<Rightarrow> u16 \<Rightarrow> ipv4" where
  "two_bytes s t = Ipv4 (ucast (drop_bit 8 s)) (ucast (s AND 0xff)) (ucast (drop_bit 8 t)) (ucast (t AND 0xff))"

fun to_ipv4_mapped :: "ipv6 \<Rightarrow> ipv4 option" where
  "to_ipv4_mapped (Ipv6 s0 s1 s2 s3 s4 s5 s6 s7) =
     (if s0 = 0 \<and> s1 = 0 \<and> s2 = 0 \<and> s3 = 0 \<and> s4 = 0 \<and> s5 = 0xffff then Some (two_bytes s6 s7) else None)"

fun is_restricted_ipv6 :: "ipv6 \<Rightarrow> bool" where
  "is_restricted_ipv6 (Ipv6 s0 s1 s2 s3 s4 s5 s6 s7) =
     (case to_ipv4_mapped (Ipv6 s0 s1 s2 s3 s4 s5 s6 s7) of
        Some v4 \<Rightarrow> is_restricted_ipv4 v4
      | None \<Rightarrow>
          if s0 = 0x64 \<and> s1 = 0xff9b \<and> s2 = 0 \<and> s3 = 0 \<and> s4 = 0 \<and> s5 = 0 then is_restricted_ipv4 (two_bytes s6 s7)
          else if s0 = 0x2002 then is_restricted_ipv4 (two_bytes s1 s2)
          else s0 = 0 \<and> s1 = 0 \<and> s2 = 0 \<and> s3 = 0 \<and> s4 = 0 \<and> s5 = 0 \<and> s6 = 0 \<and> s7 = 1
             \<or> s0 = 0 \<and> s1 = 0 \<and> s2 = 0 \<and> s3 = 0 \<and> s4 = 0 \<and> s5 = 0 \<and> s6 = 0 \<and> s7 = 0
             \<or> s0 AND 0xff00 = 0xff00
             \<or> s0 AND 0xfe00 = 0xfc00
             \<or> s0 AND 0xffc0 = 0xfe80
             \<or> s0 = 0x0100 \<and> s1 = 0 \<and> s2 = 0 \<and> s3 = 0 \<and> s4 = 0 \<and> s5 = 0 \<and> s6 = 0 \<and> s7 = 0
             \<or> s0 = 0x2001 \<and> s1 = 2 \<and> s2 = 0
             \<or> s0 = 0x2001 \<and> s1 = 0xdb8)"

fun is_restricted_ip :: "ip_addr \<Rightarrow> bool" where
  "is_restricted_ip (V4 a) = is_restricted_ipv4 a"
| "is_restricted_ip (V6 a) = is_restricted_ipv6 a"

section \<open>Reading an address\<close>

text \<open>\<open>str::parse::<IpAddr>\<close>: octets of one to three digits without a leading zero; segments of one
  to four hexadecimal digits, the last two of them possibly an IPv4 address, with at most one double
  colon that stands for at least one zero segment.\<close>

definition parse_octet :: "string \<Rightarrow> u8 option" where
  "parse_octet s =
     (if s \<noteq> [] \<and> length s \<le> 3 \<and> list_all is_ascii_digit s \<and> (hd s = CHR ''0'' \<longrightarrow> length s = 1) \<and> digits_val s < 256
      then Some (word_of_nat (digits_val s)) else None)"

definition parse_ipv4 :: "string \<Rightarrow> ipv4 option" where
  "parse_ipv4 s =
     (case map parse_octet (split_on CHR ''.'' s) of
        [Some a, Some b, Some c, Some d] \<Rightarrow> Some (Ipv4 a b c d)
      | _ \<Rightarrow> None)"

definition parse_group :: "string \<Rightarrow> u16 option" where
  "parse_group s =
     (if s \<noteq> [] \<and> length s \<le> 4 \<and> list_all is_hex s
      then Some (word_of_nat (foldl (\<lambda>n c. n * 16 + hex_val c) 0 s)) else None)"

fun ipv4_groups :: "ipv4 \<Rightarrow> u16 list" where
  "ipv4_groups (Ipv4 a b c d) = [push_bit 8 (ucast a) OR ucast b, push_bit 8 (ucast c) OR ucast d]"

fun parse_groups :: "bool \<Rightarrow> string list \<Rightarrow> u16 list option" where
  "parse_groups v4_last [] = Some []"
| "parse_groups v4_last [s] =
     (case parse_group s of
        Some g \<Rightarrow> Some [g]
      | None \<Rightarrow> if v4_last then map_option ipv4_groups (parse_ipv4 s) else None)"
| "parse_groups v4_last (s # t # ss) =
     (case (parse_group s, parse_groups v4_last (t # ss)) of
        (Some g, Some gs) \<Rightarrow> Some (g # gs)
      | _ \<Rightarrow> None)"

definition groups_of :: "bool \<Rightarrow> string \<Rightarrow> u16 list option" where
  "groups_of v4_last s = parse_groups v4_last (if s = [] then [] else split_on CHR '':'' s)"

fun ipv6_of_groups :: "u16 list \<Rightarrow> ipv6 option" where
  "ipv6_of_groups [s0, s1, s2, s3, s4, s5, s6, s7] = Some (Ipv6 s0 s1 s2 s3 s4 s5 s6 s7)"
| "ipv6_of_groups _ = None"

definition parse_ipv6 :: "string \<Rightarrow> ipv6 option" where
  "parse_ipv6 s =
     (case split_once_str ''::'' s of
        None \<Rightarrow> Option.bind (groups_of True s) ipv6_of_groups
      | Some (before, after) \<Rightarrow>
          (case (groups_of False before, groups_of True after) of
             (Some gs, Some hs) \<Rightarrow>
               if length gs + length hs \<le> 7
               then ipv6_of_groups (gs @ replicate (8 - length gs - length hs) 0 @ hs) else None
           | _ \<Rightarrow> None))"

definition parse_ip :: "string \<Rightarrow> ip_addr option" where
  "parse_ip s =
     (case parse_ipv4 s of
        Some a \<Rightarrow> Some (V4 a)
      | None \<Rightarrow> map_option V6 (parse_ipv6 s))"

section \<open>The fetch\<close>

text \<open>One connection attempt, with the address the name is pinned to.\<close>

record connection =
  cn_host :: string
  cn_port :: nat
  cn_addr :: ip_addr
  cn_proxy :: "string option"
  cn_url :: string

record fetch_answer =
  fa_status :: nat
  fa_headers :: header_map

text \<open>The name server answers the \<open>n\<close>-th question; a connection answers depending on those before it.\<close>

record fetch_env =
  fe_parse :: "string \<Rightarrow> string + url"
  fe_join :: url_join
  fe_lookup :: "nat \<Rightarrow> string \<Rightarrow> nat \<Rightarrow> string + ip_addr list"
  fe_client :: "string option \<Rightarrow> string + unit"
  fe_send :: "connection list \<Rightarrow> connection \<Rightarrow> string + fetch_answer"

record fetch_state =
  ft_lookups :: nat
  ft_sent :: "connection list"

type_synonym 'a fetch = "fetch_state \<Rightarrow> (string + 'a) \<times> fetch_state"

definition then_fetch :: "'a fetch \<Rightarrow> ('a \<Rightarrow> 'b fetch) \<Rightarrow> 'b fetch" where
  "then_fetch m f st = (case m st of (Inl e, st') \<Rightarrow> (Inl e, st') | (Inr x, st') \<Rightarrow> f x st')"

definition resolve_public :: "fetch_env \<Rightarrow> string \<Rightarrow> nat \<Rightarrow> ip_addr list fetch" where
  "resolve_public env host port st =
     (case parse_ip host of
        Some ip \<Rightarrow> (if is_restricted_ip ip then Inl (''reserved address: '' @ host) else Inr [ip], st)
      | None \<Rightarrow>
          (case fe_lookup env (ft_lookups st) host port of
             Inl _ \<Rightarrow> Inl (''cannot resolve: '' @ host)
           | Inr addrs \<Rightarrow>
               if addrs = [] then Inl (''no address: '' @ host)
               else if list_ex is_restricted_ip addrs then Inl (''reserved address: '' @ host)
               else Inr addrs,
           st\<lparr>ft_lookups := ft_lookups st + 1\<rparr>))"

fun try_addresses ::
  "fetch_env \<Rightarrow> string option \<Rightarrow> string \<Rightarrow> string \<Rightarrow> nat \<Rightarrow> ip_addr list \<Rightarrow> string \<Rightarrow> fetch_answer fetch"
where
  "try_addresses env proxy current host port [] last_err st = (Inl (''request failed: '' @ last_err), st)"
| "try_addresses env proxy current host port (addr # addrs) last_err st =
     (case fe_client env proxy of
        Inl e \<Rightarrow> (Inl e, st)
      | Inr _ \<Rightarrow>
          let c = \<lparr>cn_host = host, cn_port = port, cn_addr = addr, cn_proxy = proxy, cn_url = current\<rparr>;
              st1 = st\<lparr>ft_sent := ft_sent st @ [c]\<rparr>
          in case fe_send env (ft_sent st) c of
               Inr resp \<Rightarrow> (Inr resp, st1)
             | Inl e \<Rightarrow> try_addresses env proxy current host port addrs e st1)"

definition target_of :: "fetch_env \<Rightarrow> string \<Rightarrow> string + url \<times> string \<times> nat" where
  "target_of env current =
     bind_res (fe_parse env current) (\<lambda>u.
       if url_scheme u \<noteq> ''http'' \<and> url_scheme u \<noteq> ''https'' then Inl (''only http and https, not '' @ url_scheme u)
       else case (url_host u, url_port u) of
              (Some host, Some port) \<Rightarrow> Inr (u, host, port)
            | (None, _) \<Rightarrow> Inl ''no host''
            | (Some _, None) \<Rightarrow> Inl ''no port'')"

definition fetch_hop :: "fetch_env \<Rightarrow> string option \<Rightarrow> string \<Rightarrow> (url \<times> fetch_answer) fetch" where
  "fetch_hop env proxy current st =
     (case target_of env current of
        Inl e \<Rightarrow> (Inl e, st)
      | Inr (u, host, port) \<Rightarrow>
          then_fetch (resolve_public env host port) (\<lambda>addrs.
            then_fetch (try_addresses env proxy current host port addrs ''no usable address'') (\<lambda>resp st'.
              (Inr (u, resp), st'))) st)"

definition is_redirection :: "nat \<Rightarrow> bool" where
  "is_redirection status \<longleftrightarrow> 300 \<le> status \<and> status \<le> 399"

definition MAX_FETCH_REDIRECTS :: nat where
  "MAX_FETCH_REDIRECTS = 5"

definition redirect_target :: "fetch_env \<Rightarrow> url \<Rightarrow> fetch_answer \<Rightarrow> string + string" where
  "redirect_target env u resp =
     (case header_get (fa_headers resp) ''location'' of
        None \<Rightarrow> Inl ''redirect without a location''
      | Some loc \<Rightarrow> bind_res (fe_join env u loc) (\<lambda>next_url. Inr (url_text next_url)))"

fun fetch_rounds :: "fetch_env \<Rightarrow> string option \<Rightarrow> nat \<Rightarrow> string \<Rightarrow> (fetch_answer \<times> string) fetch" where
  "fetch_rounds env proxy 0 current st = (Inl ''too many redirects'', st)"
| "fetch_rounds env proxy (Suc n) current st =
     then_fetch (fetch_hop env proxy current) (\<lambda>(u, resp).
       if is_redirection (fa_status resp) \<and> proxy = None
       then (case redirect_target env u resp of
               Inl e \<Rightarrow> (\<lambda>st'. (Inl e, st'))
             | Inr next_url \<Rightarrow> fetch_rounds env proxy n next_url)
       else (\<lambda>st'. (Inr (resp, current), st'))) st"

definition secure_get_proxied :: "fetch_env \<Rightarrow> string option \<Rightarrow> string \<Rightarrow> (fetch_answer \<times> string) fetch" where
  "secure_get_proxied env proxy u = fetch_rounds env proxy MAX_FETCH_REDIRECTS u"

definition secure_get :: "fetch_env \<Rightarrow> string \<Rightarrow> (fetch_answer \<times> string) fetch" where
  "secure_get env u = secure_get_proxied env None u"

end
