(* ===== verification/Web_Ssrf_Props.thy ===== *)
theory Web_Ssrf_Props
  imports Web_Ssrf
begin

text \<open>
  What the download guard keeps: the refused addresses are exactly the listed networks, also behind the
  three ways an IPv6 address carries an IPv4 address, and no connection ever goes to a refused address.
\<close>

section \<open>Networks\<close>

text \<open>An address as one number, and the membership in a network of a base and a prefix length.\<close>

fun ipv6_bits :: "ipv6 \<Rightarrow> nat" where
  "ipv6_bits (Ipv6 s0 s1 s2 s3 s4 s5 s6 s7) =
     ((((((unat s0 * 65536 + unat s1) * 65536 + unat s2) * 65536 + unat s3) * 65536 + unat s4) * 65536 + unat s5)
        * 65536 + unat s6) * 65536 + unat s7"

definition in_prefix :: "nat \<Rightarrow> nat \<Rightarrow> nat \<times> nat \<Rightarrow> bool" where
  "in_prefix width x = (\<lambda>(base, len). x div 2 ^ (width - len) = base div 2 ^ (width - len))"

text \<open>0/8, 10/8, 100.64/10, 127/8, 169.254/16, 172.16/12, 192.0.2/24, 192.168/16, 198.18/15,
  198.51.100/24, 203.0.113/24, 224/4, 240/4.\<close>

definition reserved_v4 :: "(nat \<times> nat) list" where
  "reserved_v4 =
     [(0, 8), (0x0a000000, 8), (0x64400000, 10), (0x7f000000, 8), (0xa9fe0000, 16), (0xac100000, 12), (0xc0000200, 24),
      (0xc0a80000, 16), (0xc6120000, 15), (0xc6336400, 24), (0xcb007100, 24), (0xe0000000, 4), (0xf0000000, 4)]"

text \<open>Of IPv6: the unspecified address, the loopback, fc00::/7, fe80::/10, ff00::/8, 2001:2::/48,
  2001:db8::/32, and the single address 100::.\<close>

definition reserved_v6 :: "(nat \<times> nat) list" where
  "reserved_v6 =
     [(0, 128), (1, 128), (0xfc00 * 2 ^ 112, 7), (0xfe80 * 2 ^ 112, 10), (0xff00 * 2 ^ 112, 8),
      (0x200100020000 * 2 ^ 80, 48), (0x20010db8 * 2 ^ 96, 32), (0x100 * 2 ^ 112, 128)]"

text \<open>The IPv4 address inside ::ffff:0:0/96, 64:ff9b::/96 and 2002::/16.\<close>

definition carried_v4 :: "nat \<Rightarrow> nat option" where
  "carried_v4 x =
     (if in_prefix 128 x (0xffff * 2 ^ 32, 96) \<or> in_prefix 128 x (0x64ff9b * 2 ^ 96, 96) then Some (x mod 2 ^ 32)
      else if in_prefix 128 x (0x2002 * 2 ^ 112, 16) then Some (x div 2 ^ 80 mod 2 ^ 32)
      else None)"

fun reserved :: "ip_addr \<Rightarrow> bool" where
  "reserved (V4 a) = list_ex (in_prefix 32 (ipv4_bits a)) reserved_v4"
| "reserved (V6 a) =
     (case carried_v4 (ipv6_bits a) of
        Some n \<Rightarrow> list_ex (in_prefix 32 n) reserved_v4
      | None \<Rightarrow> list_ex (in_prefix 128 (ipv6_bits a)) reserved_v6)"

lemma div_interval: "0 < k \<Longrightarrow> x div k = q \<longleftrightarrow> q * k \<le> x \<and> x < (q + 1) * k" for x k q :: nat
  by (metis add.commute div_nat_eqI div_mult_mod_eq dividend_less_times_div le_add1 mult.commute mult_Suc_right plus_1_eq_Suc)

lemma in_prefix_interval:
  "in_prefix w x (base, len) \<longleftrightarrow>
     base div 2 ^ (w - len) * 2 ^ (w - len) \<le> x \<and> x < (base div 2 ^ (w - len) + 1) * 2 ^ (w - len)"
  by (simp add: in_prefix_def div_interval)

text \<open>Leading octets as intervals.\<close>

lemma leading_octets:
  fixes a b c d x :: nat
  assumes l: "b \<le> 255" "c \<le> 255" "d \<le> 255" and x: "x = a * 16777216 + b * 65536 + c * 256 + d"
  shows "a = n \<longleftrightarrow> n * 16777216 \<le> x \<and> x < n * 16777216 + 16777216"
    and "m \<le> 255 \<Longrightarrow> a = n \<and> b = m \<longleftrightarrow>
      n * 16777216 + m * 65536 \<le> x \<and> x < n * 16777216 + m * 65536 + 65536"
    and "a = 172 \<and> 16 \<le> b \<and> b \<le> 31 \<longleftrightarrow> 2886729728 \<le> x \<and> x < 2887778304"
    and "224 \<le> a \<and> a \<le> 239 \<longleftrightarrow> 3758096384 \<le> x \<and> x < 4026531840"
proof -
  show one: "a = n \<longleftrightarrow> n * 16777216 \<le> x \<and> x < n * 16777216 + 16777216" for n
    using l x by - (rule iffI; (elim conjE)?; (intro conjI)?; linarith)
  show "a = n \<and> b = m \<longleftrightarrow> n * 16777216 + m * 65536 \<le> x \<and> x < n * 16777216 + m * 65536 + 65536" if "m \<le> 255"
  proof
    assume i: "n * 16777216 + m * 65536 \<le> x \<and> x < n * 16777216 + m * 65536 + 65536"
    then have "a = n" unfolding one using that by linarith
    with i show "a = n \<and> b = m" using l x by (intro conjI; linarith)
  qed (use l x in linarith)
  show "a = 172 \<and> 16 \<le> b \<and> b \<le> 31 \<longleftrightarrow> 2886729728 \<le> x \<and> x < 2887778304"
  proof
    assume i: "2886729728 \<le> x \<and> x < 2887778304"
    then have "a = 172" unfolding one by simp
    with i show "a = 172 \<and> 16 \<le> b \<and> b \<le> 31" using l x by (intro conjI; linarith)
  qed (use l x in linarith)
  show "224 \<le> a \<and> a \<le> 239 \<longleftrightarrow> 3758096384 \<le> x \<and> x < 4026531840"
    using l x by - (rule iffI; (elim conjE)?; (intro conjI)?; linarith)
qed

lemma octet_le: "unat (w :: u8) \<le> 255"
  using octet_bound [of w] by linarith

lemma octets:
  fixes a b c d :: u8
  defines "x \<equiv> ipv4_bits (Ipv4 a b c d)"
  shows "unat a = n \<longleftrightarrow> n * 16777216 \<le> x \<and> x < n * 16777216 + 16777216"
    and "m \<le> 255 \<Longrightarrow> unat a = n \<and> unat b = m \<longleftrightarrow>
      n * 16777216 + m * 65536 \<le> x \<and> x < n * 16777216 + m * 65536 + 65536"
    and "unat a = 172 \<and> 16 \<le> unat b \<and> unat b \<le> 31 \<longleftrightarrow> 2886729728 \<le> x \<and> x < 2887778304"
    and "224 \<le> unat a \<and> unat a \<le> 239 \<longleftrightarrow> 3758096384 \<le> x \<and> x < 4026531840"
proof -
  have x: "x = unat a * 16777216 + unat b * 65536 + unat c * 256 + unat d" by (simp add: x_def)
  note o = leading_octets [OF octet_le octet_le octet_le x]
  show "unat a = n \<longleftrightarrow> n * 16777216 \<le> x \<and> x < n * 16777216 + 16777216" by (rule o)
  show "m \<le> 255 \<Longrightarrow> unat a = n \<and> unat b = m \<longleftrightarrow>
      n * 16777216 + m * 65536 \<le> x \<and> x < n * 16777216 + m * 65536 + 65536" by (rule o)
  show "unat a = 172 \<and> 16 \<le> unat b \<and> unat b \<le> 31 \<longleftrightarrow> 2886729728 \<le> x \<and> x < 2887778304" by (rule o)
  show "224 \<le> unat a \<and> unat a \<le> 239 \<longleftrightarrow> 3758096384 \<le> x \<and> x < 4026531840" by (rule o)
qed

text \<open>Every test of the code is membership in networks of the table.\<close>

lemma octet_tests:
  "is_private v \<longleftrightarrow> in_prefix 32 (ipv4_bits v) (0x0a000000, 8) \<or> in_prefix 32 (ipv4_bits v) (0xac100000, 12)
     \<or> in_prefix 32 (ipv4_bits v) (0xc0a80000, 16)"
  "is_loopback4 v \<longleftrightarrow> in_prefix 32 (ipv4_bits v) (0x7f000000, 8)"
  "is_multicast4 v \<longleftrightarrow> in_prefix 32 (ipv4_bits v) (0xe0000000, 4)"
  "is_link_local v \<longleftrightarrow> in_prefix 32 (ipv4_bits v) (0xa9fe0000, 16)"
proof -
  obtain a b c d where v: "v = Ipv4 a b c d" by (cases v)
  show "is_private v \<longleftrightarrow> in_prefix 32 (ipv4_bits v) (0x0a000000, 8) \<or> in_prefix 32 (ipv4_bits v) (0xac100000, 12)
     \<or> in_prefix 32 (ipv4_bits v) (0xc0a80000, 16)"
    using octets(1) [of a 10 b c d] octets(3) [of a b c d] octets(2) [of 168 a 192 b c d]
    by (simp add: v in_prefix_interval word_unat_eq_iff word_le_nat_alt)
  show "is_loopback4 v \<longleftrightarrow> in_prefix 32 (ipv4_bits v) (0x7f000000, 8)"
    using octets(1) [of a 127 b c d] by (simp add: v in_prefix_interval word_unat_eq_iff)
  show "is_multicast4 v \<longleftrightarrow> in_prefix 32 (ipv4_bits v) (0xe0000000, 4)"
    using octets(4) [of a b c d] by (simp add: v in_prefix_interval word_le_nat_alt)
  show "is_link_local v \<longleftrightarrow> in_prefix 32 (ipv4_bits v) (0xa9fe0000, 16)"
    using octets(2) [of 254 a 169 b c d] by (simp add: v in_prefix_interval word_unat_eq_iff)
qed

lemma range_tests:
  "within (Ipv4 0 0 0 0) (Ipv4 0 255 255 255) v \<longleftrightarrow> in_prefix 32 (ipv4_bits v) (0, 8)"
  "within (Ipv4 100 64 0 0) (Ipv4 100 127 255 255) v \<longleftrightarrow> in_prefix 32 (ipv4_bits v) (0x64400000, 10)"
  "within (Ipv4 192 0 2 0) (Ipv4 192 0 2 255) v \<longleftrightarrow> in_prefix 32 (ipv4_bits v) (0xc0000200, 24)"
  "within (Ipv4 198 51 100 0) (Ipv4 198 51 100 255) v \<longleftrightarrow> in_prefix 32 (ipv4_bits v) (0xc6336400, 24)"
  "within (Ipv4 203 0 113 0) (Ipv4 203 0 113 255) v \<longleftrightarrow> in_prefix 32 (ipv4_bits v) (0xcb007100, 24)"
  "within (Ipv4 198 18 0 0) (Ipv4 198 19 255 255) v \<longleftrightarrow> in_prefix 32 (ipv4_bits v) (0xc6120000, 15)"
  "within (Ipv4 240 0 0 0) (Ipv4 255 255 255 255) v \<longleftrightarrow> in_prefix 32 (ipv4_bits v) (0xf0000000, 4)"
  by (simp_all add: within_def less_eq_ipv4_def in_prefix_interval less_Suc_eq_le) linarith+

lemma restricted_v4: "is_restricted_ipv4 v \<longleftrightarrow> list_ex (in_prefix 32 (ipv4_bits v)) reserved_v4"
proof -
  have "is_unspecified4 v \<Longrightarrow> in_prefix 32 (ipv4_bits v) (0, 8)"
    by (cases v) (simp add: in_prefix_def)
  moreover have "is_broadcast v \<Longrightarrow> in_prefix 32 (ipv4_bits v) (0xf0000000, 4)"
    by (cases v) (simp add: in_prefix_def)
  ultimately show ?thesis
    by (simp add: is_restricted_ipv4_def octet_tests range_tests reserved_v4_def) blast
qed

section \<open>IPv6\<close>

lemma segment_bound [simp]: "unat (s :: u16) < 65536"
  using unsigned_less [of s] by simp

lemma segment_eq: "s < 65536 \<Longrightarrow> p * 65536 + s = n \<longleftrightarrow> p = n div 65536 \<and> s = n mod 65536" for p s n :: nat
proof
  assume "s < 65536" and "p * 65536 + s = n"
  then show "p = n div 65536 \<and> s = n mod 65536" by auto
next
  assume "p = n div 65536 \<and> s = n mod 65536"
  then show "p * 65536 + s = n" by simp
qed

lemma segment_div: "(p * 65536 + unat (s :: u16)) div 65536 = p"
  by simp

lemma ipv6_div:
  fixes s0 s1 s2 s3 s4 s5 s6 s7 :: u16
  defines "x \<equiv> ipv6_bits (Ipv6 s0 s1 s2 s3 s4 s5 s6 s7)"
  shows "x div 2 ^ 32 = ((((unat s0 * 65536 + unat s1) * 65536 + unat s2) * 65536 + unat s3) * 65536 + unat s4) * 65536 + unat s5"
    and "x div 2 ^ 80 = (unat s0 * 65536 + unat s1) * 65536 + unat s2"
    and "x div 2 ^ 96 = unat s0 * 65536 + unat s1"
    and "x div 2 ^ 112 = unat s0"
proof -
  have step: "m = k + 16 \<Longrightarrow> y div 2 ^ k = p * 65536 + unat (s :: u16) \<Longrightarrow> y div 2 ^ m = p" for y k m p :: nat and s
    by (simp add: power_add div_mult2_eq)
  have 0: "x div 2 ^ 0 = ((((((unat s0 * 65536 + unat s1) * 65536 + unat s2) * 65536 + unat s3) * 65536 + unat s4) * 65536 + unat s5) * 65536 + unat s6) * 65536 + unat s7" by (simp only: x_def ipv6_bits.simps power_0 div_by_1)
  have 1: "x div 2 ^ 16 = ((((((unat s0 * 65536 + unat s1) * 65536 + unat s2) * 65536 + unat s3) * 65536 + unat s4) * 65536 + unat s5) * 65536 + unat s6)"
    by (rule step [OF _ 0]) simp
  have 2: "x div 2 ^ 32 = ((((unat s0 * 65536 + unat s1) * 65536 + unat s2) * 65536 + unat s3) * 65536 + unat s4) * 65536 + unat s5"
    by (rule step [OF _ 1]) simp
  have 3: "x div 2 ^ 48 = (((unat s0 * 65536 + unat s1) * 65536 + unat s2) * 65536 + unat s3) * 65536 + unat s4"
    by (rule step [OF _ 2]) simp
  have 4: "x div 2 ^ 64 = ((unat s0 * 65536 + unat s1) * 65536 + unat s2) * 65536 + unat s3"
    by (rule step [OF _ 3]) simp
  have 5: "x div 2 ^ 80 = (unat s0 * 65536 + unat s1) * 65536 + unat s2"
    by (rule step [OF _ 4]) simp
  have 6: "x div 2 ^ 96 = unat s0 * 65536 + unat s1"
    by (rule step [OF _ 5]) simp
  show "x div 2 ^ 112 = unat s0" by (rule step [OF _ 6]) simp
  show "x div 2 ^ 32 = ((((unat s0 * 65536 + unat s1) * 65536 + unat s2) * 65536 + unat s3) * 65536 + unat s4) * 65536 + unat s5"
    by (rule 2)
  show "x div 2 ^ 80 = (unat s0 * 65536 + unat s1) * 65536 + unat s2" by (rule 5)
  show "x div 2 ^ 96 = unat s0 * 65536 + unat s1" by (rule 6)
qed

lemma two_bytes_bits: "ipv4_bits (two_bytes s t) = unat s * 65536 + unat t"
proof -
  have hi: "unat (ucast (drop_bit 8 w) :: u8) = unat w div 256" for w :: u16
  proof -
    have "unat w div 256 < 256" using segment_bound [of w] by linarith
    then show ?thesis by (simp add: unsigned_ucast_eq unsigned_drop_bit_eq drop_bit_eq_div take_bit_eq_mod unat_div_distrib)
  qed
  have lo: "unat (ucast (w AND 0xff) :: u8) = unat w mod 256" for w :: u16
  proof -
    have "w AND 0xff = take_bit 8 w" by (simp add: take_bit_eq_mask mask_numeral)
    then show ?thesis by (simp add: unsigned_ucast_eq unsigned_take_bit_eq take_bit_eq_mod unat_mod_distrib)
  qed
  show ?thesis by (simp add: two_bytes_def hi lo)
qed

lemma nat_and_push: "n AND push_bit k m = push_bit k (drop_bit k n AND m)" for n m :: nat
  by (auto simp: bit_eq_iff bit_simps)

lemma nat_masked: "n div 2 ^ k < 2 ^ j \<Longrightarrow> n AND push_bit k (mask j) = n div 2 ^ k * 2 ^ k" for n k j :: nat
proof -
  assume "n div 2 ^ k < 2 ^ j"
  then have "drop_bit k n AND mask j = n div 2 ^ k"
    by (simp add: drop_bit_eq_div take_bit_nat_eq_self flip: take_bit_eq_mask)
  then show ?thesis unfolding nat_and_push by (simp add: push_bit_eq_mult)
qed

lemma masked:
  "(s :: u16) AND 0xff00 = 0xff00 \<longleftrightarrow> unat s div 256 = 255"
  "s AND 0xfe00 = 0xfc00 \<longleftrightarrow> unat s div 512 = 126"
  "s AND 0xffc0 = 0xfe80 \<longleftrightarrow> unat s div 64 = 1018"
proof -
  have d: "unat s div 2 ^ 8 < 2 ^ 8" "unat s div 2 ^ 9 < 2 ^ 7" "unat s div 2 ^ 6 < 2 ^ 10"
    using segment_bound [of s] by (simp_all add: less_mult_imp_div_less)
  have m: "push_bit 8 (mask 8) = (0xff00 :: nat)" "push_bit 9 (mask 7) = (0xfe00 :: nat)"
    "push_bit 6 (mask 10) = (0xffc0 :: nat)" by (simp_all add: push_bit_eq_mult mask_numeral)
  note n = nat_masked [OF d(1), unfolded m] nat_masked [OF d(2), unfolded m] nat_masked [OF d(3), unfolded m]
  have e: "s AND a = b \<longleftrightarrow> unat s AND unat a = unat b" for a b :: u16
    by (metis unsigned_and_eq word_unat_eq_iff)
  show "s AND 0xff00 = 0xff00 \<longleftrightarrow> unat s div 256 = 255" unfolding e using n(1) by simp
  show "s AND 0xfe00 = 0xfc00 \<longleftrightarrow> unat s div 512 = 126" unfolding e using n(2) by simp
  show "s AND 0xffc0 = 0xfe80 \<longleftrightarrow> unat s div 64 = 1018" unfolding e using n(3) by simp
qed

lemma low_segments: "((p * 65536 + unat (s :: u16)) * 65536 + unat (t :: u16)) mod 2 ^ 32 = unat s * 65536 + unat t"
proof -
  have "unat s * 65536 + unat t < 4294967296" using segment_bound [of s] segment_bound [of t] by linarith
  then have "unat s * 65536 + unat t < 2 ^ 32" by simp
  moreover have "(p * 65536 + unat s) * 65536 + unat t = p * 2 ^ 32 + (unat s * 65536 + unat t)" by simp
  ultimately show ?thesis by (metis mod_less mod_mult_self3)
qed

text \<open>The tests of segments are tests of prefixes.\<close>

lemma segments_prefix:
  fixes s0 s1 s2 s3 s4 s5 s6 s7 :: u16
  defines "x \<equiv> ipv6_bits (Ipv6 s0 s1 s2 s3 s4 s5 s6 s7)"
  shows "in_prefix 128 x (0xffff * 2 ^ 32, 96) \<longleftrightarrow> s0 = 0 \<and> s1 = 0 \<and> s2 = 0 \<and> s3 = 0 \<and> s4 = 0 \<and> s5 = 0xffff"
    and "in_prefix 128 x (0x64ff9b * 2 ^ 96, 96) \<longleftrightarrow> s0 = 0x64 \<and> s1 = 0xff9b \<and> s2 = 0 \<and> s3 = 0 \<and> s4 = 0 \<and> s5 = 0"
    and "in_prefix 128 x (0x2002 * 2 ^ 112, 16) \<longleftrightarrow> s0 = 0x2002"
    and "in_prefix 128 x (0x200100020000 * 2 ^ 80, 48) \<longleftrightarrow> s0 = 0x2001 \<and> s1 = 2 \<and> s2 = 0"
    and "in_prefix 128 x (0x20010db8 * 2 ^ 96, 32) \<longleftrightarrow> s0 = 0x2001 \<and> s1 = 0xdb8"
    and "in_prefix 128 x (0xff00 * 2 ^ 112, 8) \<longleftrightarrow> s0 AND 0xff00 = 0xff00"
    and "in_prefix 128 x (0xfc00 * 2 ^ 112, 7) \<longleftrightarrow> s0 AND 0xfe00 = 0xfc00"
    and "in_prefix 128 x (0xfe80 * 2 ^ 112, 10) \<longleftrightarrow> s0 AND 0xffc0 = 0xfe80"
proof -
  note d = ipv6_div [of s0 s1 s2 s3 s4 s5 s6 s7, folded x_def]
  have len: "(128 :: nat) - 96 = 32" "(128 :: nat) - 48 = 80" "(128 :: nat) - 32 = 96" by simp_all
  show "in_prefix 128 x (0xffff * 2 ^ 32, 96) \<longleftrightarrow> s0 = 0 \<and> s1 = 0 \<and> s2 = 0 \<and> s3 = 0 \<and> s4 = 0 \<and> s5 = 0xffff"
    unfolding in_prefix_def prod.case len d(1) segment_eq [OF segment_bound] by (simp add: word_unat_eq_iff)
  show "in_prefix 128 x (0x64ff9b * 2 ^ 96, 96) \<longleftrightarrow> s0 = 0x64 \<and> s1 = 0xff9b \<and> s2 = 0 \<and> s3 = 0 \<and> s4 = 0 \<and> s5 = 0"
    unfolding in_prefix_def prod.case len d(1) segment_eq [OF segment_bound] by (simp add: word_unat_eq_iff)
  show "in_prefix 128 x (0x2002 * 2 ^ 112, 16) \<longleftrightarrow> s0 = 0x2002"
    using d(4) by (simp add: in_prefix_def word_unat_eq_iff)
  show "in_prefix 128 x (0x200100020000 * 2 ^ 80, 48) \<longleftrightarrow> s0 = 0x2001 \<and> s1 = 2 \<and> s2 = 0"
    unfolding in_prefix_def prod.case len d(2) segment_eq [OF segment_bound] by (simp add: word_unat_eq_iff)
  show "in_prefix 128 x (0x20010db8 * 2 ^ 96, 32) \<longleftrightarrow> s0 = 0x2001 \<and> s1 = 0xdb8"
    unfolding in_prefix_def prod.case len d(3) segment_eq [OF segment_bound] by (simp add: word_unat_eq_iff)
  have part: "x div 2 ^ (112 + k) = unat s0 div 2 ^ k" for k using d(4) by (simp only: power_add div_mult2_eq)
  show "in_prefix 128 x (0xff00 * 2 ^ 112, 8) \<longleftrightarrow> s0 AND 0xff00 = 0xff00"
    using part [of 8] unfolding masked by (simp add: in_prefix_def)
  show "in_prefix 128 x (0xfc00 * 2 ^ 112, 7) \<longleftrightarrow> s0 AND 0xfe00 = 0xfc00"
    using part [of 9] unfolding masked by (simp add: in_prefix_def)
  show "in_prefix 128 x (0xfe80 * 2 ^ 112, 10) \<longleftrightarrow> s0 AND 0xffc0 = 0xfe80"
    using part [of 6] unfolding masked by (simp add: in_prefix_def)
qed

lemma whole_prefix: "in_prefix 128 x (n, 128) \<longleftrightarrow> x = n"
  by (simp add: in_prefix_def)

lemma single_addresses:
  fixes s0 s1 s2 s3 s4 s5 s6 s7 :: u16
  shows "ipv6_bits (Ipv6 s0 s1 s2 s3 s4 s5 s6 s7) = 0 \<longleftrightarrow>
      s0 = 0 \<and> s1 = 0 \<and> s2 = 0 \<and> s3 = 0 \<and> s4 = 0 \<and> s5 = 0 \<and> s6 = 0 \<and> s7 = 0"
    and "ipv6_bits (Ipv6 s0 s1 s2 s3 s4 s5 s6 s7) = 1 \<longleftrightarrow>
      s0 = 0 \<and> s1 = 0 \<and> s2 = 0 \<and> s3 = 0 \<and> s4 = 0 \<and> s5 = 0 \<and> s6 = 0 \<and> s7 = 1"
    and "ipv6_bits (Ipv6 s0 s1 s2 s3 s4 s5 s6 s7) = 0x100 * 2 ^ 112 \<longleftrightarrow>
      s0 = 0x100 \<and> s1 = 0 \<and> s2 = 0 \<and> s3 = 0 \<and> s4 = 0 \<and> s5 = 0 \<and> s6 = 0 \<and> s7 = 0"
  unfolding ipv6_bits.simps segment_eq [OF segment_bound] by (simp_all add: word_unat_eq_iff)

lemma carried_segments:
  "carried_v4 (ipv6_bits (Ipv6 s0 s1 s2 s3 s4 s5 s6 s7)) =
     (if (s0 = 0 \<and> s1 = 0 \<and> s2 = 0 \<and> s3 = 0 \<and> s4 = 0 \<and> s5 = 0xffff)
         \<or> (s0 = 0x64 \<and> s1 = 0xff9b \<and> s2 = 0 \<and> s3 = 0 \<and> s4 = 0 \<and> s5 = 0)
      then Some (ipv4_bits (two_bytes s6 s7))
      else if s0 = 0x2002 then Some (ipv4_bits (two_bytes s1 s2)) else None)"
proof -
  let ?x = "ipv6_bits (Ipv6 s0 s1 s2 s3 s4 s5 s6 s7)"
  have "?x mod 2 ^ 32 = ipv4_bits (two_bytes s6 s7)" unfolding ipv6_bits.simps two_bytes_bits by (rule low_segments)
  moreover have "?x div 2 ^ 80 mod 2 ^ 32 = ipv4_bits (two_bytes s1 s2)"
    unfolding ipv6_div two_bytes_bits by (rule low_segments)
  ultimately show ?thesis unfolding carried_v4_def segments_prefix by (simp only:)
qed


text \<open>The comment on the last of these prefixes names 100::/64, of which only one address is refused.\<close>

lemma discard_prefix_partly_open:
  "is_restricted_ip (V6 (Ipv6 0x100 0 0 0 s4 s5 s6 s7)) \<longleftrightarrow> s4 = 0 \<and> s5 = 0 \<and> s6 = 0 \<and> s7 = 0"
  by simp

section \<open>Connections\<close>

text \<open>A connection is pinned: it goes to the host and port of its URL, at an address that is not refused
  and that was written in the URL or comes from one answer of the name server without refused
  addresses.\<close>

definition pinned :: "fetch_env \<Rightarrow> connection \<Rightarrow> bool" where
  "pinned env c \<longleftrightarrow>
     \<not> is_restricted_ip (cn_addr c)
     \<and> (\<exists>u. target_of env (cn_url c) = Inr (u, cn_host c, cn_port c))
     \<and> (parse_ip (cn_host c) = Some (cn_addr c)
        \<or> (\<exists>n addrs. fe_lookup env n (cn_host c) (cn_port c) = Inr addrs \<and> cn_addr c \<in> set addrs
             \<and> list_all (\<lambda>a. \<not> is_restricted_ip a) addrs))"

lemma resolve_public_result:
  assumes "resolve_public env host port st = (res, st')"
  shows "ft_sent st' = ft_sent st" and "ft_lookups st' \<le> ft_lookups st + 1"
    and "res = Inr addrs \<Longrightarrow> a \<in> set addrs \<Longrightarrow> \<not> is_restricted_ip a
      \<and> (parse_ip host = Some a \<or> (\<exists>n. fe_lookup env n host port = Inr addrs \<and> list_all (\<lambda>a. \<not> is_restricted_ip a) addrs))"
  using assms
  by (auto simp: resolve_public_def list_ex_iff list_all_iff split: option.splits sum.splits if_splits)

lemma try_addresses_sent:
  assumes "try_addresses env proxy current host port addrs e st = (res, st')"
  shows "\<exists>cs. ft_sent st' = ft_sent st @ cs \<and> ft_lookups st' = ft_lookups st
    \<and> (\<forall>c\<in>set cs. cn_addr c \<in> set addrs \<and> cn_host c = host \<and> cn_port c = port \<and> cn_proxy c = proxy \<and> cn_url c = current)
    \<and> (cs = [] \<longrightarrow> (\<exists>e. res = Inl e))"
  using assms
proof (induction addrs arbitrary: e st)
  case (Cons a addrs)
  let ?c = "\<lparr>cn_host = host, cn_port = port, cn_addr = a, cn_proxy = proxy, cn_url = current\<rparr>"
  let ?st = "st\<lparr>ft_sent := ft_sent st @ [?c]\<rparr>"
  consider (refused) e' where "st' = st" "res = Inl e'"
    | (answered) resp where "st' = ?st" "res = Inr resp"
    | (failed) e' where "try_addresses env proxy current host port addrs e' ?st = (res, st')"
  proof (cases "fe_client env proxy")
    case (Inl e')
    with Cons.prems have "st' = st" "res = Inl e'" by simp_all
    then show ?thesis by (rule that(1))
  next
    case (Inr k)
    show ?thesis
    proof (cases "fe_send env (ft_sent st) ?c")
      case (Inl e')
      with Cons.prems Inr show ?thesis by (intro that(3) [of e']) (simp add: Let_def)
    next
      case (Inr resp)
      with Cons.prems \<open>fe_client env proxy = Inr k\<close> have "st' = ?st" "res = Inr resp" by (simp_all add: Let_def)
      then show ?thesis by (rule that(2))
    qed
  qed
  then show ?case
  proof cases
    case refused then show ?thesis by simp
  next
    case answered then show ?thesis by (intro exI [of _ "[?c]"]) simp
  next
    case failed
    from Cons.IH [OF failed] obtain cs where "ft_sent st' = ft_sent st @ ?c # cs" "ft_lookups st' = ft_lookups st"
      "\<forall>c\<in>set cs. cn_addr c \<in> set addrs \<and> cn_host c = host \<and> cn_port c = port \<and> cn_proxy c = proxy \<and> cn_url c = current"
      by auto
    then show ?thesis by (intro exI [of _ "?c # cs"]) simp
  qed
qed auto

lemma fetch_hop_sent:
  assumes "fetch_hop env proxy current st = (res, st')"
  shows "\<exists>cs. ft_sent st' = ft_sent st @ cs \<and> ft_lookups st' \<le> ft_lookups st + 1
    \<and> (\<forall>c\<in>set cs. pinned env c \<and> cn_proxy c = proxy \<and> cn_url c = current) \<and> (cs = [] \<longrightarrow> (\<exists>e. res = Inl e))"
proof (cases "target_of env current")
  case (Inl e)
  with assms show ?thesis by (auto simp: fetch_hop_def)
next
  case (Inr t)
  obtain u host port where t: "t = (u, host, port)" by (cases t)
  obtain r st1 where r: "resolve_public env host port st = (r, st1)" by (cases "resolve_public env host port st")
  note known = resolve_public_result [OF r]
  show ?thesis
  proof (cases r)
    case (Inl e)
    with assms Inr t r known show ?thesis by (auto simp: fetch_hop_def then_fetch_def)
  next
    case (Inr addrs)
    obtain q st2 where q: "try_addresses env proxy current host port addrs ''no usable address'' st1 = (q, st2)"
      by (cases "try_addresses env proxy current host port addrs ''no usable address'' st1")
    from try_addresses_sent [OF q] obtain cs where cs: "ft_sent st2 = ft_sent st1 @ cs" "ft_lookups st2 = ft_lookups st1"
      "\<forall>c\<in>set cs. cn_addr c \<in> set addrs \<and> cn_host c = host \<and> cn_port c = port \<and> cn_proxy c = proxy \<and> cn_url c = current"
      "cs = [] \<longrightarrow> (\<exists>e. q = Inl e)" by blast
    have "st' = st2" "(\<exists>e. q = Inl e) \<longrightarrow> (\<exists>e. res = Inl e)"
      using assms \<open>target_of env current = Inr t\<close> t r Inr q by (auto simp: fetch_hop_def then_fetch_def split: sum.splits)
    moreover have "\<forall>c\<in>set cs. pinned env c"
      using cs(3) known(3) [OF Inr] \<open>target_of env current = Inr t\<close> t by (auto simp: pinned_def)
    ultimately show ?thesis using cs known(1,2) by auto
  qed
qed

lemma fetch_rounds_sent:
  assumes "fetch_rounds env proxy n current st = (res, st')"
  shows "\<exists>cs. ft_sent st' = ft_sent st @ cs \<and> ft_lookups st' \<le> ft_lookups st + n
    \<and> (\<forall>c\<in>set cs. pinned env c \<and> cn_proxy c = proxy \<and> (proxy \<noteq> None \<longrightarrow> cn_url c = current))
    \<and> (\<forall>resp final. res = Inr (resp, final) \<longrightarrow> cs \<noteq> [] \<and> cn_url (last cs) = final
         \<and> (proxy = None \<longrightarrow> \<not> is_redirection (fa_status resp)))"
  using assms
proof (induction n arbitrary: current st)
  case 0
  then show ?case by auto
next
  case (Suc n)
  obtain r st1 where r: "fetch_hop env proxy current st = (r, st1)" by (cases "fetch_hop env proxy current st")
  from fetch_hop_sent [OF r] obtain cs where cs: "ft_sent st1 = ft_sent st @ cs" "ft_lookups st1 \<le> ft_lookups st + 1"
    "\<forall>c\<in>set cs. pinned env c \<and> cn_proxy c = proxy \<and> cn_url c = current" "cs = [] \<longrightarrow> (\<exists>e. r = Inl e)" by blast
  consider (stop) e where "res = Inl e" "st' = st1"
    | (final) u resp where "r = Inr (u, resp)" "res = Inr (resp, current)" "st' = st1" "proxy = None \<longrightarrow> \<not> is_redirection (fa_status resp)"
    | (onward) next_url where "proxy = None" "fetch_rounds env proxy n next_url st1 = (res, st')"
    using Suc.prems r by (auto simp: then_fetch_def split: sum.splits if_splits)
  then show ?case
  proof cases
    case stop
    with cs show ?thesis by (intro exI [of _ cs]) simp
  next
    case final
    then have "cs \<noteq> []" using cs(4) by auto
    with final cs show ?thesis by (intro exI [of _ cs]) simp
  next
    case onward
    from Suc.IH [OF onward(2)] obtain ds where ds: "ft_sent st' = ft_sent st1 @ ds" "ft_lookups st' \<le> ft_lookups st1 + n"
      "\<forall>c\<in>set ds. pinned env c \<and> cn_proxy c = proxy"
      "\<forall>resp final. res = Inr (resp, final) \<longrightarrow> ds \<noteq> [] \<and> cn_url (last ds) = final \<and> \<not> is_redirection (fa_status resp)"
      using onward(1) by auto
    with cs onward(1) show ?thesis by (intro exI [of _ "cs @ ds"]) auto
  qed
qed


section \<open>Witnesses\<close>

text \<open>A server that redirects to an address of the local network, and one that redirects five times.\<close>

definition demo_page :: "string \<Rightarrow> url" where
  "demo_page host = \<lparr>url_text = host, url_scheme = ''http'', url_host = Some host, url_port = Some 80, url_query = []\<rparr>"

definition demo_fetch :: "nat \<Rightarrow> string \<Rightarrow> fetch_env" where
  "demo_fetch hops target =
     \<lparr>fe_parse = (\<lambda>s. Inr (demo_page s)), fe_join = (\<lambda>_ s. Inr (demo_page s)),
      fe_lookup = (\<lambda>_ _ _. Inr [V4 (Ipv4 8 8 8 8)]), fe_client = (\<lambda>_. Inr ()),
      fe_send = (\<lambda>cs _. if length cs < hops then Inr \<lparr>fa_status = 302, fa_headers = [(''location'', target)]\<rparr>
                         else Inr \<lparr>fa_status = 200, fa_headers = []\<rparr>)\<rparr>"

lemma five_rounds: "MAX_FETCH_REDIRECTS = Suc (Suc (Suc (Suc (Suc 0))))"
  by (simp add: MAX_FETCH_REDIRECTS_def)

lemmas fetch_simps = secure_get_proxied_def five_rounds fetch_hop_def target_of_def then_fetch_def
  resolve_public_def redirect_target_def is_redirection_def header_get_def header_str_def

lemma demo_literal: "parse_ip ''10.0.0.1'' = Some (V4 (Ipv4 10 0 0 1))" "parse_ip ''example'' = None"
  by (simp_all add: parse_ip_def parse_ipv4_def parse_octet_def parse_ipv6_def groups_of_def parse_group_def
      is_ascii_digit_def digits_val_def digit_val_def is_hex_def ascii_lower_def)


text \<open>The constant speaks of five redirects; the fifth is refused.\<close>

lemma fifth_redirect_refused:
  "fst (secure_get_proxied (demo_fetch 4 ''example'') None ''example'' \<lparr>ft_lookups = 0, ft_sent = []\<rparr>)
       = Inr (\<lparr>fa_status = 200, fa_headers = []\<rparr>, ''example'')
   \<and> fst (secure_get_proxied (demo_fetch 5 ''example'') None ''example'' \<lparr>ft_lookups = 0, ft_sent = []\<rparr>)
       = Inl ''too many redirects''"
  by (simp add: fetch_simps demo_fetch_def demo_page_def demo_literal is_restricted_ipv4_def
      within_def less_eq_ipv4_def to_ascii_lowercase_def ascii_lower_def)

end
