(* ===== verification/Web_Gate.thy ===== *)
theory Web_Gate
  imports Web_Ssrf
begin

text \<open>
  Who may call the local web interface (\<open>web/host.rs\<close>, \<open>web/auth.rs\<close>, \<open>web/mod.rs\<close>): the check of the
  Host header against names that point to somewhere else, the token every protected path wants, and the
  table of routes. The layers are those of \<open>build_router\<close>: the token is checked first, then the host,
  then the handler runs.
\<close>

section \<open>The Host header\<close>

datatype host_policy = LoopbackOnly | AllowAny

fun is_loopback :: "ip_addr \<Rightarrow> bool" where
  "is_loopback (V4 a) = is_loopback4 a"
| "is_loopback (V6 a) = (a = Ipv6 0 0 0 0 0 0 0 1)"

definition from_bind_ip :: "ip_addr \<Rightarrow> host_policy" where
  "from_bind_ip ip = (if is_loopback ip then LoopbackOnly else AllowAny)"

definition long_loopback :: string where
  "long_loopback = ''0:0:0:0:0:0:0:1''"

definition bracketed_loopback :: "string \<Rightarrow> bool" where
  "bracketed_loopback rest =
     (case split_once CHR '']'' rest of
        None \<Rightarrow> False
      | Some (inner, tail) \<Rightarrow>
          (tail = [] \<or> (1 < length tail \<and> starts_with tail '':'' \<and> list_all is_ascii_digit (tl tail)))
          \<and> (inner = ''::1'' \<or> eq_ignore_ascii_case inner long_loopback))"

definition host_without_port :: "string \<Rightarrow> string" where
  "host_without_port host =
     (case rsplit_once CHR '':'' host of
        Some (h, port) \<Rightarrow> if port \<noteq> [] \<and> list_all is_ascii_digit port then h else host
      | None \<Rightarrow> host)"

definition is_trusted_loopback_host :: "string \<Rightarrow> bool" where
  "is_trusted_loopback_host raw =
     (let host = trim raw
      in if host = [] then False
         else if host = ''::1'' \<or> eq_ignore_ascii_case host long_loopback then True
         else case strip_prefix host ''['' of
                Some rest \<Rightarrow> bracketed_loopback rest
              | None \<Rightarrow>
                  let host_part = host_without_port host
                  in host_part = ''127.0.0.1'' \<or> host_part = ''::1'' \<or> eq_ignore_ascii_case host_part ''localhost'')"

section \<open>Requests\<close>

text \<open>The headers by their lower case name, the first value of each.\<close>

record web_request =
  wr_method :: string
  wr_path :: string
  wr_query :: "string option"
  wr_headers :: header_map

datatype web_answer = HandlerRuns | UnauthorizedAnswer | ForbiddenHostAnswer

definition validate_host :: "host_policy \<Rightarrow> web_request \<Rightarrow> (web_request \<Rightarrow> web_answer) \<Rightarrow> web_answer" where
  "validate_host policy rq handler =
     (case (policy, map_of (wr_headers rq) ''host'') of
        (LoopbackOnly, Some host) \<Rightarrow>
          if is_trusted_loopback_host (case header_str host of Some h \<Rightarrow> h | None \<Rightarrow> [])
          then handler rq else ForbiddenHostAnswer
      | _ \<Rightarrow> handler rq)"

section \<open>The token\<close>

text \<open>Every byte of both texts is read, those past the end of one as zero.\<close>

definition byte_or_zero :: "string \<Rightarrow> nat \<Rightarrow> nat" where
  "byte_or_zero s i = (if i < length s then byte (s ! i) else 0)"

definition constant_time_eq :: "string \<Rightarrow> string \<Rightarrow> bool" where
  "constant_time_eq a b =
     (fold (\<lambda>i diff. diff OR (byte_or_zero a i XOR byte_or_zero b i)) [0..<max (length a) (length b)]
        (length a XOR length b) = 0)"

definition nonempty :: "string \<Rightarrow> string option" where
  "nonempty t = (if t = [] then None else Some t)"

definition token_from_query :: "string option \<Rightarrow> string option" where
  "token_from_query query =
     Option.bind query (\<lambda>q.
       case List.map_filter (\<lambda>kv. strip_prefix kv ''token='') (split_on CHR ''&'' q) of
         [] \<Rightarrow> None
       | t # _ \<Rightarrow> nonempty (trim t))"

definition token_of :: "web_request \<Rightarrow> string option" where
  "token_of rq =
     (if starts_with (wr_path rq) ''/ws'' then token_from_query (wr_query rq)
      else case Option.bind (header_get (wr_headers rq) ''x-auth-token'') (\<lambda>v. nonempty (trim v)) of
             Some t \<Rightarrow> Some t
           | None \<Rightarrow>
               map_option trim (Option.bind (header_get (wr_headers rq) ''authorization'')
                                  (\<lambda>v. strip_prefix v ''Bearer '')))"

definition open_prefixes :: "string list" where
  "open_prefixes = [''/api/background/'', ''/api/debug/screenshot/'']"

definition open_paths :: "string list" where
  "open_paths =
     [''/api/ai/capture/screenshot'', ''/api/repo/image'', ''/api/tools/task-recorder.user.js'',
      ''/api/docs/task-writing-guide'', ''/api/docs/task-manual'', ''/api/docs/http-login-guide'',
      ''/api/system/info'', ''/api/monitor/status'']"

definition needs_no_token :: "web_request \<Rightarrow> bool" where
  "needs_no_token rq \<longleftrightarrow>
     (\<not> starts_with (wr_path rq) ''/api'' \<and> \<not> starts_with (wr_path rq) ''/ws'')
     \<or> wr_method rq = ''OPTIONS''
     \<or> wr_path rq = ''/api/auth/token'' \<or> wr_path rq = ''/api/health''
     \<or> (wr_method rq = ''GET''
         \<and> (list_ex (starts_with (wr_path rq)) open_prefixes \<or> wr_path rq \<in> set open_paths))"

definition auth_middleware :: "string \<Rightarrow> web_request \<Rightarrow> (web_request \<Rightarrow> web_answer) \<Rightarrow> web_answer" where
  "auth_middleware expected rq handler =
     (if needs_no_token rq then handler rq
      else case token_of rq of
             Some token \<Rightarrow> if constant_time_eq token expected then handler rq else UnauthorizedAnswer
           | None \<Rightarrow> UnauthorizedAnswer)"

definition serve :: "host_policy \<Rightarrow> string \<Rightarrow> web_request \<Rightarrow> web_answer" where
  "serve policy expected rq = auth_middleware expected rq (\<lambda>rq. validate_host policy rq (\<lambda>_. HandlerRuns))"

section \<open>The token file\<close>

definition valid_token :: "string \<Rightarrow> bool" where
  "valid_token token \<longleftrightarrow> 32 \<le> length token \<and> length token \<le> 128 \<and> list_all is_hex token"

text \<open>The file of the token as it is on disk; a write may fail. The second result is the file after.\<close>

definition load_or_create_token ::
  "string option \<Rightarrow> string \<Rightarrow> (string \<Rightarrow> bool) \<Rightarrow> (string + string) \<times> string option"
where
  "load_or_create_token file fresh written =
     (case file of
        Some text \<Rightarrow>
          if valid_token (trim text) then (Inr (trim text), file)
          else if written fresh then (Inr fresh, Some fresh) else (Inl ''cannot write'', file)
      | None \<Rightarrow> if written fresh then (Inr fresh, Some fresh) else (Inl ''cannot write'', None))"

definition read_token_file :: "string option \<Rightarrow> string option" where
  "read_token_file file = Option.bind file (\<lambda>text. nonempty (trim text))"

section \<open>Routes\<close>

definition route_table :: "(string \<times> string) list" where
  "route_table =
     [(''GET'', ''/api/network/interfaces''),
      (''GET'', ''/api/monitor/status''),
      (''POST'', ''/api/monitor/test''),
      (''POST'', ''/api/monitor/start''),
      (''POST'', ''/api/monitor/stop''),
      (''POST'', ''/api/monitor/test-redirect''),
      (''GET'', ''/api/config''),
      (''PATCH'', ''/api/config''),
      (''POST'', ''/api/config/reload''),
      (''GET'', ''/api/config/log-levels''),
      (''PUT'', ''/api/config/log-level''),
      (''GET'', ''/api/config/default-stealth-script''),
      (''GET'', ''/api/pure-mode''),
      (''POST'', ''/api/pure-mode''),
      (''GET'', ''/api/profiles''),
      (''GET'', ''/api/profiles/{id}''),
      (''GET'', ''/api/profiles/{id}/export''),
      (''POST'', ''/api/profiles/import''),
      (''POST'', ''/api/profiles/{id}''),
      (''PUT'', ''/api/profiles/{id}''),
      (''DELETE'', ''/api/profiles/{id}''),
      (''POST'', ''/api/profiles/switch''),
      (''POST'', ''/api/profiles/detect''),
      (''POST'', ''/api/profiles/auto-switch''),
      (''GET'', ''/api/tasks''),
      (''POST'', ''/api/tasks''),
      (''POST'', ''/api/http-tasks/test''),
      (''POST'', ''/api/tasks/import''),
      (''POST'', ''/api/tasks/order''),
      (''GET'', ''/api/tasks/export/{id}''),
      (''GET'', ''/api/tasks/{id}''),
      (''PUT'', ''/api/tasks/{id}''),
      (''DELETE'', ''/api/tasks/{id}''),
      (''POST'', ''/api/tasks/{id}/execute''),
      (''GET'', ''/api/repo/fetch''),
      (''GET'', ''/api/repo/task''),
      (''GET'', ''/api/repo/image''),
      (''POST'', ''/api/login''),
      (''POST'', ''/api/login/cancel''),
      (''GET'', ''/api/login/status''),
      (''POST'', ''/api/login/once''),
      (''POST'', ''/api/debug/start''),
      (''POST'', ''/api/debug/step''),
      (''POST'', ''/api/debug/stop''),
      (''POST'', ''/api/debug/run-all''),
      (''GET'', ''/api/debug/status''),
      (''POST'', ''/api/debug/feedback-bundle''),
      (''GET'', ''/api/debug/screenshot/{filename}''),
      (''GET'', ''/api/scheduler/jobs''),
      (''POST'', ''/api/scheduler/jobs''),
      (''PUT'', ''/api/scheduler/jobs/{id}''),
      (''DELETE'', ''/api/scheduler/jobs/{id}''),
      (''POST'', ''/api/scheduler/jobs/{id}/toggle''),
      (''POST'', ''/api/scheduler/jobs/{id}/run''),
      (''GET'', ''/api/scheduler/jobs/{id}/history''),
      (''GET'', ''/api/history''),
      (''DELETE'', ''/api/history''),
      (''GET'', ''/api/system/info''),
      (''POST'', ''/api/system/shutdown''),
      (''POST'', ''/api/system/restart''),
      (''POST'', ''/api/system/update''),
      (''POST'', ''/api/system/update-package''),
      (''GET'', ''/api/check-update''),
      (''GET'', ''/api/update-state''),
      (''GET'', ''/api/health''),
      (''GET'', ''/api/init-status''),
      (''POST'', ''/api/agree''),
      (''GET'', ''/api/logs''),
      (''GET'', ''/api/logs/export''),
      (''GET'', ''/api/browsers''),
      (''POST'', ''/api/worker/stop''),
      (''POST'', ''/api/install/playwright''),
      (''POST'', ''/api/environment/bootstrap''),
      (''GET'', ''/api/uninstall/detect''),
      (''POST'', ''/api/uninstall''),
      (''POST'', ''/api/uninstall/purge''),
      (''GET'', ''/api/background/{filename}''),
      (''POST'', ''/api/background/upload''),
      (''POST'', ''/api/background/fetch-url''),
      (''DELETE'', ''/api/background/{filename}''),
      (''GET'', ''/api/docs/task-writing-guide''),
      (''GET'', ''/api/docs/task-manual''),
      (''GET'', ''/api/docs/http-login-guide''),
      (''GET'', ''/api/autostart/status''),
      (''POST'', ''/api/autostart/enable''),
      (''POST'', ''/api/autostart/disable''),
      (''GET'', ''/api/ai/llm-config''),
      (''PUT'', ''/api/ai/llm-config''),
      (''POST'', ''/api/ai/llm-config/test''),
      (''POST'', ''/api/ai/models''),
      (''POST'', ''/api/ai/capture''),
      (''GET'', ''/api/ai/capture/status''),
      (''GET'', ''/api/ai/capture/screenshot''),
      (''GET'', ''/api/ai/capture/bundle''),
      (''POST'', ''/api/ai/generate/stream''),
      (''POST'', ''/api/ocr/recognize''),
      (''GET'', ''/api/ocr/status''),
      (''POST'', ''/api/ocr/install''),
      (''POST'', ''/api/ocr/uninstall''),
      (''POST'', ''/api/scripts/run''),
      (''GET'', ''/api/scripts/binaries''),
      (''GET'', ''/api/scripts/{task_id}''),
      (''PUT'', ''/api/scripts/{task_id}''),
      (''DELETE'', ''/api/scripts/{task_id}''),
      (''GET'', ''/api/tools/task-recorder.user.js''),
      (''GET'', ''/api/auth/token'')]"

end
