(* ===== verification/Web_Gate_Props.thy ===== *)
theory Web_Gate_Props
  imports Web_Gate
begin

text \<open>
  What the gate of the web interface keeps out: requests under a foreign host name, requests without the
  token, and which routes are open without one.
\<close>

section \<open>Comparing the token\<close>

lemma fold_or_zero:
  "fold (\<lambda>i diff. diff OR f i) is d = 0 \<longleftrightarrow> d = 0 \<and> (\<forall>i\<in>set is. f i = 0)" for f :: "nat \<Rightarrow> nat"
  by (induction "is" arbitrary: d) (auto simp: or_eq_0_iff)

lemma fold_keep: "fold (\<lambda>i d. d) is d = d"
  by (induction "is") simp_all

lemma constant_time_eq_iff: "constant_time_eq a b \<longleftrightarrow> a = b"
proof
  assume "constant_time_eq a b"
  then have l: "length a XOR length b = 0"
    and z: "\<forall>i<max (length a) (length b). byte_or_zero a i XOR byte_or_zero b i = 0"
    by (auto simp: constant_time_eq_def fold_or_zero)
  from l have len: "length a = length b" by (metis xor.assoc xor.left_neutral xor.right_neutral xor_self_eq)
  show "a = b"
  proof (rule nth_equalityI [OF len])
    fix i assume i: "i < length a"
    with z len have "byte_or_zero a i XOR byte_or_zero b i = 0" by simp
    then have "byte_or_zero a i = byte_or_zero b i" by (metis xor.assoc xor.left_neutral xor.right_neutral xor_self_eq)
    with i len show "a ! i = b ! i" by (simp add: byte_or_zero_def)
  qed
next
  assume "a = b"
  then show "constant_time_eq a b" by (simp add: constant_time_eq_def fold_keep)
qed

section \<open>Host names that mean this computer\<close>

definition port_text :: "string \<Rightarrow> bool" where
  "port_text p \<longleftrightarrow> p = [] \<or> (\<exists>ds. p = CHR '':'' # ds \<and> ds \<noteq> [] \<and> list_all is_ascii_digit ds)"

definition loopback_name :: "string \<Rightarrow> bool" where
  "loopback_name name \<longleftrightarrow>
     name = ''127.0.0.1'' \<or> name = ''::1'' \<or> eq_ignore_ascii_case name ''localhost''
     \<or> (\<exists>inner. name = ''['' @ inner @ '']'' \<and> (inner = ''::1'' \<or> eq_ignore_ascii_case inner long_loopback))"

definition loopback_authority :: "string \<Rightarrow> bool" where
  "loopback_authority s \<longleftrightarrow>
     eq_ignore_ascii_case s long_loopback \<or> (\<exists>name port. s = name @ port \<and> loopback_name name \<and> port_text port)"

lemma eq_ignore_ascii_case_set: "eq_ignore_ascii_case s t \<Longrightarrow> c \<in> set s \<Longrightarrow> ascii_lower c \<in> ascii_lower ` set t"
  unfolding eq_ignore_ascii_case_def to_ascii_lowercase_def by (metis image_eqI list.set_map)

lemma localhost_free:
  assumes "eq_ignore_ascii_case name ''localhost''"
  shows "CHR '':'' \<notin> set name" and "name \<noteq> []" and "hd name \<noteq> CHR ''[''"
proof -
  note s = eq_ignore_ascii_case_set [OF assms]
  show "CHR '':'' \<notin> set name" using s [of "CHR '':''"] by (auto simp: ascii_lower_def)
  show "name \<noteq> []" using assms by (auto simp: eq_ignore_ascii_case_def to_ascii_lowercase_def)
  with s [of "hd name"] show "hd name \<noteq> CHR ''[''" by (auto simp: ascii_lower_def)
qed

lemma long_loopback_free:
  assumes "eq_ignore_ascii_case inner long_loopback"
  shows "CHR '']'' \<notin> set inner" and "inner \<noteq> []"
proof -
  show "CHR '']'' \<notin> set inner" using eq_ignore_ascii_case_set [OF assms, of "CHR '']''"]
    by (auto simp: ascii_lower_def long_loopback_def)
  show "inner \<noteq> []" using assms by (auto simp: eq_ignore_ascii_case_def to_ascii_lowercase_def long_loopback_def)
qed

lemma digits_no_colon: "list_all is_ascii_digit ds \<Longrightarrow> CHR '':'' \<notin> set ds"
  by (auto simp: list_all_iff is_ascii_digit_def)

lemma host_without_port_append:
  assumes "port_text port" and "CHR '':'' \<notin> set name \<or> port \<noteq> []"
  shows "host_without_port (name @ port) = name"
proof (cases "port = []")
  case True
  with assms(2) have "rsplit_once CHR '':'' name = None" by simp
  with True show ?thesis by (simp only: host_without_port_def append_Nil2 option.case)
next
  case False
  with assms(1) obtain ds where ds: "port = CHR '':'' # ds" "ds \<noteq> []" "list_all is_ascii_digit ds"
    by (auto simp: port_text_def)
  then have "rsplit_once CHR '':'' (name @ port) = Some (name, ds)" using digits_no_colon by simp
  with ds show ?thesis by (simp add: host_without_port_def)
qed

lemma host_without_port_split: "\<exists>port. host = host_without_port host @ port \<and> port_text port"
  by (auto simp: host_without_port_def port_text_def rsplit_once_Some split: option.splits if_splits)

lemma bracketed_loopback_iff:
  "bracketed_loopback rest \<longleftrightarrow>
     (\<exists>inner port. rest = inner @ CHR '']'' # port \<and> (inner = ''::1'' \<or> eq_ignore_ascii_case inner long_loopback)
        \<and> port_text port)"
proof
  assume "bracketed_loopback rest"
  then obtain inner tail where i: "split_once CHR '']'' rest = Some (inner, tail)"
    and t: "tail = [] \<or> (1 < length tail \<and> starts_with tail '':'' \<and> list_all is_ascii_digit (tl tail))"
    and n: "inner = ''::1'' \<or> eq_ignore_ascii_case inner long_loopback"
    by (auto simp: bracketed_loopback_def split: option.splits)
  from t have "port_text tail" by (cases tail) (auto simp: port_text_def)
  with i n show "\<exists>inner port. rest = inner @ CHR '']'' # port \<and> (inner = ''::1'' \<or> eq_ignore_ascii_case inner long_loopback)
        \<and> port_text port" by (auto simp: split_once_Some)
next
  assume "\<exists>inner port. rest = inner @ CHR '']'' # port \<and> (inner = ''::1'' \<or> eq_ignore_ascii_case inner long_loopback)
        \<and> port_text port"
  then obtain inner port where r: "rest = inner @ CHR '']'' # port" and p: "port_text port"
    and n: "inner = ''::1'' \<or> eq_ignore_ascii_case inner long_loopback" by blast
  then have "CHR '']'' \<notin> set inner" using long_loopback_free(1) by auto
  then have "split_once CHR '']'' rest = Some (inner, port)" by (simp add: r)
  moreover from p have "port = [] \<or> (1 < length port \<and> starts_with port '':'' \<and> list_all is_ascii_digit (tl port))"
    by (auto simp: port_text_def)
  ultimately show "bracketed_loopback rest" using n by (simp add: bracketed_loopback_def)
qed

lemma trusted_host_iff: "is_trusted_loopback_host raw \<longleftrightarrow> loopback_authority (trim raw)"
proof
  assume t: "is_trusted_loopback_host raw"
  let ?h = "trim raw"
  consider "?h = ''::1''" | "eq_ignore_ascii_case ?h long_loopback"
    | rest where "?h = CHR ''['' # rest" "bracketed_loopback rest"
    | "loopback_name (host_without_port ?h)"
    using t by (auto simp: is_trusted_loopback_host_def Let_def loopback_name_def strip_prefix_Some split: if_splits option.splits)
  then show "loopback_authority ?h"
  proof cases
    case 1
    then show ?thesis unfolding loopback_authority_def
      by (intro disjI2 exI [of _ "''::1''"] exI [of _ "[]"]) (simp add: loopback_name_def port_text_def)
  next
    case 3
    then obtain inner port where "rest = inner @ CHR '']'' # port" "port_text port"
      "inner = ''::1'' \<or> eq_ignore_ascii_case inner long_loopback" by (auto simp: bracketed_loopback_iff)
    then show ?thesis unfolding loopback_authority_def using 3(1)
      by (intro disjI2 exI [of _ "''['' @ inner @ '']''"] exI [of _ port]) (auto simp: loopback_name_def)
  next
    case 4
    then show ?thesis unfolding loopback_authority_def using host_without_port_split by blast
  qed (simp add: loopback_authority_def)
next
  assume "loopback_authority (trim raw)"
  then consider "eq_ignore_ascii_case (trim raw) long_loopback"
    | name port where "trim raw = name @ port" "loopback_name name" "port_text port"
    by (auto simp: loopback_authority_def)
  then show "is_trusted_loopback_host raw"
  proof cases
    case 1
    then show ?thesis using long_loopback_free(2) by (auto simp: is_trusted_loopback_host_def Let_def)
  next
    case 2
    then consider (addr) "name = ''127.0.0.1''" | (six) "name = ''::1''" | (local) "eq_ignore_ascii_case name ''localhost''"
      | (bracket) inner where "name = CHR ''['' # inner @ '']''" "inner = ''::1'' \<or> eq_ignore_ascii_case inner long_loopback"
      by (auto simp: loopback_name_def)
    then show ?thesis
    proof cases
      case addr
      then have "host_without_port (trim raw) = name" using 2 by (simp only:) (rule host_without_port_append, auto)
      moreover have "strip_prefix (trim raw) ''['' = None" using 2(1) addr by (auto simp: strip_prefix_def)
      ultimately show ?thesis using 2(1) addr by (auto simp: is_trusted_loopback_host_def Let_def)
    next
      case six
      have "host_without_port (trim raw) = name \<or> trim raw = ''::1''"
        using 2 six host_without_port_append [of port name] by (cases "port = []") auto
      moreover have "strip_prefix (trim raw) ''['' = None" using 2(1) six by (auto simp: strip_prefix_def)
      ultimately show ?thesis using 2(1) six by (auto simp: is_trusted_loopback_host_def Let_def)
    next
      case local
      note f = localhost_free [OF local]
      then have "host_without_port (trim raw) = name" using 2 host_without_port_append [of port name] by simp
      moreover obtain c cs where "name = c # cs" "c \<noteq> CHR ''[''" using f(2,3) by (cases name) auto
      then have "strip_prefix (trim raw) ''['' = None" using 2(1) by (auto simp: strip_prefix_def)
      ultimately show ?thesis using 2(1) f(2) local by (auto simp: is_trusted_loopback_host_def Let_def)
    next
      case bracket
      then have "bracketed_loopback (inner @ CHR '']'' # port)" using 2(3) by (auto simp: bracketed_loopback_iff)
      moreover have "strip_prefix (trim raw) ''['' = Some (inner @ CHR '']'' # port)"
        using 2(1) bracket(1) by (simp add: strip_prefix_Some)
      ultimately show ?thesis using 2(1) bracket(1) by (simp add: is_trusted_loopback_host_def Let_def)
    qed
  qed
qed

section \<open>Who reaches a handler\<close>


section \<open>Which routes are open\<close>

text \<open>A segment \<open>{name}\<close> of a route stands for one non-empty segment of the path, any other for itself.\<close>

definition is_parameter :: "string \<Rightarrow> bool" where
  "is_parameter seg \<longleftrightarrow> starts_with seg ''{''"

definition segment_fits :: "string \<Rightarrow> string \<Rightarrow> bool" where
  "segment_fits pat seg \<longleftrightarrow> (if is_parameter pat then seg \<noteq> [] else seg = pat)"

definition segments :: "string \<Rightarrow> string list" where
  "segments path = split_on CHR ''/'' path"

definition route_fits :: "string \<Rightarrow> string \<Rightarrow> bool" where
  "route_fits pat path \<longleftrightarrow> list_all2 segment_fits (segments pat) (segments path)"

text \<open>A route answers its own verb, one for \<open>GET\<close> also \<open>HEAD\<close>.\<close>

definition verb_fits :: "string \<Rightarrow> string \<Rightarrow> bool" where
  "verb_fits verb requested \<longleftrightarrow> requested = verb \<or> (verb = ''GET'' \<and> requested = ''HEAD'')"

definition open_routes :: "string list" where
  "open_routes =
     [''/api/background/{filename}'', ''/api/debug/screenshot/{filename}'', ''/api/ai/capture/screenshot'',
      ''/api/repo/image'', ''/api/tools/task-recorder.user.js'', ''/api/docs/task-writing-guide'',
      ''/api/docs/task-manual'', ''/api/docs/http-login-guide'', ''/api/system/info'', ''/api/monitor/status'',
      ''/api/auth/token'', ''/api/health'']"

lemma split_on_not_Nil: "split_on d s \<noteq> []"
  by (induction s) (auto split: list.splits)

lemma split_on_append: "split_on d (s @ d # t) = split_on d s @ split_on d t"
  by (induction s) (auto simp: split_on_not_Nil split: list.splits)

lemma split_on_two: "split_on d s = x # y # ws \<Longrightarrow> \<exists>t. s = x @ d # t \<and> split_on d t = y # ws"
proof (induction s arbitrary: x)
  case (Cons c s)
  obtain w vs where w: "split_on d s = w # vs" using split_on_not_Nil by (cases "split_on d s") auto
  show ?case
  proof (cases "c = d")
    case True
    with Cons.prems w show ?thesis by auto
  next
    case False
    with Cons.prems w have "x = c # w" "vs = y # ws" by auto
    with Cons.IH w show ?thesis by auto
  qed
qed simp

lemma split_on_hd: "split_on d s = x # ws \<Longrightarrow> \<exists>t. s = x @ t"
  by (induction s arbitrary: x ws) (auto split: list.splits if_splits)

text \<open>What the segments of a path without need of a token look like.\<close>

definition open_shapes :: "string list list" where
  "open_shapes = map segments open_paths"

definition anyhow_shapes :: "string list list" where
  "anyhow_shapes = map segments [''/api/auth/token'', ''/api/health'']"

definition open_starts :: "string list list" where
  "open_starts = [['''', ''api'', ''background''], ['''', ''api'', ''debug'', ''screenshot'']]"

definition may_be_open :: "string \<Rightarrow> string list \<Rightarrow> bool" where
  "may_be_open verb pat \<longleftrightarrow>
     list_ex (list_all2 segment_fits pat) anyhow_shapes
     \<or> (verb = ''GET''
         \<and> (list_ex (list_all2 segment_fits pat) open_shapes
             \<or> list_ex (\<lambda>pre. list_all2 segment_fits (take (length pre) pat) pre) open_starts))"

lemma needs_no_token_shape:
  assumes "needs_no_token rq" and "starts_with (wr_path rq) ''/api''" and "wr_method rq \<noteq> ''OPTIONS''"
  shows "segments (wr_path rq) \<in> set anyhow_shapes
    \<or> (wr_method rq = ''GET''
        \<and> (segments (wr_path rq) \<in> set open_shapes
            \<or> (\<exists>pre\<in>set open_starts. take (length pre) (segments (wr_path rq)) = pre)))"
proof -
  have b: "\<exists>pre\<in>set open_starts. take (length pre) (segments (''/api/background/'' @ r)) = pre" for r
    using split_on_append [of "CHR ''/''" "''/api/background''" r] by (simp add: segments_def open_starts_def)
  have d: "\<exists>pre\<in>set open_starts. take (length pre) (segments (''/api/debug/screenshot/'' @ r)) = pre" for r
    using split_on_append [of "CHR ''/''" "''/api/debug/screenshot''" r] by (simp add: segments_def open_starts_def)
  consider "wr_path rq \<in> set [''/api/auth/token'', ''/api/health'']"
    | "wr_method rq = ''GET''" "wr_path rq \<in> set open_paths"
    | r where "wr_method rq = ''GET''" "wr_path rq = ''/api/background/'' @ r"
    | r where "wr_method rq = ''GET''" "wr_path rq = ''/api/debug/screenshot/'' @ r"
    using assms by (auto simp: needs_no_token_def open_prefixes_def starts_with_iff)
  then show ?thesis
  proof cases
    case 1
    then have "segments (wr_path rq) \<in> set anyhow_shapes" unfolding anyhow_shapes_def set_map by (rule imageI)
    then show ?thesis ..
  next
    case 2
    from 2(2) have "segments (wr_path rq) \<in> set open_shapes" unfolding open_shapes_def set_map by (rule imageI)
    with 2(1) show ?thesis by blast
  next
    case 3
    show ?thesis unfolding 3(2) using 3(1) b [of r] by blast
  next
    case 4
    show ?thesis unfolding 4(2) using 4(1) d [of r] by blast
  qed
qed

lemma table_under_api: "list_all (\<lambda>(verb, pat). take 2 (segments pat) = ['''', ''api''] \<and> verb \<noteq> ''OPTIONS'') route_table"
  by code_simp

lemma table_open: "list_all (\<lambda>(verb, pat). may_be_open verb (segments pat) \<longrightarrow> verb = ''GET'' \<and> pat \<in> set open_routes) route_table"
  by code_simp

lemma route_fits_under_api:
  assumes "(verb, pat) \<in> set route_table" and "route_fits pat path"
  shows "starts_with path ''/api''"
proof -
  from assms(1) table_under_api have t: "take 2 (segments pat) = ['''', ''api'']" by (auto simp: list_all_iff)
  then obtain ps where p: "segments pat = '''' # ''api'' # ps"
    by (cases "segments pat"; cases "tl (segments pat)") auto
  with assms(2) obtain ws where "segments path = '''' # ''api'' # ws"
    by (auto simp: route_fits_def list_all2_Cons1 segment_fits_def is_parameter_def)
  then have "\<exists>t. path = '''' @ CHR ''/'' # t \<and> split_on CHR ''/'' t = ''api'' # ws"
    unfolding segments_def by (rule split_on_two)
  then obtain t where "path = CHR ''/'' # t" "split_on CHR ''/'' t = ''api'' # ws" by auto
  with split_on_hd [of "CHR ''/''" t "''api''" ws] show ?thesis by (auto simp: starts_with_iff)
qed

lemma fits_may_be_open:
  assumes "route_fits pat path"
    and "segments path \<in> set anyhow_shapes
      \<or> (verb = ''GET'' \<and> (segments path \<in> set open_shapes \<or> (\<exists>pre\<in>set open_starts. take (length pre) (segments path) = pre)))"
  shows "may_be_open verb (segments pat)"
  using assms by (auto simp: may_be_open_def route_fits_def list_ex_iff) (metis list_all2_takeI)

text \<open>C36. Whatever route the router picks for a path, as long as it takes a parameter of a route for one
  segment and every other segment literally: a request that reaches its handler without the token is a
  read (or the \<open>HEAD\<close> of one) of one of twelve listed routes, which show pictures, manuals, the state of
  the monitor and of the program, and give out the token to pages of this computer. Nothing that changes
  a setting, runs a task or reads a profile or the configuration is open.\<close>

theorem only_reads_are_open:
  assumes "\<And>pat path. fits pat path \<Longrightarrow> route_fits pat path"
    and "(verb, pat) \<in> set route_table" and "verb_fits verb (wr_method rq)" and "fits pat (wr_path rq)"
    and "serve policy expected rq = HandlerRuns" and "token_of rq \<noteq> Some expected"
  shows "verb = ''GET'' \<and> pat \<in> set open_routes"
proof -
  have f: "route_fits pat (wr_path rq)" using assms(1,4) by blast
  have o: "needs_no_token rq" using assms(5,6) 
    by (auto simp: serve_def auth_middleware_def constant_time_eq_iff split: if_splits option.splits)
  have "wr_method rq \<noteq> ''OPTIONS''" and "wr_method rq = ''GET'' \<longrightarrow> verb = ''GET''"
    using assms(2,3) table_under_api by (auto simp: list_all_iff verb_fits_def)
  with needs_no_token_shape [OF o route_fits_under_api [OF assms(2) f]]
  have "may_be_open verb (segments pat)" by (intro fits_may_be_open [OF f]) blast
  with assms(2) table_open show ?thesis by (auto simp: list_all_iff)
qed

definition picture_request :: web_request where
  "picture_request =
     \<lparr>wr_method = ''GET'', wr_path = ''/api/background/night.png'', wr_query = None,
      wr_headers = [(''host'', ''localhost:50721'')]\<rparr>"

lemma only_reads_are_open_witness:
  "(''GET'' :: string) = ''GET'' \<and> ''/api/background/{filename}'' \<in> set open_routes"
proof (rule only_reads_are_open [of route_fits _ _ picture_request LoopbackOnly "''0123''"])
  show "(''GET'', ''/api/background/{filename}'') \<in> set route_table" by code_simp
  show "verb_fits ''GET'' (wr_method picture_request)" by code_simp
  show "route_fits ''/api/background/{filename}'' (wr_path picture_request)" by code_simp
  have "needs_no_token picture_request" by code_simp
  moreover have "header_str ''localhost:50721'' = Some ''localhost:50721''" by code_simp
  moreover have "is_trusted_loopback_host ''localhost:50721''" by code_simp
  ultimately show "serve LoopbackOnly ''0123'' picture_request = HandlerRuns"
    by (simp add: serve_def auth_middleware_def validate_host_def picture_request_def)
  show "token_of picture_request \<noteq> Some ''0123''" by code_simp
qed

end
