(* ===== verification/Password_Crypto.thy ===== *)
theory Password_Crypto
  imports Rust_Str
begin

text \<open>
  The encryption of stored passwords (\<open>config/crypto.rs\<close>): the key file, which is read, inherited from
  the older program, or created, the key kept in memory after its first use, the text form of a
  ciphertext, and the set of profiles whose password could not be read. The cipher (AES-256-GCM) and
  the Base64 codec are parameters, and so are the random numbers and which file operations succeed.
\<close>

section \<open>Environment and state\<close>

record cipher_lib =
  cl_seal :: "string \<Rightarrow> string \<Rightarrow> string \<Rightarrow> string option" \<comment> \<open>key, nonce, text\<close>
  cl_open :: "string \<Rightarrow> string \<Rightarrow> string \<Rightarrow> string option"
  cl_base64 :: "string \<Rightarrow> string"
  cl_unbase64 :: "string \<Rightarrow> string option"
  cl_utf8 :: "string \<Rightarrow> bool"

record crypto_env =
  ce_lib :: cipher_lib
  ce_random :: "nat \<Rightarrow> nat \<Rightarrow> string" \<comment> \<open>the draw and the number of bytes\<close>
  ce_io_ok :: "nat \<Rightarrow> bool"

text \<open>\<open>pc_file\<close> is \<open>.enc_key.rs\<close> and \<open>pc_python\<close> the \<open>.enc_key\<close> of the older program.\<close>

record password_crypto =
  pc_key :: "string option"
  pc_file :: "string option"
  pc_python :: "string option"
  pc_backups :: "string list"
  pc_failed :: "string list"
  pc_draws :: nat
  pc_io :: nat

datatype crypto_error = CryptoIo string | DecryptFailed string

definition ENC_PREFIX :: string where "ENC_PREFIX = ''ENC:''"
definition KEY_LEN :: nat where "KEY_LEN = 32"
definition NONCE_LEN :: nat where "NONCE_LEN = 12"

type_synonym 'a crypto_op = "password_crypto \<Rightarrow> (crypto_error + 'a) \<times> password_crypto"

definition then_crypto :: "'a crypto_op \<Rightarrow> ('a \<Rightarrow> 'b crypto_op) \<Rightarrow> 'b crypto_op" where
  "then_crypto m f st = (case m st of (Inl e, st') \<Rightarrow> (Inl e, st') | (Inr x, st') \<Rightarrow> f x st')"

definition io_done :: "crypto_env \<Rightarrow> password_crypto \<Rightarrow> bool \<times> password_crypto" where
  "io_done env st = (ce_io_ok env (pc_io st), st\<lparr>pc_io := pc_io st + 1\<rparr>)"

definition draw :: "crypto_env \<Rightarrow> nat \<Rightarrow> password_crypto \<Rightarrow> string \<times> password_crypto" where
  "draw env n st = (ce_random env (pc_draws st) n, st\<lparr>pc_draws := pc_draws st + 1\<rparr>)"

definition password_crypto_new :: "string option \<Rightarrow> string option \<Rightarrow> password_crypto" where
  "password_crypto_new file python =
     \<lparr>pc_key = None, pc_file = file, pc_python = python, pc_backups = [], pc_failed = [], pc_draws = 0, pc_io = 0\<rparr>"

section \<open>The key\<close>

definition generate_and_write_key :: "crypto_env \<Rightarrow> string crypto_op" where
  "generate_and_write_key env st =
     (let (readable, st1) = io_done env st
      in case pc_file st1 of
           Some k \<Rightarrow>
             if readable \<and> length k = KEY_LEN then (Inr k, st1)
             else let (key, st2) = draw env KEY_LEN st1; (written, st3) = io_done env st2
                  in if written then (Inr key, st3\<lparr>pc_file := Some key\<rparr>) else (Inl (CryptoIo ''write''), st3)
         | None \<Rightarrow>
             let (key, st2) = draw env KEY_LEN st1; (written, st3) = io_done env st2
             in if written then (Inr key, st3\<lparr>pc_file := Some key\<rparr>) else (Inl (CryptoIo ''write''), st3))"

definition python_key :: "cipher_lib \<Rightarrow> string option \<Rightarrow> string option" where
  "python_key lib file =
     Option.bind file (\<lambda>raw. Option.bind (cl_unbase64 lib (trim raw)) (\<lambda>k.
       if length k = KEY_LEN then Some k else None))"

definition try_inherit_python_key :: "crypto_env \<Rightarrow> password_crypto \<Rightarrow> string option \<times> password_crypto" where
  "try_inherit_python_key env st =
     (let (readable, st1) = io_done env st
      in case (if readable then python_key (ce_lib env) (pc_python st1) else None) of
           None \<Rightarrow> (None, st1)
         | Some key \<Rightarrow>
             let (written, st2) = io_done env st1
             in (Some key, if written then st2\<lparr>pc_file := Some key\<rparr> else st2))"

definition read_or_create_key :: "crypto_env \<Rightarrow> string crypto_op" where
  "read_or_create_key env st =
     (case pc_file st of
        Some k \<Rightarrow>
          let (readable, st1) = io_done env st
          in if \<not> readable then (Inl (CryptoIo ''read''), st1)
             else if length k = KEY_LEN then (Inr k, st1)
             else let (renamed, st2) = io_done env st1
                  in generate_and_write_key env
                       (if renamed then st2\<lparr>pc_file := None, pc_backups := pc_backups st2 @ [k]\<rparr> else st2)
      | None \<Rightarrow>
          (case try_inherit_python_key env st of
             (Some key, st1) \<Rightarrow> (Inr key, st1)
           | (None, st1) \<Rightarrow> generate_and_write_key env st1))"

definition ensure_key :: "crypto_env \<Rightarrow> string crypto_op" where
  "ensure_key env st =
     (case pc_key st of
        Some k \<Rightarrow> (Inr k, st)
      | None \<Rightarrow> then_crypto (read_or_create_key env) (\<lambda>k st1. (Inr k, st1\<lparr>pc_key := Some k\<rparr>)) st)"

section \<open>Encryption\<close>

definition encrypt :: "crypto_env \<Rightarrow> string \<Rightarrow> string crypto_op" where
  "encrypt env plaintext st =
     (if plaintext = [] then (Inr [], st)
      else then_crypto (ensure_key env) (\<lambda>key st1.
        let (nonce, st2) = draw env NONCE_LEN st1
        in case cl_seal (ce_lib env) key nonce plaintext of
             None \<Rightarrow> (Inl (CryptoIo ''encryption''), st2)
           | Some ct \<Rightarrow> (Inr (ENC_PREFIX @ cl_base64 (ce_lib env) (nonce @ ct)), st2)) st)"

definition decrypt_payload :: "cipher_lib \<Rightarrow> string \<Rightarrow> string \<Rightarrow> string \<Rightarrow> crypto_error + string" where
  "decrypt_payload lib profile_id key ciphertext =
     (case cl_unbase64 lib (drop (length ENC_PREFIX) ciphertext) of
        None \<Rightarrow> Inl (DecryptFailed profile_id)
      | Some payload \<Rightarrow>
          if length payload < NONCE_LEN then Inl (DecryptFailed profile_id)
          else case cl_open lib key (take NONCE_LEN payload) (drop NONCE_LEN payload) of
                 None \<Rightarrow> Inl (DecryptFailed profile_id)
               | Some plain \<Rightarrow> if cl_utf8 lib plain then Inr plain else Inl (CryptoIo ''not UTF-8''))"

definition decrypt_core :: "crypto_env \<Rightarrow> string \<Rightarrow> string \<Rightarrow> string crypto_op" where
  "decrypt_core env profile_id ciphertext =
     then_crypto (ensure_key env) (\<lambda>key st. (decrypt_payload (ce_lib env) profile_id key ciphertext, st))"

definition mark_decryption_failed :: "string \<Rightarrow> password_crypto \<Rightarrow> password_crypto" where
  "mark_decryption_failed profile_id st = st\<lparr>pc_failed := List.insert profile_id (pc_failed st)\<rparr>"

definition clear_decryption_failed :: "string \<Rightarrow> password_crypto \<Rightarrow> password_crypto" where
  "clear_decryption_failed profile_id st = st\<lparr>pc_failed := removeAll profile_id (pc_failed st)\<rparr>"

definition decrypt_to_zeroizing :: "crypto_env \<Rightarrow> string \<Rightarrow> string \<Rightarrow> string crypto_op" where
  "decrypt_to_zeroizing env profile_id ciphertext st =
     (if ciphertext = [] then (Inr [], st)
      else if \<not> starts_with ciphertext ENC_PREFIX then (Inr ciphertext, st)
      else case decrypt_core env profile_id ciphertext st of
             (Inr plain, st1) \<Rightarrow> (Inr plain, clear_decryption_failed profile_id st1)
           | (Inl e, st1) \<Rightarrow> (Inl e, mark_decryption_failed profile_id st1))"

definition can_decrypt :: "crypto_env \<Rightarrow> string \<Rightarrow> password_crypto \<Rightarrow> bool \<times> password_crypto" where
  "can_decrypt env ciphertext st =
     (if ciphertext = [] \<or> \<not> starts_with ciphertext ENC_PREFIX then (True, st)
      else case decrypt_core env [] ciphertext st of (r, st1) \<Rightarrow> (case r of Inl _ \<Rightarrow> False | Inr _ \<Rightarrow> True, st1))"

definition has_decryption_error :: "password_crypto \<Rightarrow> bool" where
  "has_decryption_error st \<longleftrightarrow> pc_failed st \<noteq> []"

section \<open>What users of the program do\<close>

text \<open>The program is restarted with the same files: only the memory is lost.\<close>

datatype crypto_request = Encrypt string | Decrypt string string | CanDecrypt string | Restart

definition crypto_step :: "crypto_env \<Rightarrow> crypto_request \<Rightarrow> password_crypto \<Rightarrow> password_crypto" where
  "crypto_step env rq st =
     (case rq of
        Encrypt p \<Rightarrow> snd (encrypt env p st)
      | Decrypt i c \<Rightarrow> snd (decrypt_to_zeroizing env i c st)
      | CanDecrypt c \<Rightarrow> snd (can_decrypt env c st)
      | Restart \<Rightarrow> st\<lparr>pc_key := None, pc_failed := []\<rparr>)"

text \<open>The laws of the parameters: Base64 and the cipher can be undone with the same key and nonce, and
  random draws have the length asked for.\<close>

definition cipher_ok :: "crypto_env \<Rightarrow> bool" where
  "cipher_ok env \<longleftrightarrow>
     (\<forall>bs. cl_unbase64 (ce_lib env) (cl_base64 (ce_lib env) bs) = Some bs)
     \<and> (\<forall>k n p c. cl_seal (ce_lib env) k n p = Some c \<longrightarrow> cl_open (ce_lib env) k n c = Some p)
     \<and> (\<forall>i n. length (ce_random env i n) = n)"

text \<open>The key is settled: memory holds it or nothing, and reading the files can give nothing else.\<close>

definition settled :: "crypto_env \<Rightarrow> string \<Rightarrow> password_crypto \<Rightarrow> bool" where
  "settled env k st \<longleftrightarrow>
     length k = KEY_LEN \<and> (pc_key st = None \<or> pc_key st = Some k)
     \<and> pc_file st = Some k"

lemma settled_ensure:
  assumes "settled env k st" and "ensure_key env st = (r, st')"
  shows "settled env k st' \<and> (r = Inr k \<or> (\<exists>e. r = Inl (CryptoIo e)))
    \<and> pc_failed st' = pc_failed st \<and> (pc_key st = Some k \<longrightarrow> r = Inr k)"
  using assms
  by (auto simp: settled_def ensure_key_def then_crypto_def read_or_create_key_def io_done_def Let_def
      split: option.splits if_splits)

section \<open>A stored password can be read again\<close>

text \<open>A key in memory is long enough, and one read or made is, too.\<close>

definition key_fits :: "password_crypto \<Rightarrow> bool" where
  "key_fits st \<longleftrightarrow> (\<forall>k. pc_key st = Some k \<longrightarrow> length k = KEY_LEN)"

lemma read_or_create_key_length:
  assumes "cipher_ok env" and "read_or_create_key env st = (Inr k, st')"
  shows "length k = KEY_LEN"
  using assms
  by (auto simp: read_or_create_key_def generate_and_write_key_def try_inherit_python_key_def python_key_def
      io_done_def draw_def cipher_ok_def Let_def bind_eq_Some_conv split: option.splits if_splits)

lemma read_or_create_key_memory: "pc_key (snd (read_or_create_key env st)) = pc_key st"
  by (auto simp: read_or_create_key_def generate_and_write_key_def try_inherit_python_key_def
      io_done_def draw_def Let_def split: option.splits)

lemma ensure_key_fits:
  assumes "cipher_ok env" and "key_fits st" and "ensure_key env st = (r, st')"
  shows "key_fits st'" and "r = Inr k \<Longrightarrow> length k = KEY_LEN \<and> pc_key st' = Some k"
  using assms read_or_create_key_memory [of env st]
  by (auto simp: ensure_key_def then_crypto_def key_fits_def dest: read_or_create_key_length
      split: option.splits prod.splits sum.splits)

lemma crypto_step_key:
  assumes "\<And>r st st'. P st \<Longrightarrow> ensure_key env st = (r, st') \<Longrightarrow> P st'"
    and "\<And>st x xs n. P st \<Longrightarrow> P (st\<lparr>pc_draws := n\<rparr>) \<and> P (st\<lparr>pc_failed := xs\<rparr>) \<and> P (st\<lparr>pc_key := None, pc_failed := xs\<rparr>)"
    and "P st"
  shows "P (crypto_step env rq st)"
proof -
  have d: "P (snd (decrypt_core env i c st))" for i c
    using assms(1) [OF assms(3)]
    by (auto simp: decrypt_core_def then_crypto_def split: prod.split sum.split)
  have e: "P (snd (encrypt env p st))" for p
    using assms(1) [OF assms(3)] assms(2,3)
    by (auto simp: encrypt_def then_crypto_def draw_def Let_def split: prod.split sum.split option.split)
  show ?thesis
  proof (cases rq)
    case (Decrypt i c)
    with d [of i c] assms(2,3) show ?thesis
      by (auto simp: crypto_step_def decrypt_to_zeroizing_def mark_decryption_failed_def clear_decryption_failed_def
          split: prod.split sum.split)
  next
    case (CanDecrypt c)
    with d [of "[]" c] assms(3) show ?thesis
      by (auto simp: crypto_step_def can_decrypt_def split: prod.split sum.split)
  qed (use e assms(2,3) in \<open>simp_all add: crypto_step_def\<close>)
qed

lemma requests_keep:
  assumes "\<And>rq st. P st \<Longrightarrow> P (crypto_step env rq st)" and "P st"
  shows "P (fold (crypto_step env) rqs st)"
  using assms(2) by (induction rqs arbitrary: st) (auto intro: assms(1))

lemma key_fits_requests:
  assumes "cipher_ok env"
  shows "key_fits (fold (crypto_step env) rqs (password_crypto_new file python))"
proof (rule requests_keep)
  show "key_fits st \<Longrightarrow> key_fits (crypto_step env rq st)" for rq st
    by (rule crypto_step_key [where P = key_fits]) (auto simp: key_fits_def dest: ensure_key_fits(1) [OF assms, unfolded key_fits_def])
qed (simp add: key_fits_def password_crypto_new_def)

lemma settled_requests:
  assumes "settled env k st"
  shows "settled env k (fold (crypto_step env) rqs st)"
proof (rule requests_keep)
  show "settled env k st \<Longrightarrow> settled env k (crypto_step env rq st)" for rq st
    by (rule crypto_step_key [where P = "settled env k"]) (use settled_ensure in blast, auto simp: settled_def)
qed (rule assms)

lemma settled_ensure_fails:
  assumes "settled env k st" and "ensure_key env st = (Inl e, st')"
  shows "\<exists>i. \<not> ce_io_ok env i"
  using assms
  by (auto simp: settled_def ensure_key_def then_crypto_def read_or_create_key_def io_done_def Let_def
      split: option.splits if_splits)

lemma encrypt_Inr:
  assumes "encrypt env p st = (Inr ct, st')" and "p \<noteq> []" and "cipher_ok env" and "key_fits st"
  obtains k nonce c where "pc_key st' = Some k" "length k = KEY_LEN" "length nonce = NONCE_LEN"
    "cl_seal (ce_lib env) k nonce p = Some c" "ct = ENC_PREFIX @ cl_base64 (ce_lib env) (nonce @ c)"
proof -
  obtain r st1 where e: "ensure_key env st = (r, st1)" by fastforce
  with assms(1,2) obtain k where r: "r = Inr k" by (cases r) (auto simp: encrypt_def then_crypto_def)
  note f = ensure_key_fits(2) [OF assms(3,4) e r]
  let ?nonce = "ce_random env (pc_draws st1) NONCE_LEN"
  obtain c where "cl_seal (ce_lib env) k ?nonce p = Some c" "ct = ENC_PREFIX @ cl_base64 (ce_lib env) (?nonce @ c)"
    "st' = st1\<lparr>pc_draws := pc_draws st1 + 1\<rparr>"
    using assms(1,2) e r by (auto simp: encrypt_def then_crypto_def draw_def Let_def split: option.splits)
  moreover have "length ?nonce = NONCE_LEN" using assms(3) by (simp add: cipher_ok_def)
  ultimately show thesis using f by (intro that) auto
qed

lemma decrypt_payload_encrypted:
  assumes "cipher_ok env" and "length nonce = NONCE_LEN" and "cl_seal (ce_lib env) k nonce p = Some c"
    and "cl_utf8 (ce_lib env) p"
  shows "decrypt_payload (ce_lib env) i k (ENC_PREFIX @ cl_base64 (ce_lib env) (nonce @ c)) = Inr p"
  using assms by (simp add: decrypt_payload_def cipher_ok_def)

lemma decrypt_encrypted:
  assumes "cipher_ok env" and "settled env k st" and "length nonce = NONCE_LEN"
    and "cl_seal (ce_lib env) k nonce p = Some c" and "cl_utf8 (ce_lib env) p"
  shows "fst (decrypt_to_zeroizing env i (ENC_PREFIX @ cl_base64 (ce_lib env) (nonce @ c)) st) = Inr p
    \<or> (\<exists>e j. fst (decrypt_to_zeroizing env i (ENC_PREFIX @ cl_base64 (ce_lib env) (nonce @ c)) st) = Inl (CryptoIo e)
         \<and> \<not> ce_io_ok env j)"
proof -
  obtain r st1 where e: "ensure_key env st = (r, st1)" by fastforce
  from settled_ensure [OF assms(2) e] consider "r = Inr k" | err where "r = Inl (CryptoIo err)" by blast
  then show ?thesis
  proof cases
    case 1
    with e decrypt_payload_encrypted [OF assms(1,3-5)] show ?thesis
      by (simp add: decrypt_to_zeroizing_def decrypt_core_def then_crypto_def) (simp add: ENC_PREFIX_def)
  next
    case 2
    with e settled_ensure_fails [OF assms(2)] show ?thesis
      by (auto simp: decrypt_to_zeroizing_def decrypt_core_def then_crypto_def) (simp add: ENC_PREFIX_def)
  qed
qed


text \<open>A cipher for trying it out: the key and the nonce in front of the text, and no encoding.\<close>

definition demo_lib :: cipher_lib where
  "demo_lib =
     \<lparr>cl_seal = (\<lambda>k n p. Some (k @ n @ p)),
      cl_open = (\<lambda>k n c. if take (length k + length n) c = k @ n then Some (drop (length k + length n) c) else None),
      cl_base64 = (\<lambda>bs. bs), cl_unbase64 = Some, cl_utf8 = (\<lambda>_. True)\<rparr>"

definition demo_crypto :: crypto_env where
  "demo_crypto = \<lparr>ce_lib = demo_lib, ce_random = (\<lambda>i n. replicate n (char_of i)), ce_io_ok = (\<lambda>_. True)\<rparr>"

lemma demo_cipher_ok: "cipher_ok demo_crypto"
  by (simp add: cipher_ok_def demo_crypto_def demo_lib_def)

definition demo_encrypted :: "(crypto_error + string) \<times> password_crypto" where
  "demo_encrypted = encrypt demo_crypto ''secret'' (fold (crypto_step demo_crypto) [CanDecrypt ''ENC:x''] (password_crypto_new None None))"


text \<open>The mark of a profile whose password could not be read stays when its password is cleared or
  stored as plain text: only a ciphertext that can be read removes it.\<close>

lemma mark_outlives_password:
  assumes "i \<in> set (pc_failed st)"
    and "\<forall>rq\<in>set later. case rq of Decrypt j c \<Rightarrow> \<not> starts_with c ENC_PREFIX | Restart \<Rightarrow> False | _ \<Rightarrow> True"
  shows "has_decryption_error (fold (crypto_step env) later st)"
proof -
  have keep: "pc_failed (snd (ensure_key env st)) = pc_failed st" for st
    by (auto simp: ensure_key_def then_crypto_def read_or_create_key_def generate_and_write_key_def try_inherit_python_key_def
        io_done_def draw_def Let_def split: option.split prod.split sum.split)
  have core: "pc_failed (snd (decrypt_core env j c st)) = pc_failed st" for j c st
    using keep [of st] by (auto simp: decrypt_core_def then_crypto_def split: prod.split sum.split)
  have "pc_failed (crypto_step env rq st) = pc_failed st"
    if "case rq of Decrypt j c \<Rightarrow> \<not> starts_with c ENC_PREFIX | Restart \<Rightarrow> False | _ \<Rightarrow> True" for rq st
    using that keep [of st] core [of "[]" _ st]
    by (auto simp: crypto_step_def encrypt_def decrypt_to_zeroizing_def can_decrypt_def then_crypto_def draw_def Let_def
        split: crypto_request.splits prod.split sum.split option.split)
       (metis snd_conv)
  with assms have "i \<in> set (pc_failed (fold (crypto_step env) later st))"
    by (induction later arbitrary: st) auto
  then show ?thesis by (auto simp: has_decryption_error_def)
qed

end
