(* ===== verification/Cron_Weekday.thy ===== *)
theory Cron_Weekday
  imports Http_Text
begin

text \<open>
  Reading a cron expression of five fields (\<open>scheduler/cron_loop.rs\<close>). The \<open>cron\<close> crate wants seven
  fields and counts the days of the week from 1, Sunday; the user's field counts from 0 and has 7 as a
  second Sunday. The calendar of the crate is a parameter.
\<close>

section \<open>The field of the weekday\<close>

abbreviation "parse_usize \<equiv> parse_uint 64"

text \<open>\<open>(start..=end).step_by(step)\<close>.\<close>

definition step_by :: "nat \<Rightarrow> nat \<Rightarrow> nat \<Rightarrow> nat list" where
  "step_by start end step = filter (\<lambda>d. (d - start) mod step = 0) [start..<Suc end]"

text \<open>A part of the field gives numbers, stands for itself, or makes the whole field stand for itself.\<close>

datatype weekday_part = Days "nat list" | KeepPart | KeepField

definition step_of :: "string \<Rightarrow> (string \<times> nat) option" where
  "step_of part =
     (case split_once CHR ''/'' part of
        Some (base, step) \<Rightarrow>
          (case parse_usize step of Some n \<Rightarrow> if 0 < n then Some (base, n) else None | None \<Rightarrow> None)
      | None \<Rightarrow> Some (part, 1))"

definition range_of :: "string \<Rightarrow> string \<Rightarrow> (nat \<times> nat) option" where
  "range_of part base =
     (if base = ''*'' then Some (0, 7)
      else case split_once CHR ''-'' base of
             Some (a, b) \<Rightarrow>
               (case (parse_usize a, parse_usize b) of (Some s, Some e) \<Rightarrow> Some (s, e) | _ \<Rightarrow> None)
           | None \<Rightarrow> map_option (\<lambda>s. (s, if CHR ''/'' \<in> set part then 7 else s)) (parse_usize base))"

definition weekday_part :: "string \<Rightarrow> weekday_part" where
  "weekday_part part =
     (case step_of part of
        None \<Rightarrow> KeepField
      | Some (base, step) \<Rightarrow>
          (case range_of part base of
             None \<Rightarrow> KeepPart
           | Some (start, end) \<Rightarrow>
               if 7 < start \<or> 7 < end \<or> end < start then KeepField else Days (step_by start end step)))"

fun weekday_parts :: "string list \<Rightarrow> string list option" where
  "weekday_parts [] = Some []"
| "weekday_parts (part # parts) =
     (case weekday_part part of
        KeepField \<Rightarrow> None
      | KeepPart \<Rightarrow> map_option ((#) part) (weekday_parts parts)
      | Days ds \<Rightarrow> map_option ((@) (map (\<lambda>d. show_nat (d mod 7 + 1)) ds)) (weekday_parts parts))"

definition normalize_weekday :: "string \<Rightarrow> string" where
  "normalize_weekday field =
     (if field = ''*'' then field
      else case weekday_parts (split_on CHR '','' field) of
             None \<Rightarrow> field
           | Some parts \<Rightarrow> str_join '','' parts)"

section \<open>The expression\<close>

datatype cron_error = InvalidCronExpr string string

definition CRON_PARSE_PREFIX :: string where "CRON_PARSE_PREFIX = ''0 ''"
definition CRON_PARSE_SUFFIX :: string where "CRON_PARSE_SUFFIX = '' *''"

definition parse_cron_5_to_7 :: "string \<Rightarrow> string" where
  "parse_cron_5_to_7 five_field_trimmed =
     (let fields = split_whitespace five_field_trimmed
      in if length fields \<noteq> 5 then CRON_PARSE_PREFIX @ five_field_trimmed @ CRON_PARSE_SUFFIX
         else CRON_PARSE_PREFIX @ str_join '' '' (butlast fields) @ '' '' @ normalize_weekday (last fields)
                @ CRON_PARSE_SUFFIX)"

definition parse_cron_expr :: "(string \<Rightarrow> string + 'sched) \<Rightarrow> string \<Rightarrow> cron_error + 'sched" where
  "parse_cron_expr parse five_field =
     (let trimmed = trim five_field
      in if length (split_whitespace trimmed) \<noteq> 5 then Inl (InvalidCronExpr five_field ''five fields expected'')
         else case parse (parse_cron_5_to_7 trimmed) of
                Inl e \<Rightarrow> Inl (InvalidCronExpr five_field e)
              | Inr s \<Rightarrow> Inr s)"

section \<open>What the field means\<close>

text \<open>The items of a field as the manual of cron describes them, with 0 for Sunday.\<close>

datatype weekday_item = Every "nat option" | Day nat "nat option" | DayRange nat nat "nat option" | Named string

definition show_step :: "nat option \<Rightarrow> string" where
  "show_step step = (case step of None \<Rightarrow> [] | Some n \<Rightarrow> ''/'' @ show_nat n)"

fun show_item :: "weekday_item \<Rightarrow> string" where
  "show_item (Every step) = ''*'' @ show_step step"
| "show_item (Day d step) = show_nat d @ show_step step"
| "show_item (DayRange a b step) = show_nat a @ ''-'' @ show_nat b @ show_step step"
| "show_item (Named s) = s"

definition stride :: "nat \<Rightarrow> nat \<Rightarrow> nat option \<Rightarrow> nat set" where
  "stride a b step = {d. a \<le> d \<and> d \<le> b \<and> (case step of None \<Rightarrow> 1 | Some n \<Rightarrow> n) dvd (d - a)}"

fun item_days :: "weekday_item \<Rightarrow> nat set" where
  "item_days (Every step) = (\<lambda>d. d mod 7) ` stride 0 7 step"
| "item_days (Day d step) = (\<lambda>d. d mod 7) ` stride d (if step = None then d else 7) step"
| "item_days (DayRange a b step) = (\<lambda>d. d mod 7) ` stride a b step"
| "item_days (Named s) = {}"

definition step_ok :: "nat option \<Rightarrow> bool" where
  "step_ok step \<longleftrightarrow> (case step of None \<Rightarrow> True | Some n \<Rightarrow> 0 < n \<and> n < 2 ^ 64)"

definition is_name :: "string \<Rightarrow> bool" where
  "is_name s \<longleftrightarrow> s \<noteq> [] \<and> list_all (\<lambda>c. is_ascii_alphanumeric c \<and> \<not> is_ascii_digit c) s"

fun item_ok :: "weekday_item \<Rightarrow> bool" where
  "item_ok (Every step) = step_ok step"
| "item_ok (Day d step) = (d \<le> 7 \<and> step_ok step)"
| "item_ok (DayRange a b step) = (a \<le> b \<and> b \<le> 7 \<and> step_ok step)"
| "item_ok (Named s) = is_name s"

text \<open>The numbers of the crate that stand for days: 1 is Sunday.\<close>

definition crate_numbers :: "nat set \<Rightarrow> nat list \<Rightarrow> bool" where
  "crate_numbers days ns \<longleftrightarrow> (\<forall>n\<in>set ns. 1 \<le> n \<and> n \<le> 7) \<and> (\<lambda>n. n - 1) ` set ns = days"

definition converts :: "weekday_item \<Rightarrow> string list \<Rightarrow> bool" where
  "converts item out \<longleftrightarrow>
     (case item of
        Named s \<Rightarrow> out = [s]
      | _ \<Rightarrow> (\<exists>ns. out = map show_nat ns \<and> crate_numbers (item_days item) ns))"

section \<open>The conversion keeps the days\<close>

lemma split_on_alone: "c \<notin> set p \<Longrightarrow> split_on c p = [p]"
  by (induction p) auto

lemma split_on_piece: "c \<notin> set p \<Longrightarrow> split_on c (p @ c # rest) = p # split_on c rest"
proof (induction p)
  case Nil
  show ?case by (cases rest) (auto split: list.splits)
qed (auto split: list.splits)

lemma split_on_join:
  "ps \<noteq> [] \<Longrightarrow> \<forall>p\<in>set ps. c \<notin> set p \<Longrightarrow> split_on c (str_join [c] ps) = ps"
proof (induction ps)
  case (Cons p ps)
  then show ?case by (cases ps) (auto simp: split_on_alone split_on_piece)
qed simp

lemma set_step_by: "set (step_by a b n) = {d. a \<le> d \<and> d \<le> b \<and> n dvd (d - a)}"
  by (auto simp: step_by_def dvd_eq_mod_eq_0)

definition stride_of :: "nat option \<Rightarrow> nat" where
  "stride_of step = (case step of None \<Rightarrow> 1 | Some n \<Rightarrow> n)"

lemma stride_step_by: "stride a b step = set (step_by a b (stride_of step))"
  by (simp add: stride_def set_step_by stride_of_def)

lemma crate_numbers_step_by:
  "crate_numbers ((\<lambda>d. d mod 7) ` stride a b step) (map (\<lambda>d. d mod 7 + 1) (step_by a b (stride_of step)))"
proof -
  have "d mod 7 < 7" for d :: nat by simp
  then show ?thesis by (auto simp: crate_numbers_def stride_step_by image_image Suc_le_eq)
qed

lemma show_nat_chars [simp]:
  "CHR '','' \<notin> set (show_nat n)" "CHR ''/'' \<notin> set (show_nat n)" "CHR ''-'' \<notin> set (show_nat n)"
  "show_nat n \<noteq> ''*''" "show_nat n @ s \<noteq> ''*''"
proof -
  show "CHR '','' \<notin> set (show_nat n)" "CHR ''/'' \<notin> set (show_nat n)" "CHR ''-'' \<notin> set (show_nat n)"
    by (rule show_nat_free, simp add: is_ascii_digit_def)+
  have "CHR ''*'' \<notin> set (show_nat n)" by (rule show_nat_free) (simp add: is_ascii_digit_def)
  moreover obtain c cs where "show_nat n = c # cs" using show_nat_digits [of n] by (cases "show_nat n") auto
  ultimately show "show_nat n \<noteq> ''*''" "show_nat n @ s \<noteq> ''*''" by auto
qed

lemma show_step_chars [simp]: "CHR '','' \<notin> set (show_step step)" "CHR ''/'' \<in> set (show_step step) \<longleftrightarrow> step \<noteq> None"
  by (auto simp: show_step_def split: option.splits)

lemma step_of_show:
  assumes "step_ok step" and "CHR ''/'' \<notin> set base"
  shows "step_of (base @ show_step step) = Some (base, stride_of step)"
proof (cases step)
  case None
  with assms(2) have "split_once CHR ''/'' (base @ show_step step) = None" by simp
  with None show ?thesis unfolding step_of_def by (simp only: option.case) (simp add: show_step_def stride_of_def)
next
  case (Some n)
  with assms(2) have "split_once CHR ''/'' (base @ show_step step) = Some (base, show_nat n)"
    by (simp add: show_step_def)
  moreover have "parse_usize (show_nat n) = Some n" using assms(1) Some by (intro parse_show_nat) (simp add: step_ok_def)
  ultimately show ?thesis using assms(1) Some unfolding step_of_def
    by (simp only: option.case prod.case) (simp add: step_ok_def stride_of_def)
qed

lemma parse_small: "d \<le> 7 \<Longrightarrow> parse_usize (show_nat d) = Some d"
  by (rule parse_show_nat) simp

lemma range_of_number:
  assumes "d \<le> 7"
  shows "range_of part (show_nat d) = Some (d, if CHR ''/'' \<in> set part then 7 else d)"
proof -
  have "split_once CHR ''-'' (show_nat d) = None" by simp
  then show ?thesis using parse_small [OF assms] unfolding range_of_def by (simp only: option.case) simp
qed

lemma range_of_range:
  assumes "a \<le> 7" and "b \<le> 7"
  shows "range_of part (show_nat a @ ''-'' @ show_nat b) = Some (a, b)"
proof -
  have "split_once CHR ''-'' (show_nat a @ ''-'' @ show_nat b) = Some (show_nat a, show_nat b)" by simp
  then show ?thesis using parse_small [OF assms(1)] parse_small [OF assms(2)]
    unfolding range_of_def by (simp only: option.case prod.case) simp
qed

lemma name_chars:
  assumes "is_name s"
  shows "CHR '','' \<notin> set s" "CHR ''/'' \<notin> set s" "CHR ''-'' \<notin> set s" "s \<noteq> ''*''" "parse_usize s = None"
proof -
  have free: "c \<notin> set s" if "\<not> is_ascii_alphanumeric c" for c using assms that by (auto simp: is_name_def list_all_iff)
  show "CHR '','' \<notin> set s" "CHR ''/'' \<notin> set s" "CHR ''-'' \<notin> set s"
    by (rule free, simp add: is_ascii_alphanumeric_def)+
  have "CHR ''*'' \<notin> set s" "CHR ''+'' \<notin> set s" by (rule free, simp add: is_ascii_alphanumeric_def)+
  moreover obtain c cs where s: "s = c # cs" "\<not> is_ascii_digit c" using assms by (cases s) (auto simp: is_name_def)
  ultimately show "s \<noteq> ''*''" "parse_usize s = None" by (auto simp: parse_uint_def)
qed

lemma weekday_part_name: "is_name s \<Longrightarrow> weekday_part s = KeepPart"
proof -
  assume n: "is_name s"
  note c = name_chars [OF n]
  from c have "split_once CHR ''/'' s = None" "split_once CHR ''-'' s = None" by simp_all
  then have "step_of s = Some (s, 1)" "range_of s s = None" using c(4,5)
    unfolding step_of_def range_of_def by (simp_all only: option.case) simp
  then show ?thesis by (simp add: weekday_part_def)
qed

lemma weekday_part_days:
  assumes "item_ok item" and "\<forall>s. item \<noteq> Named s"
  shows "\<exists>ds. weekday_part (show_item item) = Days ds \<and> crate_numbers (item_days item) (map (\<lambda>d. d mod 7 + 1) ds)"
proof (cases item)
  case (Every step)
  with assms have "step_of (show_item item) = Some (''*'', stride_of step)" using step_of_show [of step "''*''"] by simp
  moreover have "range_of (show_item item) ''*'' = Some (0, 7)" by (simp add: range_of_def)
  ultimately show ?thesis using crate_numbers_step_by [of 0 7 step] Every by (simp add: weekday_part_def)
next
  case (Day d step)
  with assms have d: "d \<le> 7" "step_of (show_item item) = Some (show_nat d, stride_of step)"
    using step_of_show [of step "show_nat d"] by simp_all
  have "CHR ''/'' \<in> set (show_item item) \<longleftrightarrow> step \<noteq> None" using Day by simp
  with d Day crate_numbers_step_by [of d d None] crate_numbers_step_by [of d 7 step] show ?thesis
    by (cases step) (simp_all add: weekday_part_def range_of_number)
next
  case (DayRange a b step)
  with assms have "step_of (show_item item) = Some (show_nat a @ ''-'' @ show_nat b, stride_of step)"
    using step_of_show [of step "show_nat a @ ''-'' @ show_nat b"] by simp
  moreover have "range_of (show_item item) (show_nat a @ ''-'' @ show_nat b) = Some (a, b)"
    using assms DayRange by (intro range_of_range) auto
  ultimately show ?thesis using assms DayRange crate_numbers_step_by [of a b step] by (simp add: weekday_part_def)
qed (use assms in simp)

lemma weekday_parts_items:
  "\<forall>item\<in>set items. item_ok item \<Longrightarrow>
     \<exists>outs. weekday_parts (map show_item items) = Some (concat outs) \<and> list_all2 converts items outs"
proof (induction items)
  case (Cons item items)
  then obtain outs where o: "weekday_parts (map show_item items) = Some (concat outs)" "list_all2 converts items outs" by auto
  show ?case
  proof (cases "\<exists>s. item = Named s")
    case True
    then obtain s where s: "item = Named s" by blast
    then have "converts item [s]" by (simp add: converts_def)
    with Cons.prems o s show ?thesis by (intro exI [of _ "[s] # outs"]) (simp add: weekday_part_name)
  next
    case False
    then obtain ds where d: "weekday_part (show_item item) = Days ds"
      "crate_numbers (item_days item) (map (\<lambda>d. d mod 7 + 1) ds)"
      using weekday_part_days [of item] Cons.prems by auto
    let ?out = "map (\<lambda>d. show_nat (d mod 7 + 1)) ds"
    have "?out = map show_nat (map (\<lambda>d. d mod 7 + 1) ds)" by simp
    with d False have "converts item ?out" by (cases item) (auto simp only: converts_def weekday_item.case)
    with o d(1) show ?thesis by (intro exI [of _ "?out # outs"]) simp
  qed
qed simp

lemma show_item_comma: "item_ok item \<Longrightarrow> CHR '','' \<notin> set (show_item item)"
  using name_chars(1) by (cases item) auto

lemma show_item_star: "item_ok item \<Longrightarrow> show_item item = ''*'' \<longleftrightarrow> item = Every None"
  using name_chars(4) by (cases item) (auto simp: show_step_def split: option.splits)

text \<open>C34. The field of the weekday keeps its meaning: for every list of days, ranges and strides, written
  as cron writes them with 0 and 7 for Sunday, the field given to the calendar lists, item by item,
  numbers of the calendar (1 is Sunday) for exactly the same days, and names stay what they are.\<close>

theorem weekday_conversion:
  assumes "items \<noteq> []" and "items \<noteq> [Every None]" and "\<forall>item\<in>set items. item_ok item"
  shows "\<exists>outs. normalize_weekday (str_join '','' (map show_item items)) = str_join '','' (concat outs)
    \<and> list_all2 converts items outs"
proof -
  have s: "split_on CHR '','' (str_join '','' (map show_item items)) = map show_item items"
    using assms(1,3) by (intro split_on_join) (auto simp: show_item_comma)
  have "str_join '','' (map show_item items) \<noteq> ''*''"
  proof
    assume star: "str_join '','' (map show_item items) = ''*''"
    with s have "map show_item items = [''*'']" by simp
    then obtain item where "items = [item]" "show_item item = ''*''" by auto
    with assms(2,3) show False by (simp add: show_item_star)
  qed
  with s weekday_parts_items [OF assms(3)] show ?thesis by (auto simp: normalize_weekday_def)
qed

lemma weekday_conversion_witness:
  "\<exists>outs. normalize_weekday ''1-5,7,SAT'' = str_join '','' (concat outs)
     \<and> list_all2 converts [DayRange 1 5 None, Day 7 None, Named ''SAT''] outs"
proof -
  let ?items = "[DayRange 1 5 None, Day 7 None, Named ''SAT'']"
  have shown: "str_join '','' (map show_item ?items) = ''1-5,7,SAT''" by code_simp
  have "\<exists>outs. normalize_weekday (str_join '','' (map show_item ?items)) = str_join '','' (concat outs)
     \<and> list_all2 converts ?items outs"
    by (rule weekday_conversion) (simp_all add: step_ok_def is_name_def is_ascii_alphanumeric_def is_ascii_digit_def)
  then show ?thesis unfolding shown .
qed

end
