(* ===== verification/Sched_Task.thy ===== *)
theory Sched_Task
  imports Cron_Weekday
begin

text \<open>
  Scheduled tasks and the history of their runs (\<open>scheduler/task.rs\<close>, \<open>clamp_scheduled_timeout\<close> of
  \<open>scheduler/mod.rs\<close>). A file is what \<open>serde_json\<close> reads from it.
\<close>

section \<open>The task\<close>

datatype task_trigger = CronTrigger | StartupTrigger

record daily_success_count =
  ds_date :: string
  ds_count :: u32

record scheduled_task =
  st_id :: string
  st_name :: string
  st_description :: string
  st_cron :: string
  st_target_id :: string
  st_profile_id :: "string option"
  st_timeout :: "u64 option"
  st_enabled :: bool
  st_last_run :: "string option"
  st_last_result :: "string option"
  st_trigger :: task_trigger
  st_max_runs_per_day :: "u32 option"
  st_max_retries :: "u32 option"
  st_startup_delay_secs :: "u64 option"
  st_startup_success :: "daily_success_count option"

definition MAX_HISTORY_RECORDS :: nat where "MAX_HISTORY_RECORDS = 50"
definition DEFAULT_SCHEDULED_TIMEOUT :: u64 where "DEFAULT_SCHEDULED_TIMEOUT = 300"
definition MAX_CONCURRENT_SCHEDULED_TASKS :: nat where "MAX_CONCURRENT_SCHEDULED_TASKS = 4"
definition DEFAULT_STARTUP_DELAY_SECS :: u64 where "DEFAULT_STARTUP_DELAY_SECS = 30"
definition MAX_STARTUP_DELAY_SECS :: u64 where "MAX_STARTUP_DELAY_SECS = 86400"
definition DEFAULT_STARTUP_MAX_RETRIES :: u32 where "DEFAULT_STARTUP_MAX_RETRIES = 2"
definition MAX_STARTUP_RETRIES :: u32 where "MAX_STARTUP_RETRIES = 10"
definition DEFAULT_STARTUP_MAX_RUNS_PER_DAY :: u32 where "DEFAULT_STARTUP_MAX_RUNS_PER_DAY = 1"
definition MAX_STARTUP_RUNS_PER_DAY :: u32 where "MAX_STARTUP_RUNS_PER_DAY = 99"

definition word_clamp :: "'a::len word \<Rightarrow> 'a word \<Rightarrow> 'a word \<Rightarrow> 'a word" where
  "word_clamp lo hi x = (if x < lo then lo else if hi < x then hi else x)"

text \<open>The counter wraps: the release profile has no overflow checks.\<close>

definition next_success_count :: "daily_success_count option \<Rightarrow> string \<Rightarrow> daily_success_count" where
  "next_success_count existing today =
     \<lparr>ds_date = today,
      ds_count = (case existing of
                    Some c \<Rightarrow> if ds_date c = today then ds_count c + 1 else 1
                  | None \<Rightarrow> 1)\<rparr>"

definition startup_success_today :: "scheduled_task \<Rightarrow> string \<Rightarrow> u32" where
  "startup_success_today t today =
     (case st_startup_success t of
        Some c \<Rightarrow> if ds_date c = today then ds_count c else 0
      | None \<Rightarrow> 0)"

definition unwrap_or :: "'a option \<Rightarrow> 'a \<Rightarrow> 'a" where
  "unwrap_or x d = (case x of Some v \<Rightarrow> v | None \<Rightarrow> d)"

definition effective_max_runs_per_day :: "scheduled_task \<Rightarrow> u32" where
  "effective_max_runs_per_day t = unwrap_or (st_max_runs_per_day t) DEFAULT_STARTUP_MAX_RUNS_PER_DAY"

definition effective_max_retries :: "scheduled_task \<Rightarrow> u32" where
  "effective_max_retries t = unwrap_or (st_max_retries t) DEFAULT_STARTUP_MAX_RETRIES"

definition effective_startup_delay_secs :: "scheduled_task \<Rightarrow> u64" where
  "effective_startup_delay_secs t = unwrap_or (st_startup_delay_secs t) DEFAULT_STARTUP_DELAY_SECS"

definition startup_cap_reached :: "scheduled_task \<Rightarrow> string \<Rightarrow> bool" where
  "startup_cap_reached t today \<longleftrightarrow> effective_max_runs_per_day t \<le> startup_success_today t today"

definition normalize_for_save :: "scheduled_task \<Rightarrow> scheduled_task" where
  "normalize_for_save t =
     (if st_trigger t = CronTrigger
      then t\<lparr>st_max_runs_per_day := None, st_max_retries := None, st_startup_delay_secs := None,
             st_startup_success := None\<rparr>
      else t\<lparr>st_max_runs_per_day := Some (word_clamp 1 MAX_STARTUP_RUNS_PER_DAY (effective_max_runs_per_day t)),
             st_max_retries := Some (min (effective_max_retries t) MAX_STARTUP_RETRIES),
             st_startup_delay_secs := Some (min (effective_startup_delay_secs t) MAX_STARTUP_DELAY_SECS)\<rparr>)"

definition is_valid_task_id :: "string \<Rightarrow> bool" where
  "is_valid_task_id tid \<longleftrightarrow>
     tid \<noteq> [] \<and> list_all (\<lambda>c. is_ascii_alphanumeric c \<or> c = CHR ''_'' \<or> c = CHR ''-'') tid
     \<and> \<not> starts_with tid ''.''"

text \<open>The limits of \<open>tasks/models.rs\<close>, in seconds.\<close>

definition clamp_scheduled_timeout :: "string \<Rightarrow> scheduled_task \<Rightarrow> scheduled_task" where
  "clamp_scheduled_timeout type_name t =
     (case st_timeout t of
        None \<Rightarrow> t
      | Some timeout \<Rightarrow>
          if type_name = ''browser'' then t\<lparr>st_timeout := Some (word_clamp (1000 div 1000) (600000 div 1000) timeout)\<rparr>
          else if type_name = ''script'' then t\<lparr>st_timeout := Some (word_clamp 1 3600 timeout)\<rparr>
          else t)"

section \<open>The history\<close>

text \<open>The duration is the text of a JSON number.\<close>

record history_record =
  hr_timestamp :: string
  hr_status :: string
  hr_message :: string
  hr_duration :: string
  hr_trigger :: string

text \<open>What is at the path of a history: nothing, or a file with a readable history or without one.\<close>

datatype history_file = NoHistory | UnreadableHistory json | HistoryFile "history_record list"

definition append_history :: "history_file \<Rightarrow> history_record \<Rightarrow> history_file" where
  "append_history file record =
     (let runs = (case file of HistoryFile rs \<Rightarrow> rs | _ \<Rightarrow> []) @ [record]
      in HistoryFile (if MAX_HISTORY_RECORDS < length runs then drop (length runs - MAX_HISTORY_RECORDS) runs else runs))"

definition record_json :: "history_record \<Rightarrow> json" where
  "record_json r =
     JObject [(''timestamp'', JString (hr_timestamp r)), (''status'', JString (hr_status r)),
              (''message'', JString (hr_message r)), (''duration'', JNumber (hr_duration r)),
              (''trigger'', JString (hr_trigger r))]"

definition history_json :: "history_file \<Rightarrow> json" where
  "history_json file =
     (case file of
        HistoryFile rs \<Rightarrow> JObject [(''runs'', JArray (map record_json rs))]
      | UnreadableHistory v \<Rightarrow> v
      | NoHistory \<Rightarrow> JObject [(''runs'', JArray [])])"

definition or_null :: "json option \<Rightarrow> json" where
  "or_null v = unwrap_or v JNull"

definition map_history_records :: "json \<Rightarrow> json list" where
  "map_history_records raw =
     map (\<lambda>record.
       JObject [(''run_at'', or_null (json_get ''timestamp'' record)),
                (''success'', JBool (unwrap_or (map_option (\<lambda>s. s = ''success'')
                                       (Option.bind (json_get ''status'' record) as_str)) False)),
                (''message'', or_null (json_get ''message'' record)),
                (''trigger'', or_null (json_get ''trigger'' record)),
                (''duration'', or_null (json_get ''duration'' record))])
       (unwrap_or (Option.bind (json_get ''runs'' raw) as_array) [])"

section \<open>The history is the end of the log\<close>

text \<open>The contract of the store: the runs of a task are a log that only grows, and the file shows its end.
  A file that cannot be read counts as an empty log.\<close>

definition run_row :: "history_record \<Rightarrow> json" where
  "run_row r =
     JObject [(''run_at'', JString (hr_timestamp r)), (''success'', JBool (hr_status r = ''success'')),
              (''message'', JString (hr_message r)), (''trigger'', JString (hr_trigger r)),
              (''duration'', JNumber (hr_duration r))]"

definition newest :: "nat \<Rightarrow> 'a list \<Rightarrow> 'a list" where
  "newest n xs = drop (length xs - n) xs"

fun shows_log :: "history_file \<Rightarrow> history_record list \<Rightarrow> bool" where
  "shows_log (HistoryFile rs) entries = (rs = newest MAX_HISTORY_RECORDS entries)"
| "shows_log NoHistory entries = (entries = [])"
| "shows_log (UnreadableHistory v) entries = (entries = [])"

lemma newest_snoc: "newest n (newest n xs @ [x]) = newest n (xs @ [x])"
  by (cases "length xs \<le> n") (auto simp: newest_def Suc_diff_le)

lemma newest_length: "length (newest n xs) = min n (length xs)"
  by (simp add: newest_def)

lemma append_history_shows:
  assumes "shows_log hf entries"
  shows "shows_log (append_history hf r) (entries @ [r])"
proof -
  have short: "(if MAX_HISTORY_RECORDS < length rs then drop (length rs - MAX_HISTORY_RECORDS) rs else rs)
      = newest MAX_HISTORY_RECORDS rs" for rs :: "history_record list"
    by (simp add: newest_def)
  from assms show ?thesis
    by (cases hf) (simp_all only: append_history_def Let_def short history_file.case shows_log.simps newest_snoc append_Nil)
qed

lemma history_rows: "map_history_records (history_json (HistoryFile rs)) = map run_row rs"
  by (simp add: map_history_records_def history_json_def unwrap_or_def or_null_def record_json_def run_row_def)

text \<open>C33. The history file refines an ever growing log: starting from a file that shows a log, after any
  further runs the file shows the longer log, and what the page of the task reads from it are exactly the
  newest fifty runs of the log, oldest first, each with its own time, result, message, source and duration.\<close>

theorem history_refines_log:
  assumes "shows_log hf entries" and "runs \<noteq> []"
  shows "shows_log (fold (\<lambda>r f. append_history f r) runs hf) (entries @ runs)
    \<and> map_history_records (history_json (fold (\<lambda>r f. append_history f r) runs hf))
        = map run_row (newest MAX_HISTORY_RECORDS (entries @ runs))"
proof -
  have s: "shows_log (fold (\<lambda>r f. append_history f r) runs hf) (entries @ runs)"
    using assms(1)
  proof (induction runs arbitrary: hf entries)
    case (Cons r runs)
    from Cons.IH [OF append_history_shows [OF Cons.prems]] show ?case by simp
  qed simp
  obtain rs where f: "fold (\<lambda>r f. append_history f r) runs hf = HistoryFile rs"
  proof -
    have "append_history f r = HistoryFile rs \<Longrightarrow> thesis" for f r rs
      using assms(2) that by (cases runs rule: rev_cases) (auto simp: append_history_def Let_def)
    then show thesis using assms(2) that by (cases runs rule: rev_cases) (auto simp: append_history_def Let_def)
  qed
  with s have "rs = newest MAX_HISTORY_RECORDS (entries @ runs)" by simp
  with s f show ?thesis by (simp only: history_rows)
qed

definition demo_run :: history_record where
  "demo_run = \<lparr>hr_timestamp = ''2025-01-02T08:00:00Z'', hr_status = ''success'', hr_message = ''ok'',
               hr_duration = ''1.5'', hr_trigger = ''cron''\<rparr>"

lemma history_refines_log_witness:
  "map_history_records (history_json (append_history NoHistory demo_run)) = [run_row demo_run]"
  using history_refines_log [of NoHistory "[]" "[demo_run]"] by (simp add: newest_def MAX_HISTORY_RECORDS_def)

section \<open>Saving normalises\<close>

lemma word_clamp_range: "lo \<le> hi \<Longrightarrow> lo \<le> word_clamp lo hi x \<and> word_clamp lo hi x \<le> hi"
  by (auto simp: word_clamp_def)

lemma word_clamp_id: "lo \<le> x \<Longrightarrow> x \<le> hi \<Longrightarrow> word_clamp lo hi x = x"
  by (auto simp: word_clamp_def)

definition startup_fields_ok :: "scheduled_task \<Rightarrow> bool" where
  "startup_fields_ok t \<longleftrightarrow>
     (case st_trigger t of
        CronTrigger \<Rightarrow> st_max_runs_per_day t = None \<and> st_max_retries t = None \<and> st_startup_delay_secs t = None
                        \<and> st_startup_success t = None
      | StartupTrigger \<Rightarrow>
          (\<exists>m r d. st_max_runs_per_day t = Some m \<and> 1 \<le> m \<and> m \<le> 99 \<and> st_max_retries t = Some r \<and> r \<le> 10
             \<and> st_startup_delay_secs t = Some d \<and> d \<le> 86400))"

lemma normalize_ok: "startup_fields_ok (normalize_for_save t)"
  using word_clamp_range [of 1 MAX_STARTUP_RUNS_PER_DAY "effective_max_runs_per_day t"]
  by (cases "st_trigger t")
     (auto simp: startup_fields_ok_def normalize_for_save_def MAX_STARTUP_RUNS_PER_DAY_def MAX_STARTUP_RETRIES_def
        MAX_STARTUP_DELAY_SECS_def)

lemma normalize_id:
  assumes "startup_fields_ok t"
  shows "normalize_for_save t = t"
proof (cases "st_trigger t")
  case CronTrigger
  with assms show ?thesis by (simp add: startup_fields_ok_def normalize_for_save_def)
next
  case StartupTrigger
  with assms obtain m r d where f: "st_max_runs_per_day t = Some m" "st_max_retries t = Some r" "st_startup_delay_secs t = Some d"
    and b: "1 \<le> m" "m \<le> 99" "r \<le> 10" "d \<le> 86400"
    by (auto simp: startup_fields_ok_def)
  have "word_clamp 1 99 m = m" using b by (intro word_clamp_id)
  moreover have "min r 10 = r" "min d 86400 = d" using b by (simp_all add: min_absorb1)
  ultimately show ?thesis using StartupTrigger f
    by (simp add: normalize_for_save_def effective_max_runs_per_day_def effective_max_retries_def
        effective_startup_delay_secs_def unwrap_or_def MAX_STARTUP_RUNS_PER_DAY_def MAX_STARTUP_RETRIES_def
        MAX_STARTUP_DELAY_SECS_def)
qed

lemma clamp_timeout_frame: "\<exists>v. clamp_scheduled_timeout ty t = t\<lparr>st_timeout := v\<rparr>"
  by (intro exI [of _ "st_timeout (clamp_scheduled_timeout ty t)"]) (simp add: clamp_scheduled_timeout_def split: option.split)

end
