(* ===== verification/Sched_Service.thy ===== *)
theory Sched_Service
  imports Sched_Task
begin

text \<open>
  The scheduler service (\<open>scheduler/mod.rs\<close>): its files, the cached tasks, the marks of running tasks
  and the runs themselves, and the operations of the web interface. The directory is a list of file names
  in the order it is listed. The tasks that are scheduled live in another component: whether the target
  of a task exists and of what kind it is comes in as an argument, and so does which write succeeds.
\<close>

section \<open>State\<close>

datatype task_file = TaskFile scheduled_task | BadFile

datatype sched_error = InvalidTaskId string | InvalidCron cron_error | TaskNotFound string | TargetNotFound string
  | SchedIo string

record 'sched task_schedule =
  ts_task_id :: string
  ts_schedule :: "'sched option"
  ts_next_fire_at :: "nat option"

datatype run_source = CronRun | ManualRun | StartupRun

record attempt_result =
  ar_success :: bool
  ar_message :: string
  ar_duration :: string

text \<open>Where a run stands: it waits for a permit; a start-up run waits for its delay; attempt \<open>n\<close> is
  executed and then entered into the task, the history and the count of the day; a start-up run waits
  before the next attempt; at the end the mark is gone and the permit is still held for a moment.\<close>

datatype run_phase = WaitingPermit | Delaying | Executing nat | Stamping nat attempt_result
  | Logging nat attempt_result | Counting nat attempt_result | Pausing nat | Leaving

record run =
  rn_task :: scheduled_task
  rn_source :: run_source
  rn_phase :: run_phase
  rn_total :: nat

record 'sched scheduler =
  sc_files :: "(string \<times> task_file) list"
  sc_histories :: "string \<Rightarrow> history_file"
  sc_tasks :: "scheduled_task list"
  sc_running :: bool
  sc_next_fire_at :: "nat option"
  sc_invalid_cron_ids :: "string list"
  sc_running_ids :: "string list"
  sc_runs :: "run list"
  sc_permits :: nat
  sc_cancelled :: bool
  sc_login_once :: bool
  sc_changes :: nat
  sc_published :: "(bool \<times> nat option \<times> nat) option"
  sc_schedules :: "'sched task_schedule list"
  sc_alive :: bool

definition CHANGE_CHANNEL_CAPACITY :: nat where "CHANGE_CHANNEL_CAPACITY = 16"

definition scheduler_new :: "(string \<times> task_file) list \<Rightarrow> (string \<Rightarrow> history_file) \<Rightarrow> 'sched scheduler" where
  "scheduler_new files histories =
     \<lparr>sc_files = files, sc_histories = histories, sc_tasks = [], sc_running = True, sc_next_fire_at = None,
      sc_invalid_cron_ids = [], sc_running_ids = [], sc_runs = [], sc_permits = MAX_CONCURRENT_SCHEDULED_TASKS,
      sc_cancelled = False, sc_login_once = False, sc_changes = 0, sc_published = None, sc_schedules = [],
      sc_alive = False\<rparr>"

section \<open>Marks and runs\<close>

definition try_mark_running :: "string \<Rightarrow> 'sched scheduler \<Rightarrow> bool \<times> 'sched scheduler" where
  "try_mark_running tid sc =
     (tid \<notin> set (sc_running_ids sc), sc\<lparr>sc_running_ids := List.insert tid (sc_running_ids sc)\<rparr>)"

definition clear_running :: "string \<Rightarrow> 'sched scheduler \<Rightarrow> 'sched scheduler" where
  "clear_running tid sc = sc\<lparr>sc_running_ids := removeAll tid (sc_running_ids sc)\<rparr>"

definition spawn_tracked_run :: "scheduled_task \<Rightarrow> run_source \<Rightarrow> 'sched scheduler \<Rightarrow> 'sched scheduler" where
  "spawn_tracked_run t source sc =
     (if sc_cancelled sc then clear_running (st_id t) sc
      else sc\<lparr>sc_runs := sc_runs sc @ [\<lparr>rn_task = t, rn_source = source, rn_phase = WaitingPermit, rn_total = 1\<rparr>]\<rparr>)"

definition spawn_manual_run :: "scheduled_task \<Rightarrow> 'sched scheduler \<Rightarrow> bool \<times> 'sched scheduler" where
  "spawn_manual_run t sc =
     (case try_mark_running (st_id t) sc of
        (False, sc1) \<Rightarrow> (False, sc1)
      | (True, sc1) \<Rightarrow> (True, spawn_tracked_run t ManualRun sc1))"

section \<open>The cache\<close>

definition get_task :: "string \<Rightarrow> 'sched scheduler \<Rightarrow> scheduled_task option" where
  "get_task tid sc = find (\<lambda>t. st_id t = tid) (sc_tasks sc)"

fun update_first :: "string \<Rightarrow> (scheduled_task \<Rightarrow> scheduled_task) \<Rightarrow> scheduled_task list \<Rightarrow> scheduled_task list" where
  "update_first tid f [] = []"
| "update_first tid f (t # ts) = (if st_id t = tid then f t # ts else t # update_first tid f ts)"

definition upsert_task :: "string \<Rightarrow> scheduled_task \<Rightarrow> scheduled_task list \<Rightarrow> scheduled_task list" where
  "upsert_task tid t ts = (if list_ex (\<lambda>t'. st_id t' = tid) ts then update_first tid (\<lambda>_. t) ts else ts @ [t])"

definition notify_change :: "'sched scheduler \<Rightarrow> 'sched scheduler" where
  "notify_change sc = (if sc_changes sc < CHANGE_CHANNEL_CAPACITY then sc\<lparr>sc_changes := sc_changes sc + 1\<rparr> else sc)"

definition publish_status :: "'sched scheduler \<Rightarrow> 'sched scheduler" where
  "publish_status sc = sc\<lparr>sc_published := Some (sc_running sc, sc_next_fire_at sc, length (sc_tasks sc))\<rparr>"

definition is_cron_invalid :: "string \<Rightarrow> 'sched scheduler \<Rightarrow> bool" where
  "is_cron_invalid tid sc \<longleftrightarrow> tid \<in> set (sc_invalid_cron_ids sc)"

section \<open>Files\<close>

definition task_path :: "string \<Rightarrow> string" where
  "task_path tid = tid @ ''.json''"

definition ends_with :: "string \<Rightarrow> string \<Rightarrow> bool" where
  "ends_with s p = starts_with (rev s) (rev p)"

definition is_task_path :: "string \<Rightarrow> bool" where
  "is_task_path name \<longleftrightarrow> \<not> starts_with name ''.'' \<and> ends_with name ''.json''"

definition file_stem :: "string \<Rightarrow> string" where
  "file_stem name = take (length name - length ''.json'') name"

definition load_from :: "string \<Rightarrow> (string \<times> task_file) list \<Rightarrow> scheduled_task option" where
  "load_from path files =
     (case map_of files path of
        Some (TaskFile t) \<Rightarrow> Some (t\<lparr>st_id := file_stem path\<rparr>)
      | _ \<Rightarrow> None)"

definition save_to :: "string \<Rightarrow> scheduled_task \<Rightarrow> (string \<times> task_file) list \<Rightarrow> (string \<times> task_file) list" where
  "save_to path t files = AList.update path (TaskFile t) files"

section \<open>The operations of the web interface\<close>

record target =
  tg_exists :: bool
  tg_kind :: "string option"

definition cron_error_of :: "(string \<Rightarrow> string + 'sched) \<Rightarrow> string \<Rightarrow> cron_error option" where
  "cron_error_of parse cron = (case parse_cron_expr parse cron of Inl e \<Rightarrow> Some e | Inr _ \<Rightarrow> None)"

definition save_task ::
  "(string \<Rightarrow> string + 'sched) \<Rightarrow> target \<Rightarrow> bool \<Rightarrow> string \<Rightarrow> scheduled_task \<Rightarrow> 'sched scheduler
     \<Rightarrow> (sched_error + unit) \<times> 'sched scheduler"
where
  "save_task parse target io_ok tid t sc =
     (if \<not> is_valid_task_id tid then (Inl (InvalidTaskId tid), sc)
      else
        let t1 = normalize_for_save (t\<lparr>st_id := tid\<rparr>)
        in case (if st_trigger t1 = CronTrigger then cron_error_of parse (st_cron t1) else None) of
             Some e \<Rightarrow> (Inl (InvalidCron e), sc)
           | None \<Rightarrow>
               if \<not> tg_exists target then (Inl (TargetNotFound (st_target_id t1)), sc)
               else
                 let t2 = (case tg_kind target of Some k \<Rightarrow> clamp_scheduled_timeout k t1 | None \<Rightarrow> t1)
                 in if \<not> io_ok then (Inl (SchedIo ''write''), sc)
                    else (Inr (), publish_status (notify_change
                           (sc\<lparr>sc_files := save_to (task_path tid) t2 (sc_files sc),
                               sc_tasks := upsert_task tid t2 (sc_tasks sc)\<rparr>))))"

definition delete_task ::
  "bool \<Rightarrow> bool \<Rightarrow> string \<Rightarrow> 'sched scheduler \<Rightarrow> (sched_error + unit) \<times> 'sched scheduler"
where
  "delete_task io_ok history_ok tid sc =
     (if \<not> is_valid_task_id tid then (Inl (InvalidTaskId tid), sc)
      else if map_of (sc_files sc) (task_path tid) = None then (Inl (TaskNotFound tid), sc)
      else if \<not> io_ok then (Inl (SchedIo ''remove''), sc)
      else (Inr (), publish_status (notify_change
             (sc\<lparr>sc_files := AList.delete (task_path tid) (sc_files sc),
                 sc_histories := (if history_ok then (sc_histories sc)(tid := NoHistory) else sc_histories sc),
                 sc_tasks := filter (\<lambda>t. st_id t \<noteq> tid) (sc_tasks sc)\<rparr>))))"

definition toggle_task ::
  "(string \<Rightarrow> string + 'sched) \<Rightarrow> target \<Rightarrow> bool \<Rightarrow> string \<Rightarrow> bool \<Rightarrow> 'sched scheduler
     \<Rightarrow> (sched_error + unit) \<times> 'sched scheduler"
where
  "toggle_task parse target io_ok tid enabled sc =
     (case get_task tid sc of
        None \<Rightarrow> (Inl (TaskNotFound tid), sc)
      | Some t \<Rightarrow> save_task parse target io_ok tid (t\<lparr>st_enabled := enabled\<rparr>) sc)"

definition read_history :: "string \<Rightarrow> 'sched scheduler \<Rightarrow> string + json list" where
  "read_history tid sc =
     (if \<not> is_valid_task_id tid then Inl ''invalid tid''
      else case sc_histories sc tid of
             NoHistory \<Rightarrow> Inr []
           | file \<Rightarrow> Inr (map_history_records (history_json file)))"

section \<open>What a run writes\<close>

definition update_file :: "bool \<Rightarrow> string \<Rightarrow> (scheduled_task \<Rightarrow> scheduled_task) \<Rightarrow> 'sched scheduler \<Rightarrow> 'sched scheduler" where
  "update_file io_ok tid f sc =
     (case load_from (task_path tid) (sc_files sc) of
        Some t \<Rightarrow> if io_ok then sc\<lparr>sc_files := save_to (task_path tid) (f t) (sc_files sc)\<rparr> else sc
      | None \<Rightarrow> sc)"

definition update_last_run :: "bool \<Rightarrow> string \<Rightarrow> string \<Rightarrow> string \<Rightarrow> string \<Rightarrow> 'sched scheduler \<Rightarrow> 'sched scheduler" where
  "update_last_run io_ok now tid status message sc =
     (let stamp = (\<lambda>t. t\<lparr>st_last_run := Some now, st_last_result := Some (''['' @ status @ ''] '' @ message)\<rparr>);
          sc1 = update_file io_ok tid stamp sc
      in sc1\<lparr>sc_tasks := update_first tid stamp (sc_tasks sc1)\<rparr>)"

definition record_startup_success :: "bool \<Rightarrow> string \<Rightarrow> string \<Rightarrow> 'sched scheduler \<Rightarrow> 'sched scheduler" where
  "record_startup_success io_ok today tid sc =
     (let count = (\<lambda>t. t\<lparr>st_startup_success := Some (next_success_count (st_startup_success t) today)\<rparr>);
          sc1 = update_file io_ok tid count sc
      in sc1\<lparr>sc_tasks := update_first tid count (sc_tasks sc1)\<rparr>)"

definition add_history_record :: "bool \<Rightarrow> string \<Rightarrow> history_record \<Rightarrow> 'sched scheduler \<Rightarrow> 'sched scheduler" where
  "add_history_record io_ok tid record sc =
     (if io_ok then sc\<lparr>sc_histories := (sc_histories sc)(tid := append_history (sc_histories sc tid) record)\<rparr> else sc)"

end
