(* ===== verification/Sched_Loop.thy ===== *)
theory Sched_Loop
  imports Sched_Service
begin

text \<open>
  The loop of the scheduler and the runs it starts (\<open>scheduler/cron_loop.rs\<close>) as a step relation: the
  loop wakes up for a change, a scan or a due task, the web interface calls operations in between, and
  every run moves through its phases on its own. Times are nanoseconds of the wall clock; the calendar
  of the \<open>cron\<close> crate is the pair of its parser and its next time after a time.
\<close>

record 'sched sched_env =
  se_parse :: "string \<Rightarrow> string + 'sched"
  se_upcoming :: "'sched \<Rightarrow> nat \<Rightarrow> nat option"
  se_today :: "nat \<Rightarrow> string"
  se_rfc3339 :: "nat \<Rightarrow> string"

section \<open>When the loop wakes up\<close>

definition NANOS_100MS :: nat where "NANOS_100MS = 100000000"
definition MAX_SLEEP_SLICE :: nat where "MAX_SLEEP_SLICE = 60 * NANOS"

datatype sleep_action = FireNow | SleepUntil nat

definition systemtime_to_sleep_target :: "nat \<Rightarrow> nat \<Rightarrow> sleep_action" where
  "systemtime_to_sleep_target now target =
     (if now \<le> target \<and> NANOS_100MS \<le> target - now then SleepUntil target else FireNow)"

definition loop_sleep :: "nat \<Rightarrow> nat option \<Rightarrow> sleep_action" where
  "loop_sleep now nearest =
     (case nearest of
        Some t \<Rightarrow> systemtime_to_sleep_target now t
      | None \<Rightarrow> SleepUntil (now + from_secs 86400))"

text \<open>The slices of a sleep for the readings of the wall clock at their starts.\<close>

fun sleep_slices :: "nat \<Rightarrow> nat list \<Rightarrow> nat list" where
  "sleep_slices target [] = []"
| "sleep_slices target (now # later) =
     (if target \<le> now then [] else min (target - now) MAX_SLEEP_SLICE # sleep_slices target later)"

fun compute_nearest_fire_at :: "'sched task_schedule list \<Rightarrow> nat option" where
  "compute_nearest_fire_at [] = None"
| "compute_nearest_fire_at (ts # tss) =
     (case (ts_next_fire_at ts, compute_nearest_fire_at tss) of
        (None, r) \<Rightarrow> r
      | (Some t, None) \<Rightarrow> Some t
      | (Some t, Some u) \<Rightarrow> Some (min t u))"

definition loop_top :: "'sched scheduler \<Rightarrow> 'sched scheduler" where
  "loop_top sc = publish_status (sc\<lparr>sc_next_fire_at := compute_nearest_fire_at (sc_schedules sc), sc_running := True\<rparr>)"

section \<open>Loading\<close>

text \<open>A file gives a cached task, perhaps a place in the schedule, and perhaps the mark of a bad expression.\<close>

definition schedule_entry ::
  "'sched sched_env \<Rightarrow> nat \<Rightarrow> string \<Rightarrow> scheduled_task \<Rightarrow> ('sched task_schedule \<times> bool) option"
where
  "schedule_entry env now tid t =
     (if st_enabled t \<and> st_trigger t \<noteq> StartupTrigger then
        case parse_cron_expr (se_parse env) (st_cron t) of
          Inl _ \<Rightarrow> Some (\<lparr>ts_task_id = tid, ts_schedule = None, ts_next_fire_at = None\<rparr>, True)
        | Inr s \<Rightarrow>
            Some (\<lparr>ts_task_id = tid, ts_schedule = Some s, ts_next_fire_at = se_upcoming env s now\<rparr>,
                  se_upcoming env s now = None)
      else None)"

definition loaded_tasks :: "(string \<times> task_file) list \<Rightarrow> (string \<times> scheduled_task) list" where
  "loaded_tasks files =
     List.map_filter (\<lambda>(name, _). if is_task_path name then map_option (Pair (file_stem name)) (load_from name files) else None)
       files"

definition load_and_parse_all :: "'sched sched_env \<Rightarrow> nat \<Rightarrow> bool \<Rightarrow> 'sched scheduler \<Rightarrow> 'sched scheduler" where
  "load_and_parse_all env now readable sc =
     (let loaded = (if readable then loaded_tasks (sc_files sc) else []);
          entries = List.map_filter (\<lambda>(tid, t). map_option (Pair tid) (schedule_entry env now tid t)) loaded
      in sc\<lparr>sc_tasks := map snd loaded,
            sc_invalid_cron_ids := map fst (filter (\<lambda>(tid, ts, bad). bad) entries),
            sc_schedules := map (\<lambda>(tid, ts, bad). ts) entries\<rparr>)"

definition scan_disk_task_ids :: "bool \<Rightarrow> (string \<times> task_file) list \<Rightarrow> string list" where
  "scan_disk_task_ids readable files = (if readable then map file_stem (filter is_task_path (map fst files)) else [])"

definition reconcile_external_deletions :: "bool \<Rightarrow> 'sched scheduler \<Rightarrow> 'sched scheduler" where
  "reconcile_external_deletions readable sc =
     (let ids = scan_disk_task_ids readable (sc_files sc);
          kept = filter (\<lambda>ts. ts_task_id ts \<in> set ids) (sc_schedules sc);
          sc1 = sc\<lparr>sc_schedules := kept\<rparr>
      in if length kept \<noteq> length (sc_schedules sc)
         then sc1\<lparr>sc_tasks := filter (\<lambda>t. st_id t \<in> set ids) (sc_tasks sc1)\<rparr> else sc1)"

section \<open>Firing\<close>

definition advance :: "'sched sched_env \<Rightarrow> nat \<Rightarrow> 'sched task_schedule \<Rightarrow> 'sched task_schedule" where
  "advance env now ts =
     ts\<lparr>ts_next_fire_at := Option.bind (ts_schedule ts) (\<lambda>s. se_upcoming env s now)\<rparr>"

definition fire_one ::
  "'sched sched_env \<Rightarrow> nat \<Rightarrow> 'sched task_schedule \<Rightarrow> 'sched scheduler
     \<Rightarrow> ('sched task_schedule \<times> bool) \<times> 'sched scheduler"
where
  "fire_one env now ts sc =
     (case ts_next_fire_at ts of
        None \<Rightarrow> ((ts, False), sc)
      | Some fire_at \<Rightarrow>
          if now < fire_at then ((ts, False), sc)
          else case get_task (ts_task_id ts) sc of
                 None \<Rightarrow> ((advance env now ts, True), sc)
               | Some t \<Rightarrow>
                   if \<not> st_enabled t then ((advance env now ts, False), sc)
                   else case try_mark_running (ts_task_id ts) sc of
                          (False, sc1) \<Rightarrow> ((advance env now ts, False), sc1)
                        | (True, sc1) \<Rightarrow> ((advance env now ts, True), spawn_tracked_run t CronRun sc1))"

fun fire_all ::
  "'sched sched_env \<Rightarrow> nat \<Rightarrow> 'sched task_schedule list \<Rightarrow> 'sched scheduler
     \<Rightarrow> ('sched task_schedule list \<times> nat) \<times> 'sched scheduler"
where
  "fire_all env now [] sc = (([], 0), sc)"
| "fire_all env now (ts # tss) sc =
     (let ((ts', fired), sc1) = fire_one env now ts sc; ((tss', n), sc2) = fire_all env now tss sc1
      in ((ts' # tss', (if fired then 1 else 0) + n), sc2))"

definition fire_due_tasks :: "'sched sched_env \<Rightarrow> nat \<Rightarrow> 'sched scheduler \<Rightarrow> nat \<times> 'sched scheduler" where
  "fire_due_tasks env now sc =
     (let ((tss, n), sc1) = fire_all env now (sc_schedules sc) sc in (n, sc1\<lparr>sc_schedules := tss\<rparr>))"

definition dispatch_one :: "string \<Rightarrow> scheduled_task \<Rightarrow> 'sched scheduler \<Rightarrow> 'sched scheduler" where
  "dispatch_one today t sc =
     (if st_trigger t \<noteq> StartupTrigger \<or> \<not> st_enabled t then sc
      else if startup_cap_reached t today then sc
      else case try_mark_running (st_id t) sc of
             (False, sc1) \<Rightarrow> sc1
           | (True, sc1) \<Rightarrow> spawn_tracked_run t StartupRun sc1)"

definition dispatch_startup_triggers :: "string \<Rightarrow> 'sched scheduler \<Rightarrow> 'sched scheduler" where
  "dispatch_startup_triggers today sc =
     (if sc_login_once sc then sc else fold (dispatch_one today) (sc_tasks sc) sc)"

section \<open>One turn of the loop\<close>

text \<open>Before every reload what is due is started.\<close>

definition reload_schedules :: "'sched sched_env \<Rightarrow> nat \<Rightarrow> bool \<Rightarrow> 'sched scheduler \<Rightarrow> 'sched scheduler" where
  "reload_schedules env now readable sc =
     load_and_parse_all env now readable (snd (fire_due_tasks env now sc))"

datatype wake = ChangeReceived | ConfigChanged | ProfileChanged | DegradedPoll | DeletionScan | SleepOver

definition loop_turn :: "'sched sched_env \<Rightarrow> nat \<Rightarrow> bool \<Rightarrow> wake \<Rightarrow> 'sched scheduler \<Rightarrow> 'sched scheduler" where
  "loop_turn env now readable w sc =
     loop_top (case w of
        ChangeReceived \<Rightarrow> reload_schedules env now readable (sc\<lparr>sc_changes := sc_changes sc - 1\<rparr>)
      | ConfigChanged \<Rightarrow> reload_schedules env now readable sc
      | ProfileChanged \<Rightarrow> sc
      | DegradedPoll \<Rightarrow> reload_schedules env now readable sc
      | DeletionScan \<Rightarrow> reconcile_external_deletions readable sc
      | SleepOver \<Rightarrow> snd (fire_due_tasks env now sc))"

definition cron_loop_start :: "'sched sched_env \<Rightarrow> nat \<Rightarrow> bool \<Rightarrow> 'sched scheduler \<Rightarrow> 'sched scheduler" where
  "cron_loop_start env now readable sc =
     loop_top (dispatch_startup_triggers (se_today env now) (load_and_parse_all env now readable (sc\<lparr>sc_alive := True\<rparr>)))"

section \<open>The phases of a run\<close>

definition source_str :: "run_source \<Rightarrow> string" where
  "source_str source = (case source of CronRun \<Rightarrow> ''cron'' | ManualRun \<Rightarrow> ''manual'' | StartupRun \<Rightarrow> ''startup'')"

definition set_phase :: "nat \<Rightarrow> run_phase \<Rightarrow> 'sched scheduler \<Rightarrow> 'sched scheduler" where
  "set_phase k p sc = sc\<lparr>sc_runs := (sc_runs sc)[k := (sc_runs sc ! k)\<lparr>rn_phase := p\<rparr>]\<rparr>"

definition leave_run :: "nat \<Rightarrow> 'sched scheduler \<Rightarrow> 'sched scheduler" where
  "leave_run k sc = set_phase k Leaving (clear_running (st_id (rn_task (sc_runs sc ! k))) sc)"

definition remove_nth :: "nat \<Rightarrow> 'a list \<Rightarrow> 'a list" where
  "remove_nth k xs = take k xs @ drop (Suc k) xs"

definition holds_permit :: "run \<Rightarrow> bool" where
  "holds_permit r \<longleftrightarrow> rn_phase r \<noteq> WaitingPermit"

definition end_run :: "nat \<Rightarrow> 'sched scheduler \<Rightarrow> 'sched scheduler" where
  "end_run k sc =
     sc\<lparr>sc_runs := remove_nth k (sc_runs sc),
        sc_permits := sc_permits sc + (if holds_permit (sc_runs sc ! k) then 1 else 0)\<rparr>"

text \<open>The latest definition of the task decides after the delay; the count of attempts wraps.\<close>

definition delay_over :: "string \<Rightarrow> nat \<Rightarrow> 'sched scheduler \<Rightarrow> 'sched scheduler" where
  "delay_over today k sc =
     (case get_task (st_id (rn_task (sc_runs sc ! k))) sc of
        None \<Rightarrow> leave_run k sc
      | Some latest \<Rightarrow>
          if \<not> st_enabled latest \<or> startup_cap_reached latest today then leave_run k sc
          else
            let total = unat (effective_max_retries latest + 1);
                sc1 = sc\<lparr>sc_runs := (sc_runs sc)[k := (sc_runs sc ! k)\<lparr>rn_task := latest, rn_total := total\<rparr>]\<rparr>
            in if total = 0 then leave_run k sc1 else set_phase k (Executing 1) sc1)"

definition attempt_message :: "run \<Rightarrow> nat \<Rightarrow> string \<Rightarrow> string" where
  "attempt_message r n message =
     (if rn_source r = StartupRun \<and> 1 < n
      then message @ '' (attempt '' @ show_nat n @ ''/'' @ show_nat (rn_total r) @ '')'' else message)"

definition after_attempt :: "nat \<Rightarrow> nat \<Rightarrow> attempt_result \<Rightarrow> 'sched scheduler \<Rightarrow> 'sched scheduler" where
  "after_attempt k n a sc =
     (let r = sc_runs sc ! k
      in if rn_source r = StartupRun \<and> \<not> ar_success a \<and> n < rn_total r then set_phase k (Pausing n) sc
         else leave_run k sc)"

definition status_str :: "attempt_result \<Rightarrow> string" where
  "status_str a = (if ar_success a then ''success'' else ''failure'')"

section \<open>Steps\<close>

text \<open>What happens next: the loop, the web interface, the file system from outside, or a run.\<close>

inductive sched_step :: "'sched sched_env \<Rightarrow> 'sched scheduler \<Rightarrow> 'sched scheduler \<Rightarrow> bool" for env where
  start_loop: "\<not> sc_alive sc \<Longrightarrow> \<not> sc_cancelled sc \<Longrightarrow> sched_step env sc (cron_loop_start env now readable sc)"
| wake_up: "sc_alive sc \<Longrightarrow> w = ChangeReceived \<longrightarrow> 0 < sc_changes sc \<Longrightarrow> sched_step env sc (loop_turn env now readable w sc)"
| stop_loop: "sc_alive sc \<Longrightarrow> sched_step env sc (sc\<lparr>sc_alive := False, sc_cancelled := True\<rparr>)"
| stopped: "\<not> sc_alive sc \<Longrightarrow> sc_cancelled sc \<Longrightarrow> sc_runs sc = [] \<Longrightarrow>
    sched_step env sc (publish_status (sc\<lparr>sc_running := False\<rparr>))"
| set_mode: "sched_step env sc (sc\<lparr>sc_login_once := b\<rparr>)"
| save: "sched_step env sc (snd (save_task (se_parse env) target io_ok tid t sc))"
| delete: "sched_step env sc (snd (delete_task io_ok history_ok tid sc))"
| toggle: "sched_step env sc (snd (toggle_task (se_parse env) target io_ok tid enabled sc))"
| run_now: "sched_step env sc (snd (spawn_manual_run t sc))"
| files_changed: "sched_step env sc (sc\<lparr>sc_files := files\<rparr>)"
| acquire: "k < length (sc_runs sc) \<Longrightarrow> rn_phase (sc_runs sc ! k) = WaitingPermit \<Longrightarrow> 0 < sc_permits sc \<Longrightarrow>
    sched_step env sc (set_phase k (if rn_source (sc_runs sc ! k) = StartupRun then Delaying else Executing 1)
      (sc\<lparr>sc_permits := sc_permits sc - 1\<rparr>))"
| delayed: "k < length (sc_runs sc) \<Longrightarrow> rn_phase (sc_runs sc ! k) = Delaying \<Longrightarrow>
    sched_step env sc (delay_over (se_today env now) k sc)"
| executed: "k < length (sc_runs sc) \<Longrightarrow> rn_phase (sc_runs sc ! k) = Executing n \<Longrightarrow>
    sched_step env sc (set_phase k (Stamping n (a\<lparr>ar_message := attempt_message (sc_runs sc ! k) n (ar_message a)\<rparr>)) sc)"
| stamped: "k < length (sc_runs sc) \<Longrightarrow> rn_phase (sc_runs sc ! k) = Stamping n a \<Longrightarrow>
    sched_step env sc (set_phase k (Logging n a)
      (update_last_run io_ok (se_rfc3339 env now) (st_id (rn_task (sc_runs sc ! k))) (status_str a) (ar_message a) sc))"
| logged: "k < length (sc_runs sc) \<Longrightarrow> rn_phase (sc_runs sc ! k) = Logging n a \<Longrightarrow>
    sched_step env sc (set_phase k (Counting n a)
      (add_history_record io_ok (st_id (rn_task (sc_runs sc ! k)))
         \<lparr>hr_timestamp = se_rfc3339 env now, hr_status = status_str a, hr_message = ar_message a,
          hr_duration = ar_duration a, hr_trigger = source_str (rn_source (sc_runs sc ! k))\<rparr> sc))"
| counted: "k < length (sc_runs sc) \<Longrightarrow> rn_phase (sc_runs sc ! k) = Counting n a \<Longrightarrow>
    sched_step env sc (after_attempt k n a
      (if ar_success a \<and> st_trigger (rn_task (sc_runs sc ! k)) = StartupTrigger
       then record_startup_success io_ok (se_today env now) (st_id (rn_task (sc_runs sc ! k))) sc else sc))"
| retried: "k < length (sc_runs sc) \<Longrightarrow> rn_phase (sc_runs sc ! k) = Pausing n \<Longrightarrow>
    sched_step env sc (set_phase k (Executing (n + 1)) sc)"
| left: "k < length (sc_runs sc) \<Longrightarrow> rn_phase (sc_runs sc ! k) = Leaving \<Longrightarrow> sched_step env sc (end_run k sc)"
| cancelled: "k < length (sc_runs sc) \<Longrightarrow> sc_cancelled sc \<Longrightarrow> rn_phase (sc_runs sc ! k) \<noteq> Leaving \<Longrightarrow>
    sched_step env sc (end_run k (clear_running (st_id (rn_task (sc_runs sc ! k))) sc))"

definition sched_init :: "'sched scheduler \<Rightarrow> bool" where
  "sched_init sc \<longleftrightarrow> (\<exists>files histories. sc = scheduler_new files histories)"

definition sched_reachable :: "'sched sched_env \<Rightarrow> 'sched scheduler \<Rightarrow> bool" where
  "sched_reachable env sc \<longleftrightarrow> (\<exists>init. sched_init init \<and> (sched_step env)\<^sup>*\<^sup>* init sc)"

end
