(* ===== verification/Sched_Inv.thy ===== *)
theory Sched_Inv
  imports Sched_Loop
begin

text \<open>
  However the loop, the web interface and the runs interleave: a task runs at most once at a time, the
  marks are exactly the tasks that run, and at most four runs hold a permit.
\<close>

definition active_ids :: "run list \<Rightarrow> string list" where
  "active_ids rs = map (\<lambda>r. st_id (rn_task r)) (filter (\<lambda>r. rn_phase r \<noteq> Leaving) rs)"

definition holders :: "run list \<Rightarrow> nat" where
  "holders rs = length (filter holds_permit rs)"

text \<open>Attempts are counted from one up to the total of the round; only a start-up round has more than one.\<close>

definition attempt_ok :: "run \<Rightarrow> bool" where
  "attempt_ok r \<longleftrightarrow>
     (rn_source r \<noteq> StartupRun \<longrightarrow> rn_total r = 1)
     \<and> (case rn_phase r of
          Executing n \<Rightarrow> 1 \<le> n \<and> n \<le> rn_total r
        | Stamping n a \<Rightarrow> 1 \<le> n \<and> n \<le> rn_total r
        | Logging n a \<Rightarrow> 1 \<le> n \<and> n \<le> rn_total r
        | Counting n a \<Rightarrow> 1 \<le> n \<and> n \<le> rn_total r
        | Pausing n \<Rightarrow> 1 \<le> n \<and> n < rn_total r
        | Delaying \<Rightarrow> rn_source r = StartupRun
        | _ \<Rightarrow> True)"

definition runs_ok :: "'sched scheduler \<Rightarrow> bool" where
  "runs_ok sc \<longleftrightarrow>
     distinct (active_ids (sc_runs sc)) \<and> set (sc_running_ids sc) = set (active_ids (sc_runs sc))
     \<and> sc_permits sc + holders (sc_runs sc) = MAX_CONCURRENT_SCHEDULED_TASKS
     \<and> (\<forall>r\<in>set (sc_runs sc). attempt_ok r)"

section \<open>Operations that leave the runs alone\<close>

definition run_part :: "'sched scheduler \<Rightarrow> run list \<times> string list \<times> nat" where
  "run_part sc = (sc_runs sc, sc_running_ids sc, sc_permits sc)"

lemma runs_ok_part: "run_part sc' = run_part sc \<Longrightarrow> runs_ok sc' = runs_ok sc"
  by (simp add: runs_ok_def run_part_def)

lemma part_simps [simp]:
  "run_part (publish_status sc) = run_part sc"
  "run_part (notify_change sc) = run_part sc"
  "run_part (loop_top sc) = run_part sc"
  "run_part (load_and_parse_all env now readable sc) = run_part sc"
  "run_part (reconcile_external_deletions readable sc) = run_part sc"
  "run_part (update_file io_ok tid f sc) = run_part sc"
  by (auto simp: run_part_def publish_status_def notify_change_def loop_top_def load_and_parse_all_def
      reconcile_external_deletions_def update_file_def Let_def split: option.split)

lemma part_updates [simp]:
  "run_part (update_last_run io_ok now tid status message sc) = run_part sc"
  "run_part (record_startup_success io_ok today tid sc) = run_part sc"
  "run_part (add_history_record io_ok tid r sc) = run_part sc"
  using part_simps(6)
  by (auto simp: run_part_def update_last_run_def record_startup_success_def add_history_record_def Let_def)

lemma part_operations [simp]:
  "run_part (snd (save_task parse target io_ok tid t sc)) = run_part sc"
  "run_part (snd (delete_task io_ok history_ok tid sc)) = run_part sc"
  "run_part (snd (toggle_task parse target io_ok tid enabled sc)) = run_part sc"
proof -
  have 1: "run_part (publish_status (notify_change sc')) = run_part sc'" for sc' :: "'sched scheduler" by simp
  show s: "run_part (snd (save_task parse target io_ok tid t sc)) = run_part sc" for t
    by (auto simp: save_task_def Let_def 1 split: option.split) (simp_all add: run_part_def)
  show "run_part (snd (delete_task io_ok history_ok tid sc)) = run_part sc"
    by (auto simp: delete_task_def 1) (simp_all add: run_part_def)
  show "run_part (snd (toggle_task parse target io_ok tid enabled sc)) = run_part sc"
    by (auto simp: toggle_task_def s split: option.split)
qed

section \<open>Starting runs\<close>

lemma get_task_id: "get_task tid sc = Some t \<Longrightarrow> st_id t = tid"
  by (auto simp: get_task_def find_Some_iff)

lemma active_ids_append [simp]: "active_ids (xs @ ys) = active_ids xs @ active_ids ys"
  by (simp add: active_ids_def)

lemma active_ids_Cons [simp]:
  "active_ids (r # rs) = (if rn_phase r = Leaving then [] else [st_id (rn_task r)]) @ active_ids rs"
  by (simp add: active_ids_def)

lemma active_ids_Nil [simp]: "active_ids [] = []"
  by (simp add: active_ids_def)

lemma holders_append [simp]: "holders (xs @ ys) = holders xs + holders ys"
  by (simp add: holders_def)

lemma holders_Cons [simp]: "holders (r # rs) = (if holds_permit r then 1 else 0) + holders rs"
  by (simp add: holders_def)

lemma holders_Nil [simp]: "holders [] = 0"
  by (simp add: holders_def)

lemma mark_and_spawn_ok:
  assumes "runs_ok sc" and "try_mark_running (st_id t) sc = (True, sc1)"
  shows "runs_ok (spawn_tracked_run t source sc1)"
  using assms
  by (auto simp: try_mark_running_def spawn_tracked_run_def clear_running_def runs_ok_def holds_permit_def attempt_ok_def)

lemma mark_refused_ok:
  assumes "runs_ok sc" and "try_mark_running tid sc = (False, sc1)"
  shows "runs_ok sc1"
  using assms by (auto simp: try_mark_running_def runs_ok_def insert_absorb)

lemma spawn_manual_ok: "runs_ok sc \<Longrightarrow> runs_ok (snd (spawn_manual_run t sc))"
  by (auto simp: spawn_manual_run_def split: prod.split bool.split intro: mark_and_spawn_ok mark_refused_ok)

lemma fire_one_ok:
  assumes "runs_ok sc"
  shows "runs_ok (snd (fire_one env now ts sc))"
proof (cases "get_task (ts_task_id ts) sc")
  case (Some t)
  obtain free sc1 where m: "try_mark_running (ts_task_id ts) sc = (free, sc1)" by fastforce
  have "runs_ok (if free then spawn_tracked_run t CronRun sc1 else sc1)"
    using mark_and_spawn_ok [OF assms, of t sc1 CronRun] mark_refused_ok [OF assms, of "ts_task_id ts" sc1] m get_task_id [OF Some]
    by (cases free) simp_all
  with Some m assms show ?thesis by (cases free) (simp_all add: fire_one_def split: option.split)
qed (use assms in \<open>simp add: fire_one_def split: option.split\<close>)

lemma fire_all_ok: "runs_ok sc \<Longrightarrow> runs_ok (snd (fire_all env now tss sc))"
proof (induction tss arbitrary: sc)
  case (Cons ts tss)
  then have "runs_ok (snd (fire_all env now tss (snd (fire_one env now ts sc))))" by (blast intro: fire_one_ok)
  moreover obtain ts' f sc1 where "fire_one env now ts sc = ((ts', f), sc1)" by (metis prod.exhaust)
  moreover obtain tss' n sc2 where "fire_all env now tss sc1 = ((tss', n), sc2)" by (metis prod.exhaust)
  ultimately show ?case by simp
qed simp

lemma fire_due_ok:
  assumes "runs_ok sc"
  shows "runs_ok (snd (fire_due_tasks env now sc))"
proof -
  obtain tss n sc1 where f: "fire_all env now (sc_schedules sc) sc = ((tss, n), sc1)" by (metis prod.exhaust)
  then have "runs_ok sc1" using fire_all_ok [OF assms, of env now "sc_schedules sc"] by simp
  then show ?thesis by (simp add: fire_due_tasks_def f runs_ok_def)
qed

lemma dispatch_startup_ok: "runs_ok sc \<Longrightarrow> runs_ok (dispatch_startup_triggers today sc)" for sc :: "'sched scheduler"
proof -
  have one: "runs_ok sc \<Longrightarrow> runs_ok (dispatch_one today t sc)" for t and sc :: "'sched scheduler"
    by (auto simp: dispatch_one_def split: prod.split bool.split intro: mark_and_spawn_ok mark_refused_ok)
  have "runs_ok sc \<Longrightarrow> runs_ok (fold (dispatch_one today) ts sc)" for ts and sc :: "'sched scheduler"
    by (induction ts arbitrary: sc) (simp_all add: one)
  then show "runs_ok sc \<Longrightarrow> ?thesis" by (simp add: dispatch_startup_triggers_def)
qed

lemma reload_ok: "runs_ok sc \<Longrightarrow> runs_ok (reload_schedules env now readable sc)"
  using fire_due_ok runs_ok_part [OF part_simps(4)] by (metis reload_schedules_def)

lemma loop_turn_ok:
  assumes "runs_ok sc"
  shows "runs_ok (loop_turn env now readable w sc)"
proof -
  have changes: "runs_ok (sc\<lparr>sc_changes := n\<rparr>)" for n using assms by (simp add: runs_ok_def)
  have top: "runs_ok (loop_top sc') = runs_ok sc'" for sc' :: "'a scheduler" by (rule runs_ok_part) simp
  have scan: "runs_ok (reconcile_external_deletions readable sc)" using assms runs_ok_part [OF part_simps(5)] by blast
  show ?thesis
    by (cases w) (simp_all add: loop_turn_def top scan assms changes reload_ok fire_due_ok)
qed

lemma loop_start_ok:
  assumes "runs_ok sc"
  shows "runs_ok (cron_loop_start env now readable sc)"
proof -
  have "runs_ok (load_and_parse_all env now readable (sc\<lparr>sc_alive := True\<rparr>))"
    using assms runs_ok_part [OF part_simps(4), of env now readable "sc\<lparr>sc_alive := True\<rparr>"] by (simp add: runs_ok_def)
  then have "runs_ok (dispatch_startup_triggers (se_today env now) (load_and_parse_all env now readable (sc\<lparr>sc_alive := True\<rparr>)))"
    by (rule dispatch_startup_ok)
  then show ?thesis unfolding cron_loop_start_def using runs_ok_part [OF part_simps(3)] by blast
qed

section \<open>Runs on their way\<close>

lemma run_at:
  assumes "k < length (sc_runs sc)"
  obtains xs r ys where "sc_runs sc = xs @ r # ys" "k = length xs" "sc_runs sc ! k = r"
  using that [of "take k (sc_runs sc)" "sc_runs sc ! k" "drop (Suc k) (sc_runs sc)"] assms
  by (simp add: id_take_nth_drop)

text \<open>A run that stays active and keeps its permit.\<close>

lemma set_phase_ok:
  assumes "runs_ok sc" and "k < length (sc_runs sc)" and "rn_phase (sc_runs sc ! k) \<noteq> Leaving"
    and "holds_permit (sc_runs sc ! k)" and "p \<noteq> Leaving" and "p \<noteq> WaitingPermit"
    and "attempt_ok ((sc_runs sc ! k)\<lparr>rn_phase := p\<rparr>)"
  shows "runs_ok (set_phase k p sc)"
proof -
  obtain xs r ys where "sc_runs sc = xs @ r # ys" "k = length xs" "sc_runs sc ! k = r" by (rule run_at [OF assms(2)])
  with assms show ?thesis by (auto simp: runs_ok_def set_phase_def holds_permit_def)
qed

lemma set_phase_part_ok:
  assumes "runs_ok sc" and "run_part sc' = run_part sc" and "k < length (sc_runs sc)"
    and "rn_phase (sc_runs sc ! k) \<noteq> Leaving" and "holds_permit (sc_runs sc ! k)" and "p \<noteq> Leaving" and "p \<noteq> WaitingPermit"
    and "attempt_ok ((sc_runs sc ! k)\<lparr>rn_phase := p\<rparr>)"
  shows "runs_ok (set_phase k p sc')"
  using assms runs_ok_part [OF assms(2)] by (intro set_phase_ok) (simp_all add: run_part_def)

lemma leave_run_ok:
  assumes "runs_ok sc" and "k < length (sc_runs sc)" and "rn_phase (sc_runs sc ! k) \<noteq> Leaving"
    and "holds_permit (sc_runs sc ! k)"
  shows "runs_ok (leave_run k sc)"
proof -
  obtain xs r ys where "sc_runs sc = xs @ r # ys" "k = length xs" "sc_runs sc ! k = r" by (rule run_at [OF assms(2)])
  with assms show ?thesis
    by (auto simp: runs_ok_def leave_run_def set_phase_def clear_running_def holds_permit_def attempt_ok_def)
qed

lemma acquire_ok:
  assumes "runs_ok sc" and "k < length (sc_runs sc)" and "rn_phase (sc_runs sc ! k) = WaitingPermit" and "0 < sc_permits sc"
  shows "runs_ok (set_phase k (if rn_source (sc_runs sc ! k) = StartupRun then Delaying else Executing 1)
    (sc\<lparr>sc_permits := sc_permits sc - 1\<rparr>))"
proof -
  obtain xs r ys where "sc_runs sc = xs @ r # ys" "k = length xs" "sc_runs sc ! k = r" by (rule run_at [OF assms(2)])
  with assms show ?thesis
    by (auto simp: runs_ok_def set_phase_def holds_permit_def attempt_ok_def)
qed

lemma end_run_ok:
  assumes "runs_ok sc" and "k < length (sc_runs sc)" and "rn_phase (sc_runs sc ! k) = Leaving"
  shows "runs_ok (end_run k sc)"
proof -
  obtain xs r ys where "sc_runs sc = xs @ r # ys" "k = length xs" "sc_runs sc ! k = r" by (rule run_at [OF assms(2)])
  with assms show ?thesis
    by (auto simp: runs_ok_def end_run_def remove_nth_def holds_permit_def)
qed

lemma cancelled_ok:
  assumes "runs_ok sc" and "k < length (sc_runs sc)" and "rn_phase (sc_runs sc ! k) \<noteq> Leaving"
  shows "runs_ok (end_run k (clear_running (st_id (rn_task (sc_runs sc ! k))) sc))"
proof -
  obtain xs r ys where "sc_runs sc = xs @ r # ys" "k = length xs" "sc_runs sc ! k = r" by (rule run_at [OF assms(2)])
  with assms show ?thesis
    by (auto simp: runs_ok_def end_run_def clear_running_def remove_nth_def)
qed

lemma delay_over_ok:
  assumes "runs_ok sc" and "k < length (sc_runs sc)" and "rn_phase (sc_runs sc ! k) = Delaying"
  shows "runs_ok (delay_over today k sc)"
proof -
  let ?r = "sc_runs sc ! k"
  have leave: "runs_ok (leave_run k sc)" using assms by (intro leave_run_ok) (simp_all add: holds_permit_def)
  show ?thesis
  proof (cases "get_task (st_id (rn_task ?r)) sc")
    case None
    with leave show ?thesis by (simp add: delay_over_def)
  next
    case (Some latest)
    let ?sc1 = "sc\<lparr>sc_runs := (sc_runs sc)[k := ?r\<lparr>rn_task := latest, rn_total := unat (effective_max_retries latest + 1)\<rparr>]\<rparr>"
    obtain xs r ys where r: "sc_runs sc = xs @ r # ys" "k = length xs" "?r = r" by (rule run_at [OF assms(2)])
    have "runs_ok ?sc1"
      using assms r get_task_id [OF Some] by (auto simp: runs_ok_def holds_permit_def attempt_ok_def)
    moreover have "k < length (sc_runs ?sc1)" "rn_phase (sc_runs ?sc1 ! k) = Delaying" "rn_source (sc_runs ?sc1 ! k) = StartupRun"
      using assms r by (auto simp: runs_ok_def attempt_ok_def)
    ultimately have "runs_ok (leave_run k ?sc1)"
      "unat (effective_max_retries latest + 1) \<noteq> 0 \<Longrightarrow> runs_ok (set_phase k (Executing 1) ?sc1)"
      using assms(2) by (auto intro!: leave_run_ok set_phase_ok simp: holds_permit_def attempt_ok_def)
    with Some leave show ?thesis
      by (cases "unat (effective_max_retries latest + 1) = 0") (simp_all add: delay_over_def Let_def)
  qed
qed

lemma after_attempt_ok:
  assumes "runs_ok sc" and "run_part sc' = run_part sc" and "k < length (sc_runs sc)" and "rn_phase (sc_runs sc ! k) = Counting n a"
  shows "runs_ok (after_attempt k n a sc')"
proof -
  have s: "runs_ok sc'" "sc_runs sc' = sc_runs sc" using assms(1,2) runs_ok_part [OF assms(2)] by (auto simp: run_part_def)
  then have "attempt_ok (sc_runs sc ! k)" using assms(3) by (auto simp: runs_ok_def)
  then have "attempt_ok ((sc_runs sc' ! k)\<lparr>rn_phase := Pausing n\<rparr>)" if "n < rn_total (sc_runs sc ! k)"
    using that assms(4) s(2) by (auto simp: attempt_ok_def)
  with assms(3,4) s show ?thesis
    by (auto simp: after_attempt_def Let_def holds_permit_def intro!: set_phase_ok leave_run_ok)
qed

section \<open>The invariant\<close>

lemma sched_step_ok: "sched_step env sc sc' \<Longrightarrow> runs_ok sc \<Longrightarrow> runs_ok sc'"
proof (induction rule: sched_step.induct)
  case (executed k sc n a)
  then have "attempt_ok (sc_runs sc ! k)" by (auto simp: runs_ok_def)
  with executed show ?case by (intro set_phase_ok) (auto simp: holds_permit_def attempt_ok_def)
next
  case (stamped k sc n a io_ok now)
  then have "attempt_ok (sc_runs sc ! k)" by (auto simp: runs_ok_def)
  with stamped show ?case by (intro set_phase_part_ok [of sc]) (auto simp: holds_permit_def attempt_ok_def)
next
  case (logged k sc n a io_ok now)
  then have "attempt_ok (sc_runs sc ! k)" by (auto simp: runs_ok_def)
  with logged show ?case by (intro set_phase_part_ok [of sc]) (auto simp: holds_permit_def attempt_ok_def)
next
  case (counted k sc n a now io_ok)
  then show ?case by (intro after_attempt_ok [of sc]) auto
next
  case (retried k sc n)
  then have "attempt_ok (sc_runs sc ! k)" by (auto simp: runs_ok_def)
  with retried show ?case by (intro set_phase_ok) (auto simp: holds_permit_def attempt_ok_def)
next
  case (save sc target io_ok tid t)
  then show ?case using runs_ok_part [OF part_operations(1)] by blast
next
  case (delete sc io_ok history_ok tid)
  then show ?case using runs_ok_part [OF part_operations(2)] by blast
next
  case (toggle sc target io_ok tid enabled)
  then show ?case using runs_ok_part [OF part_operations(3)] by blast
next
  case (stop_loop sc)
  then show ?case by (simp add: runs_ok_def)
next
  case (stopped sc)
  then show ?case by (simp add: runs_ok_def publish_status_def)
next
  case (set_mode sc b)
  then show ?case by (simp add: runs_ok_def)
next
  case (files_changed sc files)
  then show ?case by (simp add: runs_ok_def)
qed (simp_all add: loop_start_ok loop_turn_ok spawn_manual_ok acquire_ok end_run_ok cancelled_ok delay_over_ok del: One_nat_def)

lemma scheduler_new_ok: "sched_init sc \<Longrightarrow> runs_ok sc"
  by (auto simp: sched_init_def scheduler_new_def runs_ok_def)

interpretation scheduler: transition_system sched_init "sched_step env" runs_ok for env
  by unfold_locales (auto intro: scheduler_new_ok sched_step_ok)

lemma reachable_runs_ok: "sched_reachable env sc \<Longrightarrow> runs_ok sc"
  by (auto simp: sched_reachable_def intro: scheduler.inv_reachable)

end
