(* ===== verification/Sched_Props.thy ===== *)
theory Sched_Props
  imports Sched_Inv
begin

text \<open>
  What the scheduler guarantees: no overlapping runs, each due task started once, no enabled task that is
  silently never started, what saving does, and two places where bookkeeping is lost.
\<close>

section \<open>Runs do not overlap\<close>

text \<open>C29. In every reachable state, however the loop, the web interface, changes of the files and the runs
  interleave: no task has two active runs, the marks are exactly the tasks with an active run, at most four
  runs hold a permit and no permit is lost or invented, and every run counts its attempts from one up to
  the total of its round, which is one unless the run was started by the start of the program.\<close>

theorem one_run_per_task:
  assumes "sched_reachable env sc"
  shows "distinct (active_ids (sc_runs sc)) \<and> set (sc_running_ids sc) = set (active_ids (sc_runs sc))
    \<and> sc_permits sc + holders (sc_runs sc) = 4 \<and> (\<forall>r\<in>set (sc_runs sc). attempt_ok r)"
  using reachable_runs_ok [OF assms] by (simp add: runs_ok_def MAX_CONCURRENT_SCHEDULED_TASKS_def)

section \<open>Firing\<close>

text \<open>The documented promise of the calendar: the next time lies after the one asked for.\<close>

definition calendar_ok :: "'sched sched_env \<Rightarrow> bool" where
  "calendar_ok env \<longleftrightarrow> (\<forall>s t t'. se_upcoming env s t = Some t' \<longrightarrow> t < t')"

definition new_run :: "run_source \<Rightarrow> scheduled_task \<Rightarrow> run" where
  "new_run source t = \<lparr>rn_task = t, rn_source = source, rn_phase = WaitingPermit, rn_total = 1\<rparr>"

definition due :: "nat \<Rightarrow> 'sched task_schedule \<Rightarrow> bool" where
  "due now ts \<longleftrightarrow> (case ts_next_fire_at ts of Some f \<Rightarrow> f \<le> now | None \<Rightarrow> False)"

text \<open>The task to start for a place in the schedule, if any.\<close>

definition starts :: "nat \<Rightarrow> 'sched scheduler \<Rightarrow> 'sched task_schedule \<Rightarrow> scheduled_task option" where
  "starts now sc ts =
     (if due now ts \<and> ts_task_id ts \<notin> set (sc_running_ids sc)
      then Option.bind (get_task (ts_task_id ts) sc) (\<lambda>t. if st_enabled t then Some t else None) else None)"

lemma fire_one_effect:
  assumes "\<not> sc_cancelled sc"
  shows "fst (fst (fire_one env now ts sc)) = (if due now ts then advance env now ts else ts)"
    and "starts now sc ts = None \<Longrightarrow> snd (fire_one env now ts sc) = sc"
    and "starts now sc ts = Some t \<Longrightarrow> snd (fire_one env now ts sc)
      = sc\<lparr>sc_running_ids := ts_task_id ts # sc_running_ids sc, sc_runs := sc_runs sc @ [new_run CronRun t]\<rparr>"
proof -
  show "fst (fst (fire_one env now ts sc)) = (if due now ts then advance env now ts else ts)"
    by (auto simp: fire_one_def due_def split: option.split bool.split prod.split)
  show "starts now sc ts = None \<Longrightarrow> snd (fire_one env now ts sc) = sc"
    by (cases "ts_next_fire_at ts"; cases "get_task (ts_task_id ts) sc"; cases "ts_task_id ts \<in> set (sc_running_ids sc)")
       (auto simp: fire_one_def due_def starts_def try_mark_running_def List.insert_def split: if_splits)
  show "starts now sc ts = Some t \<Longrightarrow> snd (fire_one env now ts sc)
      = sc\<lparr>sc_running_ids := ts_task_id ts # sc_running_ids sc, sc_runs := sc_runs sc @ [new_run CronRun t]\<rparr>"
    using assms
    by (cases "ts_next_fire_at ts"; cases "get_task (ts_task_id ts) sc"; cases "ts_task_id ts \<in> set (sc_running_ids sc)")
       (auto simp: fire_one_def due_def starts_def try_mark_running_def spawn_tracked_run_def new_run_def List.insert_def
          split: if_splits)
qed

lemma starts_other:
  "ts_task_id ts \<noteq> tid \<Longrightarrow>
     starts now (sc\<lparr>sc_running_ids := tid # sc_running_ids sc, sc_runs := rs\<rparr>) ts = starts now sc ts"
  by (simp add: starts_def get_task_def)

lemma starts_changes: "starts now (sc\<lparr>sc_schedules := tss\<rparr>) ts = starts now sc ts"
  by (simp add: starts_def get_task_def)

lemma fire_all_effect:
  assumes "\<not> sc_cancelled sc" and "distinct (map ts_task_id tss)" and "fire_all env now tss sc = ((tss', n), sc')"
  shows "tss' = map (\<lambda>ts. if due now ts then advance env now ts else ts) tss
    \<and> (\<exists>ms. sc' = sc\<lparr>sc_running_ids := ms, sc_runs := sc_runs sc @ map (new_run CronRun) (List.map_filter (starts now sc) tss)\<rparr>)"
  using assms
proof (induction tss arbitrary: sc tss' n sc')
  case Nil
  then show ?case by (auto simp: List.map_filter_simps intro: exI [of _ "sc_running_ids sc"])
next
  case (Cons ts tss)
  obtain ts1 f sc1 where o: "fire_one env now ts sc = ((ts1, f), sc1)" by (metis prod.exhaust)
  obtain tss2 m sc2 where a: "fire_all env now tss sc1 = ((tss2, m), sc2)" by (metis prod.exhaust)
  have r: "tss' = ts1 # tss2" "sc' = sc2" using Cons.prems(3) o a by auto
  note e = fire_one_effect [OF Cons.prems(1), where env = env and now = now and ts = ts, unfolded o, simplified]
  show ?case
  proof (cases "starts now sc ts")
    case None
    with e have "sc1 = sc" by simp
    with Cons.IH [OF Cons.prems(1) _ a [unfolded this]] Cons.prems(2) e(1) r None show ?thesis
      by (simp add: List.map_filter_simps)
  next
    case (Some t)
    let ?sc1 = "sc\<lparr>sc_running_ids := ts_task_id ts # sc_running_ids sc, sc_runs := sc_runs sc @ [new_run CronRun t]\<rparr>"
    from e Some have sc1: "sc1 = ?sc1" by simp
    have same: "List.map_filter (starts now ?sc1) tss = List.map_filter (starts now sc) tss"
    proof -
      have "\<forall>x\<in>set tss. starts now ?sc1 x = starts now sc x"
        using Cons.prems(2) by (intro ballI starts_other) (auto, metis image_eqI)
      then show ?thesis by (induction tss) (auto simp: List.map_filter_simps split: option.split)
    qed
    have "\<not> sc_cancelled ?sc1" "distinct (map ts_task_id tss)" using Cons.prems by simp_all
    from Cons.IH [OF this a [unfolded sc1]] obtain ms where
      "tss2 = map (\<lambda>ts. if due now ts then advance env now ts else ts) tss"
      "sc2 = ?sc1\<lparr>sc_running_ids := ms, sc_runs := sc_runs ?sc1 @ map (new_run CronRun) (List.map_filter (starts now sc) tss)\<rparr>"
      unfolding same by auto
    with e(1) r Some show ?thesis by (auto simp: List.map_filter_simps)
  qed
qed

text \<open>C30. Firing starts exactly what is due: if the calendar only gives times after the one asked for, a pass
  over the schedule appends one waiting run for every task whose time has come, that is cached and enabled
  and has no active run, in the order of the schedule and nothing else; afterwards every time in the
  schedule lies in the future, however many periods were missed, so a second pass at once starts nothing.\<close>

theorem fire_due_once:
  assumes "calendar_ok env"
    and "\<not> sc_cancelled sc" and "distinct (map ts_task_id (sc_schedules sc))"
  shows "sc_runs (snd (fire_due_tasks env now sc))
      = sc_runs sc @ map (new_run CronRun) (List.map_filter (starts now sc) (sc_schedules sc))
    \<and> (\<forall>ts\<in>set (sc_schedules (snd (fire_due_tasks env now sc))). \<not> due now ts)
    \<and> sc_runs (snd (fire_due_tasks env now (snd (fire_due_tasks env now sc)))) = sc_runs (snd (fire_due_tasks env now sc))"
proof -
  obtain tss n sc1 where f: "fire_all env now (sc_schedules sc) sc = ((tss, n), sc1)" by (metis prod.exhaust)
  from fire_all_effect [OF assms(2,3) f] obtain ms where
    tss: "tss = map (\<lambda>ts. if due now ts then advance env now ts else ts) (sc_schedules sc)"
    and sc1: "sc1 = sc\<lparr>sc_running_ids := ms, sc_runs := sc_runs sc @ map (new_run CronRun) (List.map_filter (starts now sc) (sc_schedules sc))\<rparr>"
    by blast
  let ?after = "sc1\<lparr>sc_schedules := tss\<rparr>"
  have after: "snd (fire_due_tasks env now sc) = ?after" by (simp add: fire_due_tasks_def f)
  have "\<not> due now (advance env now ts)" for ts
  proof (cases "Option.bind (ts_schedule ts) (\<lambda>s. se_upcoming env s now)")
    case (Some t)
    then obtain s where "se_upcoming env s now = Some t" by (auto simp: bind_eq_Some_conv)
    then have "now < t" using assms(1) by (simp add: calendar_ok_def)
    with Some show ?thesis by (simp add: due_def advance_def)
  qed (simp add: due_def advance_def)
  then have future: "\<forall>ts\<in>set tss. \<not> due now ts" by (auto simp: tss)
  obtain tss2 m sc2 where g: "fire_all env now tss ?after = ((tss2, m), sc2)" by (metis prod.exhaust)
  have "\<not> sc_cancelled ?after" "distinct (map ts_task_id tss)"
    using assms(2,3) by (simp_all add: sc1 tss comp_def advance_def if_distrib cong: if_cong)
  from fire_all_effect [OF this g] have "sc_runs sc2 = sc_runs ?after @ map (new_run CronRun) (List.map_filter (starts now ?after) tss)"
    by auto
  moreover have "List.map_filter (starts now ?after) tss = []"
    unfolding List.map_filter_def using future by (simp add: filter_empty_conv starts_def)
  ultimately have "sc_runs (snd (fire_due_tasks env now ?after)) = sc_runs ?after"
    by (simp add: fire_due_tasks_def g)
  with after future sc1 show ?thesis by simp
qed

section \<open>No task is forgotten\<close>

lemma loaded_entry:
  assumes "map_of files name = Some (TaskFile t)" and "is_task_path name"
  shows "(file_stem name, t\<lparr>st_id := file_stem name\<rparr>) \<in> set (loaded_tasks files)"
proof -
  have "(name, TaskFile t) \<in> set files" using assms(1) by (rule map_of_SomeD)
  then show ?thesis using assms
    by (auto simp: loaded_tasks_def List.map_filter_def load_from_def image_iff split: option.splits
        intro!: bexI [of _ "(name, TaskFile t)"])
qed

lemma loaded_from:
  "(tid, t) \<in> set (loaded_tasks files) \<Longrightarrow>
     st_id t = tid \<and> (\<exists>name t'. map_of files name = Some (TaskFile t') \<and> is_task_path name \<and> tid = file_stem name
        \<and> t = t'\<lparr>st_id := tid\<rparr>)"
  by (fastforce simp: loaded_tasks_def List.map_filter_def load_from_def split: option.splits if_splits task_file.splits)

text \<open>C31. No enabled task is silently never started: after the directory was read, every readable file of an
  enabled cron task is cached and either has a place in the schedule with its next time in the future, or is
  reported with an invalid expression, because it cannot be read or because its date never comes. And the
  schedule holds nothing but such tasks: no disabled task and none that waits for the start of the program.\<close>

theorem enabled_tasks_scheduled_or_flagged:
  assumes "calendar_ok env"
  shows "(\<forall>name t. map_of (sc_files sc) name = Some (TaskFile t) \<and> is_task_path name \<and> st_enabled t
            \<and> st_trigger t = CronTrigger \<longrightarrow>
            (let sc' = load_and_parse_all env now True sc; tid = file_stem name
             in (\<exists>t\<in>set (sc_tasks sc'). st_id t = tid)
                \<and> (is_cron_invalid tid sc'
                   \<or> (\<exists>ts\<in>set (sc_schedules sc'). ts_task_id ts = tid \<and> (\<exists>f. ts_next_fire_at ts = Some f \<and> now < f)))))
    \<and> (\<forall>ts\<in>set (sc_schedules (load_and_parse_all env now True sc)).
         \<exists>t\<in>set (sc_tasks (load_and_parse_all env now True sc)).
           st_id t = ts_task_id ts \<and> st_enabled t \<and> st_trigger t = CronTrigger)"
proof -
  let ?sc = "load_and_parse_all env now True sc"
  let ?loaded = "loaded_tasks (sc_files sc)"
  have tasks: "sc_tasks ?sc = map snd ?loaded" by (simp add: load_and_parse_all_def Let_def)
  have entry: "ts \<in> set (sc_schedules ?sc) \<and> (bad \<longrightarrow> is_cron_invalid tid ?sc)"
    if "(tid, t) \<in> set ?loaded" "schedule_entry env now tid t = Some (ts, bad)" for tid t ts bad
    using that by (force simp: load_and_parse_all_def Let_def List.map_filter_def is_cron_invalid_def image_iff)
  have one: "(\<exists>t\<in>set (sc_tasks ?sc). st_id t = file_stem name)
      \<and> (is_cron_invalid (file_stem name) ?sc
         \<or> (\<exists>ts\<in>set (sc_schedules ?sc). ts_task_id ts = file_stem name \<and> (\<exists>f. ts_next_fire_at ts = Some f \<and> now < f)))"
    if "map_of (sc_files sc) name = Some (TaskFile t)" "is_task_path name" "st_enabled t" "st_trigger t = CronTrigger" for name t
  proof -
    let ?t = "t\<lparr>st_id := file_stem name\<rparr>"
    note cron = that(3,4)
    have m: "(file_stem name, ?t) \<in> set ?loaded" using that by (intro loaded_entry)
    then have "?t \<in> set (sc_tasks ?sc)" unfolding tasks by force
    moreover obtain ts bad where e: "schedule_entry env now (file_stem name) ?t = Some (ts, bad)"
      and ts: "ts_task_id ts = file_stem name" "bad \<or> (\<exists>f. ts_next_fire_at ts = Some f)"
      using cron by (cases "parse_cron_expr (se_parse env) (st_cron t)"; cases "se_upcoming env (projr (parse_cron_expr (se_parse env) (st_cron t))) now")
        (auto simp: schedule_entry_def)
    moreover have "now < f" if "ts_next_fire_at ts = Some f" for f
      using that e assms(1) by (auto simp: schedule_entry_def calendar_ok_def split: if_splits sum.splits)
    moreover have "st_id ?t = file_stem name" by simp
    ultimately show ?thesis using entry [OF m e] by blast
  qed
  have two: "\<exists>t\<in>set (sc_tasks ?sc). st_id t = ts_task_id ts \<and> st_enabled t \<and> st_trigger t = CronTrigger"
    if "ts \<in> set (sc_schedules ?sc)" for ts
  proof -
    from that obtain tid t bad where t: "(tid, t) \<in> set ?loaded" "schedule_entry env now tid t = Some (ts, bad)"
      by (force simp: load_and_parse_all_def Let_def List.map_filter_def)
    then have "st_enabled t \<and> st_trigger t = CronTrigger \<and> ts_task_id ts = tid"
      by (cases "st_trigger t") (auto simp: schedule_entry_def split: if_splits sum.splits)
    moreover have "t \<in> set (sc_tasks ?sc)" using t(1) unfolding tasks by force
    ultimately show ?thesis using loaded_from [OF t(1)] by auto
  qed
  from one two show ?thesis unfolding Let_def by blast
qed

section \<open>Saving\<close>

lemma file_stem_path [simp]: "file_stem (task_path tid) = tid"
  by (simp add: file_stem_def task_path_def)

lemma task_path_inject [simp]: "task_path i = task_path j \<longleftrightarrow> i = j"
  by (simp add: task_path_def)

lemma load_from_saved:
  "load_from (task_path i) (save_to (task_path tid) t files)
     = (if i = tid then Some (t\<lparr>st_id := tid\<rparr>) else load_from (task_path i) files)"
  by (auto simp: load_from_def save_to_def AList.update_conv' split: option.split)

lemma find_update_first:
  "st_id t = tid \<Longrightarrow> find (\<lambda>t'. st_id t' = i) (update_first tid (\<lambda>_. t) ts)
     = (if i = tid \<and> list_ex (\<lambda>t'. st_id t' = tid) ts then Some t else find (\<lambda>t'. st_id t' = i) ts)"
  by (induction ts) auto

lemma get_task_upsert:
  assumes "st_id t = tid"
  shows "get_task i (sc\<lparr>sc_tasks := upsert_task tid t (sc_tasks sc)\<rparr>) = (if i = tid then Some t else get_task i sc)"
proof -
  have "find P (ts @ [t]) = (case find P ts of Some x \<Rightarrow> Some x | None \<Rightarrow> if P t then Some t else None)" for P ts
    by (induction ts) auto
  moreover have "find (\<lambda>t'. st_id t' = tid) (sc_tasks sc) = None \<or> list_ex (\<lambda>t'. st_id t' = tid) (sc_tasks sc)"
    by (auto simp: find_None_iff list_ex_iff)
  ultimately show ?thesis using assms
    by (cases "list_ex (\<lambda>t'. st_id t' = tid) (sc_tasks sc)")
       (auto simp: get_task_def upsert_task_def find_update_first split: option.split)
qed

text \<open>What the user decides about a task.\<close>

definition user_part :: "scheduled_task \<Rightarrow> string \<times> string \<times> string \<times> string \<times> string option \<times> bool \<times> task_trigger" where
  "user_part t = (st_name t, st_description t, st_cron t, st_target_id t, st_profile_id t, st_enabled t, st_trigger t)"

lemma timeout_frame [simp]:
  "user_part (t\<lparr>st_timeout := v\<rparr>) = user_part t" "startup_fields_ok (t\<lparr>st_timeout := v\<rparr>) = startup_fields_ok t"
  by (simp_all add: user_part_def startup_fields_ok_def split: task_trigger.split)

definition publishes :: "'sched scheduler \<Rightarrow> 'sched scheduler \<Rightarrow> bool" where
  "publishes sc sc' \<longleftrightarrow>
     sc_published sc' = Some (sc_running sc', sc_next_fire_at sc', length (sc_tasks sc'))
     \<and> (sc_changes sc' = sc_changes sc + 1 \<or> sc_changes sc = CHANGE_CHANNEL_CAPACITY \<and> sc_changes sc' = sc_changes sc
         \<or> CHANGE_CHANNEL_CAPACITY < sc_changes sc)"

lemma after_change:
  "sc_tasks (publish_status (notify_change sc)) = sc_tasks sc"
  "sc_files (publish_status (notify_change sc)) = sc_files sc"
  "get_task i (publish_status (notify_change sc)) = get_task i sc"
  "sc_runs (publish_status (notify_change sc)) = sc_runs sc"
  "publishes sc (publish_status (notify_change sc))"
  by (auto simp: publish_status_def notify_change_def get_task_def publishes_def)

lemma publishes_same: "sc_changes sc1 = sc_changes sc \<Longrightarrow> publishes sc1 sc2 = publishes sc sc2"
  by (simp add: publishes_def)

text \<open>The task that is written and cached.\<close>

definition to_save :: "target \<Rightarrow> string \<Rightarrow> scheduled_task \<Rightarrow> scheduled_task" where
  "to_save target tid t =
     (let t1 = normalize_for_save (t\<lparr>st_id := tid\<rparr>)
      in case tg_kind target of Some k \<Rightarrow> clamp_scheduled_timeout k t1 | None \<Rightarrow> t1)"

lemma to_save_timeout: "\<exists>v. to_save target tid t = (normalize_for_save (t\<lparr>st_id := tid\<rparr>))\<lparr>st_timeout := v\<rparr>"
proof (cases "tg_kind target")
  case None
  then show ?thesis
    by (intro exI [of _ "st_timeout (normalize_for_save (t\<lparr>st_id := tid\<rparr>))"]) (simp add: to_save_def)
next
  case (Some k)
  then show ?thesis using clamp_timeout_frame [of k "normalize_for_save (t\<lparr>st_id := tid\<rparr>)"] by (simp add: to_save_def)
qed

lemma to_save_fields [simp]:
  "st_id (to_save target tid t) = tid" "user_part (to_save target tid t) = user_part t"
  "startup_fields_ok (to_save target tid t)"
  "st_trigger t = StartupTrigger \<Longrightarrow> st_startup_success (to_save target tid t) = st_startup_success t"
proof -
  obtain v where v: "to_save target tid t = (normalize_for_save (t\<lparr>st_id := tid\<rparr>))\<lparr>st_timeout := v\<rparr>"
    using to_save_timeout by blast
  have "st_id (normalize_for_save (t\<lparr>st_id := tid\<rparr>)) = tid"
    "user_part (normalize_for_save (t\<lparr>st_id := tid\<rparr>)) = user_part t"
    "st_trigger t = StartupTrigger \<Longrightarrow> st_startup_success (normalize_for_save (t\<lparr>st_id := tid\<rparr>)) = st_startup_success t"
    by (simp_all add: normalize_for_save_def user_part_def)
  then show "st_id (to_save target tid t) = tid" "user_part (to_save target tid t) = user_part t"
    "startup_fields_ok (to_save target tid t)"
    "st_trigger t = StartupTrigger \<Longrightarrow> st_startup_success (to_save target tid t) = st_startup_success t"
    unfolding v by (simp_all add: normalize_ok)
qed

definition may_save :: "(string \<Rightarrow> string + 'sched) \<Rightarrow> target \<Rightarrow> bool \<Rightarrow> string \<Rightarrow> scheduled_task \<Rightarrow> bool" where
  "may_save parse target io_ok tid t \<longleftrightarrow>
     is_valid_task_id tid \<and> tg_exists target \<and> io_ok
     \<and> (st_trigger t = CronTrigger \<longrightarrow> cron_error_of parse (st_cron t) = None)"

definition saved_state :: "target \<Rightarrow> string \<Rightarrow> scheduled_task \<Rightarrow> 'sched scheduler \<Rightarrow> 'sched scheduler" where
  "saved_state target tid t sc =
     publish_status (notify_change
       (sc\<lparr>sc_files := save_to (task_path tid) (to_save target tid t) (sc_files sc),
           sc_tasks := upsert_task tid (to_save target tid t) (sc_tasks sc)\<rparr>))"

lemma save_task_cases:
  "may_save parse target io_ok tid t \<Longrightarrow> save_task parse target io_ok tid t sc = (Inr (), saved_state target tid t sc)"
  "\<not> may_save parse target io_ok tid t \<Longrightarrow> \<exists>e. save_task parse target io_ok tid t sc = (Inl e, sc)"
proof -
  let ?t1 = "normalize_for_save (t\<lparr>st_id := tid\<rparr>)"
  have u: "st_trigger ?t1 = st_trigger t" "st_cron ?t1 = st_cron t" by (simp_all add: normalize_for_save_def)
  show "may_save parse target io_ok tid t \<Longrightarrow> save_task parse target io_ok tid t sc = (Inr (), saved_state target tid t sc)"
    by (simp add: may_save_def save_task_def saved_state_def to_save_def Let_def u)
  show "\<not> may_save parse target io_ok tid t \<Longrightarrow> \<exists>e. save_task parse target io_ok tid t sc = (Inl e, sc)"
    by (auto simp: may_save_def save_task_def Let_def u split: option.split)
qed

lemma saved_state_facts:
  "get_task i (saved_state target tid t sc) = (if i = tid then Some (to_save target tid t) else get_task i sc)"
  "load_from (task_path i) (sc_files (saved_state target tid t sc))
     = (if i = tid then Some (to_save target tid t) else load_from (task_path i) (sc_files sc))"
  "sc_runs (saved_state target tid t sc) = sc_runs sc"
  "publishes sc (saved_state target tid t sc)"
proof -
  let ?sc1 = "sc\<lparr>sc_files := save_to (task_path tid) (to_save target tid t) (sc_files sc)\<rparr>"
  let ?sc2 = "?sc1\<lparr>sc_tasks := upsert_task tid (to_save target tid t) (sc_tasks ?sc1)\<rparr>"
  have s: "saved_state target tid t sc = publish_status (notify_change ?sc2)" by (simp add: saved_state_def)
  show "get_task i (saved_state target tid t sc) = (if i = tid then Some (to_save target tid t) else get_task i sc)"
    unfolding s after_change(3) using get_task_upsert [of "to_save target tid t" tid i ?sc1] by (simp add: get_task_def)
  have "(to_save target tid t)\<lparr>st_id := tid\<rparr> = to_save target tid t"
    using to_save_fields(1) by (metis scheduled_task.surjective scheduled_task.update_convs(1) scheduled_task.select_convs(1))
  then show "load_from (task_path i) (sc_files (saved_state target tid t sc))
     = (if i = tid then Some (to_save target tid t) else load_from (task_path i) (sc_files sc))"
    unfolding s after_change(2) by (simp add: load_from_saved)
  show "sc_runs (saved_state target tid t sc) = sc_runs sc" unfolding s after_change(4) by simp
  show "publishes sc (saved_state target tid t sc)"
    unfolding s using after_change(5) [of ?sc2] publishes_same [of ?sc2 sc] by simp
qed

text \<open>C32. What saving a task does: it succeeds exactly if the id is safe as a file name, a cron task has a
  readable expression, the target exists and the file can be written. Then the file and the cache hold the
  same task under the id, with what the user decided, with the start-up fields in their bounds (or none of
  them for a cron task), the loop is told and the status published; every other task stays. Otherwise
  nothing changes at all.\<close>

theorem save_task_effect:
  "case save_task parse target io_ok tid t sc of
     (Inl e, sc') \<Rightarrow>
       sc' = sc \<and> \<not> (is_valid_task_id tid \<and> tg_exists target \<and> io_ok
                     \<and> (st_trigger t = CronTrigger \<longrightarrow> cron_error_of parse (st_cron t) = None))
   | (Inr _, sc') \<Rightarrow>
       is_valid_task_id tid \<and> tg_exists target \<and> io_ok
       \<and> (st_trigger t = CronTrigger \<longrightarrow> cron_error_of parse (st_cron t) = None)
       \<and> (\<exists>saved. load_from (task_path tid) (sc_files sc') = Some saved \<and> get_task tid sc' = Some saved
            \<and> st_id saved = tid \<and> user_part saved = user_part t \<and> startup_fields_ok saved)
       \<and> (\<forall>i. i \<noteq> tid \<longrightarrow> load_from (task_path i) (sc_files sc') = load_from (task_path i) (sc_files sc)
                         \<and> get_task i sc' = get_task i sc)
       \<and> sc_runs sc' = sc_runs sc \<and> publishes sc sc'"
proof (cases "may_save parse target io_ok tid t")
  case True
  show ?thesis unfolding save_task_cases(1) [OF True] prod.case sum.case
    using True by (auto simp: saved_state_facts may_save_def)
next
  case False
  then obtain e where "save_task parse target io_ok tid t sc = (Inl e, sc)" using save_task_cases(2) by blast
  with False show ?thesis by (auto simp: may_save_def)
qed

section \<open>Lost bookkeeping\<close>

text \<open>Deleting a task removes its history, but a run of the task that is still under way brings the
  history back: after a successful deletion the file and the cache are gone and the history is empty, the
  entry of the run leaves the task gone and makes a history with one row that no page shows and that the
  next task with the same id inherits.\<close>

theorem deleted_history_returns:
  assumes "is_valid_task_id tid" and "map_of (sc_files sc) (task_path tid) \<noteq> None"
  shows "(let (r, sc1) = delete_task True True tid sc; sc2 = add_history_record True tid record (update_last_run True now tid status message sc1)
     in r = Inr () \<and> read_history tid sc1 = Inr []
        \<and> load_from (task_path tid) (sc_files sc2) = None \<and> get_task tid sc2 = None
        \<and> read_history tid sc2 = Inr [run_row record])"
proof -
  obtain sc1 where d: "delete_task True True tid sc = (Inr (), sc1)" using assms by (auto simp: delete_task_def)
  then have s: "sc_files sc1 = AList.delete (task_path tid) (sc_files sc)" "sc_histories sc1 tid = NoHistory"
    "sc_tasks sc1 = filter (\<lambda>t. st_id t \<noteq> tid) (sc_tasks sc)"
    using assms by (auto simp: delete_task_def publish_status_def notify_change_def)
  then have none: "load_from (task_path tid) (sc_files sc1) = None" by (simp add: load_from_def AList.delete_conv')
  let ?sc2 = "update_last_run True now tid status message sc1"
  have "find (\<lambda>t. st_id t = tid) (update_first tid f (filter (\<lambda>t. st_id t \<noteq> tid) ts)) = None" for f ts
    by (induction ts) auto
  then have gone: "get_task tid ?sc2 = None"
    using none by (simp add: get_task_def update_last_run_def update_file_def s(3) Let_def)
  have files: "sc_files ?sc2 = sc_files sc1" "sc_histories ?sc2 = sc_histories sc1"
    using none by (simp_all add: update_last_run_def update_file_def Let_def)
  have row: "append_history NoHistory record = HistoryFile [record]" by (simp add: append_history_def MAX_HISTORY_RECORDS_def)
  show ?thesis
    using assms(1) s(2) none gone files row
    by (simp add: d read_history_def add_history_record_def history_rows get_task_def)
qed

text \<open>The switch of the page writes the whole task as it was read before: a success that a run records in
  between is forgotten, and the day counts as not done.\<close>

lemma toggle_forgets_success:
  assumes "is_valid_task_id tid" and "tg_exists target" and "st_trigger t = StartupTrigger" and "get_task tid sc = Some t"
  shows "\<exists>saved. get_task tid (snd (save_task parse target True tid (t\<lparr>st_enabled := b\<rparr>)
      (record_startup_success True today tid sc))) = Some saved \<and> st_startup_success saved = st_startup_success t"
proof -
  have "may_save parse target True tid (t\<lparr>st_enabled := b\<rparr>)" using assms(1-3) by (simp add: may_save_def)
  from save_task_cases(1) [OF this] show ?thesis using assms(3) by (simp add: saved_state_facts)
qed

lemma nearest_None: "compute_nearest_fire_at tss = None \<Longrightarrow> \<forall>ts\<in>set tss. ts_next_fire_at ts = None"
  by (induction tss) (auto split: option.splits)

lemma nearest_not_due:
  "compute_nearest_fire_at tss = Some target \<Longrightarrow> now < target \<Longrightarrow> \<forall>ts\<in>set tss. \<not> due now ts"
proof (induction tss arbitrary: target)
  case (Cons ts tss)
  show ?case
  proof (cases "compute_nearest_fire_at tss")
    case None
    from nearest_None [OF None] Cons.prems None show ?thesis by (auto simp: due_def split: option.splits)
  next
    case (Some u)
    with Cons.prems have "now < u" "\<not> due now ts" by (auto simp: due_def split: option.splits)
    with Cons.IH [OF Some] show ?thesis by simp
  qed
qed simp

text \<open>A target less than 100 milliseconds away counts as reached, but the pass over the schedule does not
  start it yet: nothing happens and the loop comes straight back.\<close>

lemma near_target_spins:
  assumes "now < target" and "target < now + NANOS_100MS" and "compute_nearest_fire_at (sc_schedules sc) = Some target"
  shows "loop_sleep now (compute_nearest_fire_at (sc_schedules sc)) = FireNow
    \<and> loop_turn env now readable SleepOver sc = loop_top sc"
proof -
  have idle: "fire_all env now tss sc = ((tss, 0), sc)" if "\<forall>ts\<in>set tss. \<not> due now ts" for tss
    using that by (induction tss) (auto simp: fire_one_def due_def split: option.splits)
  have "fire_due_tasks env now sc = (0, sc)"
    using idle [OF nearest_not_due [OF assms(3,1)]] by (simp add: fire_due_tasks_def)
  then show ?thesis using assms by (simp add: loop_sleep_def systemtime_to_sleep_target_def loop_turn_def)
qed

text \<open>A directory that cannot be read for a moment looks empty: the scan drops every place of the schedule.\<close>

lemma unreadable_directory_drops_all: "sc_schedules (reconcile_external_deletions False sc) = []"
  by (simp add: reconcile_external_deletions_def scan_disk_task_ids_def Let_def)

section \<open>The theorems at work\<close>

definition demo_sched_env :: "nat sched_env" where
  "demo_sched_env =
     \<lparr>se_parse = (\<lambda>s. Inr 60), se_upcoming = (\<lambda>s t. Some (t + s + 1)), se_today = (\<lambda>t. ''2025-01-02''),
      se_rfc3339 = (\<lambda>t. ''2025-01-02T08:00:00Z'')\<rparr>"

definition demo_sched_task :: scheduled_task where
  "demo_sched_task =
     \<lparr>st_id = ''sign'', st_name = ''Sign in'', st_description = [], st_cron = ''0 8 * * 1-5'', st_target_id = ''page'',
      st_profile_id = None, st_timeout = None, st_enabled = True, st_last_run = None, st_last_result = None,
      st_trigger = CronTrigger, st_max_runs_per_day = None, st_max_retries = None, st_startup_delay_secs = None,
      st_startup_success = None\<rparr>"

definition demo_scheduler :: "nat scheduler" where
  "demo_scheduler =
     (scheduler_new [(''sign.json'', TaskFile demo_sched_task)] (\<lambda>_. NoHistory))
       \<lparr>sc_tasks := [demo_sched_task],
        sc_schedules := [\<lparr>ts_task_id = ''sign'', ts_schedule = Some 60, ts_next_fire_at = Some 5\<rparr>]\<rparr>"

lemma demo_calendar: "calendar_ok demo_sched_env"
  by (simp add: calendar_ok_def demo_sched_env_def)

lemma one_run_per_task_witness:
  "distinct (active_ids (sc_runs (snd (spawn_manual_run demo_sched_task (scheduler_new [] (\<lambda>_. NoHistory) :: nat scheduler)))))"
proof -
  have "sched_step demo_sched_env (scheduler_new [] (\<lambda>_. NoHistory)) (snd (spawn_manual_run demo_sched_task (scheduler_new [] (\<lambda>_. NoHistory))))"
    by (rule sched_step.run_now)
  then have "sched_reachable demo_sched_env (snd (spawn_manual_run demo_sched_task (scheduler_new [] (\<lambda>_. NoHistory))))"
    unfolding sched_reachable_def sched_init_def by (intro exI conjI r_into_rtranclp) auto
  from one_run_per_task [OF this] show ?thesis by simp
qed

lemma fire_due_once_witness:
  "sc_runs (snd (fire_due_tasks demo_sched_env 10 demo_scheduler)) = [new_run CronRun demo_sched_task]"
proof -
  have "starts 10 demo_scheduler \<lparr>ts_task_id = ''sign'', ts_schedule = Some 60, ts_next_fire_at = Some 5\<rparr> = Some demo_sched_task"
    by (simp add: starts_def due_def demo_scheduler_def scheduler_new_def get_task_def demo_sched_task_def)
  moreover have "\<not> sc_cancelled demo_scheduler" "distinct (map ts_task_id (sc_schedules demo_scheduler))"
    by (simp_all add: demo_scheduler_def scheduler_new_def)
  ultimately show ?thesis using fire_due_once [OF demo_calendar, where sc = demo_scheduler and now = 10]
    by (simp add: demo_scheduler_def scheduler_new_def List.map_filter_simps)
qed

lemma enabled_tasks_scheduled_or_flagged_witness:
  "is_cron_invalid ''sign'' (load_and_parse_all demo_sched_env 10 True demo_scheduler)
   \<or> (\<exists>ts\<in>set (sc_schedules (load_and_parse_all demo_sched_env 10 True demo_scheduler)).
        ts_task_id ts = ''sign'' \<and> (\<exists>f. ts_next_fire_at ts = Some f \<and> 10 < f))"
proof -
  have "map_of (sc_files demo_scheduler) ''sign.json'' = Some (TaskFile demo_sched_task)" "is_task_path ''sign.json''"
    "st_enabled demo_sched_task" "st_trigger demo_sched_task = CronTrigger" "file_stem ''sign.json'' = ''sign''"
    by (simp_all add: demo_scheduler_def scheduler_new_def demo_sched_task_def is_task_path_def ends_with_def file_stem_def)
  with enabled_tasks_scheduled_or_flagged [OF demo_calendar, where sc = demo_scheduler and now = 10] show ?thesis by (metis (no_types, lifting))
qed

lemma save_task_effect_witness:
  "load_from (task_path ''morning'') (sc_files (snd (save_task (\<lambda>s. Inr 60) \<lparr>tg_exists = True, tg_kind = None\<rparr> True ''morning''
     (demo_sched_task\<lparr>st_trigger := StartupTrigger\<rparr>) demo_scheduler))) \<noteq> None"
proof -
  let ?t = "demo_sched_task\<lparr>st_trigger := StartupTrigger\<rparr>"
  let ?target = "\<lparr>tg_exists = True, tg_kind = None\<rparr>"
  have "is_valid_task_id ''morning''" by code_simp
  then have "may_save (\<lambda>s. Inr (60 :: nat)) ?target True ''morning'' ?t" by (simp add: may_save_def)
  from save_task_cases(1) [OF this] obtain sc' where
    s: "save_task (\<lambda>s. Inr 60) ?target True ''morning'' ?t demo_scheduler = (Inr (), sc')" by blast
  from save_task_effect [where parse = "\<lambda>s. Inr (60 :: nat)" and target = ?target and io_ok = True and tid = "''morning''" and t = ?t and sc = demo_scheduler] show ?thesis unfolding s by auto
qed

lemma deleted_history_returns_witness:
  "read_history ''sign'' (add_history_record True ''sign'' demo_run
     (update_last_run True [] ''sign'' [] [] (snd (delete_task True True ''sign'' demo_scheduler)))) = Inr [run_row demo_run]"
proof -
  have "is_valid_task_id ''sign''" by code_simp
  moreover have "map_of (sc_files demo_scheduler) (task_path ''sign'') \<noteq> None"
    by (simp add: demo_scheduler_def scheduler_new_def task_path_def)
  ultimately show ?thesis
    using deleted_history_returns [of "''sign''" demo_scheduler demo_run "[]" "[]" "[]"]
    by (simp add: Let_def split: prod.splits)
qed

end
