(* ===== verification/Sched_Routes.thy ===== *)
theory Sched_Routes
  imports Sched_Props
begin

text \<open>
  The requests of the page of scheduled tasks (\<open>web/routes/scheduler.rs\<close>): how a request becomes
  operations of the scheduler. Whether the target exists and the write succeeds is an argument, as below.
\<close>

datatype api_error = ApiConflict string | ApiNotFound string | ApiBadRequest string | ApiScheduler sched_error

definition parse_trigger :: "string option \<Rightarrow> api_error + task_trigger" where
  "parse_trigger raw =
     (case raw of
        None \<Rightarrow> Inr CronTrigger
      | Some s \<Rightarrow>
          if s = [] \<or> s = ''cron'' then Inr CronTrigger
          else if s = ''startup'' then Inr StartupTrigger
          else Inl (ApiBadRequest s))"

record job_create_body =
  jc_id :: string
  jc_name :: "string option"
  jc_target_id :: string
  jc_cron :: "string option"
  jc_enabled :: "bool option"
  jc_description :: "string option"
  jc_timeout :: "u64 option"
  jc_trigger :: "string option"
  jc_max_runs_per_day :: "u32 option"
  jc_max_retries :: "u32 option"
  jc_startup_delay_secs :: "u64 option"

record job_update_body =
  ju_cron :: "string option"
  ju_enabled :: "bool option"
  ju_name :: "string option"
  ju_target_id :: "string option"
  ju_profile_id :: "string option"
  ju_description :: "string option"
  ju_timeout :: "u64 option"
  ju_trigger :: "string option"
  ju_max_runs_per_day :: "u32 option"
  ju_max_retries :: "u32 option"
  ju_startup_delay_secs :: "u64 option"

type_synonym 'sched job_answer = "(api_error + unit) \<times> 'sched scheduler"

text \<open>After an operation that succeeded the handler tells the loop once more.\<close>

definition and_notify :: "(sched_error + unit) \<times> 'sched scheduler \<Rightarrow> 'sched job_answer" where
  "and_notify r = (case r of (Inl e, sc) \<Rightarrow> (Inl (ApiScheduler e), sc) | (Inr _, sc) \<Rightarrow> (Inr (), notify_change sc))"

definition created_job :: "job_create_body \<Rightarrow> task_trigger \<Rightarrow> scheduled_task" where
  "created_job b trigger =
     \<lparr>st_id = jc_id b, st_name = unwrap_or (jc_name b) [], st_description = unwrap_or (jc_description b) [],
      st_cron = unwrap_or (jc_cron b) [], st_target_id = jc_target_id b, st_profile_id = None, st_timeout = jc_timeout b,
      st_enabled = unwrap_or (jc_enabled b) True, st_last_run = None, st_last_result = None, st_trigger = trigger,
      st_max_runs_per_day = jc_max_runs_per_day b, st_max_retries = jc_max_retries b,
      st_startup_delay_secs = jc_startup_delay_secs b, st_startup_success = None\<rparr>"

definition create_job ::
  "(string \<Rightarrow> string + 'sched) \<Rightarrow> target \<Rightarrow> bool \<Rightarrow> job_create_body \<Rightarrow> 'sched scheduler \<Rightarrow> 'sched job_answer"
where
  "create_job parse target io_ok b sc =
     (if get_task (jc_id b) sc \<noteq> None then (Inl (ApiConflict (jc_id b)), sc)
      else case parse_trigger (jc_trigger b) of
             Inl e \<Rightarrow> (Inl e, sc)
           | Inr trigger \<Rightarrow> and_notify (save_task parse target io_ok (jc_id b) (created_job b trigger) sc))"

definition set_some :: "'a option \<Rightarrow> ('a \<Rightarrow> 't \<Rightarrow> 't) \<Rightarrow> 't \<Rightarrow> 't" where
  "set_some v f t = (case v of Some x \<Rightarrow> f x t | None \<Rightarrow> t)"

definition updated_job :: "job_update_body \<Rightarrow> scheduled_task \<Rightarrow> scheduled_task" where
  "updated_job b =
     set_some (ju_startup_delay_secs b) (\<lambda>v. st_startup_delay_secs_update (\<lambda>_. Some v))
     \<circ> set_some (ju_max_retries b) (\<lambda>v. st_max_retries_update (\<lambda>_. Some v))
     \<circ> set_some (ju_max_runs_per_day b) (\<lambda>v. st_max_runs_per_day_update (\<lambda>_. Some v))
     \<circ> set_some (ju_timeout b) (\<lambda>v. st_timeout_update (\<lambda>_. Some v))
     \<circ> set_some (ju_description b) (\<lambda>v. st_description_update (\<lambda>_. v))
     \<circ> set_some (ju_profile_id b) (\<lambda>v. st_profile_id_update (\<lambda>_. Some v))
     \<circ> set_some (ju_target_id b) (\<lambda>v. st_target_id_update (\<lambda>_. v))
     \<circ> set_some (ju_name b) (\<lambda>v. st_name_update (\<lambda>_. v))
     \<circ> set_some (ju_enabled b) (\<lambda>v. st_enabled_update (\<lambda>_. v))
     \<circ> set_some (ju_cron b) (\<lambda>v. st_cron_update (\<lambda>_. v))"

definition update_job ::
  "(string \<Rightarrow> string + 'sched) \<Rightarrow> target \<Rightarrow> bool \<Rightarrow> string \<Rightarrow> job_update_body \<Rightarrow> 'sched scheduler \<Rightarrow> 'sched job_answer"
where
  "update_job parse target io_ok tid b sc =
     (case get_task tid sc of
        None \<Rightarrow> (Inl (ApiNotFound tid), sc)
      | Some t \<Rightarrow>
          (case (case ju_trigger b of None \<Rightarrow> Inr (st_trigger t) | Some s \<Rightarrow> parse_trigger (Some s)) of
             Inl e \<Rightarrow> (Inl e, sc)
           | Inr trigger \<Rightarrow> and_notify (save_task parse target io_ok tid (updated_job b (t\<lparr>st_trigger := trigger\<rparr>)) sc)))"

definition delete_job :: "bool \<Rightarrow> bool \<Rightarrow> string \<Rightarrow> 'sched scheduler \<Rightarrow> 'sched job_answer" where
  "delete_job io_ok history_ok tid sc = and_notify (delete_task io_ok history_ok tid sc)"

definition toggle_job ::
  "(string \<Rightarrow> string + 'sched) \<Rightarrow> target \<Rightarrow> bool \<Rightarrow> string \<Rightarrow> 'sched scheduler \<Rightarrow> (api_error + bool) \<times> 'sched scheduler"
where
  "toggle_job parse target io_ok tid sc =
     (case get_task tid sc of
        None \<Rightarrow> (Inl (ApiNotFound tid), sc)
      | Some t \<Rightarrow>
          (case and_notify (toggle_task parse target io_ok tid (\<not> st_enabled t) sc) of
             (Inl e, sc') \<Rightarrow> (Inl e, sc')
           | (Inr _, sc') \<Rightarrow> (Inr (\<not> st_enabled t), sc')))"

definition run_job :: "string \<Rightarrow> 'sched scheduler \<Rightarrow> 'sched job_answer" where
  "run_job tid sc =
     (case get_task tid sc of
        None \<Rightarrow> (Inl (ApiScheduler (TaskNotFound tid)), sc)
      | Some t \<Rightarrow>
          (case spawn_manual_run t sc of
             (False, sc') \<Rightarrow> (Inl (ApiConflict ''running or closing''), sc')
           | (True, sc') \<Rightarrow> (Inr (), sc')))"

text \<open>A job of the page reads its result.\<close>

record job_row =
  jr_task :: scheduled_task
  jr_task_type :: "string option"
  jr_schedule_invalid :: bool
  jr_startup_runs_today :: "u32 option"

definition list_jobs :: "(string \<Rightarrow> string option) \<Rightarrow> string \<Rightarrow> 'sched scheduler \<Rightarrow> job_row list" where
  "list_jobs type_of today sc =
     map (\<lambda>t. \<lparr>jr_task = t, jr_task_type = type_of (st_target_id t), jr_schedule_invalid = is_cron_invalid (st_id t) sc,
               jr_startup_runs_today = (if st_trigger t = StartupTrigger then Some (startup_success_today t today) else None)\<rparr>)
       (sc_tasks sc)"

section \<open>What requests can reach\<close>

lemma and_notify_simps [simp]:
  "and_notify (Inl e, sc) = (Inl (ApiScheduler e), sc)" "and_notify (Inr u, sc) = (Inr (), notify_change sc)"
  by (simp_all add: and_notify_def)

text \<open>Creating never replaces a task of the list.\<close>

lemma create_job_fresh:
  assumes "create_job parse target io_ok b sc = (Inr (), sc')" and "get_task tid sc = Some t"
  shows "get_task tid sc' = Some t"
proof -
  from assms(1) obtain trigger where fresh: "get_task (jc_id b) sc = None"
    and n: "and_notify (save_task parse target io_ok (jc_id b) (created_job b trigger) sc) = (Inr (), sc')"
    by (auto simp: create_job_def split: if_splits sum.splits)
  then have "may_save parse target io_ok (jc_id b) (created_job b trigger)"
    using save_task_cases(2) by (metis and_notify_simps(1) Inl_Inr_False prod.inject)
  from n save_task_cases(1) [OF this, of sc] have "sc' = notify_change (saved_state target (jc_id b) (created_job b trigger) sc)"
    by simp
  moreover have "get_task tid (notify_change x) = get_task tid x" for x :: "'a scheduler"
    by (simp add: get_task_def notify_change_def)
  ultimately show ?thesis using assms(2) fresh by (auto simp: saved_state_facts)
qed

text \<open>But a file that could not be read is not in the list and is overwritten without a word.\<close>

lemma create_job_replaces_unreadable:
  assumes "get_task (jc_id b) sc = None" and "parse_trigger (jc_trigger b) = Inr trigger"
    and "may_save parse target io_ok (jc_id b) (created_job b trigger)"
  shows "load_from (task_path (jc_id b)) (sc_files (snd (create_job parse target io_ok b sc)))
    = Some (to_save target (jc_id b) (created_job b trigger))"
proof -
  have "sc_files (notify_change x) = sc_files x" for x :: "'a scheduler" by (simp add: notify_change_def)
  with assms save_task_cases(1) [OF assms(3), of sc] show ?thesis by (simp add: create_job_def saved_state_facts)
qed

text \<open>While the program closes a request to run a task is answered as done, and nothing runs.\<close>

lemma closing_run_reports_success:
  assumes "sc_cancelled sc" and "get_task tid sc = Some t" and "tid \<notin> set (sc_running_ids sc)"
  shows "fst (run_job tid sc) = Inr () \<and> sc_runs (snd (run_job tid sc)) = sc_runs sc"
  using assms get_task_id [OF assms(2)]
  by (auto simp: run_job_def spawn_manual_run_def try_mark_running_def spawn_tracked_run_def clear_running_def)

end
