(* ===== verification/Bridge_Registry.thy ===== *)
theory Bridge_Registry
  imports Login_Session "HOL-Library.AList"
begin

text \<open>
  \<open>bridge/session.rs\<close>: the registry of the cancellation tokens of the requests sent to the
  browser worker. It has a region for the requests that own the session slot, a region for the
  light requests that run beside any session, and a list of the ids that were cancelled before
  their request registered. A token is a number; the set of the tokens that have fired is kept
  beside the tables, because the holders of the tokens see it too. A \<open>HashMap\<close> is an association
  list without duplicate keys.
\<close>

record cancel_registry =
  cr_map :: "(string \<times> nat) list"
  cr_lightweight :: "(string \<times> nat) list"
  cr_pending :: "(string \<times> instant) list"
  cr_cancelled :: "nat set"

definition registry_new :: cancel_registry where
  "registry_new = \<lparr>cr_map = [], cr_lightweight = [], cr_pending = [], cr_cancelled = {}\<rparr>"

definition PENDING_TTL :: duration where
  "PENDING_TTL = from_secs 60"

definition cancel_token :: "nat \<Rightarrow> cancel_registry \<Rightarrow> cancel_registry" where
  "cancel_token t r = r\<lparr>cr_cancelled := insert t (cr_cancelled r)\<rparr>"

definition prune_pending :: "instant \<Rightarrow> cancel_registry \<Rightarrow> cancel_registry" where
  "prune_pending now r = r\<lparr>cr_pending := filter (\<lambda>(_, t). now - t < PENDING_TTL) (cr_pending r)\<rparr>"

definition register_inner :: "instant \<Rightarrow> string \<Rightarrow> nat \<Rightarrow> bool \<Rightarrow> cancel_registry \<Rightarrow> cancel_registry" where
  "register_inner now cancel_id token lightweight r =
     (let r1 = prune_pending now r;
          was_pending = map_of (cr_pending r1) cancel_id \<noteq> None;
          r2 = r1\<lparr>cr_pending := AList.delete cancel_id (cr_pending r1)\<rparr>;
          r3 = (if was_pending then cancel_token token r2 else r2)
      in if lightweight then r3\<lparr>cr_lightweight := AList.update cancel_id token (cr_lightweight r3)\<rparr>
         else r3\<lparr>cr_map := AList.update cancel_id token (cr_map r3)\<rparr>)"

definition registry_register :: "instant \<Rightarrow> string \<Rightarrow> nat \<Rightarrow> cancel_registry \<Rightarrow> cancel_registry" where
  "registry_register now cancel_id token = register_inner now cancel_id token False"

definition register_lightweight :: "instant \<Rightarrow> string \<Rightarrow> nat \<Rightarrow> cancel_registry \<Rightarrow> cancel_registry" where
  "register_lightweight now cancel_id token = register_inner now cancel_id token True"

definition registry_trigger :: "instant \<Rightarrow> string \<Rightarrow> cancel_registry \<Rightarrow> cancel_registry" where
  "registry_trigger now cancel_id r =
     (case map_of (cr_map r) cancel_id of
        Some token \<Rightarrow> cancel_token token (r\<lparr>cr_map := AList.delete cancel_id (cr_map r)\<rparr>)
      | None \<Rightarrow>
          (case map_of (cr_lightweight r) cancel_id of
             Some token \<Rightarrow> cancel_token token (r\<lparr>cr_lightweight := AList.delete cancel_id (cr_lightweight r)\<rparr>)
           | None \<Rightarrow>
               let r1 = prune_pending now r
               in r1\<lparr>cr_pending := AList.update cancel_id now (cr_pending r1)\<rparr>))"

definition registry_remove :: "string \<Rightarrow> cancel_registry \<Rightarrow> cancel_registry" where
  "registry_remove cancel_id r =
     r\<lparr>cr_map := AList.delete cancel_id (cr_map r),
       cr_lightweight := AList.delete cancel_id (cr_lightweight r),
       cr_pending := AList.delete cancel_id (cr_pending r)\<rparr>"

definition trigger_all :: "cancel_registry \<Rightarrow> cancel_registry" where
  "trigger_all r =
     r\<lparr>cr_map := [], cr_pending := [], cr_cancelled := cr_cancelled r \<union> set (List.map snd (cr_map r))\<rparr>"

definition registry_clear :: "cancel_registry \<Rightarrow> cancel_registry" where
  "registry_clear r = r\<lparr>cr_map := [], cr_lightweight := [], cr_pending := []\<rparr>"

section \<open>Which request a cancellation reaches\<close>

text \<open>The token registered under an id, in either region, as \<open>trigger\<close> looks it up.\<close>

definition registered :: "cancel_registry \<Rightarrow> string \<Rightarrow> nat option" where
  "registered r cancel_id =
     (case map_of (cr_map r) cancel_id of
        Some t \<Rightarrow> Some t | None \<Rightarrow> map_of (cr_lightweight r) cancel_id)"

text \<open>A request can be cancelled when its token has fired or is found under its id.\<close>

definition cancellable :: "cancel_registry \<Rightarrow> string \<Rightarrow> nat \<Rightarrow> bool" where
  "cancellable r cancel_id token \<longleftrightarrow> token \<in> cr_cancelled r \<or> registered r cancel_id = Some token"

lemma map_of_delete [simp]: "map_of (AList.delete k xs) k' = (if k = k' then None else map_of xs k')"
  by (simp add: delete_conv')

lemma map_of_update [simp]: "map_of (AList.update k v xs) k' = (if k = k' then Some v else map_of xs k')"
  by (simp add: update_conv')

lemma registered_simps [simp]:
  "registered (cancel_token t r) c = registered r c"
  "registered (prune_pending now r) c = registered r c"
  "registered registry_new c = None"
  "registered (registry_clear r) c = None"
  by (simp_all add: registered_def cancel_token_def prune_pending_def registry_new_def registry_clear_def
      split: option.split)

lemma registered_register_inner:
  "registered r c = None \<or> c \<noteq> cancel_id \<Longrightarrow>
   registered (register_inner now cancel_id token lightweight r) c =
     (if c = cancel_id then Some token else registered r c)"
  by (auto simp: registered_def register_inner_def Let_def cancel_token_def prune_pending_def split: option.splits)

lemma registered_trigger [simp]:
  "c \<noteq> cancel_id \<Longrightarrow> registered (registry_trigger now cancel_id r) c = registered r c"
  by (auto simp: registered_def registry_trigger_def Let_def cancel_token_def prune_pending_def split: option.splits)

lemma registered_remove [simp]:
  "registered (registry_remove cancel_id r) c = (if c = cancel_id then None else registered r c)"
  by (auto simp: registered_def registry_remove_def split: option.splits)

lemma cancelled_mono:
  "t \<in> cr_cancelled r \<Longrightarrow> t \<in> cr_cancelled (register_inner now c u lw r)"
  "t \<in> cr_cancelled r \<Longrightarrow> t \<in> cr_cancelled (registry_trigger now c r)"
  "t \<in> cr_cancelled r \<Longrightarrow> t \<in> cr_cancelled (trigger_all r)"
  "cr_cancelled (registry_remove c r) = cr_cancelled r"
  "cr_cancelled (registry_clear r) = cr_cancelled r"
  by (auto simp: register_inner_def Let_def cancel_token_def prune_pending_def registry_trigger_def
      trigger_all_def registry_remove_def registry_clear_def split: option.splits)

lemma trigger_fires: "registered r c = Some t \<Longrightarrow> t \<in> cr_cancelled (registry_trigger now c r)"
  by (auto simp: registered_def registry_trigger_def cancel_token_def split: option.splits)

lemma cancellable_register:
  assumes "cancellable r c t" "c \<noteq> c'"
  shows "cancellable (register_inner now c' t' lw r) c t"
  using assms by (auto simp: cancellable_def registered_register_inner intro: cancelled_mono)

lemma cancellable_fresh: "registered r c = None \<Longrightarrow> cancellable (register_inner now c t lw r) c t"
  by (simp add: cancellable_def registered_register_inner)

lemma cancellable_trigger: "cancellable r c t \<Longrightarrow> cancellable (registry_trigger now c' r) c t"
  by (cases "c = c'") (auto simp: cancellable_def intro: cancelled_mono trigger_fires)

lemma cancellable_remove: "cancellable r c t \<Longrightarrow> c \<noteq> c' \<Longrightarrow> cancellable (registry_remove c' r) c t"
  by (auto simp: cancellable_def cancelled_mono)

lemma cancellable_trigger_all: "cancellable r c t \<Longrightarrow> cancellable (trigger_all r) c t"
  by (auto simp: cancellable_def registered_def trigger_all_def split: option.splits
      dest!: map_of_SomeD intro: image_eqI [where x = "(c, t)"])

text \<open>An early cancellation is kept for a minute and fires when the request registers.\<close>

lemma early_cancel_fires:
  assumes "registered r c = None" "later - now < PENDING_TTL"
  shows "t \<in> cr_cancelled (register_inner later c t lw (registry_trigger now c r))"
proof -
  let ?q = "prune_pending now r"
  have e: "registry_trigger now c r = ?q\<lparr>cr_pending := AList.update c now (cr_pending ?q)\<rparr>"
    using assms(1) by (auto simp: registered_def registry_trigger_def Let_def split: option.splits)
  have "map_of (filter (\<lambda>(_, s). later - s < PENDING_TTL) (AList.update c now xs)) c = Some now" for xs
    using assms(2) by (induction xs) auto
  then show ?thesis by (simp add: e register_inner_def Let_def prune_pending_def cancel_token_def)
qed

end
