(* ===== verification/Bridge_Model.thy ===== *)
theory Bridge_Model
  imports Bridge_Registry Status_Board
begin

text \<open>
  \<open>bridge/mod.rs\<close>: the state of the supervisor of the browser worker and the sections of code
  that change it while they hold its lock. The worker is a child process that reads requests from
  a bounded queue and answers them by number; one request at a time owns the session slot, light
  requests run beside it.

  An answer reaches its waiting request through a one-shot channel; channels are numbered, and
  \<open>br_chan\<close> tells what has become of each. The messages of the browser page, the updates sent to
  the status board and the counters are kept in the order they were made.
\<close>

section \<open>Data\<close>

datatype worker_state = WsNotInstalled | WsStarting | WsIdle | WsInLogin | WsInDebug | WsError

fun worker_state_to_status :: "worker_state \<Rightarrow> bool \<Rightarrow> worker_status" where
  "worker_state_to_status WsNotInstalled alive = NotInstalled"
| "worker_state_to_status WsStarting alive = Starting"
| "worker_state_to_status WsIdle alive = (if alive then Ready else WorkerStopped)"
| "worker_state_to_status WsInLogin alive = Busy"
| "worker_state_to_status WsInDebug alive = Busy"
| "worker_state_to_status WsError alive = WorkerError"

datatype session_type = SessLogin | SessRedirectTest | SessDebug

datatype ipc_message = IpcRequest u64 string json | IpcCancel string

text \<open>The queue to the standard input of the process, and whether its writer has ended.\<close>

record worker_process =
  wp_pid :: nat
  wp_queue :: "ipc_message list"
  wp_closed :: bool

definition IPC_WRITE_CHANNEL_CAP :: nat where
  "IPC_WRITE_CHANNEL_CAP = 16"

definition try_send :: "ipc_message \<Rightarrow> worker_process \<Rightarrow> string + worker_process" where
  "try_send msg p =
     (if wp_closed p then Inl ''channel closed''
      else if length (wp_queue p) \<ge> IPC_WRITE_CHANNEL_CAP then Inl ''no available capacity''
      else Inr (p\<lparr>wp_queue := wp_queue p @ [msg]\<rparr>))"

datatype oneshot = ChOpen | ChSent "bridge_error + ipc_response" | ChClosed

record bridge_inner =
  br_worker_state :: worker_state
  br_process :: "worker_process option"
  br_pending :: "(u64 \<times> nat) list"
  br_next_id :: u64
  br_last_activity :: instant
  br_idle_timer :: "instant option"
  br_registry :: cancel_registry
  br_session :: "session_type option"
  br_cancel_id :: "string option"
  br_request_id :: "u64 option"
  br_ipc_tx :: bool
  br_spawn_failures :: u32
  br_debug_open :: bool
  br_debug_activity :: "instant option"
  br_screenshot :: "string option"
  br_capabilities :: "json option"

record bridge = bridge_inner +
  br_egress :: "nat option"
  br_orphan_done :: bool
  br_chan :: "nat \<Rightarrow> oneshot"
  br_next_chan :: nat
  br_merged :: "partial_snapshot list"
  br_broadcast :: "(string \<times> json) list"
  br_spawns :: u64
  br_crashes :: u64

definition bridge_new :: bridge where
  "bridge_new =
     \<lparr>br_worker_state = WsNotInstalled, br_process = None, br_pending = [], br_next_id = 1,
      br_last_activity = 0, br_idle_timer = None, br_registry = registry_new, br_session = None,
      br_cancel_id = None, br_request_id = None, br_ipc_tx = False, br_spawn_failures = 0,
      br_debug_open = False, br_debug_activity = None, br_screenshot = None, br_capabilities = None,
      br_egress = None, br_orphan_done = False, br_chan = (\<lambda>_. ChOpen), br_next_chan = 0,
      br_merged = [], br_broadcast = [], br_spawns = 0, br_crashes = 0\<rparr>"

definition SHUTDOWN_REQUEST_ID :: u64 where
  "SHUTDOWN_REQUEST_ID = 0"

definition SPAWN_FAILURE_THRESHOLD :: u32 where
  "SPAWN_FAILURE_THRESHOLD = 3"

definition DEBUG_SESSION_TTL :: duration where
  "DEBUG_SESSION_TTL = from_secs (30 * 60)"

section \<open>Which requests go together\<close>

definition is_lightweight_method :: "string \<Rightarrow> bool" where
  "is_lightweight_method verb \<longleftrightarrow> verb = ''ocr_recognize'' \<or> verb = ''feedback_capture''"

definition session_of :: "string \<Rightarrow> session_type" where
  "session_of verb =
     (if verb = ''test_redirect'' then SessRedirectTest
      else if starts_with verb ''debug_'' then SessDebug
      else SessLogin)"

definition check_session_compat :: "session_type option \<Rightarrow> string \<Rightarrow> bridge_error + unit" where
  "check_session_compat current verb =
     (if verb = ''ocr_recognize'' \<or> verb = ''feedback_capture'' then Inr ()
      else case current of
        None \<Rightarrow> Inr ()
      | Some SessLogin \<Rightarrow>
          if verb \<in> {''debug_step'', ''debug_stop'', ''test_redirect''} then Inl WorkerBusy else Inr ()
      | Some SessRedirectTest \<Rightarrow> Inl WorkerBusy
      | Some SessDebug \<Rightarrow>
          if starts_with verb ''debug_''
          then if verb \<in> {''debug_step'', ''debug_stop'', ''debug_run_all'', ''debug_status'', ''feedback_capture''}
               then Inr () else Inl WorkerBusy
          else Inl WorkerBusy)"

definition debug_session_stale :: "instant option \<Rightarrow> instant \<Rightarrow> bool" where
  "debug_session_stale last_activity now =
     (case last_activity of None \<Rightarrow> True | Some at \<Rightarrow> now - at > DEBUG_SESSION_TTL)"

datatype debug_settle = SettleOpen | SettleKeepOpen | SettleClose

definition execute_debug_settle :: "string \<Rightarrow> bridge_error + ipc_response \<Rightarrow> debug_settle" where
  "execute_debug_settle verb result =
     (if \<not> starts_with verb ''debug_'' then SettleClose
      else
        let ok = (case result of Inr resp \<Rightarrow> ir_success resp | Inl _ \<Rightarrow> False)
        in if verb = ''debug_start'' \<and> ok then SettleOpen
           else if (verb = ''debug_step'' \<or> verb = ''debug_run_all'') \<and> ok then SettleKeepOpen
           else SettleClose)"

section \<open>Small steps on the state\<close>

definition merge_worker_status :: "'a bridge_scheme \<Rightarrow> 'a bridge_scheme" where
  "merge_worker_status b =
     b\<lparr>br_merged := br_merged b @ [PWorker (worker_state_to_status (br_worker_state b) (br_process b \<noteq> None))]\<rparr>"

text \<open>Filling a one-shot channel, and dropping its sender: only an open channel changes.\<close>

definition chan_send :: "nat \<Rightarrow> bridge_error + ipc_response \<Rightarrow> bridge \<Rightarrow> bridge" where
  "chan_send ch r b = b\<lparr>br_chan := (br_chan b)(ch := (case br_chan b ch of ChOpen \<Rightarrow> ChSent r | c \<Rightarrow> c))\<rparr>"

definition chan_drop :: "nat \<Rightarrow> bridge \<Rightarrow> bridge" where
  "chan_drop ch b = b\<lparr>br_chan := (br_chan b)(ch := (case br_chan b ch of ChOpen \<Rightarrow> ChClosed | c \<Rightarrow> c))\<rparr>"

text \<open>
  \<open>pending_requests.insert\<close> with a new channel and the number of that channel, and \<open>remove\<close>
  with its result thrown away: a sender that leaves the table without sending is dropped.
\<close>

definition pending_insert :: "u64 \<Rightarrow> bridge \<Rightarrow> nat \<times> bridge" where
  "pending_insert rid b =
     (let ch = br_next_chan b;
          b1 = (case map_of (br_pending b) rid of Some old \<Rightarrow> chan_drop old b | None \<Rightarrow> b)
      in (ch, b1\<lparr>br_pending := AList.update rid ch (br_pending b1), br_next_chan := ch + 1\<rparr>))"

definition pending_remove :: "u64 \<Rightarrow> bridge \<Rightarrow> bridge" where
  "pending_remove rid b =
     (case map_of (br_pending b) rid of
        Some ch \<Rightarrow> chan_drop ch (b\<lparr>br_pending := AList.delete rid (br_pending b)\<rparr>)
      | None \<Rightarrow> b)"

text \<open>\<open>start_idle_timer\<close> under the two settings it reads; a timer is the instant at which it fires.\<close>

definition start_idle_timer :: "worker_settings \<Rightarrow> instant \<Rightarrow> bridge \<Rightarrow> bridge" where
  "start_idle_timer cfg now b =
     (if ws_keep_alive cfg then b
      else
        let idle = max (unat (ws_idle_timeout_seconds cfg)) 1;
            elapsed = as_secs (now - br_last_activity b);
            remaining = max (idle - elapsed) 1
        in b\<lparr>br_idle_timer := Some (now + from_secs remaining)\<rparr>)"

definition drain_pending_requests :: "string \<Rightarrow> bridge \<Rightarrow> bridge" where
  "drain_pending_requests reason b =
     fold (\<lambda>(_, ch). chan_send ch (Inl (WorkerCrashed reason))) (br_pending b) (b\<lparr>br_pending := []\<rparr>)"

section \<open>Recycling the worker\<close>

text \<open>
  \<open>kill_worker_now\<close>: the first section takes the process out of the state; the process ends
  outside the lock; then the waiting requests are settled and the state is reset.
\<close>

definition kill_take :: "bridge \<Rightarrow> worker_process option \<times> bridge" where
  "kill_take b = (br_process b, b\<lparr>br_egress := None, br_process := None\<rparr>)"

definition kill_finish :: "bridge \<Rightarrow> bridge" where
  "kill_finish b =
     merge_worker_status
       (b\<lparr>br_worker_state := WsError, br_capabilities := None, br_debug_open := False,
          br_debug_activity := None, br_screenshot := None\<rparr>)"

definition kill_worker_now :: "bridge \<Rightarrow> bridge" where
  "kill_worker_now b =
     kill_finish (drain_pending_requests ''worker killed by supervisor'' (snd (kill_take b)))"

definition recycle_clear :: "bridge \<Rightarrow> bridge" where
  "recycle_clear b =
     b\<lparr>br_registry := trigger_all (br_registry b), br_session := None, br_cancel_id := None,
       br_request_id := None, br_idle_timer := None\<rparr>"

definition force_recycle :: "bridge \<Rightarrow> bridge" where
  "force_recycle b = (kill_worker_now (recycle_clear b))\<lparr>br_egress := None\<rparr>"

definition recycle_unowned :: "string option \<Rightarrow> bridge \<Rightarrow> bool" where
  "recycle_unowned owner b =
     (case br_cancel_id b of None \<Rightarrow> True | Some current \<Rightarrow> Some current = owner)"

definition force_recycle_if_unowned :: "string option \<Rightarrow> bridge \<Rightarrow> bool \<times> bridge" where
  "force_recycle_if_unowned owner b =
     (if \<not> recycle_unowned owner b then (False, b) else (True, force_recycle b))"

definition recycle_if_running :: "bridge \<Rightarrow> bridge" where
  "recycle_if_running b = (if br_process b \<noteq> None then force_recycle b else b)"

definition shutdown_take :: "bridge \<Rightarrow> worker_process option \<times> bridge" where
  "shutdown_take b = (br_process b, b\<lparr>br_process := None\<rparr>)"

definition shutdown_finish :: "bridge \<Rightarrow> bridge" where
  "shutdown_finish b =
     merge_worker_status
       (b\<lparr>br_worker_state := WsIdle, br_capabilities := None, br_debug_open := False,
          br_debug_activity := None, br_screenshot := None\<rparr>)"

definition handle_shutdown_cmd :: "bridge \<Rightarrow> bridge" where
  "handle_shutdown_cmd b =
     shutdown_finish (drain_pending_requests ''worker shut down'' (snd (shutdown_take b)))"

definition idle_check :: "worker_settings \<Rightarrow> instant \<Rightarrow> bridge \<Rightarrow> bool \<times> bridge" where
  "idle_check cfg now b =
     (if br_worker_state b \<noteq> WsIdle then (False, b)
      else if br_pending b \<noteq> [] then (False, start_idle_timer cfg now (b\<lparr>br_last_activity := now\<rparr>))
      else (br_process b \<noteq> None, b))"

definition handle_idle_timeout :: "worker_settings \<Rightarrow> instant \<Rightarrow> bridge \<Rightarrow> bridge" where
  "handle_idle_timeout cfg now b =
     (case idle_check cfg now b of (should_shutdown, b1) \<Rightarrow>
        if should_shutdown then handle_shutdown_cmd b1 else b1)"

section \<open>The process ends\<close>

definition clean_exit_finish :: "bridge \<Rightarrow> bridge" where
  "clean_exit_finish b =
     merge_worker_status
       (b\<lparr>br_registry := registry_clear (br_registry b), br_session := None, br_cancel_id := None,
          br_request_id := None, br_debug_open := False, br_debug_activity := None,
          br_process := None, br_worker_state := WsIdle, br_capabilities := None\<rparr>)"

definition show_int :: "int \<Rightarrow> string" where
  "show_int i = (if i < 0 then CHR ''-'' # show_nat (nat (- i)) else show_nat (nat i))"

definition crash_section :: "int \<Rightarrow> bridge \<Rightarrow> bridge" where
  "crash_section code b =
     (let crashed_session = br_session b;
          err = (if crashed_session = Some SessDebug then DebugSessionClosed
                 else WorkerCrashed (''exit_code='' @ show_int code));
          b1 = b\<lparr>br_pending := [], br_registry := registry_clear (br_registry b), br_session := None,
                 br_cancel_id := None, br_request_id := None, br_process := None,
                 br_worker_state := WsError, br_capabilities := None\<rparr>;
          b2 = merge_worker_status b1;
          b3 = fold (\<lambda>(_, ch). chan_send ch (Inl err)) (br_pending b) b2
      in if crashed_session = Some SessDebug
         then b3\<lparr>br_broadcast := br_broadcast b3 @
                [(''debug_session_closed'', JObject [(''reason'', JString ''worker_crashed'')])]\<rparr>
         else b3)"

definition handle_worker_exited :: "int \<Rightarrow> bridge \<Rightarrow> bridge" where
  "handle_worker_exited code b =
     (if code = 0 then clean_exit_finish (drain_pending_requests ''worker exited (code 0)'' b)
      else crash_section code (b\<lparr>br_crashes := br_crashes b + 1\<rparr>))"

end
