(* ===== verification/Bridge_Requests.thy ===== *)
theory Bridge_Requests
  imports Bridge_Model
begin

text \<open>
  \<open>bridge/mod.rs\<close>, the way of a request: the check against the session that owns the worker, the
  sending under a fresh number, the answer, the cancellation, the settlement of a debug session
  and the guard that gives the slot back.
\<close>

section \<open>Messages of the worker\<close>

definition handle_response :: "ipc_response \<Rightarrow> bridge \<Rightarrow> bridge" where
  "handle_response resp b =
     (case map_of (br_pending b) (ir_id resp) of
        Some ch \<Rightarrow> chan_send ch (Inr resp) (b\<lparr>br_pending := AList.delete (ir_id resp) (br_pending b)\<rparr>)
      | None \<Rightarrow> b)"

definition handle_response_error :: "u64 \<Rightarrow> string \<Rightarrow> bridge \<Rightarrow> bridge" where
  "handle_response_error rid e b =
     (case map_of (br_pending b) rid of
        Some ch \<Rightarrow> chan_send ch (Inl (BridgeInternal (''cannot parse the IPC response: '' @ e)))
                     (b\<lparr>br_pending := AList.delete rid (br_pending b)\<rparr>)
      | None \<Rightarrow> b)"

text \<open>
  An event is passed on to the page only if its name is one of three. A screenshot carries the
  path of a local file; the page gets an address of the server with the file's name.
  \<open>file_name\<close> is \<open>Path::file_name\<close>.
\<close>

fun json_insert :: "string \<Rightarrow> json \<Rightarrow> json \<Rightarrow> json" where
  "json_insert k v (JObject kvs) = JObject (AList.update k v kvs)"
| "json_insert k v j = j"

definition forwarded_event :: "string \<Rightarrow> bool" where
  "forwarded_event name \<longleftrightarrow> name \<in> {''screenshot'', ''step_progress'', ''dialog''}"

definition handle_event :: "(string \<Rightarrow> string option) \<Rightarrow> string \<Rightarrow> json \<Rightarrow> bridge \<Rightarrow> bridge" where
  "handle_event file_name name data b =
     (if \<not> forwarded_event name then b
      else
        let url = (if name = ''screenshot''
                   then Option.bind (Option.bind (json_get ''path'' data) as_str)
                          (\<lambda>path. map_option ((@) ''/api/debug/screenshot/'') (file_name path))
                   else None);
            data1 = (case url of Some u \<Rightarrow> json_insert ''url'' (JString u) data | None \<Rightarrow> data);
            b1 = (case url of Some u \<Rightarrow> b\<lparr>br_screenshot := Some u\<rparr> | None \<Rightarrow> b)
        in b1\<lparr>br_broadcast := br_broadcast b1 @ [(name, data1)]\<rparr>)"

datatype parsed_message =
    MsgResponse ipc_response | MsgResponseError u64 string | MsgEvent string json
  | MsgInvalidLine string | MsgWorkerExited int

fun handle_ipc_message :: "(string \<Rightarrow> string option) \<Rightarrow> parsed_message \<Rightarrow> bridge \<Rightarrow> bridge" where
  "handle_ipc_message file_name (MsgResponse resp) b = handle_response resp b"
| "handle_ipc_message file_name (MsgResponseError rid e) b = handle_response_error rid e b"
| "handle_ipc_message file_name (MsgEvent name data) b = handle_event file_name name data b"
| "handle_ipc_message file_name (MsgInvalidLine line) b = b"
| "handle_ipc_message file_name (MsgWorkerExited code) b = handle_worker_exited code b"

section \<open>Cancellation\<close>

text \<open>\<open>SupervisorCommand::Cancel\<close>: the token fires, and the worker is told when its queue has room.\<close>

definition handle_cancel :: "instant \<Rightarrow> string \<Rightarrow> bridge \<Rightarrow> bridge" where
  "handle_cancel now cancel_id b =
     b\<lparr>br_registry := registry_trigger now cancel_id (br_registry b),
       br_process := map_option
         (\<lambda>p. if wp_closed p then p else p\<lparr>wp_queue := wp_queue p @ [IpcCancel cancel_id]\<rparr>) (br_process b)\<rparr>"

section \<open>Admission\<close>

record request =
  rq_verb :: string
  rq_session :: session_type
  rq_cancel_id :: string
  rq_token :: nat
  rq_id :: u64
  rq_chan :: nat

definition stale_debug :: "string \<Rightarrow> instant \<Rightarrow> bridge \<Rightarrow> bool" where
  "stale_debug verb now b \<longleftrightarrow>
     verb \<in> {''execute_login_attempt'', ''execute_browser_task'', ''test_redirect''} \<and>
     br_session b = Some SessDebug \<and> debug_session_stale (br_debug_activity b) now"

text \<open>What \<open>execute_inner\<close> does before it asks for a worker.\<close>

definition execute_prologue :: "string \<Rightarrow> instant \<Rightarrow> bridge \<Rightarrow> bridge" where
  "execute_prologue verb now b =
     (let b1 = (if verb = ''debug_start'' then b\<lparr>br_screenshot := None\<rparr> else b)
      in if stale_debug verb now b1 then force_recycle b1 else b1)"

text \<open>
  The critical section of \<open>execute_inner\<close>: check, number, channel, sending, and only then the
  registration and the slot. \<open>route\<close> is the network egress prepared for a browser request.
\<close>

definition take_slot :: "instant \<Rightarrow> session_type \<Rightarrow> string \<Rightarrow> u64 \<Rightarrow> bridge \<Rightarrow> bridge" where
  "take_slot now session cancel_id rid b =
     merge_worker_status
       (b\<lparr>br_worker_state := (if session = SessDebug then WsInDebug else WsInLogin),
          br_session := Some session, br_cancel_id := Some cancel_id, br_request_id := Some rid,
          br_last_activity := now, br_idle_timer := None\<rparr>)"

definition bridge_admit ::
  "instant \<Rightarrow> string \<Rightarrow> json \<Rightarrow> string \<Rightarrow> nat \<Rightarrow> nat option \<Rightarrow> bridge \<Rightarrow> (bridge_error + request) \<times> bridge"
where
  "bridge_admit now verb params cancel_id token route b =
     (case check_session_compat (br_session b) verb of
        Inl e \<Rightarrow> (Inl e, b)
      | Inr _ \<Rightarrow>
          if verb = ''debug_start'' \<and> br_debug_open b then (Inl WorkerBusy, b)
          else
            let rid = br_next_id b;
                (ch, b1) = pending_insert rid (b\<lparr>br_next_id := rid + 1\<rparr>)
            in case br_process b1 of
                 None \<Rightarrow> (Inl SupervisorNotRunning, pending_remove rid b1)
               | Some p \<Rightarrow>
                   (case try_send (IpcRequest rid verb params) p of
                      Inl e \<Rightarrow> (Inl (IpcWriteError (''IPC channel send failed: '' @ e)), pending_remove rid b1)
                    | Inr p1 \<Rightarrow>
                        let b2 = b1\<lparr>br_process := Some p1\<rparr>;
                            b3 = (case route of Some r \<Rightarrow> b2\<lparr>br_egress := Some r\<rparr> | None \<Rightarrow> b2);
                            light = is_lightweight_method verb;
                            b4 = b3\<lparr>br_registry := register_inner now cancel_id token light (br_registry b3)\<rparr>;
                            b5 = (if light then b4 else take_slot now (session_of verb) cancel_id rid b4)
                        in (Inr \<lparr>rq_verb = verb, rq_session = session_of verb, rq_cancel_id = cancel_id,
                                 rq_token = token, rq_id = rid, rq_chan = ch\<rparr>, b5)))"

section \<open>The guard of a request\<close>

definition reset_session :: "worker_settings \<Rightarrow> instant \<Rightarrow> session_type \<Rightarrow> u64 \<Rightarrow> bridge \<Rightarrow> bridge" where
  "reset_session cfg now session rid b =
     (if br_session b \<noteq> Some session \<or> br_request_id b \<noteq> Some rid then b
      else
        let b1 = b\<lparr>br_session := None\<rparr>;
            b2 = (case br_cancel_id b1 of
                    Some c \<Rightarrow> b1\<lparr>br_cancel_id := None, br_registry := registry_remove c (br_registry b1)\<rparr>
                  | None \<Rightarrow> b1);
            b3 = (case br_request_id b2 of
                    Some r \<Rightarrow> pending_remove r (b2\<lparr>br_request_id := None\<rparr>) | None \<Rightarrow> b2)
        in start_idle_timer cfg now
             (merge_worker_status (b3\<lparr>br_worker_state := WsIdle, br_last_activity := now\<rparr>)))"

definition debug_guard_cleanup :: "worker_settings \<Rightarrow> instant \<Rightarrow> u64 \<Rightarrow> string \<Rightarrow> bool \<Rightarrow> bridge \<Rightarrow> bridge" where
  "debug_guard_cleanup cfg now rid cancel_id is_stop b =
     (if br_session b \<noteq> Some SessDebug \<or> br_request_id b \<noteq> Some rid
      then b\<lparr>br_registry := registry_remove cancel_id (br_registry b)\<rparr>
      else
        let b1 = b\<lparr>br_request_id := None, br_cancel_id := None,
                   br_registry := registry_remove cancel_id (br_registry b)\<rparr>
        in if is_stop \<or> \<not> br_debug_open b1
           then start_idle_timer cfg now
                  (merge_worker_status
                     (b1\<lparr>br_debug_open := False, br_debug_activity := None, br_screenshot := None,
                         br_session := None, br_worker_state := WsIdle, br_last_activity := now\<rparr>))
           else b1)"

definition lightweight_cleanup :: "u64 \<Rightarrow> string \<Rightarrow> bridge \<Rightarrow> bridge" where
  "lightweight_cleanup rid cancel_id b =
     (let b1 = pending_remove rid b
      in b1\<lparr>br_registry := registry_remove cancel_id (br_registry b1)\<rparr>)"

definition session_guard :: "worker_settings \<Rightarrow> instant \<Rightarrow> request \<Rightarrow> bridge \<Rightarrow> bridge" where
  "session_guard cfg now rq b =
     (if is_lightweight_method (rq_verb rq) then lightweight_cleanup (rq_id rq) (rq_cancel_id rq) b
      else if rq_session rq = SessDebug
      then debug_guard_cleanup cfg now (rq_id rq) (rq_cancel_id rq) (rq_verb rq = ''debug_stop'') b
      else
        let b1 = reset_session cfg now (rq_session rq) (rq_id rq) b
        in b1\<lparr>br_registry := registry_remove (rq_cancel_id rq) (br_registry b1)\<rparr>)"

section \<open>Settlement and cancellation of a waiting request\<close>

definition settle_debug :: "instant \<Rightarrow> string \<Rightarrow> bridge_error + ipc_response \<Rightarrow> bridge \<Rightarrow> bridge" where
  "settle_debug now verb result b =
     (case execute_debug_settle verb result of
        SettleOpen \<Rightarrow> b\<lparr>br_debug_open := True, br_debug_activity := Some now\<rparr>
      | SettleKeepOpen \<Rightarrow> b\<lparr>br_last_activity := now, br_debug_activity := Some now\<rparr>
      | SettleClose \<Rightarrow> b)"

text \<open>
  \<open>wait_cancel_ack_or_kill\<close>: \<open>acked\<close> says whether the channel answered within two seconds. A
  request that no longer owns the slot leaves the worker alone.
\<close>

definition owns_slot :: "string \<Rightarrow> bridge \<Rightarrow> bool" where
  "owns_slot cancel_id b \<longleftrightarrow> br_cancel_id b = Some cancel_id"

definition wait_cancel_ack_or_kill :: "bool \<Rightarrow> string \<Rightarrow> bridge \<Rightarrow> (bridge_error + ipc_response) \<times> bridge" where
  "wait_cancel_ack_or_kill acked cancel_id b =
     (Inl BridgeCancelled,
      if acked then b else if owns_slot cancel_id b then kill_worker_now b else b)"

text \<open>
  \<open>grace_wait_slot_release\<close>: the slot is read every 200 milliseconds until it is free of the stuck
  request or ten seconds are over, and once more at the end. \<open>seen n\<close> is the state at the \<open>n\<close>-th
  reading.
\<close>

definition GRACE_POLLS :: nat where
  "GRACE_POLLS = 50"

fun grace_loop :: "nat \<Rightarrow> nat \<Rightarrow> (nat \<Rightarrow> bridge) \<Rightarrow> u64 \<Rightarrow> nat" where
  "grace_loop 0 n seen stuck = n"
| "grace_loop (Suc left) n seen stuck =
     (if br_request_id (seen n) \<noteq> Some stuck then n else grace_loop left (n + 1) seen stuck)"

definition grace_wait_slot_release :: "(nat \<Rightarrow> bridge) \<Rightarrow> u64 \<Rightarrow> bool \<times> bridge" where
  "grace_wait_slot_release seen stuck =
     (let b = seen (grace_loop GRACE_POLLS 0 seen stuck + 1)
      in if br_request_id b = Some stuck then (True, kill_worker_now b) else (False, b))"

text \<open>\<open>execute_with_timeout\<close>: the id of the request, its parameters, and the end of a request
  whose caller has waited long enough.\<close>

definition request_params :: "string \<Rightarrow> nat \<Rightarrow> json \<Rightarrow> string \<times> json" where
  "request_params uuid timeout_ms params =
     (let (cid, p1) =
            (case Option.bind (json_get ''cancel_id'' params) as_str of
               Some c \<Rightarrow> (c, params)
             | None \<Rightarrow>
                 (case params of
                    JObject kvs \<Rightarrow> (uuid, json_insert ''cancel_id'' (JString uuid) params)
                  | _ \<Rightarrow> (uuid, JObject [(''cancel_id'', JString uuid), (''value'', params)])))
      in (cid, json_insert ''rust_timeout_ms'' (JNumber (show_nat (timeout_ms mod 2 ^ 64))) p1))"

definition stuck_request :: "string \<Rightarrow> bridge \<Rightarrow> u64 option" where
  "stuck_request cancel_id b = (if owns_slot cancel_id b then br_request_id b else None)"

definition execute_timeout :: "(nat \<Rightarrow> bridge) \<Rightarrow> string \<Rightarrow> bridge \<Rightarrow> bridge_error \<times> bridge" where
  "execute_timeout seen cancel_id b =
     (BridgeTimeout,
      case stuck_request cancel_id b of
        Some rid \<Rightarrow> snd (grace_wait_slot_release seen rid)
      | None \<Rightarrow> b)"

end
