(* ===== verification/Bridge_Spawn.thy ===== *)
theory Bridge_Spawn
  imports Bridge_Requests
begin

text \<open>
  \<open>bridge/mod.rs\<close>: starting the worker on demand. Before a process is started the environment is
  checked and, if need be, repaired; the process must pass a health check; a failure of the first
  attempt is answered by a repair and a second attempt. Failures in a row open a circuit breaker.

  What the environment manager, the operating system and the worker answer during one call is a
  record. A call of the manager says whether it has run its bootstrap to the end, which calls
  \<open>reset_spawn_failures\<close> back.
\<close>

section \<open>The surroundings of one call\<close>

record environment_api =
  ev_refresh :: "string + unit"
  ev_ready :: "bool \<Rightarrow> bool \<times> (string + unit)"
  ev_repair_runtime :: "bool \<times> (string + unit)"
  ev_repair_browser :: "string + bool"

record worker_env =
  we_openwrt :: bool
  we_environment :: "environment_api option"
  we_python_exists :: bool
  we_spawn :: "nat \<Rightarrow> bridge_error + worker_process"
  we_browser_settings :: "json option"
  we_health :: "nat \<Rightarrow> u64 \<Rightarrow> (bridge_error + ipc_response) option"

section \<open>Counting failures\<close>

definition reset_spawn_failures :: "bridge \<Rightarrow> bridge" where
  "reset_spawn_failures b =
     (let b1 = b\<lparr>br_spawn_failures := 0\<rparr>
      in if br_process b1 = None \<and> br_worker_state b1 = WsError
         then merge_worker_status (b1\<lparr>br_worker_state := WsIdle\<rparr>) else b1)"

definition record_spawn_failure :: "bridge \<Rightarrow> bridge" where
  "record_spawn_failure b = merge_worker_status (b\<lparr>br_spawn_failures := br_spawn_failures b + 1\<rparr>)"

definition bootstrap_done :: "bool \<Rightarrow> bridge \<Rightarrow> bridge" where
  "bootstrap_done finished b = (if finished then reset_spawn_failures b else b)"

definition is_worker_ready :: "bridge \<Rightarrow> bool" where
  "is_worker_ready b \<longleftrightarrow> br_worker_state b = WsIdle \<and> br_process b \<noteq> None"

section \<open>The health check\<close>

definition health_begin :: "json option \<Rightarrow> bool \<Rightarrow> bridge \<Rightarrow> (bridge_error + u64) \<times> bridge" where
  "health_begin settings worker_only b =
     (let rid = br_next_id b;
          (ch, b1) = pending_insert rid (b\<lparr>br_next_id := rid + 1\<rparr>);
          msg = (if worker_only then IpcRequest rid ''worker_health_check'' JNull
                 else IpcRequest rid ''browser_health_check''
                        (case settings of Some bs \<Rightarrow> JObject [(''browser_settings'', bs)] | None \<Rightarrow> JNull))
      in case br_process b1 of
           None \<Rightarrow> (Inl SupervisorNotRunning, pending_remove rid b1)
         | Some p \<Rightarrow>
             (case try_send msg p of
                Inl e \<Rightarrow> (Inl (IpcWriteError (''IPC channel send failed: '' @ e)), pending_remove rid b1)
              | Inr p1 \<Rightarrow> (Inr rid, b1\<lparr>br_process := Some p1\<rparr>)))"

definition health_end :: "bool \<Rightarrow> (bridge_error + ipc_response) option \<Rightarrow> bridge \<Rightarrow> (bridge_error + bool) \<times> bridge" where
  "health_end worker_only answer b =
     (case answer of
        Some (Inr resp) \<Rightarrow>
          let b1 = (if worker_only then b\<lparr>br_capabilities := json_get ''capabilities'' (ir_data resp)\<rparr> else b);
              healthy = ir_success resp \<and> Option.bind (json_get ''healthy'' (ir_data resp)) as_bool = Some True
          in (Inr healthy, b1)
      | _ \<Rightarrow> (Inl WorkerStartupTimeout, b))"

text \<open>The answer comes through \<open>handle_ipc_message\<close>, which takes it out of the waiting table.\<close>

definition send_health_check ::
  "json option \<Rightarrow> (u64 \<Rightarrow> (bridge_error + ipc_response) option) \<Rightarrow> bool \<Rightarrow> bridge \<Rightarrow> (bridge_error + bool) \<times> bridge"
where
  "send_health_check settings answers worker_only b =
     (case health_begin settings worker_only b of
        (Inl e, b1) \<Rightarrow> (Inl e, b1)
      | (Inr rid, b1) \<Rightarrow>
          (case answers rid of
             Some (Inr resp) \<Rightarrow> health_end worker_only (Some (Inr resp)) (handle_response (resp\<lparr>ir_id := rid\<rparr>) b1)
           | a \<Rightarrow> health_end worker_only a b1))"

section \<open>Attempts\<close>

definition worker_spawned :: "worker_process \<Rightarrow> bridge \<Rightarrow> bridge" where
  "worker_spawned p b =
     (let b1 = merge_worker_status (b\<lparr>br_worker_state := WsStarting, br_process := Some p\<rparr>)
      in b1\<lparr>br_spawns := br_spawns b1 + 1\<rparr>)"

definition worker_ready :: "bridge \<Rightarrow> bridge" where
  "worker_ready b = merge_worker_status (b\<lparr>br_worker_state := WsIdle, br_spawn_failures := 0\<rparr>)"

text \<open>\<open>None\<close>: go on with the second attempt.\<close>

definition repair_then_retry :: "environment_api \<Rightarrow> bridge \<Rightarrow> (bridge_error + unit) option \<times> bridge" where
  "repair_then_retry ev b =
     (case ev_repair_runtime ev of (finished, r) \<Rightarrow>
        let b1 = bootstrap_done finished b
        in case r of
             Inl e \<Rightarrow> (Some (Inl (WorkerEnvironmentInvalid e)), b1)
           | Inr _ \<Rightarrow> (None, b1))"

definition spawn_attempt :: "worker_env \<Rightarrow> bool \<Rightarrow> nat \<Rightarrow> bridge \<Rightarrow> (bridge_error + unit) option \<times> bridge" where
  "spawn_attempt we worker_only attempt b =
     (let repair = (if attempt = 0 then we_environment we else None)
      in case we_spawn we attempt of
           Inl e \<Rightarrow>
             (case repair of
                Some ev \<Rightarrow> repair_then_retry ev b
              | None \<Rightarrow> (Some (Inl e), record_spawn_failure b))
         | Inr p \<Rightarrow>
             (case send_health_check (we_browser_settings we) (we_health we attempt) worker_only (worker_spawned p b) of
                (health, b1) \<Rightarrow>
                  if health = Inr True then (Some (Inr ()), worker_ready b1)
                  else
                    let b2 = kill_worker_now b1
                    in case repair of
                         Some ev \<Rightarrow>
                           (case ev_repair_browser ev of
                              Inl e \<Rightarrow> (Some (Inl (WorkerEnvironmentInvalid e)), b2)
                            | Inr True \<Rightarrow> (None, b2)
                            | Inr False \<Rightarrow> repair_then_retry ev b2)
                       | None \<Rightarrow> (Some (Inl WorkerStartupTimeout), record_spawn_failure b2)))"

definition spawn_attempts :: "worker_env \<Rightarrow> bool \<Rightarrow> bridge \<Rightarrow> (bridge_error + unit) \<times> bridge" where
  "spawn_attempts we worker_only b =
     (case spawn_attempt we worker_only 0 b of
        (Some r, b1) \<Rightarrow> (r, b1)
      | (None, b1) \<Rightarrow>
          (case spawn_attempt we worker_only 1 b1 of
             (Some r, b2) \<Rightarrow> (r, b2)
           | (None, b2) \<Rightarrow> (Inl WorkerStartupTimeout, b2)))"

definition environment_gate :: "worker_env \<Rightarrow> bool \<Rightarrow> bridge \<Rightarrow> (bridge_error + unit) \<times> bridge" where
  "environment_gate we worker_only b =
     (case we_environment we of
        None \<Rightarrow> (Inr (), b)
      | Some ev \<Rightarrow>
          (case ev_refresh ev of
             Inl e \<Rightarrow> (Inl (WorkerEnvironmentInvalid e), b)
           | Inr _ \<Rightarrow>
               (case ev_ready ev worker_only of (finished, r) \<Rightarrow>
                  let b1 = bootstrap_done finished b
                  in case r of Inl e \<Rightarrow> (Inl (WorkerEnvironmentInvalid e), b1) | Inr _ \<Rightarrow> (Inr (), b1))))"

definition ensure_worker :: "worker_env \<Rightarrow> bool \<Rightarrow> bridge \<Rightarrow> (bridge_error + unit) \<times> bridge" where
  "ensure_worker we worker_only b =
     (if we_openwrt we then (Inl (ExecutionError ''no browser automation and no OCR worker on OpenWrt'' None), b)
      else if is_worker_ready b then (Inr (), b)
      else if br_process b \<noteq> None then (Inr (), b)
      else
        case environment_gate we worker_only b of
          (Inl e, b1) \<Rightarrow> (Inl e, b1)
        | (Inr _, b1) \<Rightarrow>
            if br_spawn_failures b1 \<ge> SPAWN_FAILURE_THRESHOLD then (Inl WorkerSpawnBlocked, b1)
            else if \<not> we_python_exists we then (Inl WorkerNotInstalled, b1)
            else
              let b2 = b1\<lparr>br_orphan_done := True\<rparr>
              in if \<not> br_ipc_tx b2 then (Inl WorkerStartupTimeout, b2)
                 else spawn_attempts we worker_only b2)"

section \<open>A whole request up to its sending\<close>

text \<open>
  \<open>execute_inner\<close>. The egress of a browser request is prepared between the start of the worker and
  the critical section: \<open>egress\<close> is its outcome, the route and the parameters rewritten for it.
\<close>

definition execute_inner ::
  "worker_env \<Rightarrow> instant \<Rightarrow> string \<Rightarrow> json \<Rightarrow> string \<Rightarrow> nat \<Rightarrow> (bridge_error + nat \<times> json) \<Rightarrow> bridge
     \<Rightarrow> (bridge_error + request) \<times> bridge"
where
  "execute_inner we now verb params uuid token egress b =
     (case ensure_worker we (verb = ''ocr_recognize'') (execute_prologue verb now b) of
        (Inl e, b1) \<Rightarrow> (Inl e, b1)
      | (Inr _, b1) \<Rightarrow>
          let cancel_id = (case Option.bind (json_get ''cancel_id'' params) as_str of Some c \<Rightarrow> c | None \<Rightarrow> uuid)
          in if json_get ''browser_settings'' params \<noteq> None \<and> \<not> is_lightweight_method verb
             then (case egress of
                     Inl e \<Rightarrow> (Inl e, b1)
                   | Inr (route, params1) \<Rightarrow> bridge_admit now verb params1 cancel_id token (Some route) b1)
             else bridge_admit now verb params cancel_id token None b1)"

end
