(* ===== verification/Bridge_Inv.thy ===== *)
theory Bridge_Inv
  imports Bridge_Spawn
begin

text \<open>
  The supervisor under concurrency. Every request runs in a task of its own, the main loop takes
  commands and messages, timers and other services recycle the worker: all of them share one lock,
  and between two sections under the lock anything else may run. The step relation lets the
  sections of \<open>bridge/mod.rs\<close> run in any order; only the order inside one request, the order of
  taking the process and draining the waiting requests, and the order of the two sections of a
  clean exit are kept. Its invariant is the supervisor's promise about the session slot, the waiting
  requests and their cancellation.
\<close>

section \<open>The world of the supervisor\<close>

datatype req_phase = Waiting | AckWait | Answered "bridge_error + ipc_response" | Replied | Done

text \<open>
  \<open>bw_kills\<close> counts the recyclings that have taken the process and not yet drained the waiting
  requests, \<open>bw_exits\<close> the clean exits between their two sections. \<open>bw_stranded\<close> is set when a clean
  exit drops a process for which a request is still waiting.
\<close>

record bridge_world =
  bw_bridge :: bridge
  bw_now :: instant
  bw_tasks :: "(request \<times> req_phase) list"
  bw_kills :: nat
  bw_exits :: nat
  bw_stranded :: bool

definition bridge_start :: "bridge_world \<Rightarrow> bool" where
  "bridge_start w \<longleftrightarrow> bw_bridge w = bridge_new\<lparr>br_ipc_tx := True\<rparr> \<and> bw_tasks w = [] \<and> bw_kills w = 0 \<and>
     bw_exits w = 0 \<and> \<not> bw_stranded w"

definition task_of :: "(request \<times> req_phase) list \<Rightarrow> nat \<Rightarrow> request" where
  "task_of ts i = fst (ts ! i)"

definition phase_of :: "(request \<times> req_phase) list \<Rightarrow> nat \<Rightarrow> req_phase" where
  "phase_of ts i = snd (ts ! i)"

definition live_cancel_ids :: "(request \<times> req_phase) list \<Rightarrow> string set" where
  "live_cancel_ids ts = {rq_cancel_id (task_of ts i) |i. i < length ts \<and> phase_of ts i \<noteq> Done}"

definition with_bridge :: "bridge \<Rightarrow> bridge_world \<Rightarrow> bridge_world" where
  "with_bridge b w = w\<lparr>bw_bridge := b\<rparr>"

definition task_phase :: "nat \<Rightarrow> req_phase \<Rightarrow> bridge_world \<Rightarrow> bridge_world" where
  "task_phase i ph w = w\<lparr>bw_tasks := (bw_tasks w)[i := (task_of (bw_tasks w) i, ph)]\<rparr>"

text \<open>What the waiting task receives: its token is looked at first.\<close>

definition receive :: "oneshot \<Rightarrow> (bridge_error + ipc_response) option" where
  "receive c = (case c of ChOpen \<Rightarrow> None | ChSent r \<Rightarrow> Some r | ChClosed \<Rightarrow> Some (Inl SupervisorNotRunning))"

inductive bridge_step :: "worker_settings \<Rightarrow> bridge_world \<Rightarrow> bridge_world \<Rightarrow> bool" for cfg where
  tick: "bw_now w \<le> t \<Longrightarrow> bridge_step cfg w (w\<lparr>bw_now := t\<rparr>)"
| debug_start_begins: "bridge_step cfg w (with_bridge ((bw_bridge w)\<lparr>br_screenshot := None\<rparr>) w)"
| recycle_clears: "bridge_step cfg w (with_bridge (recycle_clear (bw_bridge w)) w)"
| kill_takes: "bridge_step cfg w
     ((with_bridge (snd (kill_take (bw_bridge w))) w)\<lparr>bw_kills := bw_kills w + 1\<rparr>)"
| shutdown_takes: "bridge_step cfg w
     ((with_bridge (snd (shutdown_take (bw_bridge w))) w)\<lparr>bw_kills := bw_kills w + 1\<rparr>)"
| drains: "0 < bw_kills w \<Longrightarrow> bridge_step cfg w
     ((with_bridge (drain_pending_requests reason (bw_bridge w)) w)\<lparr>bw_kills := bw_kills w - 1\<rparr>)"
| kill_finishes: "bridge_step cfg w (with_bridge (kill_finish (bw_bridge w)) w)"
| shutdown_finishes: "bridge_step cfg w (with_bridge (shutdown_finish (bw_bridge w)) w)"
| drops_egress: "bridge_step cfg w (with_bridge ((bw_bridge w)\<lparr>br_egress := None\<rparr>) w)"
| spawned: "br_process (bw_bridge w) = None \<Longrightarrow>
     bridge_step cfg w (with_bridge (worker_spawned p ((bw_bridge w)\<lparr>br_orphan_done := True\<rparr>)) w)"
| health_begins: "br_next_id (bw_bridge w) \<noteq> - 1 \<Longrightarrow>
     bridge_step cfg w (with_bridge (snd (health_begin settings only (bw_bridge w))) w)"
| health_ends: "bridge_step cfg w (with_bridge (snd (health_end only answer (bw_bridge w))) w)"
| becomes_ready: "bridge_step cfg w (with_bridge (worker_ready (bw_bridge w)) w)"
| spawn_fails: "bridge_step cfg w (with_bridge (record_spawn_failure (bw_bridge w)) w)"
| failures_reset: "bridge_step cfg w (with_bridge (reset_spawn_failures (bw_bridge w)) w)"
| worker_reads: "br_process (bw_bridge w) = Some p \<Longrightarrow>
     bridge_step cfg w (with_bridge ((bw_bridge w)\<lparr>br_process := Some p'\<rparr>) w)"
| admits: "bridge_admit (bw_now w) verb params cid token route (bw_bridge w) = (Inr rq, b) \<Longrightarrow>
     cid \<notin> live_cancel_ids (bw_tasks w) \<Longrightarrow> br_next_id (bw_bridge w) \<noteq> - 1 \<Longrightarrow>
     bridge_step cfg w ((with_bridge b w)\<lparr>bw_tasks := bw_tasks w @ [(rq, Waiting)]\<rparr>)"
| refuses: "bridge_admit (bw_now w) verb params cid token route (bw_bridge w) = (Inl e, b) \<Longrightarrow>
     br_next_id (bw_bridge w) \<noteq> - 1 \<Longrightarrow> bridge_step cfg w (with_bridge b w)"
| cancels: "bridge_step cfg w (with_bridge (handle_cancel (bw_now w) cid (bw_bridge w)) w)"
| message: "\<forall>code. msg \<noteq> MsgWorkerExited code \<Longrightarrow>
     bridge_step cfg w (with_bridge (handle_ipc_message file_name msg (bw_bridge w)) w)"
| crashes: "code \<noteq> 0 \<Longrightarrow>
     bridge_step cfg w (with_bridge (handle_worker_exited code (bw_bridge w)) w)"
| exit_drains: "bridge_step cfg w
     ((with_bridge (drain_pending_requests ''worker exited (code 0)'' (bw_bridge w)) w)\<lparr>bw_exits := bw_exits w + 1\<rparr>)"
| exit_finishes: "0 < bw_exits w \<Longrightarrow> bridge_step cfg w
     ((with_bridge (clean_exit_finish (bw_bridge w)) w)\<lparr>bw_exits := bw_exits w - 1,
        bw_stranded := bw_stranded w \<or> br_pending (bw_bridge w) \<noteq> []\<rparr>)"
| idle_fires: "bridge_step cfg w (with_bridge (snd (idle_check cfg (bw_now w) (bw_bridge w))) w)"
| task_cancelled: "i < length (bw_tasks w) \<Longrightarrow> task_of (bw_tasks w) i = rq \<Longrightarrow> phase_of (bw_tasks w) i = Waiting \<Longrightarrow>
     rq_token rq \<in> cr_cancelled (br_registry (bw_bridge w)) \<Longrightarrow>
     bridge_step cfg w (task_phase i AckWait w)"
| caller_gone: "i < length (bw_tasks w) \<Longrightarrow> task_of (bw_tasks w) i = rq \<Longrightarrow> phase_of (bw_tasks w) i = Waiting \<Longrightarrow>
     rq_token rq \<notin> cr_cancelled (br_registry (bw_bridge w)) \<Longrightarrow>
     bridge_step cfg w (task_phase i AckWait w)"
| task_answered: "i < length (bw_tasks w) \<Longrightarrow> task_of (bw_tasks w) i = rq \<Longrightarrow> phase_of (bw_tasks w) i = Waiting \<Longrightarrow>
     rq_token rq \<notin> cr_cancelled (br_registry (bw_bridge w)) \<Longrightarrow>
     receive (br_chan (bw_bridge w) (rq_chan rq)) = Some r \<Longrightarrow>
     bridge_step cfg w (task_phase i (Answered r) w)"
| task_acked: "i < length (bw_tasks w) \<Longrightarrow> phase_of (bw_tasks w) i = AckWait \<Longrightarrow>
     bridge_step cfg w (task_phase i (Answered (Inl BridgeCancelled)) w)"
| settles: "i < length (bw_tasks w) \<Longrightarrow> task_of (bw_tasks w) i = rq \<Longrightarrow> phase_of (bw_tasks w) i = Answered r \<Longrightarrow>
     bridge_step cfg w
       (task_phase i Replied (with_bridge (settle_debug (bw_now w) (rq_verb rq) r (bw_bridge w)) w))"
| guard_drops: "i < length (bw_tasks w) \<Longrightarrow> task_of (bw_tasks w) i = rq \<Longrightarrow> phase_of (bw_tasks w) i = Replied \<Longrightarrow>
     bridge_step cfg w
       (task_phase i Done (with_bridge (session_guard cfg (bw_now w) rq (bw_bridge w)) w))"

inductive_cases bridge_stepE: "bridge_step cfg w w'"

section \<open>The invariant\<close>

text \<open>The table of waiting requests and their channels.\<close>

definition pending_ok :: "bridge \<Rightarrow> bool" where
  "pending_ok b \<longleftrightarrow> distinct (List.map fst (br_pending b)) \<and> distinct (List.map snd (br_pending b)) \<and>
     (\<forall>(rid, ch) \<in> set (br_pending b). unat rid < unat (br_next_id b) \<and> ch < br_next_chan b \<and> br_chan b ch = ChOpen) \<and>
     (\<forall>ch \<ge> br_next_chan b. br_chan b ch = ChOpen)"

text \<open>The requests that were sent have numbers and channels of their own, and as long as they have
  not ended, cancel ids of their own.\<close>

definition tasks_ok :: "(request \<times> req_phase) list \<Rightarrow> bridge \<Rightarrow> bool" where
  "tasks_ok ts b \<longleftrightarrow>
     (\<forall>i < length ts. unat (rq_id (task_of ts i)) < unat (br_next_id b) \<and> rq_chan (task_of ts i) < br_next_chan b \<and>
        rq_session (task_of ts i) = session_of (rq_verb (task_of ts i))) \<and>
     (\<forall>i < length ts. \<forall>j < length ts. i \<noteq> j \<longrightarrow>
        rq_id (task_of ts i) \<noteq> rq_id (task_of ts j) \<and> rq_chan (task_of ts i) \<noteq> rq_chan (task_of ts j) \<and>
        (phase_of ts i \<noteq> Done \<longrightarrow> phase_of ts j \<noteq> Done \<longrightarrow>
         rq_cancel_id (task_of ts i) \<noteq> rq_cancel_id (task_of ts j)))"

text \<open>An open channel of a request that waits is in the table under its number.\<close>

definition waiting_ok :: "(request \<times> req_phase) list \<Rightarrow> bridge \<Rightarrow> bool" where
  "waiting_ok ts b \<longleftrightarrow>
     (\<forall>i < length ts. phase_of ts i = Waiting \<or> phase_of ts i = AckWait \<longrightarrow>
        br_chan b (rq_chan (task_of ts i)) = ChOpen \<longrightarrow>
        map_of (br_pending b) (rq_id (task_of ts i)) = Some (rq_chan (task_of ts i)))"

text \<open>The session slot belongs to a request that has not ended, or to a debug session at rest.\<close>

definition slot_ok :: "(request \<times> req_phase) list \<Rightarrow> bridge \<Rightarrow> bool" where
  "slot_ok ts b \<longleftrightarrow>
     (case br_request_id b of
        Some rid \<Rightarrow> \<exists>i < length ts. phase_of ts i \<noteq> Done \<and>
          \<not> is_lightweight_method (rq_verb (task_of ts i)) \<and> rq_id (task_of ts i) = rid \<and>
          br_cancel_id b = Some (rq_cancel_id (task_of ts i)) \<and>
          br_session b = Some (rq_session (task_of ts i))
      | None \<Rightarrow> br_cancel_id b = None \<and> (br_session b = None \<or> br_session b = Some SessDebug))"

definition registry_ok :: "(request \<times> req_phase) list \<Rightarrow> bridge \<Rightarrow> bool" where
  "registry_ok ts b \<longleftrightarrow> (\<forall>c. registered (br_registry b) c \<noteq> None \<longrightarrow> c \<in> live_cancel_ids ts)"

text \<open>A request that waits can be cancelled: its token has fired or is found under its id.\<close>

definition cancel_ok :: "(request \<times> req_phase) list \<Rightarrow> bridge \<Rightarrow> bool" where
  "cancel_ok ts b \<longleftrightarrow>
     (\<forall>i < length ts. phase_of ts i = Waiting \<longrightarrow> br_chan b (rq_chan (task_of ts i)) = ChOpen \<longrightarrow>
        cancellable (br_registry b) (rq_cancel_id (task_of ts i)) (rq_token (task_of ts i)))"

text \<open>A request waits for an absent worker only while a recycling is about to settle it.\<close>

definition worker_ok :: "bridge_world \<Rightarrow> bool" where
  "worker_ok w \<longleftrightarrow> br_process (bw_bridge w) = None \<longrightarrow> bw_kills w = 0 \<longrightarrow> \<not> bw_stranded w \<longrightarrow>
     br_pending (bw_bridge w) = []"

definition bridge_inv :: "bridge_world \<Rightarrow> bool" where
  "bridge_inv w \<longleftrightarrow> pending_ok (bw_bridge w) \<and> tasks_ok (bw_tasks w) (bw_bridge w) \<and>
     waiting_ok (bw_tasks w) (bw_bridge w) \<and> slot_ok (bw_tasks w) (bw_bridge w) \<and>
     registry_ok (bw_tasks w) (bw_bridge w) \<and> worker_ok w \<and>
     (\<not> bw_stranded w \<longrightarrow> cancel_ok (bw_tasks w) (bw_bridge w))"

section \<open>Frames\<close>

text \<open>The part of the state that the invariant speaks about, apart from the process.\<close>

definition bridge_core where
  "bridge_core b = (br_pending b, br_next_id b, br_next_chan b, br_chan (b :: bridge), br_registry b,
     br_session b, br_cancel_id b, br_request_id b)"

lemma core_simps [simp]:
  "bridge_core (merge_worker_status b) = bridge_core b"
  "bridge_core (kill_finish b) = bridge_core b"
  "bridge_core (shutdown_finish b) = bridge_core b"
  "bridge_core (start_idle_timer cfg now b) = bridge_core b"
  "bridge_core (snd (kill_take b)) = bridge_core b"
  "bridge_core (snd (shutdown_take b)) = bridge_core b"
  "bridge_core (worker_spawned p b) = bridge_core b"
  "bridge_core (worker_ready b) = bridge_core b"
  "bridge_core (record_spawn_failure b) = bridge_core b"
  "bridge_core (reset_spawn_failures b) = bridge_core b"
  "bridge_core (settle_debug now verb r b) = bridge_core b"
  "bridge_core (snd (idle_check cfg now b)) = bridge_core b"
  "bridge_core (snd (health_end only answer b)) = bridge_core b"
  by (simp_all add: bridge_core_def merge_worker_status_def kill_finish_def shutdown_finish_def
      start_idle_timer_def Let_def kill_take_def shutdown_take_def worker_spawned_def worker_ready_def
      record_spawn_failure_def reset_spawn_failures_def settle_debug_def idle_check_def health_end_def
      split: debug_settle.split option.split sum.split)

lemma process_simps [simp]:
  "br_process (merge_worker_status b) = br_process b"
  "br_process (kill_finish b) = br_process (b :: bridge)"
  "br_process (shutdown_finish b) = br_process b"
  "br_process (start_idle_timer cfg now b) = br_process b"
  "br_process (worker_ready b) = br_process b"
  "br_process (record_spawn_failure b) = br_process b"
  "br_process (reset_spawn_failures b) = br_process b"
  "br_process (settle_debug now verb r b) = br_process b"
  "br_process (snd (idle_check cfg now b)) = br_process b"
  "br_process (snd (health_end only answer b)) = br_process b"
  "br_process (worker_spawned p b) = Some p"
  by (simp_all add: merge_worker_status_def kill_finish_def shutdown_finish_def
      start_idle_timer_def Let_def worker_spawned_def worker_ready_def
      record_spawn_failure_def reset_spawn_failures_def settle_debug_def idle_check_def health_end_def
      split: debug_settle.split option.split sum.split)

lemma core_fields:
  "bridge_core b' = bridge_core b \<Longrightarrow> pending_ok b' = pending_ok b"
  "bridge_core b' = bridge_core b \<Longrightarrow> tasks_ok ts b' = tasks_ok ts b"
  "bridge_core b' = bridge_core b \<Longrightarrow> waiting_ok ts b' = waiting_ok ts b"
  "bridge_core b' = bridge_core b \<Longrightarrow> slot_ok ts b' = slot_ok ts b"
  "bridge_core b' = bridge_core b \<Longrightarrow> registry_ok ts b' = registry_ok ts b"
  "bridge_core b' = bridge_core b \<Longrightarrow> cancel_ok ts b' = cancel_ok ts b"
  by (simp_all add: bridge_core_def pending_ok_def tasks_ok_def waiting_ok_def slot_ok_def registry_ok_def
      cancel_ok_def split: option.split)

lemma inv_frame:
  assumes "bridge_inv w" "bridge_core b = bridge_core (bw_bridge w)"
    and "br_process b = None \<Longrightarrow> br_process (bw_bridge w) = None"
  shows "bridge_inv (with_bridge b w)"
proof -
  have "br_pending b = br_pending (bw_bridge w)" using assms(2) by (simp add: bridge_core_def)
  with assms(1,3) show ?thesis
    by (auto simp: bridge_inv_def with_bridge_def core_fields [OF assms(2)] worker_ok_def)
qed

text \<open>Changes that leave the table of the waiting requests alone, and changes that leave the slot.\<close>

definition same_table :: "bridge \<Rightarrow> bridge \<Rightarrow> bool" where
  "same_table b' b \<longleftrightarrow> br_pending b' = br_pending b \<and> br_next_id b' = br_next_id b \<and>
     br_next_chan b' = br_next_chan b \<and> br_chan b' = br_chan b"

lemma table_cong:
  "same_table b' b \<Longrightarrow> pending_ok b' = pending_ok b"
  "same_table b' b \<Longrightarrow> tasks_ok ts b' = tasks_ok ts b"
  "same_table b' b \<Longrightarrow> waiting_ok ts b' = waiting_ok ts b"
  by (simp_all add: same_table_def pending_ok_def tasks_ok_def waiting_ok_def)

lemma slot_cong:
  "br_request_id b' = br_request_id b \<Longrightarrow> br_cancel_id b' = br_cancel_id b \<Longrightarrow> br_session b' = br_session b \<Longrightarrow>
   slot_ok ts b' = slot_ok ts b"
  by (simp add: slot_ok_def split: option.split)

lemma slot_free [simp]:
  "br_request_id b = None \<Longrightarrow> br_cancel_id b = None \<Longrightarrow> br_session b = None \<or> br_session b = Some SessDebug \<Longrightarrow>
   slot_ok ts b"
  by (auto simp: slot_ok_def)

lemma inv_with:
  "bridge_inv (with_bridge b w) \<longleftrightarrow> pending_ok b \<and> tasks_ok (bw_tasks w) b \<and> waiting_ok (bw_tasks w) b \<and>
     slot_ok (bw_tasks w) b \<and> registry_ok (bw_tasks w) b \<and>
     (br_process b = None \<longrightarrow> bw_kills w = 0 \<longrightarrow> \<not> bw_stranded w \<longrightarrow> br_pending b = []) \<and>
     (\<not> bw_stranded w \<longrightarrow> cancel_ok (bw_tasks w) b)"
  by (simp add: bridge_inv_def with_bridge_def worker_ok_def)

lemma fold_chan_send:
  "fold (\<lambda>(_, ch). chan_send ch r) ps b =
     b\<lparr>br_chan := \<lambda>c. if c \<in> snd ` set ps \<and> br_chan b c = ChOpen then ChSent r else br_chan b c\<rparr>"
proof (induction ps arbitrary: b)
  case Nil
  then show ?case by simp
next
  case (Cons p ps)
  then show ?case by (cases p) (auto simp: chan_send_def fun_eq_iff split: oneshot.split)
qed

lemma pending_remove_eq:
  "pending_remove rid b =
     b\<lparr>br_pending := AList.delete rid (br_pending b),
       br_chan := \<lambda>c. if map_of (br_pending b) rid = Some c \<and> br_chan b c = ChOpen then ChClosed else br_chan b c\<rparr>"
proof (cases "map_of (br_pending b) rid")
  case None
  then have "AList.delete rid (br_pending b) = br_pending b"
    by (simp add: map_of_eq_None_iff delete_id)
  with None show ?thesis by (simp add: pending_remove_def)
next
  case (Some ch)
  then show ?thesis by (auto simp: pending_remove_def chan_drop_def fun_eq_iff split: oneshot.split)
qed

lemma update_fresh: "map_of xs k = None \<Longrightarrow> AList.update k v xs = xs @ [(k, v)]"
  by (induction xs) (auto split: if_splits)

lemma delete_fresh: "map_of xs k = None \<Longrightarrow> AList.delete k (xs @ [(k, v)]) = xs"
  by (induction xs) (auto split: if_splits)

lemma unat_next: "(n :: u64) \<noteq> - 1 \<Longrightarrow> unat (n + 1) = Suc (unat n)"
  by (metis add.commute add_eq_0_iff unatSuc)

lemma pending_fresh: "pending_ok b \<Longrightarrow> map_of (br_pending b) (br_next_id b) = None"
  by (auto simp: pending_ok_def map_of_eq_None_iff)

end
