(* ===== verification/Bridge_Safe.thy ===== *)
theory Bridge_Safe
  imports Bridge_Inv
begin

text \<open>
  The invariant of the supervisor holds at the start and is kept by every section of its code,
  whatever runs between them.
\<close>

section \<open>Sections that settle or forget requests\<close>

lemma drain_fields:
  "br_pending (drain_pending_requests reason b) = []"
  "br_next_id (drain_pending_requests reason b) = br_next_id b"
  "br_next_chan (drain_pending_requests reason b) = br_next_chan b"
  "br_chan (drain_pending_requests reason b) =
     (\<lambda>c. if c \<in> snd ` set (br_pending b) \<and> br_chan b c = ChOpen then ChSent (Inl (WorkerCrashed reason)) else br_chan b c)"
  "br_registry (drain_pending_requests reason b) = br_registry b"
  "br_session (drain_pending_requests reason b) = br_session b"
  "br_cancel_id (drain_pending_requests reason b) = br_cancel_id b"
  "br_request_id (drain_pending_requests reason b) = br_request_id b"
  "br_process (drain_pending_requests reason b) = br_process b"
  by (simp_all add: drain_pending_requests_def fold_chan_send fun_eq_iff)

text \<open>A state in which the table is empty and its channels have been answered.\<close>

definition settled_from :: "bridge \<Rightarrow> bridge \<Rightarrow> bool" where
  "settled_from b b' \<longleftrightarrow> br_pending b' = [] \<and> br_next_id b' = br_next_id b \<and> br_next_chan b' = br_next_chan b \<and>
     (\<forall>c. (c \<in> snd ` set (br_pending b) \<longrightarrow> br_chan b' c \<noteq> ChOpen) \<and>
          (c \<notin> snd ` set (br_pending b) \<longrightarrow> br_chan b' c = br_chan b c))"

lemma settled_pending: "pending_ok b \<Longrightarrow> settled_from b b' \<Longrightarrow> pending_ok b'"
proof -
  assume p: "pending_ok b" and s: "settled_from b b'"
  have "br_chan b' ch = ChOpen" if "br_next_chan b' \<le> ch" for ch
  proof -
    have "ch \<notin> snd ` set (br_pending b)" using p s that by (fastforce simp: pending_ok_def settled_from_def)
    with p s that show ?thesis by (simp add: pending_ok_def settled_from_def)
  qed
  with s show ?thesis by (simp add: pending_ok_def settled_from_def)
qed

lemma settled_tasks: "settled_from b b' \<Longrightarrow> tasks_ok ts b' = tasks_ok ts b"
  by (simp add: tasks_ok_def settled_from_def)

lemma settled_closed:
  assumes "waiting_ok ts b" "settled_from b b'" "i < length ts" "phase_of ts i = Waiting \<or> phase_of ts i = AckWait"
  shows "br_chan b' (rq_chan (task_of ts i)) \<noteq> ChOpen"
proof
  let ?c = "rq_chan (task_of ts i)"
  assume o: "br_chan b' ?c = ChOpen"
  with assms(2) have n: "?c \<notin> snd ` set (br_pending b)" "br_chan b ?c = ChOpen"
    unfolding settled_from_def by metis+
  with assms have "map_of (br_pending b) (rq_id (task_of ts i)) = Some ?c" by (auto simp: waiting_ok_def)
  from map_of_SomeD [OF this] n(1) show False by force
qed

lemma settled_waiting: "waiting_ok ts b \<Longrightarrow> settled_from b b' \<Longrightarrow> waiting_ok ts b'"
  using settled_closed by (fastforce simp: waiting_ok_def [of ts b'])

lemma settled_cancel: "waiting_ok ts b \<Longrightarrow> settled_from b b' \<Longrightarrow> cancel_ok ts b'"
  using settled_closed by (fastforce simp: cancel_ok_def [of ts b'])

lemma settled_inv:
  assumes "bridge_inv w" "settled_from (bw_bridge w) b"
  shows "pending_ok b \<and> tasks_ok (bw_tasks w) b \<and> waiting_ok (bw_tasks w) b \<and> cancel_ok (bw_tasks w) b"
  using assms settled_pending [OF _ assms(2)] settled_tasks [OF assms(2)] settled_waiting [OF _ assms(2)]
    settled_cancel [OF _ assms(2)]
  by (simp add: bridge_inv_def)

lemma drain_settled: "pending_ok b \<Longrightarrow> settled_from b (drain_pending_requests reason b)"
  by (auto simp: settled_from_def drain_fields)

lemma drain_keeps:
  assumes "bridge_inv w"
  shows "bridge_inv ((with_bridge (drain_pending_requests reason (bw_bridge w)) w)\<lparr>bw_kills := k\<rparr>)"
    and "bridge_inv ((with_bridge (drain_pending_requests reason (bw_bridge w)) w)\<lparr>bw_exits := k\<rparr>)"
proof -
  let ?b = "bw_bridge w" and ?b' = "drain_pending_requests reason (bw_bridge w)"
  have s: "settled_from ?b ?b'" using assms by (simp add: bridge_inv_def drain_settled)
  have "slot_ok (bw_tasks w) ?b'" "registry_ok (bw_tasks w) ?b'"
    using assms by (simp_all add: bridge_inv_def slot_cong [of ?b' ?b] registry_ok_def drain_fields)
  with settled_inv [OF assms s] show
    "bridge_inv ((with_bridge ?b' w)\<lparr>bw_kills := k\<rparr>)" "bridge_inv ((with_bridge ?b' w)\<lparr>bw_exits := k\<rparr>)"
    by (simp_all add: bridge_inv_def with_bridge_def worker_ok_def drain_fields)
qed

lemma crash_fields:
  assumes "pending_ok b"
  shows "settled_from b (crash_section code b)"
    and "br_registry (crash_section code b) = registry_clear (br_registry b)"
    and "br_session (crash_section code b) = None" "br_cancel_id (crash_section code b) = None"
    and "br_request_id (crash_section code b) = None"
  by (auto simp: crash_section_def Let_def fold_chan_send settled_from_def merge_worker_status_def)

lemma crash_keeps:
  assumes "bridge_inv w" "code \<noteq> 0"
  shows "bridge_inv (with_bridge (handle_worker_exited code (bw_bridge w)) w)"
proof -
  let ?b = "(bw_bridge w)\<lparr>br_crashes := br_crashes (bw_bridge w) + 1\<rparr>" and ?b' = "handle_worker_exited code (bw_bridge w)"
  have e: "?b' = crash_section code ?b" using assms(2) by (simp add: handle_worker_exited_def)
  have c: "bridge_core ?b = bridge_core (bw_bridge w)" by (simp add: bridge_core_def)
  have p: "pending_ok ?b" using assms(1) by (simp add: bridge_inv_def core_fields [OF c])
  note f = crash_fields [OF p, of code]
  have s: "settled_from (bw_bridge w) ?b'" using f(1) c by (simp add: e settled_from_def bridge_core_def)
  have "slot_ok (bw_tasks w) ?b'" "registry_ok (bw_tasks w) ?b'"
    using f by (simp_all add: e registry_ok_def)
  with settled_inv [OF assms(1) s] s show ?thesis
    by (simp add: inv_with settled_from_def)
qed

lemma exit_finish_keeps:
  assumes "bridge_inv w"
  shows "bridge_inv ((with_bridge (clean_exit_finish (bw_bridge w)) w)\<lparr>bw_exits := k,
           bw_stranded := bw_stranded w \<or> br_pending (bw_bridge w) \<noteq> []\<rparr>)"
proof -
  let ?b = "bw_bridge w" and ?b' = "clean_exit_finish (bw_bridge w)"
  have f: "br_pending ?b' = br_pending ?b" "br_next_id ?b' = br_next_id ?b" "br_next_chan ?b' = br_next_chan ?b"
    "br_chan ?b' = br_chan ?b" "br_registry ?b' = registry_clear (br_registry ?b)"
    "br_session ?b' = None" "br_cancel_id ?b' = None" "br_request_id ?b' = None"
    by (simp_all add: clean_exit_finish_def merge_worker_status_def)
  have "br_pending ?b = [] \<Longrightarrow> settled_from ?b ?b'"
    by (simp add: settled_from_def f)
  then have "br_pending ?b = [] \<Longrightarrow> cancel_ok (bw_tasks w) ?b'"
    using assms settled_cancel by (auto simp: bridge_inv_def)
  moreover have "same_table ?b' ?b" by (simp add: same_table_def f)
  ultimately show ?thesis using assms
    by (auto simp: bridge_inv_def with_bridge_def worker_ok_def table_cong registry_ok_def f)
qed

lemma recycle_clear_keeps:
  assumes "bridge_inv w"
  shows "bridge_inv (with_bridge (recycle_clear (bw_bridge w)) w)"
proof -
  let ?b = "bw_bridge w"
  have f: "registered (trigger_all r) c \<noteq> None \<Longrightarrow> registered r c \<noteq> None" for r c
    by (auto simp: registered_def trigger_all_def split: option.splits)
  have "same_table (recycle_clear ?b) ?b" by (simp add: same_table_def recycle_clear_def)
  moreover have "registry_ok (bw_tasks w) (recycle_clear ?b)"
    using assms f by (auto simp: bridge_inv_def registry_ok_def recycle_clear_def dest!: f)
  moreover have "cancel_ok (bw_tasks w) ?b \<Longrightarrow> cancel_ok (bw_tasks w) (recycle_clear ?b)"
    by (auto simp: cancel_ok_def recycle_clear_def cancellable_trigger_all)
  ultimately show ?thesis using assms
    unfolding inv_with by (auto simp: bridge_inv_def table_cong worker_ok_def recycle_clear_def)
qed

lemma cancel_keeps:
  assumes "bridge_inv w"
  shows "bridge_inv (with_bridge (handle_cancel now cid (bw_bridge w)) w)"
proof -
  have f: "registered (registry_trigger now cid r) c \<noteq> None \<Longrightarrow> registered r c \<noteq> None" for r c
    by (auto simp: registered_def registry_trigger_def Let_def cancel_token_def prune_pending_def
        split: option.splits if_splits)
  let ?b = "bw_bridge w" and ?b' = "handle_cancel now cid (bw_bridge w)"
  have "same_table ?b' ?b" by (simp add: same_table_def handle_cancel_def)
  moreover have "registry_ok (bw_tasks w) ?b'"
    using assms f by (auto simp: bridge_inv_def registry_ok_def handle_cancel_def dest!: f)
  moreover have "cancel_ok (bw_tasks w) ?b \<Longrightarrow> cancel_ok (bw_tasks w) ?b'"
    by (auto simp: cancel_ok_def handle_cancel_def cancellable_trigger)
  moreover have "slot_ok (bw_tasks w) ?b' = slot_ok (bw_tasks w) ?b"
    by (rule slot_cong) (simp_all add: handle_cancel_def)
  ultimately show ?thesis using assms
    unfolding inv_with by (auto simp: bridge_inv_def table_cong worker_ok_def handle_cancel_def)
qed

section \<open>Answers\<close>

text \<open>One request leaves the table, and its channel is open no more.\<close>

definition removed_from :: "u64 \<Rightarrow> bridge \<Rightarrow> bridge \<Rightarrow> bool" where
  "removed_from rid b b' \<longleftrightarrow> br_pending b' = AList.delete rid (br_pending b) \<and>
     br_next_id b' = br_next_id b \<and> br_next_chan b' = br_next_chan b \<and>
     (\<forall>c. (map_of (br_pending b) rid = Some c \<longrightarrow> br_chan b' c \<noteq> ChOpen) \<and>
          (map_of (br_pending b) rid \<noteq> Some c \<longrightarrow> br_chan b' c = br_chan b c))"

lemma removed_pending:
  assumes "pending_ok b" "removed_from rid b b'"
  shows "pending_ok b'"
proof -
  have d: "distinct (List.map fst (AList.delete rid (br_pending b)))"
    using assms(1) by (simp add: pending_ok_def distinct_delete)
  have e: "AList.delete rid (br_pending b) = filter (\<lambda>(k, _). k \<noteq> rid) (br_pending b)"
    by (auto simp: AList.delete_eq intro!: filter_cong)
  have d2: "distinct (List.map snd (AList.delete rid (br_pending b)))"
    using assms(1) unfolding e pending_ok_def by (simp add: distinct_map_filter)
  have o: "map_of (br_pending b) rid \<noteq> Some ch" if "(k, ch) \<in> set (br_pending b)" "k \<noteq> rid" for k ch
  proof
    assume "map_of (br_pending b) rid = Some ch"
    then have "(rid, ch) \<in> set (br_pending b)" by (rule map_of_SomeD)
    with that assms(1) show False
      unfolding pending_ok_def by (metis (no_types, lifting) distinct_map inj_onD prod.inject snd_conv)
  qed
  have "br_chan b' ch = ChOpen" if "br_next_chan b' \<le> ch" for ch
  proof -
    have "map_of (br_pending b) rid \<noteq> Some ch"
      using assms that by (auto simp: pending_ok_def removed_from_def dest!: map_of_SomeD)
    with assms that show ?thesis by (simp add: pending_ok_def removed_from_def)
  qed
  moreover have "unat k < unat (br_next_id b') \<and> ch < br_next_chan b' \<and> br_chan b' ch = ChOpen"
    if "(k, ch) \<in> set (br_pending b')" for k ch
  proof -
    have "(k, ch) \<in> set (br_pending b)" "k \<noteq> rid"
      using that assms(2) by (auto simp: removed_from_def e)
    with assms o [of k ch] show ?thesis by (auto simp: pending_ok_def removed_from_def)
  qed
  ultimately show ?thesis using assms d d2 by (auto simp: pending_ok_def removed_from_def)
qed

lemma removed_tasks: "removed_from rid b b' \<Longrightarrow> tasks_ok ts b' = tasks_ok ts b"
  by (simp add: tasks_ok_def removed_from_def)

lemma removed_open: "removed_from rid b b' \<Longrightarrow> br_chan b' c = ChOpen \<Longrightarrow>
    br_chan b c = ChOpen \<and> map_of (br_pending b) rid \<noteq> Some c"
  unfolding removed_from_def by metis

lemma removed_waiting:
  assumes "waiting_ok ts b" "removed_from rid b b'"
  shows "waiting_ok ts b'"
  unfolding waiting_ok_def
proof (intro allI impI)
  fix i assume i: "i < length ts" "phase_of ts i = Waiting \<or> phase_of ts i = AckWait"
    "br_chan b' (rq_chan (task_of ts i)) = ChOpen"
  from removed_open [OF assms(2) i(3)] assms(1) i
  have "map_of (br_pending b) (rq_id (task_of ts i)) = Some (rq_chan (task_of ts i))"
    "map_of (br_pending b) rid \<noteq> Some (rq_chan (task_of ts i))" by (auto simp: waiting_ok_def)
  with assms(2) show "map_of (br_pending b') (rq_id (task_of ts i)) = Some (rq_chan (task_of ts i))"
    by (auto simp: removed_from_def)
qed

lemma removed_cancel: "cancel_ok ts b \<Longrightarrow> removed_from rid b b' \<Longrightarrow> br_registry b' = br_registry b \<Longrightarrow> cancel_ok ts b'"
  using removed_open by (fastforce simp: cancel_ok_def)

lemma removed_inv:
  assumes "bridge_inv w" "removed_from rid (bw_bridge w) b"
  shows "pending_ok b \<and> tasks_ok (bw_tasks w) b \<and> waiting_ok (bw_tasks w) b"
  using assms removed_pending removed_tasks removed_waiting by (auto simp: bridge_inv_def)

lemma removed_keeps:
  assumes "bridge_inv w" "removed_from rid (bw_bridge w) b"
    and "br_registry b = br_registry (bw_bridge w)" "br_process b = br_process (bw_bridge w)"
    and "br_session b = br_session (bw_bridge w)" "br_cancel_id b = br_cancel_id (bw_bridge w)"
    and "br_request_id b = br_request_id (bw_bridge w)"
  shows "bridge_inv (with_bridge b w)"
proof -
  have "slot_ok (bw_tasks w) b = slot_ok (bw_tasks w) (bw_bridge w)" by (rule slot_cong) (simp_all add: assms)
  moreover have "br_pending (bw_bridge w) = [] \<Longrightarrow> br_pending b = []" using assms(2) by (simp add: removed_from_def)
  moreover have "cancel_ok (bw_tasks w) (bw_bridge w) \<Longrightarrow> cancel_ok (bw_tasks w) b"
    using removed_cancel [OF _ assms(2,3)] .
  ultimately show ?thesis
    using removed_inv [OF assms(1,2)] assms(1)
    unfolding inv_with by (auto simp: bridge_inv_def worker_ok_def registry_ok_def assms(3,4))
qed

lemma sent_removed:
  "map_of (br_pending b) rid = Some ch \<Longrightarrow>
   removed_from rid b (chan_send ch r (b\<lparr>br_pending := AList.delete rid (br_pending b)\<rparr>))"
  by (auto simp: removed_from_def chan_send_def split: oneshot.split)

lemma message_keeps:
  assumes "bridge_inv w" "\<forall>code. msg \<noteq> MsgWorkerExited code"
  shows "bridge_inv (with_bridge (handle_ipc_message file_name msg (bw_bridge w)) w)"
proof (cases msg)
  case (MsgResponse resp)
  show ?thesis
  proof (cases "map_of (br_pending (bw_bridge w)) (ir_id resp)")
    case None
    with assms(1) MsgResponse show ?thesis by (simp add: handle_response_def with_bridge_def)
  next
    case (Some ch)
    from removed_keeps [OF assms(1) sent_removed [OF this]] Some MsgResponse
    show ?thesis by (simp add: handle_response_def chan_send_def)
  qed
next
  case (MsgResponseError rid e)
  show ?thesis
  proof (cases "map_of (br_pending (bw_bridge w)) rid")
    case None
    with assms(1) MsgResponseError show ?thesis by (simp add: handle_response_error_def with_bridge_def)
  next
    case (Some ch)
    from removed_keeps [OF assms(1) sent_removed [OF this]] Some MsgResponseError
    show ?thesis by (simp add: handle_response_error_def chan_send_def)
  qed
next
  case (MsgEvent name data)
  have "bridge_core (handle_event file_name name data (bw_bridge w)) = bridge_core (bw_bridge w)"
    "br_process (handle_event file_name name data (bw_bridge w)) = br_process (bw_bridge w)"
    by (simp_all add: handle_event_def Let_def bridge_core_def split: option.split)
  then have "bridge_inv (with_bridge (handle_event file_name name data (bw_bridge w)) w)"
    by (intro inv_frame [OF assms(1)]) simp_all
  with MsgEvent show ?thesis by simp
next
  case (MsgInvalidLine line)
  with assms(1) show ?thesis by (simp add: with_bridge_def)
next
  case (MsgWorkerExited code)
  with assms(2) show ?thesis by simp
qed

section \<open>Numbers\<close>

text \<open>A number and a channel are used up; the table keeps its entries, or gains the new one.\<close>

definition numbered_from :: "bridge \<Rightarrow> bridge \<Rightarrow> bool" where
  "numbered_from b b' \<longleftrightarrow> br_next_id b' = br_next_id b + 1 \<and> br_next_chan b' = br_next_chan b + 1 \<and>
     (\<forall>c. c \<noteq> br_next_chan b \<longrightarrow> br_chan b' c = br_chan b c) \<and>
     (br_pending b' = br_pending b \<or>
      br_pending b' = br_pending b @ [(br_next_id b, br_next_chan b)] \<and> br_chan b' (br_next_chan b) = ChOpen)"

lemma numbered_pending:
  assumes "pending_ok b" "numbered_from b b'" "br_next_id b \<noteq> - 1"
  shows "pending_ok b'"
proof -
  have n: "unat (br_next_id b') = Suc (unat (br_next_id b))"
    using assms(2) unat_next [OF assms(3)] by (simp add: numbered_from_def)
  have l: "\<forall>(rid, ch) \<in> set (br_pending b). unat rid < unat (br_next_id b) \<and> ch < br_next_chan b \<and> br_chan b' ch = ChOpen"
    using assms by (fastforce simp: pending_ok_def numbered_from_def)
  have o: "\<forall>ch \<ge> br_next_chan b'. br_chan b' ch = ChOpen"
    using assms by (simp add: pending_ok_def numbered_from_def)
  have f: "br_next_id b \<notin> fst ` set (br_pending b)" "br_next_chan b \<notin> snd ` set (br_pending b)"
    using assms(1) by (auto simp: pending_ok_def)
  from assms(2) consider (same) "br_pending b' = br_pending b"
    | (new) "br_pending b' = br_pending b @ [(br_next_id b, br_next_chan b)]" "br_chan b' (br_next_chan b) = ChOpen"
    by (auto simp: numbered_from_def)
  then show ?thesis
  proof cases
    case same
    have c: "br_next_chan b' = br_next_chan b + 1" using assms(2) by (simp add: numbered_from_def)
    from l have "\<forall>(rid, ch) \<in> set (br_pending b'). unat rid < unat (br_next_id b') \<and> ch < br_next_chan b' \<and> br_chan b' ch = ChOpen"
      unfolding same n c by fastforce
    with assms(1) o same show ?thesis by (simp add: pending_ok_def)
  next
    case new
    have c: "br_next_chan b' = br_next_chan b + 1" using assms(2) by (simp add: numbered_from_def)
    from l new(2) have "\<forall>(rid, ch) \<in> set (br_pending b'). unat rid < unat (br_next_id b') \<and> ch < br_next_chan b' \<and> br_chan b' ch = ChOpen"
      unfolding new(1) n c by fastforce
    with assms(1) o new f show ?thesis by (simp add: pending_ok_def)
  qed
qed

lemma numbered_tasks:
  assumes "tasks_ok ts b" "numbered_from b b'" "br_next_id b \<noteq> - 1"
  shows "tasks_ok ts b'"
proof -
  have "unat (br_next_id b') = Suc (unat (br_next_id b))" "br_next_chan b' = Suc (br_next_chan b)"
    using assms(2) unat_next [OF assms(3)] by (simp_all add: numbered_from_def)
  with assms(1) show ?thesis by (simp add: tasks_ok_def less_SucI)
qed

lemma numbered_old:
  assumes "tasks_ok ts b" "numbered_from b b'" "i < length ts"
  shows "br_chan b' (rq_chan (task_of ts i)) = br_chan b (rq_chan (task_of ts i))"
  using assms by (auto simp: tasks_ok_def numbered_from_def)

lemma numbered_waiting:
  assumes "tasks_ok ts b" "waiting_ok ts b" "numbered_from b b'"
  shows "waiting_ok ts b'"
  using assms(2,3) numbered_old [OF assms(1,3)] by (auto simp: waiting_ok_def numbered_from_def map_add_Some_iff)

lemma numbered_cancel:
  assumes "tasks_ok ts b" "cancel_ok ts b" "numbered_from b b'" "br_registry b' = br_registry b"
  shows "cancel_ok ts b'"
  using assms(2,4) numbered_old [OF assms(1,3)] by (auto simp: cancel_ok_def)

lemma numbered_keeps:
  assumes "bridge_inv w" "numbered_from (bw_bridge w) b" "br_next_id (bw_bridge w) \<noteq> - 1"
    and "br_registry b = br_registry (bw_bridge w)"
    and "br_process b = None \<Longrightarrow> br_process (bw_bridge w) = None \<and> br_pending b = br_pending (bw_bridge w)"
    and "br_session b = br_session (bw_bridge w)" "br_cancel_id b = br_cancel_id (bw_bridge w)"
    and "br_request_id b = br_request_id (bw_bridge w)"
  shows "bridge_inv (with_bridge b w)"
proof -
  have "slot_ok (bw_tasks w) b = slot_ok (bw_tasks w) (bw_bridge w)" by (rule slot_cong) (simp_all add: assms)
  with assms(1) numbered_pending [OF _ assms(2,3)] numbered_tasks [OF _ assms(2,3)] numbered_waiting [OF _ _ assms(2)]
    numbered_cancel [OF _ _ assms(2,4)] assms(5)
  show ?thesis unfolding inv_with by (auto simp: bridge_inv_def worker_ok_def registry_ok_def assms(4))
qed

text \<open>What \<open>pending_insert\<close> does with a new number, and what is left when it is taken back.\<close>

lemma insert_fresh:
  assumes "map_of (br_pending b) rid = None"
  shows "pending_insert rid (b\<lparr>br_next_id := n\<rparr>) =
    (br_next_chan b, b\<lparr>br_next_id := n, br_pending := br_pending b @ [(rid, br_next_chan b)], br_next_chan := br_next_chan b + 1\<rparr>)"
  using assms by (simp add: pending_insert_def Let_def update_fresh)

lemma insert_remove_numbered:
  assumes "map_of (br_pending b) (br_next_id b) = None"
    and "br_pending b1 = br_pending b @ [(br_next_id b, br_next_chan b)]" "br_next_id b1 = br_next_id b + 1"
    "br_next_chan b1 = br_next_chan b + 1" "br_chan b1 = br_chan b"
  shows "numbered_from b (pending_remove (br_next_id b) b1)"
  using assms by (auto simp: numbered_from_def pending_remove_eq delete_fresh map_add_def)

lemma health_begin_keeps:
  assumes "bridge_inv w" "br_next_id (bw_bridge w) \<noteq> - 1"
  shows "bridge_inv (with_bridge (snd (health_begin settings only (bw_bridge w))) w)"
proof -
  let ?b = "bw_bridge w"
  have f: "map_of (br_pending ?b) (br_next_id ?b) = None" using assms(1) pending_fresh by (simp add: bridge_inv_def)
  let ?b1 = "?b\<lparr>br_next_id := br_next_id ?b + 1, br_pending := br_pending ?b @ [(br_next_id ?b, br_next_chan ?b)],
               br_next_chan := br_next_chan ?b + 1\<rparr>"
  have r: "numbered_from ?b (pending_remove (br_next_id ?b) ?b1)" by (rule insert_remove_numbered [OF f]) simp_all
  have p: "br_pending (pending_remove (br_next_id ?b) ?b1) = br_pending ?b"
    by (simp add: pending_remove_eq delete_fresh [OF f])
  have o: "br_chan ?b (br_next_chan ?b) = ChOpen" using assms(1) by (simp add: bridge_inv_def pending_ok_def)
  have a: "numbered_from ?b (?b1\<lparr>br_process := q\<rparr>)" for q using o by (simp add: numbered_from_def)
  show ?thesis
  proof (cases "br_process ?b")
    case None
    have "bridge_inv (with_bridge (pending_remove (br_next_id ?b) ?b1) w)"
      by (rule numbered_keeps [OF assms(1) r assms(2)]) (simp_all add: pending_remove_eq None delete_fresh [OF f])
    with None show ?thesis by (simp add: health_begin_def insert_fresh [OF f] Let_def)
  next
    case (Some q)
    have "bridge_inv (with_bridge (pending_remove (br_next_id ?b) ?b1) w)"
      by (rule numbered_keeps [OF assms(1) r assms(2)]) (simp_all add: pending_remove_eq Some)
    moreover have "bridge_inv (with_bridge (?b1\<lparr>br_process := Some q'\<rparr>) w)" for q'
      by (rule numbered_keeps [OF assms(1) a assms(2)]) simp_all
    ultimately show ?thesis using Some by (simp add: health_begin_def insert_fresh [OF f] Let_def split: sum.split)
  qed
qed

section \<open>Admission\<close>

lemma take_slot_fields [simp]:
  "br_pending (take_slot now sess cid rid b) = br_pending b"
  "br_next_id (take_slot now sess cid rid b) = br_next_id b"
  "br_next_chan (take_slot now sess cid rid b) = br_next_chan b"
  "br_chan (take_slot now sess cid rid b) = br_chan b"
  "br_registry (take_slot now sess cid rid b) = br_registry b"
  "br_process (take_slot now sess cid rid b) = br_process b"
  "br_session (take_slot now sess cid rid b) = Some sess"
  "br_cancel_id (take_slot now sess cid rid b) = Some cid"
  "br_request_id (take_slot now sess cid rid b) = Some rid"
  "br_debug_open (take_slot now sess cid rid b) = br_debug_open b"
  "br_worker_state (take_slot now sess cid rid b) = (if sess = SessDebug then WsInDebug else WsInLogin)"
  by (simp_all add: take_slot_def merge_worker_status_def)

text \<open>The requests that are sent, and the state after the sending.\<close>

lemma admit_sent:
  assumes "bridge_admit now verb params cid token route b = (Inr rq, b')"
    and "map_of (br_pending b) (br_next_id b) = None"
  shows "check_session_compat (br_session b) verb = Inr ()" and "\<not> (verb = ''debug_start'' \<and> br_debug_open b)"
    and "rq = \<lparr>rq_verb = verb, rq_session = session_of verb, rq_cancel_id = cid, rq_token = token,
               rq_id = br_next_id b, rq_chan = br_next_chan b\<rparr>"
    and "\<exists>p p'. br_process b = Some p \<and> try_send (IpcRequest (br_next_id b) verb params) p = Inr p' \<and> br_process b' = Some p'"
    and "br_pending b' = br_pending b @ [(br_next_id b, br_next_chan b)]" "br_next_id b' = br_next_id b + 1"
    "br_next_chan b' = br_next_chan b + 1" "br_chan b' = br_chan b"
    and "br_registry b' = register_inner now cid token (is_lightweight_method verb) (br_registry b)"
    and "br_session b' = (if is_lightweight_method verb then br_session b else Some (session_of verb))"
    and "br_cancel_id b' = (if is_lightweight_method verb then br_cancel_id b else Some cid)"
    and "br_request_id b' = (if is_lightweight_method verb then br_request_id b else Some (br_next_id b))"
    and "br_debug_open b' = br_debug_open b"
    and "br_worker_state b' = (if is_lightweight_method verb then br_worker_state b
           else if session_of verb = SessDebug then WsInDebug else WsInLogin)"
  using assms(1)
  by (auto simp: bridge_admit_def insert_fresh [OF assms(2)] Let_def
      split: sum.splits if_splits option.splits prod.splits)

lemma admit_refused:
  assumes "bridge_admit now verb params cid token route b = (Inl e, b')"
    and "map_of (br_pending b) (br_next_id b) = None"
  shows "b' = b \<and> e = WorkerBusy \<and> (check_session_compat (br_session b) verb = Inl WorkerBusy \<or> verb = ''debug_start'' \<and> br_debug_open b) \<or>
    b' = pending_remove (br_next_id b)
      (b\<lparr>br_next_id := br_next_id b + 1, br_pending := br_pending b @ [(br_next_id b, br_next_chan b)],
         br_next_chan := br_next_chan b + 1\<rparr>) \<and>
    (br_process b = None \<and> e = SupervisorNotRunning \<or>
     (\<exists>p m. br_process b = Some p \<and> try_send (IpcRequest (br_next_id b) verb params) p = Inl m \<and>
        e = IpcWriteError (''IPC channel send failed: '' @ m)))"
proof -
  have c: "check_session_compat s verb = Inl x \<Longrightarrow> x = WorkerBusy" for s x
    by (auto simp: check_session_compat_def split: if_splits option.splits session_type.splits)
  show ?thesis using assms(1) c
    by (auto simp: bridge_admit_def insert_fresh [OF assms(2)] Let_def
        split: sum.splits if_splits option.splits prod.splits)
qed

lemma refuse_keeps:
  assumes "bridge_inv w" "bridge_admit now verb params cid token route (bw_bridge w) = (Inl e, b)"
    and "br_next_id (bw_bridge w) \<noteq> - 1"
  shows "bridge_inv (with_bridge b w)"
proof -
  let ?b = "bw_bridge w"
  have f: "map_of (br_pending ?b) (br_next_id ?b) = None" using assms(1) pending_fresh by (simp add: bridge_inv_def)
  let ?b1 = "?b\<lparr>br_next_id := br_next_id ?b + 1, br_pending := br_pending ?b @ [(br_next_id ?b, br_next_chan ?b)],
               br_next_chan := br_next_chan ?b + 1\<rparr>"
  have r: "numbered_from ?b (pending_remove (br_next_id ?b) ?b1)" by (rule insert_remove_numbered [OF f]) simp_all
  have "bridge_inv (with_bridge (pending_remove (br_next_id ?b) ?b1) w)"
    by (rule numbered_keeps [OF assms(1) r assms(3)]) (simp_all add: pending_remove_eq delete_fresh [OF f])
  moreover have "bridge_inv (with_bridge ?b w)" using assms(1) by (simp add: with_bridge_def)
  ultimately show ?thesis using admit_refused [OF assms(2) f] by auto
qed

lemma append_task_simps:
  "i < length ts \<Longrightarrow> task_of (ts @ [x]) i = task_of ts i" "i < length ts \<Longrightarrow> phase_of (ts @ [x]) i = phase_of ts i"
  "task_of (ts @ [x]) (length ts) = fst x" "phase_of (ts @ [x]) (length ts) = snd x"
  by (simp_all add: task_of_def phase_of_def nth_append)

lemma live_append: "live_cancel_ids ts \<subseteq> live_cancel_ids (ts @ [x])"
  unfolding live_cancel_ids_def
proof clarify
  fix i assume i: "i < length ts" "phase_of ts i \<noteq> Done"
  then have "task_of ts i = task_of (ts @ [x]) i" "phase_of (ts @ [x]) i \<noteq> Done" "i < length (ts @ [x])"
    by (simp_all add: append_task_simps)
  then show "\<exists>j. rq_cancel_id (task_of ts i) = rq_cancel_id (task_of (ts @ [x]) j) \<and> j < length (ts @ [x]) \<and>
      phase_of (ts @ [x]) j \<noteq> Done" by metis
qed

lemma live_new: "snd x \<noteq> Done \<Longrightarrow> rq_cancel_id (fst x) \<in> live_cancel_ids (ts @ [x])"
  unfolding live_cancel_ids_def by (auto simp: append_task_simps intro!: exI [of _ "length ts"])

lemma admit_keeps:
  assumes "bridge_inv w" "bridge_admit now verb params cid token route (bw_bridge w) = (Inr rq, b)"
    and "cid \<notin> live_cancel_ids (bw_tasks w)" "br_next_id (bw_bridge w) \<noteq> - 1"
  shows "bridge_inv ((with_bridge b w)\<lparr>bw_tasks := bw_tasks w @ [(rq, Waiting)]\<rparr>)"
proof -
  let ?b = "bw_bridge w" and ?ts = "bw_tasks w" and ?ts' = "bw_tasks w @ [(rq, Waiting)]"
  have inv: "pending_ok ?b" "tasks_ok ?ts ?b" "waiting_ok ?ts ?b" "slot_ok ?ts ?b" "registry_ok ?ts ?b" "worker_ok w"
    "\<not> bw_stranded w \<Longrightarrow> cancel_ok ?ts ?b" using assms(1) by (simp_all add: bridge_inv_def)
  have f: "map_of (br_pending ?b) (br_next_id ?b) = None" using inv(1) by (rule pending_fresh)
  note s = admit_sent [OF assms(2) f]
  have q: "rq_verb rq = verb" "rq_session rq = session_of verb" "rq_cancel_id rq = cid" "rq_token rq = token"
    "rq_id rq = br_next_id ?b" "rq_chan rq = br_next_chan ?b" by (simp_all add: s(3))
  have o: "br_chan ?b (br_next_chan ?b) = ChOpen" using inv(1) by (simp add: pending_ok_def)
  have n: "numbered_from ?b b" using s o by (simp add: numbered_from_def)
  have old: "task_of ?ts' i = task_of ?ts i" "phase_of ?ts' i = phase_of ?ts i" if "i < length ?ts" for i
    using that by (rule append_task_simps)+
  have new: "task_of ?ts' (length ?ts) = rq" "phase_of ?ts' (length ?ts) = Waiting"
    by (simp_all add: append_task_simps)
  have t: "tasks_ok ?ts' b"
    using numbered_tasks [OF inv(2) n assms(4)] inv(2) assms(3) unat_next [OF assms(4)]
    by (auto simp: tasks_ok_def less_Suc_eq old new q s(6,7) live_cancel_ids_def)
  have m: "map_of (br_pending b) (br_next_id ?b) = Some (br_next_chan ?b)" using f by (simp add: s(5) map_add_def)
  have w: "waiting_ok ?ts' b"
    using numbered_waiting [OF inv(2,3) n] m
    by (auto simp: waiting_ok_def less_Suc_eq old new q)
  have sl: "slot_ok ?ts' b"
  proof (cases "is_lightweight_method verb")
    case True
    have "slot_ok ?ts b = slot_ok ?ts ?b" by (rule slot_cong) (simp_all add: s True)
    then have "slot_ok ?ts b" using inv(4) by simp
    then show ?thesis unfolding slot_ok_def
      by (auto simp: less_Suc_eq old new split: option.splits)
  next
    case False
    show ?thesis unfolding slot_ok_def s(10,11,12) using False
      by (auto intro!: exI [of _ "length ?ts"] simp: new q)
  qed
  have r: "registry_ok ?ts' b"
    unfolding registry_ok_def s(9)
  proof (intro allI impI)
    fix x assume x: "registered (register_inner now cid token (is_lightweight_method verb) (br_registry ?b)) x \<noteq> None"
    show "x \<in> live_cancel_ids ?ts'"
    proof (cases "x = cid")
      case True
      with live_new [of "(rq, Waiting)" ?ts] show ?thesis by (simp add: q)
    next
      case False
      with x inv(5) have "x \<in> live_cancel_ids ?ts" by (simp add: registered_register_inner registry_ok_def)
      with live_append show ?thesis by blast
    qed
  qed
  have c: "cancel_ok ?ts' b" if "\<not> bw_stranded w"
    unfolding cancel_ok_def s(9)
  proof (intro allI impI)
    fix i assume i: "i < length ?ts'" "phase_of ?ts' i = Waiting" "br_chan b (rq_chan (task_of ?ts' i)) = ChOpen"
    show "cancellable (register_inner now cid token (is_lightweight_method verb) (br_registry ?b))
        (rq_cancel_id (task_of ?ts' i)) (rq_token (task_of ?ts' i))"
    proof (cases "i < length ?ts")
      case True
      have "cancellable (br_registry ?b) (rq_cancel_id (task_of ?ts i)) (rq_token (task_of ?ts i))"
        using inv(7) [OF that] i True by (simp add: cancel_ok_def old s(8))
      moreover have "rq_cancel_id (task_of ?ts i) \<noteq> cid"
        using assms(3) True i by (auto simp: live_cancel_ids_def old)
      ultimately show ?thesis using True by (simp add: old cancellable_register)
    next
      case False
      then have "i = length ?ts" using i(1) by simp
      moreover have "registered (br_registry ?b) cid = None" using inv(5) assms(3) by (auto simp: registry_ok_def)
      ultimately show ?thesis by (simp add: new q cancellable_fresh)
    qed
  qed
  show ?thesis using numbered_pending [OF inv(1) n assms(4)] t w sl r c s(4)
    by (auto simp: bridge_inv_def with_bridge_def worker_ok_def)
qed

section \<open>The course of a request\<close>

lemma update_task_simps [simp]:
  "task_of (ts[i := (task_of ts i, ph)]) j = task_of ts j"
  "i < length ts \<Longrightarrow> phase_of (ts[i := (task_of ts i, ph)]) j = (if i = j then ph else phase_of ts j)"
proof -
  show "task_of (ts[i := (task_of ts i, ph)]) j = task_of ts j"
    by (cases "i < length ts"; cases "i = j") (simp_all add: task_of_def list_update_beyond)
  show "i < length ts \<Longrightarrow> phase_of (ts[i := (task_of ts i, ph)]) j = (if i = j then ph else phase_of ts j)"
    by (simp add: phase_of_def)
qed

lemma live_update:
  "i < length ts \<Longrightarrow> ph \<noteq> Done \<Longrightarrow> phase_of ts i \<noteq> Done \<Longrightarrow>
   live_cancel_ids (ts[i := (task_of ts i, ph)]) = live_cancel_ids ts"
  by (auto simp: live_cancel_ids_def)

lemma slot_update:
  assumes "slot_ok ts b" "i < length ts" "ph = Done \<Longrightarrow> br_request_id b \<noteq> Some (rq_id (task_of ts i))"
  shows "slot_ok (ts[i := (task_of ts i, ph)]) b"
proof (cases "br_request_id b")
  case None
  with assms(1) show ?thesis by (simp add: slot_ok_def)
next
  case (Some rid)
  with assms(1) obtain j where j: "j < length ts" "phase_of ts j \<noteq> Done" "\<not> is_lightweight_method (rq_verb (task_of ts j))"
    "rq_id (task_of ts j) = rid" "br_cancel_id b = Some (rq_cancel_id (task_of ts j))"
    "br_session b = Some (rq_session (task_of ts j))" by (auto simp: slot_ok_def)
  have "phase_of (ts[i := (task_of ts i, ph)]) j \<noteq> Done" using assms(2,3) j Some by auto
  with j Some show ?thesis by (auto simp: slot_ok_def intro!: exI [of _ j])
qed

text \<open>A request moves on without ending.\<close>

lemma phase_keeps:
  assumes "bridge_inv w" "i < length (bw_tasks w)" "phase_of (bw_tasks w) i \<noteq> Done" "ph \<noteq> Done" "ph \<noteq> Waiting"
    and "ph = AckWait \<Longrightarrow> phase_of (bw_tasks w) i = Waiting"
  shows "bridge_inv (task_phase i ph w)"
proof -
  let ?b = "bw_bridge w" and ?ts = "bw_tasks w" and ?ts' = "(bw_tasks w)[i := (task_of (bw_tasks w) i, ph)]"
  have "tasks_ok ?ts' ?b" "waiting_ok ?ts' ?b" "registry_ok ?ts' ?b" "cancel_ok ?ts ?b \<Longrightarrow> cancel_ok ?ts' ?b"
    using assms by (auto simp: bridge_inv_def tasks_ok_def waiting_ok_def registry_ok_def live_update cancel_ok_def)
  moreover have "slot_ok ?ts' ?b" 
    by (rule slot_update) (use assms in \<open>simp_all add: bridge_inv_def\<close>)
  ultimately show ?thesis using assms(1) by (auto simp: bridge_inv_def task_phase_def worker_ok_def)
qed

text \<open>The guard of a request that has the slot of the worker, and of one that has not.\<close>

lemma slot_owner:
  assumes "bridge_inv w" "i < length (bw_tasks w)" "br_request_id (bw_bridge w) = Some (rq_id (task_of (bw_tasks w) i))"
  shows "\<not> is_lightweight_method (rq_verb (task_of (bw_tasks w) i))"
    and "br_cancel_id (bw_bridge w) = Some (rq_cancel_id (task_of (bw_tasks w) i))"
    and "br_session (bw_bridge w) = Some (rq_session (task_of (bw_tasks w) i))"
proof -
  let ?ts = "bw_tasks w"
  from assms obtain j where j: "j < length ?ts" "\<not> is_lightweight_method (rq_verb (task_of ?ts j))"
    "rq_id (task_of ?ts j) = rq_id (task_of ?ts i)" "br_cancel_id (bw_bridge w) = Some (rq_cancel_id (task_of ?ts j))"
    "br_session (bw_bridge w) = Some (rq_session (task_of ?ts j))"
    by (auto simp: bridge_inv_def slot_ok_def)
  moreover have "j = i" using assms(1,2) j(1,3) by (auto simp: bridge_inv_def tasks_ok_def)
  ultimately show "\<not> is_lightweight_method (rq_verb (task_of ?ts i))"
    "br_cancel_id (bw_bridge w) = Some (rq_cancel_id (task_of ?ts i))"
    "br_session (bw_bridge w) = Some (rq_session (task_of ?ts i))" by simp_all
qed

lemma remove_removed: "removed_from rid b (pending_remove rid b)"
  by (auto simp: removed_from_def pending_remove_eq)

lemma removed_core:
  "removed_from rid b b1 \<Longrightarrow> br_pending b2 = br_pending b1 \<Longrightarrow> br_next_id b2 = br_next_id b1 \<Longrightarrow>
   br_next_chan b2 = br_next_chan b1 \<Longrightarrow> br_chan b2 = br_chan b1 \<Longrightarrow> removed_from rid b b2"
  by (simp add: removed_from_def)

lemma timer_fields [simp]:
  "br_pending (start_idle_timer cfg now b) = br_pending b" "br_next_id (start_idle_timer cfg now b) = br_next_id b"
  "br_next_chan (start_idle_timer cfg now b) = br_next_chan b" "br_chan (start_idle_timer cfg now (c :: bridge)) = br_chan c"
  "br_registry (start_idle_timer cfg now b) = br_registry b" "br_session (start_idle_timer cfg now b) = br_session b"
  "br_cancel_id (start_idle_timer cfg now b) = br_cancel_id b" "br_request_id (start_idle_timer cfg now b) = br_request_id b"
  "br_worker_state (start_idle_timer cfg now b) = br_worker_state b"
  "br_debug_open (start_idle_timer cfg now b) = br_debug_open b"
  by (simp_all add: start_idle_timer_def Let_def)

lemma merge_fields [simp]:
  "br_pending (merge_worker_status b) = br_pending b" "br_next_id (merge_worker_status b) = br_next_id b"
  "br_next_chan (merge_worker_status b) = br_next_chan b" "br_chan (merge_worker_status b) = br_chan b"
  "br_registry (merge_worker_status b) = br_registry b" "br_session (merge_worker_status b) = br_session b"
  "br_cancel_id (merge_worker_status b) = br_cancel_id b" "br_request_id (merge_worker_status b) = br_request_id b"
  "br_worker_state (merge_worker_status b) = br_worker_state b"
  "br_debug_open (merge_worker_status b) = br_debug_open b"
  by (simp_all add: merge_worker_status_def)

lemma guard_light:
  assumes "is_lightweight_method (rq_verb rq)"
  shows "removed_from (rq_id rq) b (session_guard cfg now rq b)"
    and "br_registry (session_guard cfg now rq b) = registry_remove (rq_cancel_id rq) (br_registry b)"
    and "br_request_id (session_guard cfg now rq b) = br_request_id b"
    and "br_cancel_id (session_guard cfg now rq b) = br_cancel_id b"
    and "br_session (session_guard cfg now rq b) = br_session b"
    and "br_process (session_guard cfg now rq b) = br_process b"
  using assms by (auto simp: session_guard_def lightweight_cleanup_def Let_def pending_remove_eq removed_from_def)

lemma guard_other:
  assumes "\<not> is_lightweight_method (rq_verb rq)"
    and "br_session b \<noteq> Some (rq_session rq) \<or> br_request_id b \<noteq> Some (rq_id rq)"
  shows "session_guard cfg now rq b = b\<lparr>br_registry := registry_remove (rq_cancel_id rq) (br_registry b)\<rparr>"
  using assms by (auto simp: session_guard_def reset_session_def debug_guard_cleanup_def Let_def)

lemma guard_owner:
  assumes "\<not> is_lightweight_method (rq_verb rq)"
    and "br_session b = Some (rq_session rq)" "br_request_id b = Some (rq_id rq)" "br_cancel_id b = Some (rq_cancel_id rq)"
  shows "removed_from (rq_id rq) b (session_guard cfg now rq b) \<or> same_table (session_guard cfg now rq b) b"
    and "br_request_id (session_guard cfg now rq b) = None" "br_cancel_id (session_guard cfg now rq b) = None"
    and "br_session (session_guard cfg now rq b) =
      (if rq_session rq = SessDebug \<and> rq_verb rq \<noteq> ''debug_stop'' \<and> br_debug_open b then Some SessDebug else None)"
    and "registered (br_registry (session_guard cfg now rq b)) c =
      (if c = rq_cancel_id rq then None else registered (br_registry b) c)"
    and "cr_cancelled (br_registry (session_guard cfg now rq b)) = cr_cancelled (br_registry b)"
    and "br_process (session_guard cfg now rq b) = br_process b"
  using assms by (auto simp: session_guard_def reset_session_def debug_guard_cleanup_def Let_def cancelled_mono
      pending_remove_eq removed_from_def same_table_def)

lemma guard_effect:
  fixes cfg :: worker_settings and now :: instant
  assumes "bridge_inv w" "i < length (bw_tasks w)"
  defines "rq \<equiv> task_of (bw_tasks w) i" and "b' \<equiv> session_guard cfg now (task_of (bw_tasks w) i) (bw_bridge w)"
  shows "removed_from (rq_id rq) (bw_bridge w) b' \<or> same_table b' (bw_bridge w)"
    and "registered (br_registry b') c = (if c = rq_cancel_id rq then None else registered (br_registry (bw_bridge w)) c)"
    and "cr_cancelled (br_registry b') = cr_cancelled (br_registry (bw_bridge w))"
    and "br_process b' = br_process (bw_bridge w)"
    and "br_request_id b' \<noteq> Some (rq_id rq)"
    and "slot_ok (bw_tasks w) b'"
proof -
  let ?b = "bw_bridge w"
  have sl: "slot_ok (bw_tasks w) ?b" using assms(1) by (simp add: bridge_inv_def)
  consider (light) "is_lightweight_method (rq_verb rq)"
    | (owner) "\<not> is_lightweight_method (rq_verb rq)" "br_request_id ?b = Some (rq_id rq)"
        "br_session ?b = Some (rq_session rq)" "br_cancel_id ?b = Some (rq_cancel_id rq)"
    | (other) "\<not> is_lightweight_method (rq_verb rq)" "br_request_id ?b \<noteq> Some (rq_id rq)"
    using slot_owner [OF assms(1,2)] rq_def by blast
  then have "(removed_from (rq_id rq) ?b b' \<or> same_table b' ?b) \<and>
      registered (br_registry b') c = (if c = rq_cancel_id rq then None else registered (br_registry ?b) c) \<and>
      cr_cancelled (br_registry b') = cr_cancelled (br_registry ?b) \<and> br_process b' = br_process ?b \<and>
      br_request_id b' \<noteq> Some (rq_id rq) \<and> slot_ok (bw_tasks w) b'"
  proof cases
    case light
    have "slot_ok (bw_tasks w) b' = slot_ok (bw_tasks w) ?b"
      by (rule slot_cong) (simp_all add: b'_def rq_def [symmetric] guard_light [OF light])
    moreover have "br_request_id ?b \<noteq> Some (rq_id rq)" using slot_owner(1) [OF assms(1,2)] light rq_def by blast
    ultimately show ?thesis using sl guard_light [OF light] by (simp add: b'_def rq_def [symmetric] cancelled_mono)
  next
    case owner
    note g = guard_owner [OF owner(1,3,2,4)]
    show ?thesis using g by (simp add: b'_def rq_def [symmetric])
  next
    case other
    have e: "b' = ?b\<lparr>br_registry := registry_remove (rq_cancel_id rq) (br_registry ?b)\<rparr>"
      unfolding b'_def rq_def [symmetric] by (rule guard_other) (use other in simp_all)
    have "slot_ok (bw_tasks w) b' = slot_ok (bw_tasks w) ?b" by (rule slot_cong) (simp_all add: e)
    with other sl show ?thesis by (simp add: e cancelled_mono same_table_def)
  qed
  then show "removed_from (rq_id rq) ?b b' \<or> same_table b' ?b"
    "registered (br_registry b') c = (if c = rq_cancel_id rq then None else registered (br_registry ?b) c)"
    "cr_cancelled (br_registry b') = cr_cancelled (br_registry ?b)" "br_process b' = br_process ?b"
    "br_request_id b' \<noteq> Some (rq_id rq)" "slot_ok (bw_tasks w) b'" by simp_all
qed

lemma guard_keeps:
  assumes "bridge_inv w" "i < length (bw_tasks w)" "phase_of (bw_tasks w) i = Replied"
  shows "bridge_inv (task_phase i Done (with_bridge (session_guard cfg now (task_of (bw_tasks w) i) (bw_bridge w)) w))"
proof -
  let ?b = "bw_bridge w" and ?ts = "bw_tasks w" and ?ts' = "(bw_tasks w)[i := (task_of (bw_tasks w) i, Done)]"
  let ?rq = "task_of ?ts i" and ?b' = "session_guard cfg now (task_of (bw_tasks w) i) (bw_bridge w)"
  note g = guard_effect [OF assms(1,2), of cfg now]
  have inv: "tasks_ok ?ts ?b" "registry_ok ?ts ?b" "\<not> bw_stranded w \<Longrightarrow> cancel_ok ?ts ?b"
    using assms(1) by (simp_all add: bridge_inv_def)
  have t: "pending_ok ?b' \<and> tasks_ok ?ts ?b' \<and> waiting_ok ?ts ?b'"
    using g(1) removed_inv [OF assms(1)] table_cong assms(1) by (auto simp: bridge_inv_def)
  have o: "br_chan ?b' c = ChOpen \<Longrightarrow> br_chan ?b c = ChOpen" for c
    using g(1) removed_open by (auto simp: same_table_def)
  have e: "br_pending ?b = [] \<Longrightarrow> br_pending ?b' = []"
    using g(1) by (auto simp: removed_from_def same_table_def)
  have other: "rq_cancel_id (task_of ?ts j) \<noteq> rq_cancel_id ?rq" if "j < length ?ts" "j \<noteq> i" "phase_of ?ts j \<noteq> Done" for j
    using inv(1) assms(2,3) that by (auto simp: tasks_ok_def)
  have "tasks_ok ?ts' ?b'" "waiting_ok ?ts' ?b'" using t assms(2) by (auto simp: tasks_ok_def waiting_ok_def)
  moreover have "slot_ok ?ts' ?b'" by (rule slot_update [OF g(6) assms(2)]) (rule g(5))
  moreover have "registry_ok ?ts' ?b'"
    unfolding registry_ok_def
  proof (intro allI impI)
    fix c assume "registered (br_registry ?b') c \<noteq> None"
    with g(2) [of c] have c: "c \<noteq> rq_cancel_id ?rq" "registered (br_registry ?b) c \<noteq> None" by (auto split: if_splits)
    with inv(2) obtain j where j: "j < length ?ts" "phase_of ?ts j \<noteq> Done" "c = rq_cancel_id (task_of ?ts j)"
      by (auto simp: registry_ok_def live_cancel_ids_def)
    with c(1) have "j \<noteq> i" by auto
    with j assms(2) show "c \<in> live_cancel_ids ?ts'" by (auto simp: live_cancel_ids_def intro!: exI [of _ j])
  qed
  moreover have "cancel_ok ?ts' ?b'" if "\<not> bw_stranded w"
    using inv(3) [OF that] assms(2) other by (auto simp: cancel_ok_def cancellable_def g(2,3) dest!: o)
  ultimately show ?thesis using t g(4) e assms(1)
    by (auto simp: bridge_inv_def task_phase_def with_bridge_def worker_ok_def)
qed

section \<open>Every reachable state\<close>

lemma with_same: "with_bridge (bw_bridge w) w = w"
  by (simp add: with_bridge_def)

text \<open>Between taking the process and draining, the promise about an absent worker is suspended.\<close>

lemma inv_suspended:
  assumes "bridge_inv w" "bridge_core b = bridge_core (bw_bridge w)" "0 < k"
  shows "bridge_inv ((with_bridge b w)\<lparr>bw_kills := k\<rparr>)"
  using assms(1,3) by (simp add: bridge_inv_def with_bridge_def worker_ok_def core_fields [OF assms(2)])

lemma inv_tick: "bridge_inv w \<Longrightarrow> bridge_inv (w\<lparr>bw_now := t\<rparr>)"
  by (simp add: bridge_inv_def worker_ok_def)

lemma inv_settle:
  assumes "bridge_inv w" "i < length (bw_tasks w)" "phase_of (bw_tasks w) i = Answered r"
  shows "bridge_inv (task_phase i Replied (with_bridge (settle_debug now verb r (bw_bridge w)) w))"
proof -
  have "bridge_inv (with_bridge (settle_debug now verb r (bw_bridge w)) w)"
    by (rule inv_frame [OF assms(1)]) simp_all
  then show ?thesis by (rule phase_keeps) (use assms(2,3) in \<open>simp_all add: with_bridge_def\<close>)
qed

lemma step_keeps:
  assumes "bridge_step cfg w w'" "bridge_inv w"
  shows "bridge_inv w'"
  using assms
proof (cases rule: bridge_step.cases)
  case (tick t)
  with assms(2) show ?thesis by (simp add: inv_tick)
next
  case debug_start_begins
  show ?thesis unfolding debug_start_begins
    by (rule inv_frame [OF assms(2)]) (simp_all add: bridge_core_def)
next
  case recycle_clears
  with assms(2) show ?thesis by (simp add: recycle_clear_keeps)
next
  case kill_takes
  show ?thesis unfolding kill_takes by (rule inv_suspended [OF assms(2)]) simp_all
next
  case shutdown_takes
  show ?thesis unfolding shutdown_takes by (rule inv_suspended [OF assms(2)]) simp_all
next
  case (drains reason)
  with assms(2) show ?thesis by (simp add: drain_keeps)
next
  case kill_finishes
  show ?thesis unfolding kill_finishes by (rule inv_frame [OF assms(2)]) simp_all
next
  case shutdown_finishes
  show ?thesis unfolding shutdown_finishes by (rule inv_frame [OF assms(2)]) simp_all
next
  case drops_egress
  show ?thesis unfolding drops_egress by (rule inv_frame [OF assms(2)]) (simp_all add: bridge_core_def)
next
  case (spawned p)
  show ?thesis unfolding spawned(1) by (rule inv_frame [OF assms(2)]) (simp_all, simp add: bridge_core_def)
next
  case (health_begins settings only)
  with assms(2) show ?thesis by (simp add: health_begin_keeps)
next
  case (health_ends only answer)
  show ?thesis unfolding health_ends by (rule inv_frame [OF assms(2)]) simp_all
next
  case becomes_ready
  show ?thesis unfolding becomes_ready by (rule inv_frame [OF assms(2)]) simp_all
next
  case spawn_fails
  show ?thesis unfolding spawn_fails by (rule inv_frame [OF assms(2)]) simp_all
next
  case failures_reset
  show ?thesis unfolding failures_reset by (rule inv_frame [OF assms(2)]) simp_all
next
  case (worker_reads p p')
  show ?thesis unfolding worker_reads(1) by (rule inv_frame [OF assms(2)]) (simp_all add: bridge_core_def)
next
  case (admits verb params cid token route rq b)
  with assms(2) show ?thesis by (simp add: admit_keeps)
next
  case (refuses verb params cid token route e b)
  with assms(2) show ?thesis by (simp add: refuse_keeps)
next
  case (cancels cid)
  with assms(2) show ?thesis by (simp add: cancel_keeps)
next
  case (message msg file_name)
  with assms(2) show ?thesis by (simp add: message_keeps)
next
  case (crashes code)
  with assms(2) show ?thesis by (simp add: crash_keeps)
next
  case exit_drains
  with assms(2) show ?thesis by (simp add: drain_keeps)
next
  case exit_finishes
  with assms(2) show ?thesis by (simp add: exit_finish_keeps)
next
  case idle_fires
  show ?thesis unfolding idle_fires by (rule inv_frame [OF assms(2)]) simp_all
next
  case (task_cancelled i rq)
  show ?thesis unfolding task_cancelled(1) by (rule phase_keeps [OF assms(2)]) (use task_cancelled in simp_all)
next
  case (caller_gone i rq)
  show ?thesis unfolding caller_gone(1) by (rule phase_keeps [OF assms(2)]) (use caller_gone in simp_all)
next
  case (task_answered i rq r)
  show ?thesis unfolding task_answered(1) by (rule phase_keeps [OF assms(2)]) (use task_answered in simp_all)
next
  case (task_acked i)
  show ?thesis unfolding task_acked(1) by (rule phase_keeps [OF assms(2)]) (use task_acked in simp_all)
next
  case (settles i rq r)
  show ?thesis unfolding settles(1) by (rule inv_settle [OF assms(2)]) (use settles in simp_all)
next
  case (guard_drops i rq)
  with guard_keeps [OF assms(2), of i] show ?thesis by simp
qed

lemma start_ok: "bridge_start w \<Longrightarrow> bridge_inv w"
  by (simp add: bridge_start_def bridge_inv_def bridge_new_def pending_ok_def tasks_ok_def waiting_ok_def
      slot_ok_def registry_ok_def cancel_ok_def worker_ok_def)

interpretation bridge_ts: transition_system bridge_start "bridge_step cfg" bridge_inv for cfg
  by unfold_locales (auto intro: start_ok step_keeps)

end
