(* ===== verification/Bridge_Run.thy ===== *)
theory Bridge_Run
  imports Bridge_Safe
begin

text \<open>
  A run of the supervisor used as an example: a worker starts, exits cleanly, and a login is sent
  between the two sections that handle the exit.
\<close>

definition strand_process :: worker_process where
  "strand_process = \<lparr>wp_pid = 1, wp_queue = [], wp_closed = False\<rparr>"

definition strand0 :: bridge_world where
  "strand0 = \<lparr>bw_bridge = bridge_new\<lparr>br_ipc_tx := True\<rparr>, bw_now = 0, bw_tasks = [], bw_kills = 0, bw_exits = 0,
     bw_stranded = False\<rparr>"

definition strand1 :: bridge_world where
  "strand1 = with_bridge (worker_spawned strand_process ((bw_bridge strand0)\<lparr>br_orphan_done := True\<rparr>)) strand0"

definition strand2 :: bridge_world where
  "strand2 = with_bridge (worker_ready (bw_bridge strand1)) strand1"

definition strand3 :: bridge_world where
  "strand3 = (with_bridge (drain_pending_requests ''worker exited (code 0)'' (bw_bridge strand2)) strand2)
     \<lparr>bw_exits := bw_exits strand2 + 1\<rparr>"

definition strand_request :: request where
  "strand_request = \<lparr>rq_verb = ''execute_login_attempt'', rq_session = SessLogin, rq_cancel_id = ''a'', rq_token = 7,
     rq_id = 1, rq_chan = 0\<rparr>"

definition strand4 :: bridge_world where
  "strand4 = (with_bridge (snd (bridge_admit 0 ''execute_login_attempt'' JNull ''a'' 7 None (bw_bridge strand3))) strand3)
     \<lparr>bw_tasks := [(strand_request, Waiting)]\<rparr>"

definition strand5 :: bridge_world where
  "strand5 = (with_bridge (clean_exit_finish (bw_bridge strand4)) strand4)\<lparr>bw_exits := bw_exits strand4 - 1,
     bw_stranded := bw_stranded strand4 \<or> br_pending (bw_bridge strand4) \<noteq> []\<rparr>"

lemmas strand_defs = strand0_def strand1_def strand2_def strand3_def with_bridge_def worker_spawned_def
  worker_ready_def merge_worker_status_def drain_pending_requests_def bridge_new_def strand_process_def Let_def

lemma strand_admits:
  "bridge_admit 0 ''execute_login_attempt'' JNull ''a'' 7 None (bw_bridge strand3) = (Inr strand_request, bw_bridge strand4)"
  by (simp add: strand4_def strand_defs bridge_admit_def check_session_compat_def pending_insert_def try_send_def
      IPC_WRITE_CHANNEL_CAP_def is_lightweight_method_def session_of_def strand_request_def)

lemma strand_run:
  "rtranclp (bridge_step cfg) strand0 strand4" "rtranclp (bridge_step cfg) strand0 strand5"
proof -
  have "bridge_step cfg strand0 strand1"
    unfolding strand1_def by (rule bridge_step.spawned) (simp add: strand0_def bridge_new_def)
  moreover have "bridge_step cfg strand1 strand2" unfolding strand2_def by (rule bridge_step.becomes_ready)
  moreover have "bridge_step cfg strand2 strand3" unfolding strand3_def by (rule bridge_step.exit_drains)
  moreover have "bridge_step cfg strand3 strand4"
  proof -
    have "bw_now strand3 = 0" "bw_tasks strand3 = []" "br_next_id (bw_bridge strand3) \<noteq> - 1"
      by (simp_all add: strand_defs)
    with bridge_step.admits [where w = strand3, OF _ _ this(3)] strand_admits show ?thesis
      by (simp add: strand4_def live_cancel_ids_def with_bridge_def)
  qed
  moreover have "bridge_step cfg strand4 strand5"
    unfolding strand5_def by (rule bridge_step.exit_finishes) (simp add: strand4_def strand_defs)
  ultimately show "rtranclp (bridge_step cfg) strand0 strand4" "rtranclp (bridge_step cfg) strand0 strand5"
    by (meson converse_rtranclp_into_rtranclp rtranclp.rtrancl_refl)+
qed

text \<open>What the run looks like while the request is on its way.\<close>

lemma strand4_state:
  "bridge_start strand0" "bw_tasks strand4 = [(strand_request, Waiting)]" "bw_stranded strand4 = False"
  "br_chan (bw_bridge strand4) 0 = ChOpen" "br_request_id (bw_bridge strand4) = Some 1"
  "br_cancel_id (bw_bridge strand4) = Some ''a''" "br_session (bw_bridge strand4) = Some SessLogin"
  "br_worker_state (bw_bridge strand4) = WsInLogin" "br_pending (bw_bridge strand4) = [(1, 0)]"
proof -
  have f: "map_of (br_pending (bw_bridge strand3)) (br_next_id (bw_bridge strand3)) = None"
    by (simp add: strand_defs)
  note s = admit_sent [OF strand_admits f]
  show "bridge_start strand0" by (simp add: bridge_start_def strand0_def)
  show "bw_tasks strand4 = [(strand_request, Waiting)]" by (simp add: strand4_def)
  show "bw_stranded strand4 = False" by (simp add: strand4_def strand_defs)
  show "br_chan (bw_bridge strand4) 0 = ChOpen" unfolding s(8) by (simp add: strand_defs)
  show "br_request_id (bw_bridge strand4) = Some 1" "br_cancel_id (bw_bridge strand4) = Some ''a''"
    "br_session (bw_bridge strand4) = Some SessLogin" "br_worker_state (bw_bridge strand4) = WsInLogin"
    using s(10-12,14) by (simp_all add: is_lightweight_method_def session_of_def strand_defs)
  show "br_pending (bw_bridge strand4) = [(1, 0)]" unfolding s(5) by (simp add: strand_defs)
qed


end
