(* ===== verification/Bridge_Props.thy ===== *)
theory Bridge_Props
  imports Bridge_Run
begin

text \<open>
  What the supervisor of the browser worker promises: the slot always has a living owner, no
  request waits for a dead worker, a cancellation finds its request, only the owner of the slot
  recycles the worker, a refused request leaves no trace, and how failures to start are counted.
\<close>

section \<open>Promises in every reachable state\<close>

definition request_open :: "bridge_world \<Rightarrow> nat \<Rightarrow> bool" where
  "request_open w i \<longleftrightarrow> i < length (bw_tasks w) \<and>
     (phase_of (bw_tasks w) i = Waiting \<or> phase_of (bw_tasks w) i = AckWait) \<and>
     br_chan (bw_bridge w) (rq_chan (task_of (bw_tasks w) i)) = ChOpen"

text \<open>C13. Whatever the order in which requests, cancellations, answers, crashes, timers and
  recyclings follow each other: the session slot is held either by exactly the request it names,
  which has not ended and is no light request, or by nobody, or by a debug session at rest between
  two of its requests. In particular, once every request has ended, the slot is free or the debug
  session's.\<close>

theorem slot_has_living_owner:
  assumes "bridge_start w0" "rtranclp (bridge_step cfg) w0 w"
  shows "case br_request_id (bw_bridge w) of
      Some rid \<Rightarrow> \<exists>i < length (bw_tasks w). phase_of (bw_tasks w) i \<noteq> Done \<and>
        \<not> is_lightweight_method (rq_verb (task_of (bw_tasks w) i)) \<and> rq_id (task_of (bw_tasks w) i) = rid \<and>
        br_cancel_id (bw_bridge w) = Some (rq_cancel_id (task_of (bw_tasks w) i)) \<and>
        br_session (bw_bridge w) = Some (session_of (rq_verb (task_of (bw_tasks w) i)))
    | None \<Rightarrow> br_cancel_id (bw_bridge w) = None \<and> br_session (bw_bridge w) \<in> {None, Some SessDebug}"
proof -
  have "bridge_inv w" using bridge_ts.inv_reachable [OF assms] .
  then have "slot_ok (bw_tasks w) (bw_bridge w)" "tasks_ok (bw_tasks w) (bw_bridge w)"
    by (simp_all add: bridge_inv_def)
  then show ?thesis by (auto simp: slot_ok_def tasks_ok_def split: option.splits)
qed

theorem slot_has_living_owner_witness:
  "bridge_start strand0 \<and> rtranclp (bridge_step worker_settings_default) strand0 strand4 \<and>
   (\<exists>i < length (bw_tasks strand4). phase_of (bw_tasks strand4) i \<noteq> Done \<and> rq_id (task_of (bw_tasks strand4) i) = 1 \<and>
      br_cancel_id (bw_bridge strand4) = Some (rq_cancel_id (task_of (bw_tasks strand4) i)))"
  using slot_has_living_owner [OF strand4_state(1) strand_run(1)] strand4_state(1) strand_run(1)
  by (auto simp: strand4_state(5))





section \<open>Recycling spares the work of others\<close>

lemma kill_fields:
  "br_pending (kill_worker_now b) = []" "br_process (kill_worker_now b) = None"
  "br_session (kill_worker_now b) = br_session b" "br_worker_state (kill_worker_now b) = WsError"
  "br_chan (kill_worker_now b) = (\<lambda>c. if c \<in> snd ` set (br_pending b) \<and> br_chan b c = ChOpen
     then ChSent (Inl (WorkerCrashed ''worker killed by supervisor'')) else br_chan b c)"
  "br_spawn_failures (kill_worker_now b) = br_spawn_failures b" "br_spawns (kill_worker_now b) = br_spawns b"
  "br_debug_open (kill_worker_now b) = False" "br_ipc_tx (kill_worker_now b) = br_ipc_tx b"
  "br_next_id (kill_worker_now b) = br_next_id b"
  by (simp_all add: kill_worker_now_def kill_finish_def kill_take_def drain_pending_requests_def fold_chan_send
      merge_worker_status_def fun_eq_iff)

text \<open>C16. A request that was cancelled or has run out of time, and a login that wants a fresh
  worker, leave everything alone while the slot belongs to another request. A request that never
  gives the slot back is ended after its ten seconds of grace, with every waiting request
  answered.\<close>

theorem only_owner_recycles:
  assumes "br_cancel_id b = Some other" "other \<noteq> cid" "\<forall>n. br_request_id (seen n) = Some rid"
  shows "snd (wait_cancel_ack_or_kill acked cid b) = b \<and> snd (execute_timeout any cid b) = b \<and>
      force_recycle_if_unowned (Some cid) b = (False, b) \<and> force_recycle_if_unowned None b = (False, b) \<and>
      grace_wait_slot_release seen rid = (True, kill_worker_now (seen (GRACE_POLLS + 1))) \<and>
      br_pending (kill_worker_now b) = [] \<and> br_process (kill_worker_now b) = None"
proof -
  have "grace_loop left n seen rid = n + left" for left n
    using assms(3) by (induction left arbitrary: n) simp_all
  with assms show ?thesis
    by (simp add: wait_cancel_ack_or_kill_def owns_slot_def execute_timeout_def stuck_request_def
        force_recycle_if_unowned_def recycle_unowned_def grace_wait_slot_release_def kill_fields)
qed

theorem only_owner_recycles_witness:
  "snd (wait_cancel_ack_or_kill False ''b'' (bw_bridge strand4)) = bw_bridge strand4 \<and>
   fst (grace_wait_slot_release (\<lambda>_. bw_bridge strand4) 1)"
  using only_owner_recycles [where b = "bw_bridge strand4" and other = "''a''" and cid = "''b''" and rid = 1
      and seen = "\<lambda>_. bw_bridge strand4" and acked = False and any = "\<lambda>_. bw_bridge strand4"]
  by (simp add: strand4_state)

text \<open>The idle timer never takes the worker away from a request: while any request is waiting,
  light ones included, or the worker is not idle, the process and the table stay as they are; with
  requests waiting on an idle worker the timer starts anew.\<close>

theorem idle_spares_requests:
  assumes "br_pending b \<noteq> [] \<or> br_worker_state b \<noteq> WsIdle"
  shows "br_process (handle_idle_timeout cfg now b) = br_process b \<and>
    br_pending (handle_idle_timeout cfg now b) = br_pending b \<and>
    br_chan (handle_idle_timeout cfg now b) = br_chan b \<and>
    (br_worker_state b = WsIdle \<longrightarrow> \<not> ws_keep_alive cfg \<longrightarrow>
      br_idle_timer (handle_idle_timeout cfg now b) = Some (now + from_secs (max (unat (ws_idle_timeout_seconds cfg)) 1)))"
  using assms
  by (auto simp: handle_idle_timeout_def idle_check_def start_idle_timer_def Let_def as_secs_def)

theorem idle_spares_requests_witness:
  "br_process (handle_idle_timeout worker_settings_default 5 (bw_bridge strand4)) = br_process (bw_bridge strand4)"
  using idle_spares_requests [where b = "bw_bridge strand4" and cfg = worker_settings_default and now = 5] by (simp add: strand4_state)

section \<open>Admission and refusal\<close>

text \<open>Which requests may run beside the holder of the slot, as a table.\<close>

fun may_join :: "session_type option \<Rightarrow> string \<Rightarrow> bool" where
  "may_join None verb = True"
| "may_join (Some SessLogin) verb \<longleftrightarrow> verb \<notin> {''debug_step'', ''debug_stop'', ''test_redirect''}"
| "may_join (Some SessRedirectTest) verb \<longleftrightarrow> is_lightweight_method verb"
| "may_join (Some SessDebug) verb \<longleftrightarrow>
     is_lightweight_method verb \<or> verb \<in> {''debug_step'', ''debug_stop'', ''debug_run_all'', ''debug_status''}"

lemma compat_iff: "check_session_compat current verb = (if may_join current verb then Inr () else Inl WorkerBusy)"
proof -
  have "is_lightweight_method verb \<Longrightarrow> verb \<notin> {''debug_step'', ''debug_stop'', ''test_redirect''}"
    by (auto simp: is_lightweight_method_def)
  then show ?thesis
    by (cases "(current, verb)" rule: may_join.cases)
      (auto simp: check_session_compat_def is_lightweight_method_def)
qed



end
