(* ===== verification/Bridge_Spawn_Props.thy ===== *)
theory Bridge_Spawn_Props
  imports Bridge_Props
begin

text \<open>
  Starting the worker: what a call of \<open>ensure_worker\<close> leaves behind, and when the circuit breaker
  opens. Without an environment manager it opens after three failures in a row. With one, every
  successful repair resets the count before the second attempt, and it never opens.
\<close>

section \<open>One attempt\<close>

lemma pending_insert_fields [simp]:
  "br_process (snd (pending_insert rid b)) = br_process b" "br_spawns (snd (pending_insert rid b)) = br_spawns b"
  "br_spawn_failures (snd (pending_insert rid b)) = br_spawn_failures b"
  "br_ipc_tx (snd (pending_insert rid b)) = br_ipc_tx b"
  by (simp_all add: pending_insert_def Let_def chan_drop_def split: option.split)

lemma health_begin_fields [simp]:
  "br_process (snd (health_begin settings wo b)) = None \<longleftrightarrow> br_process b = None"
  "br_spawns (snd (health_begin settings wo b)) = br_spawns b"
  "br_spawn_failures (snd (health_begin settings wo b)) = br_spawn_failures b"
  "br_ipc_tx (snd (health_begin settings wo b)) = br_ipc_tx b"
  by (auto simp: health_begin_def Let_def pending_remove_eq case_prod_beta split: option.split sum.split)

lemma handle_response_fields [simp]:
  "br_process (handle_response resp b) = br_process b" "br_spawns (handle_response resp b) = br_spawns b"
  "br_spawn_failures (handle_response resp b) = br_spawn_failures b" "br_ipc_tx (handle_response resp b) = br_ipc_tx b"
  by (simp_all add: handle_response_def chan_send_def split: option.split)

lemma health_end_fields [simp]:
  "br_spawns (snd (health_end wo answer b)) = br_spawns b"
  "br_spawn_failures (snd (health_end wo answer b)) = br_spawn_failures b"
  "br_ipc_tx (snd (health_end wo answer b)) = br_ipc_tx b"
  by (simp_all add: health_end_def Let_def split: option.split sum.split)

lemma health_fields:
  assumes "send_health_check settings answers wo b = (r, b')"
  shows "br_process b' = None \<longleftrightarrow> br_process b = None" "br_spawns b' = br_spawns b"
    "br_spawn_failures b' = br_spawn_failures b" "br_ipc_tx b' = br_ipc_tx b"
proof -
  obtain q b1 where h: "health_begin settings wo b = (q, b1)" by fastforce
  with health_begin_fields [of settings wo b]
  have b1: "br_process b1 = None \<longleftrightarrow> br_process b = None" "br_spawns b1 = br_spawns b"
    "br_spawn_failures b1 = br_spawn_failures b" "br_ipc_tx b1 = br_ipc_tx b" by simp_all
  have e: "\<And>a x. health_end wo a x = (r, b') \<Longrightarrow> b' = snd (health_end wo a x)" by simp
  have "b' = b1 \<or> (\<exists>a. b' = snd (health_end wo a b1)) \<or> (\<exists>a resp. b' = snd (health_end wo a (handle_response resp b1)))"
  proof (cases q)
    case (Inl x)
    with assms h show ?thesis by (simp add: send_health_check_def)
  next
    case (Inr rid)
    with assms h have "(case answers rid of
         Some (Inr resp) \<Rightarrow> health_end wo (Some (Inr resp)) (handle_response (resp\<lparr>ir_id := rid\<rparr>) b1)
       | a \<Rightarrow> health_end wo a b1) = (r, b')" by (simp add: send_health_check_def)
    then show ?thesis by (auto split: option.splits sum.splits dest!: e)
  qed
  then show "br_process b' = None \<longleftrightarrow> br_process b = None" "br_spawns b' = br_spawns b"
    "br_spawn_failures b' = br_spawn_failures b" "br_ipc_tx b' = br_ipc_tx b"
    using b1 by auto
qed

lemma spawned_fields [simp]:
  "br_spawns (worker_spawned p b) = br_spawns b + 1" "br_spawn_failures (worker_spawned p b) = br_spawn_failures b"
  "br_ipc_tx (worker_spawned p b) = br_ipc_tx b"
  by (simp_all add: worker_spawned_def Let_def merge_worker_status_def)

lemma count_fields [simp]:
  "br_spawns (record_spawn_failure b) = br_spawns b" "br_spawn_failures (record_spawn_failure b) = br_spawn_failures b + 1"
  "br_ipc_tx (record_spawn_failure b) = br_ipc_tx b"
  "br_spawns (reset_spawn_failures b) = br_spawns b" "br_spawn_failures (reset_spawn_failures b) = 0"
  "br_ipc_tx (reset_spawn_failures b) = br_ipc_tx b"
  "br_spawns (worker_ready b) = br_spawns b" "br_spawn_failures (worker_ready b) = 0"
  "br_worker_state (worker_ready b) = WsIdle" "br_ipc_tx (worker_ready b) = br_ipc_tx b"
  by (simp_all add: record_spawn_failure_def reset_spawn_failures_def worker_ready_def Let_def merge_worker_status_def)

lemma bootstrap_fields [simp]:
  "br_spawns (bootstrap_done f b) = br_spawns b" "br_process (bootstrap_done f b) = br_process b"
  "br_spawn_failures (bootstrap_done f b) = (if f then 0 else br_spawn_failures b)"
  "br_ipc_tx (bootstrap_done f b) = br_ipc_tx b"
  by (simp_all add: bootstrap_done_def)

lemma spawn_attempt_result:
  assumes "spawn_attempt we wo n b = (r, b')" "br_process b = None"
  shows "r = Some (Inr ()) \<longleftrightarrow> br_process b' \<noteq> None"
    and "r = Some (Inr ()) \<Longrightarrow> br_worker_state b' = WsIdle \<and> br_spawn_failures b' = 0"
    and "br_spawns b' = br_spawns b \<or> br_spawns b' = br_spawns b + 1"
    and "br_ipc_tx b' = br_ipc_tx b"
    and "n \<noteq> 0 \<or> we_environment we = None \<Longrightarrow> r \<noteq> None"
    and "n \<noteq> 0 \<or> we_environment we = None \<Longrightarrow> r \<noteq> Some (Inr ()) \<Longrightarrow> br_spawn_failures b' = br_spawn_failures b + 1"
proof -
  have "(r = Some (Inr ()) \<longleftrightarrow> br_process b' \<noteq> None) \<and>
      (r = Some (Inr ()) \<longrightarrow> br_worker_state b' = WsIdle \<and> br_spawn_failures b' = 0) \<and>
      (br_spawns b' = br_spawns b \<or> br_spawns b' = br_spawns b + 1) \<and> br_ipc_tx b' = br_ipc_tx b \<and>
      (n \<noteq> 0 \<or> we_environment we = None \<longrightarrow> r \<noteq> None \<and> (r \<noteq> Some (Inr ()) \<longrightarrow> br_spawn_failures b' = br_spawn_failures b + 1))"
  proof (cases "we_spawn we n")
    case (Inl e)
    with assms show ?thesis
      by (auto simp: spawn_attempt_def repair_then_retry_def Let_def split: option.splits if_splits prod.splits sum.splits)
  next
    case (Inr p)
    obtain h b1 where h: "send_health_check (we_browser_settings we) (we_health we n) wo (worker_spawned p b) = (h, b1)"
      by fastforce
    from Inr assms health_fields [OF h] show ?thesis
      by (auto simp: spawn_attempt_def h repair_then_retry_def Let_def kill_fields
          split: option.splits if_splits prod.splits sum.splits bool.splits)
  qed
  then show "r = Some (Inr ()) \<longleftrightarrow> br_process b' \<noteq> None"
    "r = Some (Inr ()) \<Longrightarrow> br_worker_state b' = WsIdle \<and> br_spawn_failures b' = 0"
    "br_spawns b' = br_spawns b \<or> br_spawns b' = br_spawns b + 1" "br_ipc_tx b' = br_ipc_tx b"
    "n \<noteq> 0 \<or> we_environment we = None \<Longrightarrow> r \<noteq> None"
    "n \<noteq> 0 \<or> we_environment we = None \<Longrightarrow> r \<noteq> Some (Inr ()) \<Longrightarrow> br_spawn_failures b' = br_spawn_failures b + 1"
    by blast+
qed

lemma attempts_result:
  assumes "spawn_attempts we wo b = (r, b')" "br_process b = None"
  shows "r = Inr () \<longleftrightarrow> br_process b' \<noteq> None"
    and "r = Inr () \<Longrightarrow> br_worker_state b' = WsIdle \<and> br_spawn_failures b' = 0"
    and "br_spawns b' \<in> {br_spawns b, br_spawns b + 1, br_spawns b + 2}" "br_ipc_tx b' = br_ipc_tx b"
proof -
  obtain r0 b0 where a: "spawn_attempt we wo 0 b = (r0, b0)" by fastforce
  obtain r1 b1 where c: "spawn_attempt we wo 1 b0 = (r1, b1)" by fastforce
  note A = spawn_attempt_result [OF a assms(2)]
  have n: "r0 = None \<Longrightarrow> br_process b0 = None" using A(1) by auto
  note C = spawn_attempt_result [OF c n]
  have "(r = Inr () \<longleftrightarrow> br_process b' \<noteq> None) \<and> (r = Inr () \<longrightarrow> br_worker_state b' = WsIdle \<and> br_spawn_failures b' = 0) \<and>
      br_spawns b' \<in> {br_spawns b, br_spawns b + 1, br_spawns b + 2} \<and> br_ipc_tx b' = br_ipc_tx b"
  proof (cases r0)
    case (Some x)
    with assms(1) a A show ?thesis by (auto simp: spawn_attempts_def)
  next
    case None
    from C(5) [OF None] obtain x where x: "r1 = Some x" by auto
    have e: "r = x" "b' = b1" using assms(1) a c x None by (auto simp: spawn_attempts_def)
    show ?thesis unfolding e using A(3,4) C(1-4) [OF None] x by auto
  qed
  then show "r = Inr () \<longleftrightarrow> br_process b' \<noteq> None" "r = Inr () \<Longrightarrow> br_worker_state b' = WsIdle \<and> br_spawn_failures b' = 0"
    "br_spawns b' \<in> {br_spawns b, br_spawns b + 1, br_spawns b + 2}" "br_ipc_tx b' = br_ipc_tx b" by blast+
qed

lemma attempt_not_blocked:
  assumes "spawn_attempt we wo n b = (r, b')" "\<forall>e. we_spawn we n = Inl e \<longrightarrow> e \<noteq> WorkerSpawnBlocked"
  shows "r \<noteq> Some (Inl WorkerSpawnBlocked)"
  using assms
  by (auto simp: spawn_attempt_def repair_then_retry_def Let_def
      split: option.splits sum.splits prod.splits if_splits bool.splits)

lemma attempts_not_blocked:
  assumes "spawn_attempts we wo b = (r, b')" "\<forall>n e. we_spawn we n = Inl e \<longrightarrow> e \<noteq> WorkerSpawnBlocked"
  shows "r \<noteq> Inl WorkerSpawnBlocked"
proof -
  obtain r0 b0 where a: "spawn_attempt we wo 0 b = (r0, b0)" by fastforce
  obtain r1 b1 where c: "spawn_attempt we wo 1 b0 = (r1, b1)" by fastforce
  from attempt_not_blocked [OF a] attempt_not_blocked [OF c] assms a c show ?thesis
    by (auto simp: spawn_attempts_def split: option.splits)
qed

text \<open>A machine whose worker cannot be started, without and with an environment manager.\<close>

definition broken_env :: "environment_api option \<Rightarrow> worker_env" where
  "broken_env ev = \<lparr>we_openwrt = False, we_environment = ev, we_python_exists = True,
     we_spawn = (\<lambda>_. Inl (SpawnFailed ''no such file'')), we_browser_settings = None, we_health = (\<lambda>_ _. None)\<rparr>"

definition willing_manager :: environment_api where
  "willing_manager = \<lparr>ev_refresh = Inr (), ev_ready = (\<lambda>_. (False, Inr ())), ev_repair_runtime = (True, Inr ()),
     ev_repair_browser = Inr False\<rparr>"

section \<open>One call\<close>

lemma gate_fields:
  assumes "environment_gate we wo b = (r, b')"
  shows "br_process b' = br_process b" "br_spawns b' = br_spawns b" "br_ipc_tx b' = br_ipc_tx b"
    "br_spawn_failures b' = br_spawn_failures b \<or> br_spawn_failures b' = 0"
    "we_environment we = None \<Longrightarrow> r = Inr () \<and> b' = b"
  using assms by (auto simp: environment_gate_def Let_def split: option.splits sum.splits prod.splits if_splits)



section \<open>The circuit breaker\<close>

fun ensure_runs :: "bool \<Rightarrow> worker_env list \<Rightarrow> bridge \<Rightarrow> (bridge_error + unit) list \<times> bridge" where
  "ensure_runs wo [] b = ([], b)"
| "ensure_runs wo (we # wes) b =
     (case ensure_worker we wo b of (r, b1) \<Rightarrow>
        case ensure_runs wo wes b1 of (rs, b2) \<Rightarrow> (r # rs, b2))"

text \<open>A machine with Python, on which no environment manager is attached.\<close>

definition bare_env :: "worker_env \<Rightarrow> bool" where
  "bare_env we \<longleftrightarrow> \<not> we_openwrt we \<and> we_environment we = None \<and> we_python_exists we \<and>
     (\<forall>n e. we_spawn we n = Inl e \<longrightarrow> e \<noteq> WorkerSpawnBlocked)"

lemma bare_failure:
  assumes "bare_env we" "br_process b = None" "br_ipc_tx b" "br_spawn_failures b < SPAWN_FAILURE_THRESHOLD"
    and "ensure_worker we wo b = (r, b')" "r \<noteq> Inr ()"
  shows "br_process b' = None \<and> br_ipc_tx b' \<and> br_spawn_failures b' = br_spawn_failures b + 1"
proof -
  let ?b = "b\<lparr>br_orphan_done := True\<rparr>"
  have "environment_gate we wo b = (Inr (), b)" using assms(1) by (simp add: environment_gate_def bare_env_def)
  with assms have a: "spawn_attempts we wo ?b = (r, b')"
    by (simp add: ensure_worker_def bare_env_def is_worker_ready_def Let_def not_le [symmetric])
  obtain r0 b0 where s: "spawn_attempt we wo 0 ?b = (r0, b0)" by fastforce
  have n: "br_process ?b = None" using assms(2) by simp
  have e: "we_environment we = None" using assms(1) by (simp add: bare_env_def)
  note A = spawn_attempt_result [OF s n]
  from A(5) e obtain x where x: "r0 = Some x" by auto
  with a s have eq: "r = x" "b' = b0" by (auto simp: spawn_attempts_def)
  with x assms(6) A(1,4,6) e assms(3) show ?thesis by auto
qed

lemma blocked_iff:
  assumes "ensure_worker we wo b = (r, b')" "bare_env we" "br_process b = None"
  shows "r = Inl WorkerSpawnBlocked \<longleftrightarrow> SPAWN_FAILURE_THRESHOLD \<le> br_spawn_failures b"
  using assms attempts_not_blocked [of we wo "b\<lparr>br_orphan_done := True\<rparr>"]
  by (auto simp: ensure_worker_def bare_env_def is_worker_ready_def environment_gate_def Let_def split: if_splits)

text \<open>Without an environment manager the breaker opens after exactly three calls that failed in
  a row: the fourth call starts no process and changes nothing, until the count is reset.\<close>

theorem breaker_opens:
  assumes "bare_env we1" "bare_env we2" "bare_env we3" "bare_env we4"
    and "br_process b = None" "br_ipc_tx b" "br_spawn_failures b = 0"
    and "ensure_runs wo [we1, we2, we3] b = ([r1, r2, r3], b3)" "Inr () \<notin> {r1, r2, r3}"
  shows "Inl WorkerSpawnBlocked \<notin> {r1, r2, r3} \<and>
    ensure_worker we4 wo b3 = (Inl WorkerSpawnBlocked, b3) \<and>
    br_spawn_failures (reset_spawn_failures b3) = 0"
proof -
  obtain b1 b2 where s: "ensure_worker we1 wo b = (r1, b1)" "ensure_worker we2 wo b1 = (r2, b2)" "ensure_worker we3 wo b2 = (r3, b3)"
    using assms(8) by (auto split: prod.splits)
  have one: "br_process b1 = None \<and> br_ipc_tx b1 \<and> br_spawn_failures b1 = 1"
    using bare_failure [OF assms(1,5,6) _ s(1)] assms(7,9) by (auto simp: SPAWN_FAILURE_THRESHOLD_def)
  have two: "br_process b2 = None \<and> br_ipc_tx b2 \<and> br_spawn_failures b2 = 2"
    using bare_failure [OF assms(2) _ _ _ s(2)] assms(9) one by (auto simp: SPAWN_FAILURE_THRESHOLD_def)
  have three: "br_process b3 = None \<and> br_ipc_tx b3 \<and> br_spawn_failures b3 = 3"
    using bare_failure [OF assms(3) _ _ _ s(3)] assms(9) two by (auto simp: SPAWN_FAILURE_THRESHOLD_def)
  have "ensure_worker we4 wo b3 = (Inl WorkerSpawnBlocked, b3)"
    using three assms(4) by (simp add: ensure_worker_def bare_env_def is_worker_ready_def environment_gate_def
        SPAWN_FAILURE_THRESHOLD_def)
  moreover have "r1 \<noteq> Inl WorkerSpawnBlocked" "r2 \<noteq> Inl WorkerSpawnBlocked" "r3 \<noteq> Inl WorkerSpawnBlocked"
    using blocked_iff [OF s(1)] blocked_iff [OF s(2)] blocked_iff [OF s(3)] assms(1-3,5,7) one two
    by (simp_all add: SPAWN_FAILURE_THRESHOLD_def word_le_nat_alt)
  ultimately show ?thesis by simp
qed

theorem breaker_opens_witness:
  "\<exists>b3. ensure_worker (broken_env None) False b3 = (Inl WorkerSpawnBlocked, b3)"
proof -
  let ?b = "bridge_new\<lparr>br_ipc_tx := True\<rparr>" and ?e = "broken_env None"
  have bare: "bare_env ?e" by (simp add: bare_env_def broken_env_def)
  have fails: "fst (ensure_worker ?e False b) = Inl (SpawnFailed ''no such file'')"
    if "br_process b = None" "br_ipc_tx b" "br_spawn_failures b \<in> {0, 1, 2}" for b
    using that by (auto simp: ensure_worker_def broken_env_def is_worker_ready_def environment_gate_def
        SPAWN_FAILURE_THRESHOLD_def spawn_attempts_def spawn_attempt_def Let_def word_le_nat_alt)
  obtain b1 b2 b3 r1 r2 r3 where s: "ensure_worker ?e False ?b = (r1, b1)" "ensure_worker ?e False b1 = (r2, b2)"
    "ensure_worker ?e False b2 = (r3, b3)" by (metis surj_pair)
  have z: "br_process ?b = None" "br_ipc_tx ?b" "br_spawn_failures ?b = 0" by (simp_all add: bridge_new_def)
  have r1: "r1 = Inl (SpawnFailed ''no such file'')" using fails [of ?b] z s(1) by simp
  have b1: "br_process b1 = None \<and> br_ipc_tx b1 \<and> br_spawn_failures b1 = 1"
    using bare_failure [OF bare z(1,2) _ s(1)] z r1 by (simp add: SPAWN_FAILURE_THRESHOLD_def)
  have r2: "r2 = Inl (SpawnFailed ''no such file'')" using fails [of b1] b1 s(2) by simp
  have b2: "br_process b2 = None \<and> br_ipc_tx b2 \<and> br_spawn_failures b2 = 2"
    using bare_failure [OF bare _ _ _ s(2)] b1 r2 by (simp add: SPAWN_FAILURE_THRESHOLD_def word_less_nat_alt)
  have r3: "r3 = Inl (SpawnFailed ''no such file'')" using fails [of b2] b2 s(3) by simp
  have "ensure_runs False [?e, ?e, ?e] ?b = ([r1, r2, r3], b3)" by (simp add: s)
  from breaker_opens [OF bare bare bare bare z this] r1 r2 r3 show ?thesis by auto
qed

text \<open>
  The environment manager of the program. \<open>EnvironmentManager::repair_worker_runtime\<close> runs the
  bootstrap, which calls back into \<open>reset_spawn_failures\<close> whenever it succeeds
  (\<open>environment/bootstrap.rs\<close>, \<open>fire_bootstrap_done\<close>); it reinstalls a browser at most once in the
  life of the program, so in all other calls \<open>repair_browser_channel\<close> answers \<open>Ok(false)\<close> or fails.
\<close>

definition repairing_env :: "worker_env \<Rightarrow> bool" where
  "repairing_env we \<longleftrightarrow> (\<forall>n e. we_spawn we n = Inl e \<longrightarrow> e \<noteq> WorkerSpawnBlocked) \<and>
     (case we_environment we of
        None \<Rightarrow> False
      | Some ev \<Rightarrow> (snd (ev_repair_runtime ev) = Inr () \<longrightarrow> fst (ev_repair_runtime ev)) \<and> ev_repair_browser ev \<noteq> Inr True)"

lemma repaired_attempt:
  assumes "spawn_attempt we wo 0 b = (None, b')" "repairing_env we"
  shows "br_spawn_failures b' = 0"
proof (cases "we_spawn we 0")
  case (Inl e)
  with assms show ?thesis
    by (auto simp: spawn_attempt_def repair_then_retry_def repairing_env_def Let_def
        split: option.splits prod.splits sum.splits if_splits)
next
  case (Inr p)
  with assms show ?thesis
    by (auto simp: spawn_attempt_def repair_then_retry_def repairing_env_def Let_def
        split: option.splits prod.splits sum.splits if_splits bool.splits)
qed

lemma repaired_failures:
  assumes "spawn_attempt we wo 0 b = (Some r, b')" "repairing_env we" "br_spawn_failures b \<le> 1"
  shows "br_spawn_failures b' \<le> 1"
proof (cases "we_spawn we 0")
  case (Inl e)
  with assms show ?thesis
    by (auto simp: spawn_attempt_def repair_then_retry_def repairing_env_def Let_def
        split: option.splits prod.splits sum.splits if_splits)
next
  case (Inr p)
  obtain h b1 where h: "send_health_check (we_browser_settings we) (we_health we 0) wo (worker_spawned p b) = (h, b1)"
    by fastforce
  from Inr assms health_fields(3) [OF h] show ?thesis
    by (auto simp: spawn_attempt_def h repair_then_retry_def repairing_env_def Let_def kill_fields
        split: option.splits prod.splits sum.splits if_splits bool.splits)
qed

lemma repaired_call:
  assumes "ensure_worker we wo b = (r, b')" "repairing_env we" "br_spawn_failures b \<le> 1"
  shows "br_spawn_failures b' \<le> 1 \<and> r \<noteq> Inl WorkerSpawnBlocked"
proof -
  have t: "\<not> SPAWN_FAILURE_THRESHOLD \<le> x" if "x \<le> 1" for x
    using that by (simp add: SPAWN_FAILURE_THRESHOLD_def word_le_nat_alt)
  have attempts: "br_spawn_failures c' \<le> 1" if a: "spawn_attempts we wo c = (q, c')" and c: "br_spawn_failures c \<le> 1" "br_process c = None" for c c' q
  proof -
    obtain r0 b0 where s0: "spawn_attempt we wo 0 c = (r0, b0)" by fastforce
    obtain r1 b1 where s1: "spawn_attempt we wo 1 b0 = (r1, b1)" by fastforce
    show ?thesis
    proof (cases r0)
      case (Some x)
      with a s0 repaired_failures [OF _ assms(2) c(1)] show ?thesis by (auto simp: spawn_attempts_def)
    next
      case None
      with repaired_attempt [OF _ assms(2)] s0 have z: "br_spawn_failures b0 = 0" by simp
      have n: "br_process b0 = None" using spawn_attempt_result(1) [OF s0 c(2)] None by auto
      from spawn_attempt_result(2,5,6) [OF s1 n] z have "br_spawn_failures b1 \<le> 1" by fastforce
      with None a s0 s1 show ?thesis by (auto simp: spawn_attempts_def split: option.splits)
    qed
  qed
  obtain q b1 where g: "environment_gate we wo b = (q, b1)" by fastforce
  from gate_fields(1,4) [OF g] assms(3) have b1: "br_spawn_failures b1 \<le> 1" "br_process b1 = br_process b" by auto
  have q: "q \<noteq> Inl WorkerSpawnBlocked"
    using g by (auto simp: environment_gate_def Let_def split: option.splits sum.splits prod.splits)
  show ?thesis
  proof (cases "spawn_attempts we wo (b1\<lparr>br_orphan_done := True\<rparr>)")
    case (Pair a c)
    with attempts [OF Pair] attempts_not_blocked [OF Pair] assms b1 q t [OF b1(1)] show ?thesis
      by (auto simp: ensure_worker_def g Let_def repairing_env_def split: if_splits sum.splits)
  qed
qed



end
