(* ===== verification/Bridge_Faults.thy ===== *)
theory Bridge_Faults
  imports Bridge_Spawn_Props
begin

text \<open>
  Two places where the supervisor does less than its comments promise: a clean exit of the worker
  is handled in two sections under the lock, and a request sent between them is forgotten; a crash
  ends the debug session but leaves its flag set.
\<close>

section \<open>A request between the two sections of a clean exit\<close>

text \<open>A login sent between the two sections of a clean exit is stranded: the worker is gone and
  nobody is about to settle the request, it is in the table and its channel is open, and a cancel
  command does not reach it, because the second section has emptied the registry. Only the time
  limit of its caller ends it.\<close>

theorem clean_exit_strands_request:
  "\<exists>w0 w. bridge_start w0 \<and> rtranclp (bridge_step cfg) w0 w \<and> request_open w 0 \<and>
     br_process (bw_bridge w) = None \<and> bw_kills w = 0 \<and> bw_exits w = 0 \<and>
     rq_token (task_of (bw_tasks w) 0) \<notin>
       cr_cancelled (br_registry (handle_cancel (bw_now w) (rq_cancel_id (task_of (bw_tasks w) 0)) (bw_bridge w)))"
proof (intro exI conjI)
  show "bridge_start strand0" by (simp add: bridge_start_def strand0_def)
  show "rtranclp (bridge_step cfg) strand0 strand5" by (rule strand_run(2))
  have b: "bw_bridge strand5 = clean_exit_finish (bw_bridge strand4)" "bw_tasks strand5 = [(strand_request, Waiting)]"
    "bw_kills strand5 = 0" "bw_exits strand5 = 0" "bw_now strand5 = 0"
    by (simp_all add: strand5_def strand4_def strand_defs)
  have f: "map_of (br_pending (bw_bridge strand3)) (br_next_id (bw_bridge strand3)) = None"
    by (simp add: strand_defs)
  note s = admit_sent [OF strand_admits f]
  have o: "br_chan (bw_bridge strand4) 0 = ChOpen" unfolding s(8) by (simp add: strand_defs)
  have c: "7 \<notin> cr_cancelled (br_registry (bw_bridge strand4))"
    unfolding s(9) by (simp add: strand_defs registry_new_def register_inner_def prune_pending_def)
  show "request_open strand5 0"
    using o by (simp add: request_open_def b task_of_def phase_of_def strand_request_def clean_exit_finish_def merge_worker_status_def)
  show "br_process (bw_bridge strand5) = None" by (simp add: b clean_exit_finish_def merge_worker_status_def)
  show "bw_kills strand5 = 0" "bw_exits strand5 = 0" by (simp_all add: b)
  show "rq_token (task_of (bw_tasks strand5) 0) \<notin> cr_cancelled (br_registry
      (handle_cancel (bw_now strand5) (rq_cancel_id (task_of (bw_tasks strand5) 0)) (bw_bridge strand5)))"
    using c by (simp add: b task_of_def strand_request_def handle_cancel_def clean_exit_finish_def merge_worker_status_def
        registry_trigger_def registry_clear_def Let_def prune_pending_def)
qed

section \<open>A crash in a debug session\<close>

text \<open>When the worker crashes in a debug session, the slot becomes free and logins go on, but the
  mark of the open debug session stays: every further start of a debug session on a new worker is
  refused as busy.\<close>

theorem crash_blocks_debugging:
  assumes "code \<noteq> 0" "br_session b = Some SessDebug" "br_debug_open b"
  shows "br_session (handle_worker_exited code b) = None \<and> br_debug_open (handle_worker_exited code b) \<and>
    fst (bridge_admit now ''debug_start'' params cid token route
      (worker_ready (worker_spawned p (handle_worker_exited code b)))) = Inl WorkerBusy"
proof -
  let ?b1 = "handle_worker_exited code b"
  have f: "br_session ?b1 = None" "br_debug_open ?b1"
    using assms by (simp_all add: handle_worker_exited_def crash_section_def Let_def fold_chan_send merge_worker_status_def)
  then have "br_session (worker_ready (worker_spawned p ?b1)) = None" "br_debug_open (worker_ready (worker_spawned p ?b1))"
    by (simp_all add: worker_ready_def worker_spawned_def Let_def merge_worker_status_def)
  with f show ?thesis by (simp add: bridge_admit_def check_session_compat_def)
qed

theorem crash_blocks_debugging_witness:
  "fst (bridge_admit 9 ''debug_start'' JNull ''d'' 4 None (worker_ready (worker_spawned strand_process
     (handle_worker_exited 1 (bridge_new\<lparr>br_session := Some SessDebug, br_debug_open := True\<rparr>))))) = Inl WorkerBusy"
  using crash_blocks_debugging [where code = 1 and b = "bridge_new\<lparr>br_session := Some SessDebug, br_debug_open := True\<rparr>"
      and now = 9 and params = JNull and cid = "''d''" and token = 4 and route = None and p = strand_process] by simp

end
