(* ===== verification/Bridge_Wire.thy ===== *)
theory Bridge_Wire
  imports Bridge_Requests
begin

text \<open>
  \<open>bridge/process.rs\<close>: how the bytes of the worker become messages. The standard output is read in
  blocks of any size, cut into lines of a bounded length, and every line is parsed; a line that is
  too long still answers its request if the number can be read from its beginning. The standard
  error is cut the same way and passed on to the log under the level it names.
\<close>

section \<open>Lines\<close>

definition IPC_MAX_LINE_LEN :: nat where
  "IPC_MAX_LINE_LEN = 1048576"

text \<open>What \<open>fill_buf\<close> returns; an empty block is the end of the stream.\<close>

datatype fill = Filled string | FillFailed

datatype raw_line = Complete string | TooLong string

text \<open>The state of a line: whether it is too long, and what is kept of it.\<close>

definition accumulate :: "string \<Rightarrow> bool \<times> string \<Rightarrow> bool \<times> string" where
  "accumulate part st =
     (case st of (exceeded, buf) \<Rightarrow>
        if exceeded then (True, buf)
        else if length buf + length part > IPC_MAX_LINE_LEN
        then (True, buf @ take (IPC_MAX_LINE_LEN - length buf) part)
        else (False, buf @ part))"

definition line_done :: "bool \<times> string \<Rightarrow> raw_line list" where
  "line_done st = (case st of (exceeded, buf) \<Rightarrow> if exceeded then [TooLong buf] else if buf = [] then [] else [Complete buf])"

definition stream_end :: "bool \<times> string \<Rightarrow> raw_line list" where
  "stream_end st = (case st of (exceeded, buf) \<Rightarrow> if \<not> exceeded \<and> buf \<noteq> [] then [Complete buf] else [])"

definition LF :: char where
  "LF = CHR 0x0A"

fun fill_size :: "fill \<Rightarrow> nat" where
  "fill_size (Filled a) = length a + 1"
| "fill_size FillFailed = 1"

function stdout_lines :: "bool \<times> string \<Rightarrow> fill list \<Rightarrow> raw_line list" where
  "stdout_lines st [] = stream_end st"
| "stdout_lines st (FillFailed # es) = []"
| "stdout_lines st (Filled a # es) =
     (if a = [] then stream_end st
      else case split_once LF a of
        Some (pre, post) \<Rightarrow>
          line_done (accumulate pre st) @ stdout_lines (False, []) (if post = [] then es else Filled post # es)
      | None \<Rightarrow> stdout_lines (accumulate a st) es)"
  by pat_completeness auto
termination
  by (relation "measure (\<lambda>(_, es). sum_list (List.map fill_size es))") (auto simp: split_once_Some)

section \<open>Messages\<close>

function utf8_valid :: "string \<Rightarrow> bool" where
  "utf8_valid [] = True"
| "utf8_valid (b # rest) = (let (n, ok) = utf8_step b rest in ok \<and> utf8_valid (drop (n - 1) rest))"
  by pat_completeness auto
termination
  by (relation "measure length") auto

definition trim_newlines :: "string \<Rightarrow> string" where
  "trim_newlines s = rev (dropWhile (\<lambda>c. c = LF \<or> c = CHR 0x0D) (rev s))"

definition json_bool :: "json \<Rightarrow> bool option" where
  "json_bool v = (case v of JBool x \<Rightarrow> Some x | _ \<Rightarrow> None)"

definition error_field :: "json option \<Rightarrow> string option option" where
  "error_field v = (case v of None \<Rightarrow> Some None | Some JNull \<Rightarrow> Some None | Some (JString e) \<Rightarrow> Some (Some e) | _ \<Rightarrow> None)"

text \<open>The derived deserialisers of \<open>IpcResult\<close>, \<open>IpcResponse\<close> and \<open>IpcEvent\<close>.\<close>

definition result_fields :: "json \<Rightarrow> (bool \<times> json \<times> string option) option" where
  "result_fields v =
     (case v of
        JObject _ \<Rightarrow>
          (case (Option.bind (json_get ''success'' v) json_bool, json_get ''data'' v, error_field (json_get ''error'' v)) of
             (Some success, Some dat, Some e) \<Rightarrow> Some (success, dat, e)
           | _ \<Rightarrow> None)
      | JArray [s, d, e] \<Rightarrow>
          (case (json_bool s, error_field (Some e)) of (Some success, Some err) \<Rightarrow> Some (success, d, err) | _ \<Rightarrow> None)
      | _ \<Rightarrow> None)"

definition response_of_json :: "json \<Rightarrow> ipc_response option" where
  "response_of_json v =
     (case (Option.bind (json_get ''id'' v) as_u64, Option.bind (json_get ''result'' v) result_fields) of
        (Some rid, Some (success, dat, e)) \<Rightarrow>
          Some \<lparr>ir_id = rid, ir_success = success, ir_data = dat, ir_error = e\<rparr>
      | _ \<Rightarrow> None)"

definition event_of_json :: "json \<Rightarrow> (string \<times> json) option" where
  "event_of_json v =
     (case Option.bind (json_get ''event'' v) as_str of
        Some name \<Rightarrow> Some (name, case json_get ''data'' v of Some d \<Rightarrow> d | None \<Rightarrow> JNull)
      | None \<Rightarrow> None)"

text \<open>
  \<open>parse_and_send_line\<close>: the messages sent, and how many lines were no JSON. \<open>from_str\<close> is the JSON
  parser, \<open>reason\<close> the text of a deserialisation error.
\<close>

definition parse_and_send_line :: "(string \<Rightarrow> json option) \<Rightarrow> (json \<Rightarrow> string) \<Rightarrow> string \<Rightarrow> parsed_message list \<times> nat" where
  "parse_and_send_line from_str reason line =
     (case from_str line of
        None \<Rightarrow> ([], 1)
      | Some v \<Rightarrow>
          (case json_get ''id'' v of
             Some id_val \<Rightarrow>
               (case response_of_json v of
                  Some resp \<Rightarrow> ([MsgResponse resp], 0)
                | None \<Rightarrow>
                    (case as_u64 id_val of Some rid \<Rightarrow> ([MsgResponseError rid (reason v)], 0) | None \<Rightarrow> ([], 0)))
           | None \<Rightarrow>
               if json_get ''event'' v \<noteq> None
               then (case event_of_json v of Some (name, dat) \<Rightarrow> ([MsgEvent name dat], 0) | None \<Rightarrow> ([], 0))
               else ([], 0)))"

definition is_ascii_whitespace :: "char \<Rightarrow> bool" where
  "is_ascii_whitespace c \<longleftrightarrow> c \<in> {CHR '' '', CHR 0x09, CHR 0x0A, CHR 0x0C, CHR 0x0D}"

definition skip_ws :: "string \<Rightarrow> string" where
  "skip_ws s = dropWhile is_ascii_whitespace s"

definition extract_leading_id :: "string \<Rightarrow> u64 option" where
  "extract_leading_id head =
     (case skip_ws head of
        [] \<Rightarrow> None
      | c # r \<Rightarrow>
          if c \<noteq> CHR ''{'' then None
          else if \<not> starts_with (skip_ws r) (CHR 0x22 # ''id'' @ [CHR 0x22]) then None
          else (case skip_ws (drop 4 (skip_ws r)) of
                  [] \<Rightarrow> None
                | c2 # r2 \<Rightarrow>
                    if c2 \<noteq> CHR '':'' then None
                    else
                      let ds = takeWhile is_ascii_digit (skip_ws r2)
                      in if ds = [] then None else map_option of_nat (parse_u64 ds)))"

definition oversized_response :: "u64 \<Rightarrow> ipc_response" where
  "oversized_response rid =
     \<lparr>ir_id = rid, ir_success = False, ir_data = JNull, ir_error = Some ''IPC response above the line limit of 1 MiB dropped''\<rparr>"

definition settle_oversized_line :: "string \<Rightarrow> parsed_message list" where
  "settle_oversized_line kept =
     (let head = take 512 kept
      in if \<not> utf8_valid head then []
         else case extract_leading_id head of
                None \<Rightarrow> [] | Some rid \<Rightarrow> [MsgResponse (oversized_response rid)])"

definition line_messages :: "(string \<Rightarrow> json option) \<Rightarrow> (json \<Rightarrow> string) \<Rightarrow> raw_line \<Rightarrow> parsed_message list \<times> nat" where
  "line_messages from_str reason l =
     (case l of
        TooLong kept \<Rightarrow> (settle_oversized_line kept, 0)
      | Complete buf \<Rightarrow>
          if \<not> utf8_valid buf then ([], 0)
          else
            let trimmed = trim_newlines buf
            in if trimmed = [] then ([], 0) else parse_and_send_line from_str reason trimmed)"

definition stdout_messages :: "(string \<Rightarrow> json option) \<Rightarrow> (json \<Rightarrow> string) \<Rightarrow> fill list \<Rightarrow> parsed_message list" where
  "stdout_messages from_str reason es =
     concat (List.map (fst \<circ> line_messages from_str reason) (stdout_lines (False, []) es))"

section \<open>Previews and the log of the worker\<close>

definition IPC_LOG_PREVIEW_LEN :: nat where
  "IPC_LOG_PREVIEW_LEN = 200"

fun boundary_before :: "string \<Rightarrow> nat \<Rightarrow> nat" where
  "boundary_before s 0 = 0"
| "boundary_before s (Suc n) = (if cont_byte (s ! Suc n) then boundary_before s n else Suc n)"

definition log_line_preview :: "string \<Rightarrow> string" where
  "log_line_preview line =
     (if length line \<le> IPC_LOG_PREVIEW_LEN then line else take (boundary_before line IPC_LOG_PREVIEW_LEN) line)"

text \<open>In the reader of the standard error a line that is too long keeps nothing of its rest.\<close>

definition accumulate_err :: "string \<Rightarrow> bool \<times> string \<Rightarrow> bool \<times> string" where
  "accumulate_err part st =
     (case st of (exceeded, buf) \<Rightarrow>
        if exceeded \<or> length buf + length part > IPC_MAX_LINE_LEN then (True, buf) else (False, buf @ part))"

function stderr_lines :: "bool \<times> string \<Rightarrow> fill list \<Rightarrow> string list" where
  "stderr_lines st [] = (if \<not> fst st \<and> snd st \<noteq> [] then [snd st] else [])"
| "stderr_lines st (FillFailed # es) = []"
| "stderr_lines st (Filled a # es) =
     (if a = [] then (if \<not> fst st \<and> snd st \<noteq> [] then [snd st] else [])
      else case split_once LF a of
        Some (pre, post) \<Rightarrow>
          (case accumulate_err pre st of (exceeded, buf) \<Rightarrow> if \<not> exceeded \<and> buf \<noteq> [] then [buf] else [])
            @ stderr_lines (False, []) (if post = [] then es else Filled post # es)
      | None \<Rightarrow> stderr_lines (accumulate_err a st) es)"
  by pat_completeness auto
termination
  by (relation "measure (\<lambda>(_, es). sum_list (List.map fill_size es))") (auto simp: split_once_Some)

fun splitn :: "nat \<Rightarrow> char \<Rightarrow> string \<Rightarrow> string list" where
  "splitn 0 c s = []"
| "splitn (Suc 0) c s = [s]"
| "splitn (Suc (Suc n)) c s = (case split_once c s of None \<Rightarrow> [s] | Some (a, b) \<Rightarrow> a # splitn (Suc n) c b)"

definition KNOWN_LEVELS :: "string list" where
  "KNOWN_LEVELS = [''TRACE'', ''DEBUG'', ''INFO'', ''WARNING'', ''WARN'', ''ERROR'', ''CRITICAL'', ''FATAL'']"

definition parse_worker_stderr_line :: "string \<Rightarrow> string \<times> string" where
  "parse_worker_stderr_line line =
     (let trimmed = trim_end line
      in case splitn 4 (CHR '' '') trimmed of
           [date, clock, level, message] \<Rightarrow>
             if trim message \<noteq> [] \<and> to_ascii_uppercase level \<in> set KNOWN_LEVELS
             then (to_ascii_uppercase level, trim message) else ([], trimmed)
         | _ \<Rightarrow> ([], trimmed))"

datatype log_level = LogDebug | LogInfo | LogWarn | LogError

definition log_stderr_line :: "bool \<Rightarrow> string \<Rightarrow> (log_level \<times> string) list \<times> bool" where
  "log_stderr_line prev_was_error line =
     (if \<not> utf8_valid line \<or> trim_end line = [] then ([], prev_was_error)
      else case parse_worker_stderr_line (trim_end line) of (level, message) \<Rightarrow>
        if level = ''TRACE'' \<or> level = ''DEBUG'' then ([(LogDebug, message)], False)
        else if level = ''INFO'' then ([(LogInfo, message)], False)
        else if level = ''WARNING'' \<or> level = ''WARN'' then ([(LogWarn, message)], False)
        else if level = ''ERROR'' \<or> level = ''CRITICAL'' \<or> level = ''FATAL'' then ([(LogError, message)], True)
        else if level = [] \<and> prev_was_error then ([(LogError, message)], True)
        else ([(LogWarn, message)], False))"

fun stderr_log :: "bool \<Rightarrow> string list \<Rightarrow> (log_level \<times> string) list" where
  "stderr_log prev [] = []"
| "stderr_log prev (l # ls) =
     (case log_stderr_line prev l of (entries, prev') \<Rightarrow> entries @ stderr_log prev' ls)"

definition stderr_forwarder :: "fill list \<Rightarrow> (log_level \<times> string) list" where
  "stderr_forwarder es = stderr_log False (stderr_lines (False, []) es)"

end
