(* ===== verification/Bridge_Wire_Props.thy ===== *)
theory Bridge_Wire_Props
  imports Bridge_Wire Bridge_Run
begin

text \<open>
  The reader of the worker's output: its lines depend only on the bytes, not on the blocks they
  arrive in, they are bounded, and a line that is too long still answers its request, unless the
  bound cuts a character in two.
\<close>

section \<open>Lines and blocks\<close>

text \<open>The lines of a whole stream: the lines that are ended, and what follows the last line feed.\<close>

function cut_lines :: "string \<Rightarrow> string list \<times> string" where
  "cut_lines s = (case split_once LF s of
     None \<Rightarrow> ([], s) | Some (l, rest) \<Rightarrow> (case cut_lines rest of (ls, r) \<Rightarrow> (l # ls, r)))"
  by auto
termination
  by (relation "measure length") (auto simp: split_once_Some)

declare cut_lines.simps [simp del]

definition whole_line :: "string \<Rightarrow> raw_line list" where
  "whole_line l = (if length l > IPC_MAX_LINE_LEN then [TooLong (take IPC_MAX_LINE_LEN l)]
     else if l = [] then [] else [Complete l])"

definition last_line :: "string \<Rightarrow> raw_line list" where
  "last_line r = (if r \<noteq> [] \<and> length r \<le> IPC_MAX_LINE_LEN then [Complete r] else [])"

definition lines_of :: "string \<Rightarrow> raw_line list" where
  "lines_of s = (case cut_lines s of (ls, r) \<Rightarrow> concat (List.map whole_line ls) @ last_line r)"

text \<open>The state of the reader after the part \<open>p\<close> of a line.\<close>

definition after_part :: "string \<Rightarrow> bool \<times> string" where
  "after_part p = (length p > IPC_MAX_LINE_LEN, take IPC_MAX_LINE_LEN p)"

lemma accumulate_part: "accumulate part (after_part p) = after_part (p @ part)"
  by (auto simp: accumulate_def after_part_def)

lemma line_done_part: "line_done (after_part p) = whole_line p"
  by (auto simp: line_done_def after_part_def whole_line_def)

lemma stream_end_part: "stream_end (after_part p) = last_line p"
  by (auto simp: stream_end_def after_part_def last_line_def)

lemma split_free: "c \<notin> set s \<Longrightarrow> split_once c s = None"
  by (rule split_once_None [THEN iffD2])

lemma lines_of_free: "LF \<notin> set p \<Longrightarrow> lines_of p = last_line p"
  by (simp add: lines_of_def cut_lines.simps split_free)

lemma lines_of_line: "LF \<notin> set l \<Longrightarrow> lines_of (l @ LF # rest) = whole_line l @ lines_of rest"
  by (simp add: lines_of_def cut_lines.simps [of "l @ LF # rest"] split: prod.split)

lemma stdout_lines_part:
  assumes "\<forall>c \<in> set cs. c \<noteq> []" "LF \<notin> set p"
  shows "stdout_lines (after_part p) (List.map Filled cs) = lines_of (p @ concat cs)"
  using assms
proof (induction "sum_list (List.map length cs)" arbitrary: cs p rule: less_induct)
  case less
  show ?case
  proof (cases cs)
    case Nil
    with less.prems show ?thesis by (simp add: stream_end_part lines_of_free)
  next
    case (Cons a as)
    then have a: "a \<noteq> []" "\<forall>c \<in> set as. c \<noteq> []" using less.prems by auto
    show ?thesis
    proof (cases "split_once LF a")
      case None
      then have n: "LF \<notin> set (p @ a)" using less.prems by simp
      have "sum_list (List.map length as) < sum_list (List.map length cs)" using a Cons by simp
      from less.hyps [OF this a(2) n] show ?thesis using Cons a n by (simp add: accumulate_part split_free)
    next
      case (Some q)
      obtain pre post where q: "split_once LF a = Some (pre, post)" using Some by (cases q) auto
      then have e: "a = pre @ LF # post" "LF \<notin> set pre" by (auto simp: split_once_Some)
      let ?rest = "if post = [] then as else post # as"
      have r: "stdout_lines (after_part []) (List.map Filled ?rest) = lines_of ([] @ concat ?rest)"
        by (rule less.hyps) (use a e Cons in auto)
      have s: "(False, []) = after_part []" by (simp add: after_part_def IPC_MAX_LINE_LEN_def)
      have l: "lines_of (p @ concat cs) = whole_line (p @ pre) @ lines_of (concat ?rest)"
        using lines_of_line [of "p @ pre" "post @ concat as"] less.prems e Cons by simp
      have "stdout_lines (after_part p) (List.map Filled cs) =
          whole_line (p @ pre) @ stdout_lines (False, []) (List.map Filled ?rest)"
        using Cons a q by (simp add: accumulate_part line_done_part)
      with r l show ?thesis unfolding s by simp
    qed
  qed
qed

text \<open>C20. However the output of the worker is cut into blocks, the supervisor sees the lines of the
  whole byte stream: every ended line up to one mebibyte as it is, a longer one as its first mebibyte
  marked as too long, empty lines not at all.\<close>

theorem lines_ignore_blocks:
  assumes "\<forall>c \<in> set cs. c \<noteq> []"
  shows "stdout_lines (False, []) (List.map Filled cs) = lines_of (concat cs)"
  using stdout_lines_part [OF assms, of "[]"] by (simp add: after_part_def IPC_MAX_LINE_LEN_def)

theorem lines_ignore_blocks_witness:
  "stdout_lines (False, []) [Filled ''a'', Filled [CHR ''b'', LF], Filled ''c''] = [Complete ''ab'', Complete ''c'']"
proof -
  have "lines_of [CHR ''a'', CHR ''b'', LF, CHR ''c''] = [Complete ''ab'', Complete ''c'']"
    using lines_of_line [of "''ab''" "''c''"] lines_of_free [of "''c''"]
    by (simp add: whole_line_def last_line_def IPC_MAX_LINE_LEN_def LF_def)
  with lines_ignore_blocks [of "[''a'', [CHR ''b'', LF], ''c'']"] show ?thesis by simp
qed

text \<open>No line kept in memory is longer than one mebibyte, whatever the worker writes and wherever
  reading fails.\<close>

definition raw_bytes :: "raw_line \<Rightarrow> string" where
  "raw_bytes l = (case l of Complete s \<Rightarrow> s | TooLong s \<Rightarrow> s)"

lemma accumulate_bound: "length (snd st) \<le> IPC_MAX_LINE_LEN \<Longrightarrow> length (snd (accumulate part st)) \<le> IPC_MAX_LINE_LEN"
  by (cases st) (auto simp: accumulate_def)

lemma lines_bounded:
  "length (snd st) \<le> IPC_MAX_LINE_LEN \<Longrightarrow> l \<in> set (stdout_lines st es) \<Longrightarrow> length (raw_bytes l) \<le> IPC_MAX_LINE_LEN"
proof (induction st es rule: stdout_lines.induct)
  case (1 st)
  then show ?case by (cases st) (auto simp: stream_end_def raw_bytes_def split: if_splits)
next
  case (2 st es)
  then show ?case by simp
next
  case (3 st a es)
  show ?case
  proof (cases "a = []")
    case True
    with 3 show ?thesis by (cases st) (auto simp: stream_end_def raw_bytes_def split: if_splits)
  next
    case a: False
    show ?thesis
    proof (cases "split_once LF a")
      case None
      with 3 a accumulate_bound show ?thesis by simp
    next
      case (Some q)
      obtain pre post where q: "q = (pre, post)" by (cases q)
      have "length (raw_bytes l) \<le> IPC_MAX_LINE_LEN" if "l \<in> set (line_done (accumulate pre st))"
        using that accumulate_bound [OF "3.prems"(1), of pre]
        by (cases "accumulate pre st") (auto simp: line_done_def raw_bytes_def split: if_splits)
      with 3 a Some q show ?thesis by auto
    qed
  qed
qed

section \<open>Lines that are too long\<close>

lemma skip_ws_digits: "ds \<noteq> [] \<Longrightarrow> list_all is_ascii_digit ds \<Longrightarrow> skip_ws (ds @ r) = ds @ r"
  by (cases ds) (auto simp: skip_ws_def is_ascii_whitespace_def is_ascii_digit_def)

lemma takeWhile_digits:
  "list_all is_ascii_digit ds \<Longrightarrow> r = [] \<or> \<not> is_ascii_digit (hd r) \<Longrightarrow> takeWhile is_ascii_digit (ds @ r) = ds"
  by (induction ds) (cases r, auto)+

text \<open>The beginning of a response as the worker writes it, with blanks allowed where JSON allows them.\<close>

definition response_head :: "string \<Rightarrow> string \<Rightarrow> string \<Rightarrow> string \<Rightarrow> u64 \<Rightarrow> string" where
  "response_head wa wb wc wd rid =
     wa @ ''{'' @ wb @ CHR 0x22 # ''id'' @ CHR 0x22 # wc @ '':'' @ wd @ show_nat (unat rid)"

definition blank :: "string \<Rightarrow> bool" where
  "blank w \<longleftrightarrow> list_all is_ascii_whitespace w"

lemma skip_blank: "blank w \<Longrightarrow> skip_ws (w @ s) = skip_ws s"
  by (simp add: blank_def skip_ws_def dropWhile_append2 list_all_iff)

lemma extract_head:
  assumes "blank wa" "blank wb" "blank wc" "blank wd" "r = [] \<or> \<not> is_ascii_digit (hd r)"
  shows "extract_leading_id (response_head wa wb wc wd rid @ r) = Some rid"
proof -
  let ?ds = "show_nat (unat rid)"
  have d: "list_all is_ascii_digit ?ds" "?ds \<noteq> []" using show_nat_digits [of "unat rid"] by auto
  have p: "parse_u64 ?ds = Some (unat rid)"
    by (rule parse_show_nat) (use unsigned_less [of rid] in simp)
  have s1: "skip_ws (response_head wa wb wc wd rid @ r) =
      CHR ''{'' # wb @ CHR 0x22 # ''id'' @ CHR 0x22 # wc @ '':'' @ wd @ ?ds @ r"
    unfolding response_head_def append_assoc skip_blank [OF assms(1)] by (simp add: skip_ws_def is_ascii_whitespace_def)
  have s2: "skip_ws (wb @ CHR 0x22 # ''id'' @ CHR 0x22 # wc @ '':'' @ wd @ ?ds @ r) =
      (CHR 0x22 # ''id'' @ [CHR 0x22]) @ wc @ '':'' @ wd @ ?ds @ r"
    unfolding skip_blank [OF assms(2)] by (simp add: skip_ws_def is_ascii_whitespace_def)
  have s3: "skip_ws (wc @ '':'' @ wd @ ?ds @ r) = CHR '':'' # wd @ ?ds @ r"
    unfolding skip_blank [OF assms(3)] by (simp add: skip_ws_def is_ascii_whitespace_def)
  have s4: "skip_ws (wd @ ?ds @ r) = ?ds @ r"
    unfolding skip_blank [OF assms(4)] by (rule skip_ws_digits [OF d(2,1)])
  have t: "starts_with ((CHR 0x22 # ''id'' @ [CHR 0x22]) @ wc @ '':'' @ wd @ ?ds @ r) (CHR 0x22 # ''id'' @ [CHR 0x22])"
    by (rule starts_with_append)
  have u: "drop 4 ((CHR 0x22 # ''id'' @ [CHR 0x22]) @ wc @ '':'' @ wd @ ?ds @ r) = wc @ '':'' @ wd @ ?ds @ r" by simp
  show ?thesis
    unfolding extract_leading_id_def s1
    using t by (simp only: list.case s2 t u s3 s4 takeWhile_digits [OF d(1) assms(5)] d(2) p if_False simp_thms
      option.map Let_def, simp)
qed

lemma parse_line_response:
  "handle_ipc_message file_name (MsgResponse resp) b = handle_response resp b" by simp

text \<open>C21. A response that is too long to be read still answers its request: if its first 512 bytes are
  valid UTF-8 and begin, blanks aside, with the number of a waiting request, that request gets a
  failed response saying so, and leaves the table.\<close>

theorem oversized_response_answers:
  assumes "blank wa" "blank wb" "blank wc" "blank wd" "kept = response_head wa wb wc wd rid @ r"
    and "length (response_head wa wb wc wd rid) < 512" "r \<noteq> []" "\<not> is_ascii_digit (hd r)"
    and "utf8_valid (take 512 kept)" "map_of (br_pending b) rid = Some ch" "br_chan b ch = ChOpen"
  shows "line_messages from_str reason (TooLong kept) = ([MsgResponse (oversized_response rid)], 0) \<and>
    br_chan (handle_ipc_message file_name (MsgResponse (oversized_response rid)) b) ch = ChSent (Inr (oversized_response rid)) \<and>
    map_of (br_pending (handle_ipc_message file_name (MsgResponse (oversized_response rid)) b)) rid = None"
proof -
  let ?h = "response_head wa wb wc wd rid"
  have t: "take 512 kept = ?h @ take (512 - length ?h) r" using assms(5,6) by simp
  have "take (512 - length ?h) r = [] \<or> \<not> is_ascii_digit (hd (take (512 - length ?h) r))"
    using assms(6-8) by (cases r) (auto simp: take_Cons')
  from extract_head [OF assms(1-4) this] have "extract_leading_id (take 512 kept) = Some rid" by (simp add: t)
  with assms(9-11) show ?thesis
    by (simp add: line_messages_def settle_oversized_line_def Let_def handle_response_def oversized_response_def chan_send_def)
qed

text \<open>A witness: the request of the example run, answered with blanks.\<close>

lemma utf8_ascii: "is_ascii s \<Longrightarrow> utf8_valid s"
  by (induction s) (auto simp: is_ascii_def utf8_step_def utf8_width_def)

theorem oversized_response_answers_witness:
  "fst (line_messages (\<lambda>_. None) (\<lambda>_. []) (TooLong (response_head [] [] [] '' '' 1 @ '', ''))) = [MsgResponse (oversized_response 1)]"
proof -
  have d: "show_nat 1 = ''1''" by code_simp
  let ?h = "response_head [] [] [] '' '' 1"
  have h: "?h = ''{'' @ CHR 0x22 # ''id'' @ CHR 0x22 # '': 1''" unfolding response_head_def by (simp add: d [simplified])
  have l: "length ?h < 512" "length (?h @ '', '') \<le> 512" by (simp_all add: h)
  then have "take 512 (?h @ '', '') = ?h @ '', ''" by (intro take_all)
  moreover have "is_ascii (?h @ '', '')" by (simp add: h is_ascii_def)
  ultimately have u: "utf8_valid (take 512 (?h @ '', ''))" by (simp only: utf8_ascii)
  have m: "map_of (br_pending (bw_bridge strand4)) 1 = Some 0" "br_chan (bw_bridge strand4) 0 = ChOpen"
    by (simp_all add: strand4_state)
  have bl: "blank []" "blank '' ''" by (simp_all add: blank_def is_ascii_whitespace_def)
  have n: "'', '' \<noteq> []" "\<not> is_ascii_digit (hd '', '')" by (simp_all add: is_ascii_digit_def)
  show ?thesis
    using oversized_response_answers [OF bl(1,1,1,2) refl l(1) n u m, of "\<lambda>_. None" "\<lambda>_. []"] by (simp only: fst_conv)
qed

definition wide_char :: string where
  "wide_char = [CHR 0xE7, CHR 0xBD, CHR 0x91]"

definition short_head :: string where
  "short_head = ''{'' @ CHR 0x22 # ''id'' @ CHR 0x22 # '': 1, ''"

definition wide_line :: "nat \<Rightarrow> string" where
  "wide_line n = short_head @ concat (replicate n wide_char)"

lemma utf8_append_ascii: "is_ascii s \<Longrightarrow> utf8_valid (s @ t) = utf8_valid t"
  by (induction s) (auto simp: is_ascii_def utf8_step_def utf8_width_def)

lemma utf8_wide: "utf8_valid (wide_char @ t) = utf8_valid t"
  by (simp add: wide_char_def utf8_step_def utf8_width_def second_ok_def cont_byte_def)

lemma utf8_wides: "utf8_valid (concat (replicate n wide_char) @ t) = utf8_valid t"
  by (induction n) (simp_all add: utf8_wide)

lemma wide_length: "length (concat (replicate n wide_char)) = 3 * n"
  by (induction n) (simp_all add: wide_char_def)

lemma wide_cut:
  assumes "k < n"
  shows "take (3 * k + 1) (concat (replicate n wide_char)) = concat (replicate k wide_char) @ [CHR 0xE7]"
proof -
  obtain d where n: "n = k + Suc d" using assms less_imp_Suc_add by auto
  have "concat (replicate n wide_char) = concat (replicate k wide_char) @ [CHR 0xE7] @ [CHR 0xBD, CHR 0x91] @ concat (replicate d wide_char)"
    unfolding n replicate_add concat_append by (simp add: wide_char_def)
  then show ?thesis using wide_length [of k] by simp
qed

lemma wide_line_facts:
  assumes "167 < n" "IPC_MAX_LINE_LEN < 3 * n"
  shows "utf8_valid (wide_line n)" "extract_leading_id (wide_line n) = Some 1" "LF \<notin> set (wide_line n)"
    "IPC_MAX_LINE_LEN < length (wide_line n)" "\<not> utf8_valid (take 512 (take IPC_MAX_LINE_LEN (wide_line n)))"
proof -
  have h: "is_ascii short_head" "length short_head = 10" by (simp_all add: short_head_def is_ascii_def)
  show "utf8_valid (wide_line n)"
    unfolding wide_line_def utf8_append_ascii [OF h(1)] using utf8_wides [of n "[]"] by simp
  have d: "show_nat 1 = ''1''" by code_simp
  have r: "response_head [] [] [] '' '' 1 @ '', '' @ concat (replicate n wide_char) = wide_line n"
    by (simp add: wide_line_def short_head_def response_head_def d [simplified])
  have "extract_leading_id (response_head [] [] [] '' '' 1 @ '', '' @ concat (replicate n wide_char)) = Some 1"
    by (rule extract_head) (simp_all add: blank_def is_ascii_whitespace_def is_ascii_digit_def)
  then show "extract_leading_id (wide_line n) = Some 1" unfolding r .
  show "LF \<notin> set (wide_line n)" by (auto simp: wide_line_def short_head_def wide_char_def LF_def)
  show "IPC_MAX_LINE_LEN < length (wide_line n)" using assms(2) by (simp add: wide_line_def h(2) wide_length)
  have "take 512 (take IPC_MAX_LINE_LEN (wide_line n)) = short_head @ take (3 * 167 + 1) (concat (replicate n wide_char))"
    using h(2) by (simp add: wide_line_def IPC_MAX_LINE_LEN_def min_def)
  also have "\<dots> = short_head @ concat (replicate 167 wide_char) @ [CHR 0xE7]"
    by (simp only: wide_cut [OF assms(1)])
  finally have t: "take 512 (take IPC_MAX_LINE_LEN (wide_line n)) = short_head @ concat (replicate 167 wide_char) @ [CHR 0xE7]" .
  show "\<not> utf8_valid (take 512 (take IPC_MAX_LINE_LEN (wide_line n)))"
    unfolding t utf8_append_ascii [OF h(1)] utf8_wides by (simp add: utf8_step_def utf8_width_def)
qed

text \<open>The answer is lost when byte 512 falls into the middle of a character: a response of valid
  UTF-8 above one mebibyte that begins with the number of its request sends no message at all, so the
  request waits for its time limit. The worker writes its JSON without escaping such characters.\<close>

theorem cut_character_strands_response:
  "\<exists>l. utf8_valid l \<and> extract_leading_id l = Some 1 \<and> LF \<notin> set l \<and> length l > IPC_MAX_LINE_LEN \<and>
     stdout_messages from_str reason [Filled (l @ [LF])] = []"
proof -
  define n where "n = IPC_MAX_LINE_LEN"
  have n: "167 < n" "IPC_MAX_LINE_LEN < 3 * n" by (simp_all add: n_def IPC_MAX_LINE_LEN_def)
  note f = wide_line_facts [OF n]
  have "lines_of (wide_line n @ [LF]) = [TooLong (take IPC_MAX_LINE_LEN (wide_line n))]"
    using lines_of_line [OF f(3), of "[]"] f(4) lines_of_free [of "[]"] by (simp add: whole_line_def last_line_def)
  then have "stdout_lines (False, []) [Filled (wide_line n @ [LF])] = [TooLong (take IPC_MAX_LINE_LEN (wide_line n))]"
    using stdout_lines_part [of "[wide_line n @ [LF]]" "[]"] by (simp add: after_part_def IPC_MAX_LINE_LEN_def)
  then have "stdout_messages from_str reason [Filled (wide_line n @ [LF])] = []"
    using f(5) by (simp only: stdout_messages_def list.map o_apply line_messages_def raw_line.case settle_oversized_line_def
        Let_def not_False_eq_True if_True fst_conv concat.simps append_Nil)
  with f(1-4) show ?thesis by blast
qed

end
