(* ===== verification/Spec2Isabelle.thy ===== *)
theory Spec2Isabelle
  imports Monitor_Service Engine_Policy Engine_Timing Config_Tx Login_Session_Props Http_Login_Props
    Login_Prepare_Props Login_Orchestrator Login_Srun Web_Ssrf_Props Web_Gate_Props Password_Crypto
    Sched_Routes Bridge_Faults Bridge_Wire_Props
begin

text \<open>
  Campus-Auth keeps a computer logged in to a campus network. A monitor measures the connection, the
  engine decides when to log in, the login orchestrator runs at most one login session at a time, and
  a session logs in through a browser worker, a direct HTTP flow or a script. The configuration
  service owns the settings and the profiles; the status board is what the user interface sees. This
  development models the Rust sources under \<open>src/src\<close> and proves what makes the parts correct.

  \<^bold>\<open>Conventions.\<close> A Rust string is the list of its UTF-8 bytes. Machine integers are words of their
  width. An \<open>Instant\<close> and a \<open>Duration\<close> are natural numbers of nanoseconds, an \<open>f64\<close> of seconds that
  comes from a configuration is a number of nanoseconds or one of the special values. A fallible
  function returns a sum whose left side is the error; the Chinese texts of messages are short English
  texts. A handler reads the clock once. A lock that is held over an operation makes the operation one
  step. What the program calls and this repository does not contain (the HTTP client, the URL parser,
  regular expressions, JSON, text encodings, the script sandbox, ciphers, sockets, the file system, the
  cron calendar) is a parameter of the definitions that use it; the standard library is modelled.

  \<^bold>\<open>Theories.\<close>
  \<^item> \<open>Campus_Prelude\<close>, \<open>Rust_Str\<close>: integers, time, results, and the string functions of \<open>core::str\<close>.
  \<^item> \<open>Net_Model\<close>, \<open>Monitor_Decision\<close>, \<open>Monitor_Probes\<close>, \<open>Monitor_Service\<close> (\<open>monitor/\<close>): the data of a
    check, the judgement of its evidence, the probes, and one full check from configuration to report.
  \<^item> \<open>Status_Board\<close> (\<open>status/\<close>): snapshot, partial updates, notifier.
  \<^item> \<open>Config_Model\<close>, \<open>Profile_Names\<close>, \<open>Config_Service\<close>, \<open>Config_Props\<close>, \<open>Config_Tx\<close> (\<open>config/\<close>): settings,
    profiles and the runtime configuration built from them, slugs, the service with its caches and
    transactions, and what requests guarantee.
  \<^item> \<open>Engine_Model\<close>, \<open>Engine_Loop\<close>, \<open>Engine_Safety\<close>, \<open>Engine_Props\<close>, \<open>Engine_Policy\<close>, \<open>Engine_Timing\<close>
    (\<open>engine/\<close>): the run loop with its channels, background tasks and timer as a step relation, its
    invariant, the login policy, pauses and intervals.
  \<^item> \<open>Login_Types\<close>, \<open>Login_Session\<close>, \<open>Login_Session_Inv\<close>, \<open>Login_Session_Props\<close> (\<open>login/session.rs\<close>,
    \<open>login/preemption.rs\<close>): one session with its clock, tokens, attempts, verification and result.
  \<^item> \<open>Login_Prepare\<close>, \<open>Login_Prepare_Props\<close>, \<open>Login_Orchestrator\<close> (\<open>login/mod.rs\<close>, \<open>browser.rs\<close>): what a
    request needs before a session, and the interleaving of requests, sessions and cancellations.
  \<^item> \<open>Task_Http\<close>, \<open>Http_Text\<close>, \<open>Http_Text_Props\<close>, \<open>Http_Client\<close>, \<open>Http_Login\<close>, \<open>Http_Flow\<close>, \<open>Http_Props\<close>,
    \<open>Http_Net_Props\<close>, \<open>Http_Login_Props\<close> (\<open>tasks/models.rs\<close>, \<open>login/http_login.rs\<close>): direct tasks and
    their checks, templates and redaction, requests with redirects, the fixed chain and the flow.
  \<^item> \<open>Login_Srun\<close> (\<open>login/srun.rs\<close>): the cipher of one vendor's portal and that it can be undone.
  \<^item> \<open>Web_Ssrf\<close>, \<open>Web_Ssrf_Props\<close>, \<open>Web_Gate\<close>, \<open>Web_Gate_Props\<close> (\<open>web/ssrf.rs\<close>, \<open>web/host.rs\<close>,
    \<open>web/auth.rs\<close>, \<open>web/mod.rs\<close>): reserved addresses and guarded downloads, the host check, the token and
    the table of routes.
  \<^item> \<open>Cron_Weekday\<close>, \<open>Sched_Task\<close>, \<open>Sched_Service\<close>, \<open>Sched_Loop\<close>, \<open>Sched_Inv\<close>, \<open>Sched_Props\<close>, \<open>Sched_Routes\<close>
    (\<open>scheduler/\<close>, \<open>web/routes/scheduler.rs\<close>): cron fields, scheduled tasks and their histories, the loop and
    the runs as a step relation, its invariant, and what firing, loading, saving and deleting do.
  \<^item> \<open>Bridge_Registry\<close>, \<open>Bridge_Model\<close>, \<open>Bridge_Requests\<close>, \<open>Bridge_Spawn\<close> (\<open>bridge/session.rs\<close>,
    \<open>bridge/worker.rs\<close>, \<open>bridge/mod.rs\<close>): the supervisor of the browser worker, its session slot, its requests
    and the start of the process. \<open>Bridge_Inv\<close>, \<open>Bridge_Safe\<close>, \<open>Bridge_Run\<close>, \<open>Bridge_Props\<close>,
    \<open>Bridge_Spawn_Props\<close>, \<open>Bridge_Faults\<close>: all sections of its code as a step relation, the invariant, and
    what it promises and fails to. \<open>Bridge_Wire\<close>, \<open>Bridge_Wire_Props\<close> (\<open>bridge/process.rs\<close>): from the bytes of
    the worker to messages. At most \<open>2 ^ 64 - 1\<close> requests are numbered in one run.
  \<^item> \<open>Password_Crypto\<close> (\<open>config/crypto.rs\<close>): the key of the stored passwords and their encryption.

  \<^bold>\<open>Termination and bounds.\<close> Loops over lists are structural. The loop of a session is bounded by its
  attempts, which is proved (\<open>login_session_completes\<close>), redirects by their maximal number. The run
  loop of the engine and the orchestrator and the supervisor never end on purpose; they are step relations, and the
  theorems about them hold in every reachable state.

  \<^bold>\<open>Not modelled.\<close> Calls of the operating system (adapters, processes, tray, files below the level of
  reading and replacing one), the web routes that only translate JSON, the installer of Python and
  browsers, the assistant, and the programs in other languages (frontend, Python worker, packaging).
\<close>

end
